(* ===== verification/Gralloc_Prelude.thy ===== *)
theory Gralloc_Prelude
  imports Main "HOL-Library.Word"
begin

text \<open>
  The base of the library: names for the machine integers of the C++ code, the result type
  of operations that can abort, the rounding macro \<open>GRALLOC_ALIGN\<close> of
  src/src/helper_functions.h with its mathematical counterpart, and the generic lemmas and
  fact collections that the component theories share.
\<close>

unbundle bit_operations_syntax

section \<open>Machine integers\<close>

text \<open>
  A C++ integer of w bits is a \<open>w word\<close>. Unsigned and signed integers of one width share the
  word type, as conversions between them are the identity on bits; signed values are read
  with \<open>sint\<close>, and signed division and comparison are written out where the code uses them.
  \<open>size_t\<close> is 64 bits wide (LP64 targets).
\<close>

type_synonym u8 = "8 word"
type_synonym u16 = "16 word"
type_synonym u32 = "32 word"
type_synonym i32 = "32 word"
type_synonym u64 = "64 word"

text \<open>C++ division on \<open>int\<close> truncates towards zero.\<close>

definition sdiv_int :: "int \<Rightarrow> int \<Rightarrow> int" where
  "sdiv_int a b = sgn a * sgn b * (\<bar>a\<bar> div \<bar>b\<bar>)"

definition sdiv32 :: "i32 \<Rightarrow> i32 \<Rightarrow> i32" where
  "sdiv32 a b = word_of_int (sdiv_int (sint a) (sint b))"

definition sless32 :: "i32 \<Rightarrow> i32 \<Rightarrow> bool" where
  "sless32 a b \<longleftrightarrow> sint a < sint b"

section \<open>Operations that can abort\<close>

text \<open>
  Outcomes that end the process: a failed \<open>assert\<close> (builds without \<open>NDEBUG\<close>), an integer
  division by zero, a failed \<open>CHECK\<close>, \<open>LOG_ALWAYS_FATAL\<close>, an access through \<open>nullptr\<close> or outside
  of an object, and an exception that nothing catches.
\<close>

datatype fault = Assertion_failed | Division_by_zero | Check_failed | Always_fatal | Null_dereference
  | Out_of_bounds | Uncaught_exception

type_synonym 'a res = "fault + 'a"

definition bind_res :: "'a res \<Rightarrow> ('a \<Rightarrow> 'b res) \<Rightarrow> 'b res" where
  "bind_res m f = (case m of Inl e \<Rightarrow> Inl e | Inr x \<Rightarrow> f x)"

lemma bind_res_simps [simp]:
  "bind_res (Inl e) f = Inl e"
  "bind_res (Inr x) f = f x"
  by (simp_all add: bind_res_def)

lemma bind_res_eq_Inr [simp]:
  "bind_res m f = Inr y \<longleftrightarrow> (\<exists>x. m = Inr x \<and> f x = Inr y)"
  by (cases m) auto

lemma bind_res_eq_Inl:
  "bind_res m f = Inl e \<longleftrightarrow> m = Inl e \<or> (\<exists>x. m = Inr x \<and> f x = Inl e)"
  by (cases m) auto

lemma bind_res_cong [fundef_cong]:
  "m = m' \<Longrightarrow> (\<And>x. m' = Inr x \<Longrightarrow> f x = f' x) \<Longrightarrow> bind_res m f = bind_res m' f'"
  by (cases m') auto

text \<open>\<open>c_assert nd b\<close> is \<open>assert(b)\<close>; \<open>nd\<close> says whether the build defines \<open>NDEBUG\<close>.\<close>

definition c_assert :: "bool \<Rightarrow> bool \<Rightarrow> unit res" where
  "c_assert nd b = (if nd \<or> b then Inr () else Inl Assertion_failed)"

lemma c_assert_ok [simp]: "c_assert nd b = Inr u \<longleftrightarrow> nd \<or> b"
  by (simp add: c_assert_def)

lemma c_assert_True [simp]: "c_assert nd True = Inr ()" "c_assert True b = Inr ()"
  by (simp_all add: c_assert_def)

text \<open>Unsigned division by a value that is not a literal.\<close>

definition c_div :: "'a::len word \<Rightarrow> 'a word \<Rightarrow> 'a word res" where
  "c_div a b = (if b = 0 then Inl Division_by_zero else Inr (a div b))"

lemma c_div_ok [simp]: "c_div a b = Inr q \<longleftrightarrow> b \<noteq> 0 \<and> q = a div b"
  by (auto simp: c_div_def)

lemma c_div_nonzero [simp]: "b \<noteq> 0 \<Longrightarrow> c_div a b = Inr (a div b)"
  by (simp add: c_div_def)

section \<open>Rounding up to a multiple\<close>

text \<open>The macro \<open>GRALLOC_ALIGN(value, base)\<close> at an unsigned type.\<close>

definition GRALLOC_ALIGN :: "'a::len word \<Rightarrow> 'a word \<Rightarrow> 'a word" where
  "GRALLOC_ALIGN value base = ((value + base - 1) div base) * base"

text \<open>The same macro where both operands have type \<open>int\<close>.\<close>

definition GRALLOC_ALIGN_int :: "i32 \<Rightarrow> i32 \<Rightarrow> i32" where
  "GRALLOC_ALIGN_int value base = sdiv32 (value + base - 1) base * base"

text \<open>What both compute when nothing overflows.\<close>

definition align_up :: "nat \<Rightarrow> nat \<Rightarrow> nat" where
  "align_up v b = ((v + b - 1) div b) * b"

named_theorems align_facts \<open>facts about rounding up\<close>

lemma align_up_dvd [simp, align_facts]: "b dvd align_up v b"
  by (simp add: align_up_def)

lemma align_up_ge [align_facts]:
  assumes "0 < b"
  shows "v \<le> align_up v b"
proof -
  have "(v + b - 1) mod b < b"
    using assms by simp
  moreover have "(v + b - 1) div b * b + (v + b - 1) mod b = v + b - 1"
    by simp
  ultimately show ?thesis
    unfolding align_up_def using assms by linarith
qed

lemma align_up_less [align_facts]: "0 < b \<Longrightarrow> align_up v b < v + b"
proof -
  assume "0 < b"
  moreover have "(v + b - 1) div b * b \<le> v + b - 1"
    by (rule div_times_less_eq_dividend)
  ultimately show ?thesis
    unfolding align_up_def by linarith
qed

lemma align_up_least:
  assumes "b dvd m" and "v \<le> m" and "0 < b"
  shows "align_up v b \<le> m"
proof -
  obtain k where m: "m = b * k"
    using assms(1) by (auto elim: dvdE)
  have "(v + b - 1) div b \<le> (b * k + (b - 1)) div b"
    using assms m by (intro div_le_mono) linarith
  also have "\<dots> = k"
    using div_mult_self2 [of b "b - 1" k] assms(3) by (simp add: add.commute mult.commute)
  finally show ?thesis
    unfolding align_up_def m by (simp add: mult.commute)
qed

lemma align_up_eq_self [simp]: "b dvd v \<Longrightarrow> 0 < b \<Longrightarrow> align_up v b = v"
  by (simp add: align_up_ge align_up_least order_antisym)

lemma align_up_idem [simp]: "0 < b \<Longrightarrow> align_up (align_up v b) b = align_up v b"
  by simp

lemma align_up_mono: "v \<le> w \<Longrightarrow> 0 < b \<Longrightarrow> align_up v b \<le> align_up w b"
  by (meson align_up_dvd align_up_ge align_up_least order_trans)

lemma align_up_zero [simp]: "align_up 0 b = 0"
  by (cases "b = 0") (simp_all add: align_up_def)

lemma align_up_one [simp]: "align_up v 1 = v"
  by (simp add: align_up_def)

text \<open>The word computation agrees with the mathematical one when the sum fits.\<close>

lemma unat_GRALLOC_ALIGN:
  fixes v b :: "'a::len word"
  assumes "b \<noteq> 0" and fits: "unat v + unat b \<le> 2 ^ LENGTH('a)"
  shows "unat (GRALLOC_ALIGN v b) = align_up (unat v) (unat b)"
proof -
  have b: "0 < unat b"
    using assms(1) by (simp add: unat_gt_0)
  have b1: "unat (b - 1) = unat b - 1"
    using assms(1) by (simp add: unat_minus_one)
  have "unat (v + (b - 1)) = unat v + unat (b - 1)"
    using fits b b1 by (subst unat_add_lem [symmetric]) linarith
  then have "unat (v + (b - 1)) = unat v + unat b - 1"
    using b b1 by linarith
  moreover have "v + b - 1 = v + (b - 1)"
    by (rule add_diff_eq [symmetric])
  ultimately have s: "unat (v + b - 1) = unat v + unat b - 1"
    by (simp only:)
  have "(unat v + unat b - 1) div unat b * unat b \<le> unat v + unat b - 1"
    by (rule div_times_less_eq_dividend)
  then have "(unat v + unat b - 1) div unat b * unat b < 2 ^ LENGTH('a)"
    using fits b by linarith
  then have "unat ((v + b - 1) div b * b) = (unat v + unat b - 1) div unat b * unat b"
    by (simp add: unat_word_ariths(2) unat_div s)
  then show ?thesis
    by (simp add: GRALLOC_ALIGN_def align_up_def)
qed

section \<open>Flag tests\<close>

text \<open>C++ uses \<open>x & mask\<close> as a truth value.\<close>

definition test_flag :: "'a::len word \<Rightarrow> 'a word \<Rightarrow> bool" where
  "test_flag x m \<longleftrightarrow> x AND m \<noteq> 0"

named_theorems flag_defs \<open>definitions of flag and format constants\<close>

text \<open>Extensionality of words, bounded by the length so that only words are rewritten.\<close>

lemma word_eq_bits: "a = b \<longleftrightarrow> (\<forall>n < LENGTH('a). bit a n = bit b n)"
  for a b :: "'a::len word"
  by (auto intro: bit_word_eqI)

lemma or_and_not_same [simp]:
  "(x OR a) AND NOT a = x AND NOT a"
  "(x AND NOT a) OR a = x OR a"
  for x a :: "'a::len word"
  by (auto simp: word_eq_bits bit_simps)

lemma test_flag_zero [simp]: "\<not> test_flag 0 m" "\<not> test_flag x 0"
  by (simp_all add: test_flag_def)

lemma test_flag_or: "test_flag (x OR y) m \<longleftrightarrow> test_flag x m \<or> test_flag y m"
  by (auto simp: test_flag_def bit_eq_iff bit_simps)

lemma or_eq_0_iff: "x OR y = 0 \<longleftrightarrow> x = 0 \<and> y = (0 :: 'a::len word)"
  by (auto simp: bit_eq_iff bit_simps)

lemma test_flag_or_mask: "test_flag x (m OR n) \<longleftrightarrow> test_flag x m \<or> test_flag x n"
  by (simp add: test_flag_def bit.conj_disj_distrib or_eq_0_iff)

lemma and_or_not_frame:
  "a AND b = 0 \<Longrightarrow> (x OR a) AND b = x AND b"
  "a AND b = 0 \<Longrightarrow> (x AND NOT a) AND b = x AND (b :: 'a::len word)"
proof -
  assume ab: "a AND b = 0"
  then show "(x OR a) AND b = x AND b"
    by (simp add: bit.conj_disj_distrib2)
  have "\<not> (bit a n \<and> bit b n)" for n
    using ab by (metis bit_and_iff bit_0_eq bot_apply bot_bool_def)
  then show "(x AND NOT a) AND b = x AND b"
    by (auto simp: bit_eq_iff bit_simps)
qed

end
