(* ===== verification/Pixel_Formats.thy ===== *)
theory Pixel_Formats
  imports Gralloc_Prelude
begin

text \<open>
  Pixel format identifiers, src/src/include/gralloc/formats.h: the internal format
  enumeration, the masks and modifier bits of an extended format, and the packing of a base
  format with its modifiers into one 32-bit private format.

  The \<open>HAL_PIXEL_FORMAT_*\<close> constants come from Android and Rockchip headers that are not
  part of the repository. They are a parameter: an environment \<open>H\<close> gives each name its value.
\<close>

section \<open>Constants of the platform headers\<close>

datatype hal_name =
    HAL_RGBA_8888 | HAL_RGBX_8888 | HAL_RGB_888 | HAL_BGR_888 | HAL_RGB_565 | HAL_BGRA_8888
  | HAL_RGBA_1010102 | HAL_RGBA_FP16 | HAL_YCbCr_422_SP
  | HAL_RAW16 | HAL_RAW12 | HAL_RAW10 | HAL_RAW_OPAQUE | HAL_BLOB
  | HAL_DEPTH_16 | HAL_DEPTH_24 | HAL_DEPTH_24_STENCIL_8 | HAL_DEPTH_32F
  | HAL_DEPTH_32F_STENCIL_8 | HAL_STENCIL_8
  | HAL_YCrCb_420_SP | HAL_YCbCr_422_I | HAL_IMPLEMENTATION_DEFINED | HAL_YCbCr_420_888
  | HAL_YCbCr_422_888 | HAL_YCbCr_444_888 | HAL_FLEX_RGB_888 | HAL_FLEX_RGBA_8888
  | HAL_YCBCR_P010 | HAL_Y8 | HAL_Y16 | HAL_YV12
  | HAL_YCrCb_NV12 | HAL_YCrCb_NV12_10 | HAL_YCBCR_444_888 | HAL_NV30
  | HAL_YUV420_8BIT_I | HAL_YUV420_10BIT_I | HAL_Y210 | HAL_YCRCB_420_SP

type_synonym hal_env = "hal_name \<Rightarrow> u32"

text \<open>\<open>PIXEL_FORMAT_R8\<close> is defined by the repository itself.\<close>

definition PIXEL_FORMAT_R8 :: u32 where
  "PIXEL_FORMAT_R8 = 56"

section \<open>Internal base formats\<close>

datatype mali_gralloc_pixel_format =
    FMT_UNDEFINED
  | FMT_RGBA_8888 | FMT_RGBX_8888 | FMT_RGB_888 | FMT_BGR_888 | FMT_RGB_565 | FMT_BGRA_8888
  | FMT_RGBA_1010102 | FMT_RGBA_16161616 | FMT_NV16
  | FMT_RAW16 | FMT_RAW12 | FMT_RAW10 | FMT_RAW_OPAQUE | FMT_BLOB
  | FMT_DEPTH_16 | FMT_DEPTH_24 | FMT_DEPTH_24_STENCIL_8 | FMT_DEPTH_32F
  | FMT_DEPTH_32F_STENCIL_8 | FMT_STENCIL_8
  | FMT_NV12 | FMT_NV21 | FMT_YUV422_8BIT
  | FMT_Y0L2 | FMT_P010 | FMT_P210 | FMT_Y210 | FMT_Y410 | FMT_YU12 | FMT_YUV444
  | FMT_Q410 | FMT_Q401
  | FMT_YUV420_8BIT_I | FMT_YUV420_10BIT_I
  | FMT_YV12 | FMT_Y8 | FMT_Y16
  | FMT_RGBA_10101010 | FMT_NV15 | FMT_NV24 | FMT_NV30
  | FMT_R8

text \<open>The enumerators that repeat a platform constant, and the private range from \<open>0x100\<close>.\<close>

definition MALI_GRALLOC_FORMAT_INTERNAL_RANGE_BASE :: u32 where
  "MALI_GRALLOC_FORMAT_INTERNAL_RANGE_BASE = 0x100"

primrec hal_backed :: "mali_gralloc_pixel_format \<Rightarrow> hal_name option" where
  "hal_backed FMT_UNDEFINED = None"
| "hal_backed FMT_RGBA_8888 = Some HAL_RGBA_8888"
| "hal_backed FMT_RGBX_8888 = Some HAL_RGBX_8888"
| "hal_backed FMT_RGB_888 = Some HAL_RGB_888"
| "hal_backed FMT_BGR_888 = Some HAL_BGR_888"
| "hal_backed FMT_RGB_565 = Some HAL_RGB_565"
| "hal_backed FMT_BGRA_8888 = Some HAL_BGRA_8888"
| "hal_backed FMT_RGBA_1010102 = Some HAL_RGBA_1010102"
| "hal_backed FMT_RGBA_16161616 = Some HAL_RGBA_FP16"
| "hal_backed FMT_NV16 = Some HAL_YCbCr_422_SP"
| "hal_backed FMT_RAW16 = Some HAL_RAW16"
| "hal_backed FMT_RAW12 = Some HAL_RAW12"
| "hal_backed FMT_RAW10 = Some HAL_RAW10"
| "hal_backed FMT_RAW_OPAQUE = Some HAL_RAW_OPAQUE"
| "hal_backed FMT_BLOB = Some HAL_BLOB"
| "hal_backed FMT_DEPTH_16 = Some HAL_DEPTH_16"
| "hal_backed FMT_DEPTH_24 = Some HAL_DEPTH_24"
| "hal_backed FMT_DEPTH_24_STENCIL_8 = Some HAL_DEPTH_24_STENCIL_8"
| "hal_backed FMT_DEPTH_32F = Some HAL_DEPTH_32F"
| "hal_backed FMT_DEPTH_32F_STENCIL_8 = Some HAL_DEPTH_32F_STENCIL_8"
| "hal_backed FMT_STENCIL_8 = Some HAL_STENCIL_8"
| "hal_backed FMT_NV12 = None"
| "hal_backed FMT_NV21 = None"
| "hal_backed FMT_YUV422_8BIT = None"
| "hal_backed FMT_Y0L2 = None"
| "hal_backed FMT_P010 = None"
| "hal_backed FMT_P210 = None"
| "hal_backed FMT_Y210 = None"
| "hal_backed FMT_Y410 = None"
| "hal_backed FMT_YU12 = None"
| "hal_backed FMT_YUV444 = None"
| "hal_backed FMT_Q410 = None"
| "hal_backed FMT_Q401 = None"
| "hal_backed FMT_YUV420_8BIT_I = None"
| "hal_backed FMT_YUV420_10BIT_I = None"
| "hal_backed FMT_YV12 = None"
| "hal_backed FMT_Y8 = None"
| "hal_backed FMT_Y16 = None"
| "hal_backed FMT_RGBA_10101010 = None"
| "hal_backed FMT_NV15 = None"
| "hal_backed FMT_NV24 = None"
| "hal_backed FMT_NV30 = None"
| "hal_backed FMT_R8 = None"

text \<open>Values the repository fixes itself (0 for the enumerators backed by the platform).\<close>

primrec private_value :: "mali_gralloc_pixel_format \<Rightarrow> u32" where
  "private_value FMT_UNDEFINED = 0"
| "private_value FMT_RGBA_8888 = 0"
| "private_value FMT_RGBX_8888 = 0"
| "private_value FMT_RGB_888 = 0"
| "private_value FMT_BGR_888 = 0"
| "private_value FMT_RGB_565 = 0"
| "private_value FMT_BGRA_8888 = 0"
| "private_value FMT_RGBA_1010102 = 0"
| "private_value FMT_RGBA_16161616 = 0"
| "private_value FMT_NV16 = 0"
| "private_value FMT_RAW16 = 0"
| "private_value FMT_RAW12 = 0"
| "private_value FMT_RAW10 = 0"
| "private_value FMT_RAW_OPAQUE = 0"
| "private_value FMT_BLOB = 0"
| "private_value FMT_DEPTH_16 = 0"
| "private_value FMT_DEPTH_24 = 0"
| "private_value FMT_DEPTH_24_STENCIL_8 = 0"
| "private_value FMT_DEPTH_32F = 0"
| "private_value FMT_DEPTH_32F_STENCIL_8 = 0"
| "private_value FMT_STENCIL_8 = 0"
| "private_value FMT_NV12 = 0x100"
| "private_value FMT_NV21 = 0x101"
| "private_value FMT_YUV422_8BIT = 0x102"
| "private_value FMT_Y0L2 = 0x103"
| "private_value FMT_P010 = 0x104"
| "private_value FMT_P210 = 0x105"
| "private_value FMT_Y210 = 0x106"
| "private_value FMT_Y410 = 0x107"
| "private_value FMT_YU12 = 0x108"
| "private_value FMT_YUV444 = 0x109"
| "private_value FMT_Q410 = 0x10A"
| "private_value FMT_Q401 = 0x10B"
| "private_value FMT_YUV420_8BIT_I = 0x10C"
| "private_value FMT_YUV420_10BIT_I = 0x10D"
| "private_value FMT_YV12 = 0x10E"
| "private_value FMT_Y8 = 0x10F"
| "private_value FMT_Y16 = 0x110"
| "private_value FMT_RGBA_10101010 = 0x111"
| "private_value FMT_NV15 = 0x112"
| "private_value FMT_NV24 = 0x113"
| "private_value FMT_NV30 = 0x114"
| "private_value FMT_R8 = 56"

definition fmt_value :: "hal_env \<Rightarrow> mali_gralloc_pixel_format \<Rightarrow> u32" where
  "fmt_value H f = (case hal_backed f of Some n \<Rightarrow> H n | None \<Rightarrow> private_value f)"

text \<open>
  What the comments of formats.h rely on: the platform constants that become internal formats
  are distinct, non-zero, below the private range, and none of them is \<open>PIXEL_FORMAT_R8\<close>.
\<close>

definition reused_hal_names :: "hal_name list" where
  "reused_hal_names =
     [HAL_RGBA_8888, HAL_RGBX_8888, HAL_RGB_888, HAL_BGR_888, HAL_RGB_565, HAL_BGRA_8888,
      HAL_RGBA_1010102, HAL_RGBA_FP16, HAL_YCbCr_422_SP, HAL_RAW16, HAL_RAW12, HAL_RAW10,
      HAL_RAW_OPAQUE, HAL_BLOB, HAL_DEPTH_16, HAL_DEPTH_24, HAL_DEPTH_24_STENCIL_8,
      HAL_DEPTH_32F, HAL_DEPTH_32F_STENCIL_8, HAL_STENCIL_8]"

definition hal_documented :: "hal_env \<Rightarrow> bool" where
  "hal_documented H \<longleftrightarrow>
     distinct (map H reused_hal_names) \<and>
     list_all (\<lambda>n. H n \<noteq> 0 \<and> H n < 0x100 \<and> H n \<noteq> PIXEL_FORMAT_R8) reused_hal_names"

text \<open>
  An environment with the values of the AOSP enumeration (and sample values for the vendor
  formats), to show that the hypothesis can hold and to evaluate examples.
\<close>

primrec hal_sample :: hal_env where
  "hal_sample HAL_RGBA_8888 = 1"
| "hal_sample HAL_RGBX_8888 = 2"
| "hal_sample HAL_RGB_888 = 3"
| "hal_sample HAL_BGR_888 = 29"
| "hal_sample HAL_RGB_565 = 4"
| "hal_sample HAL_BGRA_8888 = 5"
| "hal_sample HAL_RGBA_1010102 = 0x2B"
| "hal_sample HAL_RGBA_FP16 = 0x16"
| "hal_sample HAL_YCbCr_422_SP = 0x10"
| "hal_sample HAL_RAW16 = 0x20"
| "hal_sample HAL_RAW12 = 0x26"
| "hal_sample HAL_RAW10 = 0x25"
| "hal_sample HAL_RAW_OPAQUE = 0x24"
| "hal_sample HAL_BLOB = 0x21"
| "hal_sample HAL_DEPTH_16 = 0x30"
| "hal_sample HAL_DEPTH_24 = 0x31"
| "hal_sample HAL_DEPTH_24_STENCIL_8 = 0x32"
| "hal_sample HAL_DEPTH_32F = 0x33"
| "hal_sample HAL_DEPTH_32F_STENCIL_8 = 0x34"
| "hal_sample HAL_STENCIL_8 = 0x35"
| "hal_sample HAL_YCrCb_420_SP = 0x11"
| "hal_sample HAL_YCbCr_422_I = 0x14"
| "hal_sample HAL_IMPLEMENTATION_DEFINED = 0x22"
| "hal_sample HAL_YCbCr_420_888 = 0x23"
| "hal_sample HAL_YCbCr_422_888 = 0x27"
| "hal_sample HAL_YCbCr_444_888 = 0x28"
| "hal_sample HAL_FLEX_RGB_888 = 0x29"
| "hal_sample HAL_FLEX_RGBA_8888 = 0x2A"
| "hal_sample HAL_YCBCR_P010 = 0x36"
| "hal_sample HAL_Y8 = 0x20203859"
| "hal_sample HAL_Y16 = 0x20363159"
| "hal_sample HAL_YV12 = 0x32315659"
| "hal_sample HAL_YCrCb_NV12 = 0x15"
| "hal_sample HAL_YCrCb_NV12_10 = 0x17"
| "hal_sample HAL_YCBCR_444_888 = 0x28"
| "hal_sample HAL_NV30 = 30"
| "hal_sample HAL_YUV420_8BIT_I = 0x1A"
| "hal_sample HAL_YUV420_10BIT_I = 0x1B"
| "hal_sample HAL_Y210 = 0x1C"
| "hal_sample HAL_YCRCB_420_SP = 0x11"

lemma hal_documented_sample: "hal_documented hal_sample"
  by (simp add: hal_documented_def reused_hal_names_def PIXEL_FORMAT_R8_def)

lemma hal_backed_reused: "hal_backed f = Some n \<Longrightarrow> n \<in> set reused_hal_names"
  by (cases f) (auto simp: reused_hal_names_def)

lemma hal_backed_inj: "hal_backed f = Some n \<Longrightarrow> hal_backed g = Some n \<Longrightarrow> f = g"
  by (cases f) (auto; cases g; simp)+

lemma private_value_inj:
  "hal_backed f = None \<Longrightarrow> hal_backed g = None \<Longrightarrow> private_value f = private_value g \<Longrightarrow> f = g"
  by (cases f) (simp_all, (cases g; simp)+)

lemma private_value_range:
  "hal_backed f = None \<Longrightarrow> private_value f = 0 \<or> private_value f = 56 \<or> 0x100 \<le> private_value f"
  by (cases f) simp_all

lemma hal_documented_bounds:
  assumes "hal_documented H" and "n \<in> set reused_hal_names"
  shows "H n \<noteq> 0" and "H n < 0x100" and "H n \<noteq> 56"
  using assms by (auto simp: hal_documented_def list_all_iff PIXEL_FORMAT_R8_def)

lemma hal_documented_inj:
  assumes "hal_documented H" "m \<in> set reused_hal_names" "n \<in> set reused_hal_names" "H m = H n"
  shows "m = n"
  using assms unfolding hal_documented_def distinct_map by (auto dest: inj_onD)

text \<open>So the enumeration has no two members with one value.\<close>

lemma fmt_value_inj:
  assumes H: "hal_documented H"
  shows "fmt_value H f = fmt_value H g \<longleftrightarrow> f = g"
proof
  assume eq: "fmt_value H f = fmt_value H g"
  show "f = g"
  proof (cases "hal_backed f")
    case None
    show ?thesis
    proof (cases "hal_backed g")
      case None
      with \<open>hal_backed f = None\<close> eq show ?thesis
        by (simp add: fmt_value_def private_value_inj)
    next
      case (Some n)
      then have n: "n \<in> set reused_hal_names"
        by (rule hal_backed_reused)
      from eq None Some have "private_value f = H n"
        by (simp add: fmt_value_def)
      with private_value_range [OF None] hal_documented_bounds [OF H n] show ?thesis
        by auto
    qed
  next
    case (Some m)
    then have m: "m \<in> set reused_hal_names"
      by (rule hal_backed_reused)
    show ?thesis
    proof (cases "hal_backed g")
      case None
      with eq Some m private_value_range [OF None] hal_documented_bounds [OF H m] show ?thesis
        by (auto simp: fmt_value_def)
    next
      case (Some n)
      then have "n \<in> set reused_hal_names"
        by (rule hal_backed_reused)
      with H m eq Some \<open>hal_backed f = Some m\<close> have "m = n"
        by (auto simp: fmt_value_def intro: hal_documented_inj)
      with Some \<open>hal_backed f = Some m\<close> show ?thesis
        by (auto intro: hal_backed_inj)
    qed
  qed
qed simp

lemma fmt_value_less:
  assumes "hal_documented H"
  shows "fmt_value H f < 0x200"
proof (cases "hal_backed f")
  case None
  then show ?thesis
    by (cases f) (simp_all add: fmt_value_def)
next
  case (Some n)
  with assms have "H n < 0x100"
    by (auto intro: hal_documented_bounds hal_backed_reused)
  also have "(0x100 :: u32) < 0x200" by simp
  finally show ?thesis
    using Some by (simp add: fmt_value_def)
qed

lemma fmt_value_UNDEFINED [simp]: "fmt_value H FMT_UNDEFINED = 0"
  by (simp add: fmt_value_def)

section \<open>Modifier bits of an extended format\<close>

definition MALI_GRALLOC_INTFMT_FMT_MASK :: u32 where
  "MALI_GRALLOC_INTFMT_FMT_MASK = 0x000001FF"

definition MALI_GRALLOC_INTFMT_EXT_MASK :: u32 where
  "MALI_GRALLOC_INTFMT_EXT_MASK = 0xFFFF0000"

definition MALI_GRALLOC_INTFMT_EXTENSION_BIT :: "int \<Rightarrow> u32" where
  "MALI_GRALLOC_INTFMT_EXTENSION_BIT num_bit = push_bit (nat (16 + num_bit)) 1"

definition MALI_GRALLOC_INTFMT_SENTINEL :: u32 where
  "MALI_GRALLOC_INTFMT_SENTINEL = MALI_GRALLOC_INTFMT_EXTENSION_BIT (-1)"

definition MALI_GRALLOC_INTFMT_AFBC_BASIC :: u32 where
  "MALI_GRALLOC_INTFMT_AFBC_BASIC = MALI_GRALLOC_INTFMT_EXTENSION_BIT 0"

definition MALI_GRALLOC_INTFMT_AFRC_BASIC :: u32 where
  "MALI_GRALLOC_INTFMT_AFRC_BASIC = MALI_GRALLOC_INTFMT_EXTENSION_BIT 1"

definition MALI_GRALLOC_INTFMT_BLOCK_LINEAR_BASIC :: u32 where
  "MALI_GRALLOC_INTFMT_BLOCK_LINEAR_BASIC = MALI_GRALLOC_INTFMT_EXTENSION_BIT 2"

definition MALI_GRALLOC_INTFMT_AFBC_SPLITBLK :: u32 where
  "MALI_GRALLOC_INTFMT_AFBC_SPLITBLK = MALI_GRALLOC_INTFMT_EXTENSION_BIT 3"

definition MALI_GRALLOC_INTFMT_AFBC_WIDEBLK :: u32 where
  "MALI_GRALLOC_INTFMT_AFBC_WIDEBLK = MALI_GRALLOC_INTFMT_EXTENSION_BIT 4"

definition MALI_GRALLOC_INTFMT_AFBC_TILED_HEADERS :: u32 where
  "MALI_GRALLOC_INTFMT_AFBC_TILED_HEADERS = MALI_GRALLOC_INTFMT_EXTENSION_BIT 5"

definition MALI_GRALLOC_INTFMT_AFBC_EXTRAWIDEBLK :: u32 where
  "MALI_GRALLOC_INTFMT_AFBC_EXTRAWIDEBLK = MALI_GRALLOC_INTFMT_EXTENSION_BIT 6"

definition MALI_GRALLOC_INTFMT_AFBC_DOUBLE_BODY :: u32 where
  "MALI_GRALLOC_INTFMT_AFBC_DOUBLE_BODY = MALI_GRALLOC_INTFMT_EXTENSION_BIT 7"

definition MALI_GRALLOC_INTFMT_AFBC_BCH :: u32 where
  "MALI_GRALLOC_INTFMT_AFBC_BCH = MALI_GRALLOC_INTFMT_EXTENSION_BIT 8"

definition MALI_GRALLOC_INTFMT_AFBC_YUV_TRANSFORM :: u32 where
  "MALI_GRALLOC_INTFMT_AFBC_YUV_TRANSFORM = MALI_GRALLOC_INTFMT_EXTENSION_BIT 9"

definition MALI_GRALLOC_INTFMT_AFBC_SPARSE :: u32 where
  "MALI_GRALLOC_INTFMT_AFBC_SPARSE = MALI_GRALLOC_INTFMT_EXTENSION_BIT 10"

definition MALI_GRALLOC_INTFMT_AFBC_USM :: u32 where
  "MALI_GRALLOC_INTFMT_AFBC_USM = MALI_GRALLOC_INTFMT_EXTENSION_BIT 11"

definition MALI_GRALLOC_INTFMT_AFRC_ROT_LAYOUT :: u32 where
  "MALI_GRALLOC_INTFMT_AFRC_ROT_LAYOUT = MALI_GRALLOC_INTFMT_EXTENSION_BIT 3"

definition MALI_GRALLOC_INTFMT_AFRC_CODING_UNIT_BYTES_16 :: u32 where
  "MALI_GRALLOC_INTFMT_AFRC_CODING_UNIT_BYTES_16 = 0"

definition MALI_GRALLOC_INTFMT_AFRC_CODING_UNIT_BYTES_24 :: u32 where
  "MALI_GRALLOC_INTFMT_AFRC_CODING_UNIT_BYTES_24 = 1"

definition MALI_GRALLOC_INTFMT_AFRC_CODING_UNIT_BYTES_32 :: u32 where
  "MALI_GRALLOC_INTFMT_AFRC_CODING_UNIT_BYTES_32 = 2"

definition MALI_GRALLOC_INTFMT_AFRC_CODING_UNIT_BYTES_MASK :: u32 where
  "MALI_GRALLOC_INTFMT_AFRC_CODING_UNIT_BYTES_MASK = 3"

definition MALI_GRALLOC_INTFMT_AFRC_CODING_UNIT_BYTES_UNWRAP :: "u32 \<Rightarrow> u32" where
  "MALI_GRALLOC_INTFMT_AFRC_CODING_UNIT_BYTES_UNWRAP sz = 16 + 8 * sz"

text \<open>Shift amounts of the two coding-unit fields: bits 4 and 6 of the extension.\<close>

definition MALI_GRALLOC_INTFMT_AFRC_RGBA_CODING_UNIT_BYTES :: "u32 \<Rightarrow> u32" where
  "MALI_GRALLOC_INTFMT_AFRC_RGBA_CODING_UNIT_BYTES x = push_bit 20 x"

definition MALI_GRALLOC_INTFMT_AFRC_CHROMA_CODING_UNIT_BYTES :: "u32 \<Rightarrow> u32" where
  "MALI_GRALLOC_INTFMT_AFRC_CHROMA_CODING_UNIT_BYTES x = push_bit 22 x"

lemma intfmt_values [flag_defs]:
  "MALI_GRALLOC_INTFMT_FMT_MASK = 0x1FF"
  "MALI_GRALLOC_INTFMT_EXT_MASK = 0xFFFF0000"
  "MALI_GRALLOC_INTFMT_SENTINEL = 0x8000"
  "MALI_GRALLOC_INTFMT_AFBC_BASIC = 0x10000"
  "MALI_GRALLOC_INTFMT_AFRC_BASIC = 0x20000"
  "MALI_GRALLOC_INTFMT_BLOCK_LINEAR_BASIC = 0x40000"
  "MALI_GRALLOC_INTFMT_AFBC_SPLITBLK = 0x80000"
  "MALI_GRALLOC_INTFMT_AFBC_WIDEBLK = 0x100000"
  "MALI_GRALLOC_INTFMT_AFBC_TILED_HEADERS = 0x200000"
  "MALI_GRALLOC_INTFMT_AFBC_EXTRAWIDEBLK = 0x400000"
  "MALI_GRALLOC_INTFMT_AFBC_DOUBLE_BODY = 0x800000"
  "MALI_GRALLOC_INTFMT_AFBC_BCH = 0x1000000"
  "MALI_GRALLOC_INTFMT_AFBC_YUV_TRANSFORM = 0x2000000"
  "MALI_GRALLOC_INTFMT_AFBC_SPARSE = 0x4000000"
  "MALI_GRALLOC_INTFMT_AFBC_USM = 0x8000000"
  "MALI_GRALLOC_INTFMT_AFRC_ROT_LAYOUT = 0x80000"
  by (simp_all add: MALI_GRALLOC_INTFMT_FMT_MASK_def MALI_GRALLOC_INTFMT_EXT_MASK_def
      MALI_GRALLOC_INTFMT_EXTENSION_BIT_def MALI_GRALLOC_INTFMT_SENTINEL_def
      MALI_GRALLOC_INTFMT_AFBC_BASIC_def MALI_GRALLOC_INTFMT_AFRC_BASIC_def
      MALI_GRALLOC_INTFMT_BLOCK_LINEAR_BASIC_def MALI_GRALLOC_INTFMT_AFBC_SPLITBLK_def
      MALI_GRALLOC_INTFMT_AFBC_WIDEBLK_def MALI_GRALLOC_INTFMT_AFBC_TILED_HEADERS_def
      MALI_GRALLOC_INTFMT_AFBC_EXTRAWIDEBLK_def MALI_GRALLOC_INTFMT_AFBC_DOUBLE_BODY_def
      MALI_GRALLOC_INTFMT_AFBC_BCH_def MALI_GRALLOC_INTFMT_AFBC_YUV_TRANSFORM_def
      MALI_GRALLOC_INTFMT_AFBC_SPARSE_def MALI_GRALLOC_INTFMT_AFBC_USM_def
      MALI_GRALLOC_INTFMT_AFRC_ROT_LAYOUT_def)

section \<open>Packing and unpacking private formats\<close>

definition mali_gralloc_format_compress :: "hal_env \<Rightarrow> u32 \<Rightarrow> u32" where
  "mali_gralloc_format_compress H hal_format =
     (if hal_format = H HAL_YV12 then fmt_value H FMT_YV12
      else if hal_format = H HAL_Y8 then fmt_value H FMT_Y8
      else if hal_format = H HAL_Y16 then fmt_value H FMT_Y16
      else if hal_format AND NOT MALI_GRALLOC_INTFMT_FMT_MASK \<noteq> 0 then fmt_value H FMT_UNDEFINED
      else hal_format)"

definition mali_gralloc_format_wrapper :: "hal_env \<Rightarrow> u32 \<Rightarrow> u32 \<Rightarrow> u32" where
  "mali_gralloc_format_wrapper H base_format modifiers =
     (if modifiers AND NOT MALI_GRALLOC_INTFMT_EXT_MASK \<noteq> 0 then fmt_value H FMT_UNDEFINED
      else modifiers OR mali_gralloc_format_compress H base_format
             OR MALI_GRALLOC_INTFMT_SENTINEL)"

definition mali_gralloc_format_is_private :: "u32 \<Rightarrow> bool" where
  "mali_gralloc_format_is_private android_format \<longleftrightarrow>
     test_flag android_format MALI_GRALLOC_INTFMT_SENTINEL"

definition mali_gralloc_format_get_base :: "u32 \<Rightarrow> u32" where
  "mali_gralloc_format_get_base wrapped_format = wrapped_format AND MALI_GRALLOC_INTFMT_FMT_MASK"

definition mali_gralloc_format_get_modifiers :: "u32 \<Rightarrow> u32" where
  "mali_gralloc_format_get_modifiers wrapped_format =
     wrapped_format AND MALI_GRALLOC_INTFMT_EXT_MASK"

definition mali_gralloc_format_is_uncompressed :: "u32 \<Rightarrow> bool" where
  "mali_gralloc_format_is_uncompressed f \<longleftrightarrow> mali_gralloc_format_get_modifiers f = 0"

definition mali_gralloc_format_is_afbc :: "u32 \<Rightarrow> bool" where
  "mali_gralloc_format_is_afbc f \<longleftrightarrow> test_flag f MALI_GRALLOC_INTFMT_AFBC_BASIC"

definition mali_gralloc_format_is_afrc :: "u32 \<Rightarrow> bool" where
  "mali_gralloc_format_is_afrc f \<longleftrightarrow> test_flag f MALI_GRALLOC_INTFMT_AFRC_BASIC"

definition mali_gralloc_format_is_block_linear :: "u32 \<Rightarrow> bool" where
  "mali_gralloc_format_is_block_linear f \<longleftrightarrow> test_flag f MALI_GRALLOC_INTFMT_BLOCK_LINEAR_BASIC"

definition GRALLOC_PRIVATE_FORMAT_WRAPPER_ADD_MODIFIER :: "u32 \<Rightarrow> u32 \<Rightarrow> u32" where
  "GRALLOC_PRIVATE_FORMAT_WRAPPER_ADD_MODIFIER x modifiers = x OR modifiers"

definition GRALLOC_PRIVATE_FORMAT_WRAPPER_AFBC :: "hal_env \<Rightarrow> u32 \<Rightarrow> u32" where
  "GRALLOC_PRIVATE_FORMAT_WRAPPER_AFBC H x =
     mali_gralloc_format_wrapper H x
       (MALI_GRALLOC_INTFMT_AFBC_BASIC OR MALI_GRALLOC_INTFMT_AFBC_SPARSE)"

definition GRALLOC_PRIVATE_FORMAT_WRAPPER_AFRC :: "hal_env \<Rightarrow> u32 \<Rightarrow> u32 \<Rightarrow> u32" where
  "GRALLOC_PRIVATE_FORMAT_WRAPPER_AFRC H x modifiers =
     mali_gralloc_format_wrapper H x (MALI_GRALLOC_INTFMT_AFRC_BASIC OR modifiers)"

lemma and_self_iff_and_not:
  "x AND m = x \<longleftrightarrow> x AND NOT m = (0 :: 'a::len word)"
  by (auto simp: bit_eq_iff bit_simps)

lemma less_0x200_iff: "x < 0x200 \<longleftrightarrow> x AND 0x1FF = (x :: u32)"
  using mask_eq_iff_w2p [of 9 x] by (simp add: word_size mask_eq_decr_exp)

lemma fmt_value_masked:
  "hal_documented H \<Longrightarrow> fmt_value H f AND 0x1FF = fmt_value H f"
  by (simp add: fmt_value_less flip: less_0x200_iff)

lemma private_value_masked: "private_value f AND 0x1FF = private_value f"
  by (cases f) simp_all

text \<open>A compressed format always fits the nine base bits.\<close>

lemma compress_fits:
  "mali_gralloc_format_compress H f AND MALI_GRALLOC_INTFMT_FMT_MASK = mali_gralloc_format_compress H f"
  using private_value_masked [of FMT_YV12] private_value_masked [of FMT_Y8]
    private_value_masked [of FMT_Y16]
  by (auto simp: mali_gralloc_format_compress_def fmt_value_def intfmt_values
      and_self_iff_and_not)

lemma compress_id:
  "f \<notin> {H HAL_YV12, H HAL_Y8, H HAL_Y16} \<Longrightarrow> f < 0x200 \<Longrightarrow> mali_gralloc_format_compress H f = f"
  by (auto simp: mali_gralloc_format_compress_def less_0x200_iff and_self_iff_and_not intfmt_values)

lemma masks_disjoint:
  assumes "m AND NOT 0xFFFF0000 = (0 :: u32)" and "b AND 0x1FF = b"
  shows "(m OR b OR 0x8000) AND 0x1FF = b" and "(m OR b OR 0x8000) AND 0xFFFF0000 = m"
    and "(m OR b OR 0x8000) AND 0x8000 = 0x8000"
proof -
  have m: "m = m AND 0xFFFF0000"
    using assms(1) by (simp only: and_self_iff_and_not [symmetric])
  have "(m AND 0xFFFF0000 OR b AND 0x1FF OR 0x8000) AND 0x1FF = b AND 0x1FF"
    by (simp add: bit.conj_disj_distrib2 and.assoc)
  then show "(m OR b OR 0x8000) AND 0x1FF = b"
    using m assms(2) by simp
  have "(m AND 0xFFFF0000 OR b AND 0x1FF OR 0x8000) AND 0xFFFF0000 = m AND 0xFFFF0000"
    by (simp add: bit.conj_disj_distrib2 and.assoc)
  then show "(m OR b OR 0x8000) AND 0xFFFF0000 = m"
    using m assms(2) by simp
  show "(m OR b OR 0x8000) AND 0x8000 = 0x8000"
    by (simp add: bit.conj_disj_distrib2)
qed

lemma wrapper_unpacks:
  assumes "m AND NOT MALI_GRALLOC_INTFMT_EXT_MASK = 0"
  shows "mali_gralloc_format_get_base (mali_gralloc_format_wrapper H f m) =
           mali_gralloc_format_compress H f"
    and "mali_gralloc_format_get_modifiers (mali_gralloc_format_wrapper H f m) = m"
    and "mali_gralloc_format_is_private (mali_gralloc_format_wrapper H f m)"
  using assms masks_disjoint [OF _ compress_fits [of H f, unfolded intfmt_values(1)], of m]
  by (simp_all add: mali_gralloc_format_wrapper_def mali_gralloc_format_get_base_def
      mali_gralloc_format_get_modifiers_def mali_gralloc_format_is_private_def test_flag_def
      intfmt_values)

end
