(* ===== verification/Internal_Format.thy ===== *)
theory Internal_Format
  imports Pixel_Formats
begin

text \<open>
  The class \<open>internal_format_t\<close> of src/src/core/internal_format.h: a base format with modifier
  bits. Every accessor pair is one definition each way; the contract they share (a setter
  changes its own bits only, and the getter reads what was set) is the locale
  \<open>modifier_flag\<close>, interpreted once per modifier, and \<open>coding_size_field\<close> for the two
  two-bit AFRC fields.
\<close>

section \<open>The class\<close>

record internal_format_t =
  m_format :: u32
  m_modifiers :: u32

definition internal_format_invalid :: internal_format_t where
  "internal_format_invalid = \<lparr>m_format = 0, m_modifiers = 0\<rparr>"

text \<open>The private constructor from a packed value.\<close>

definition make_internal_format :: "u32 \<Rightarrow> internal_format_t" where
  "make_internal_format value =
     \<lparr>m_format = mali_gralloc_format_get_base value,
      m_modifiers = mali_gralloc_format_get_modifiers value\<rparr>"

definition get_modifiers :: "internal_format_t \<Rightarrow> u32" where
  "get_modifiers f = m_modifiers f"

definition has_modifiers :: "internal_format_t \<Rightarrow> bool" where
  "has_modifiers f \<longleftrightarrow> get_modifiers f \<noteq> 0"

definition clear_modifiers :: "internal_format_t \<Rightarrow> internal_format_t" where
  "clear_modifiers f = f\<lparr>m_modifiers := 0\<rparr>"

definition is_undefined :: "internal_format_t \<Rightarrow> bool" where
  "is_undefined f \<longleftrightarrow> m_format f = 0"

definition get_base :: "internal_format_t \<Rightarrow> u32" where
  "get_base f = mali_gralloc_format_get_base (m_format f)"

text \<open>\<open>from_android\<close> aborts when the value carries modifier bits.\<close>

definition from_android :: "u32 \<Rightarrow> internal_format_t res" where
  "from_android android_format =
     (let ret = make_internal_format android_format
      in if has_modifiers ret then Inl Check_failed else Inr ret)"

definition from_private :: "u32 \<Rightarrow> internal_format_t" where
  "from_private private_format =
     make_internal_format (private_format AND NOT MALI_GRALLOC_INTFMT_SENTINEL)"

definition is_equal :: "internal_format_t \<Rightarrow> internal_format_t \<Rightarrow> bool" where
  "is_equal f other \<longleftrightarrow> m_format other = m_format f \<and> m_modifiers other = m_modifiers f"

section \<open>Modifier accessors\<close>

definition set_modifier :: "u32 \<Rightarrow> bool \<Rightarrow> internal_format_t \<Rightarrow> internal_format_t" where
  "set_modifier flag value f =
     (if value then f\<lparr>m_modifiers := m_modifiers f OR flag\<rparr>
      else f\<lparr>m_modifiers := m_modifiers f AND NOT flag\<rparr>)"

definition get_modifier :: "u32 \<Rightarrow> internal_format_t \<Rightarrow> bool" where
  "get_modifier flag f \<longleftrightarrow> test_flag (m_modifiers f) flag"

text \<open>The \<open>make_*\<close> methods carry a \<open>DCHECK\<close>, active in builds without \<open>NDEBUG\<close>.\<close>

definition make_layout :: "bool \<Rightarrow> u32 \<Rightarrow> internal_format_t \<Rightarrow> internal_format_t res" where
  "make_layout nd flag f =
     (if \<not> nd \<and> has_modifiers f then Inl Check_failed else Inr (set_modifier flag True f))"

definition make_afbc :: "bool \<Rightarrow> internal_format_t \<Rightarrow> internal_format_t res" where
  "make_afbc nd = make_layout nd MALI_GRALLOC_INTFMT_AFBC_BASIC"

definition is_afbc :: "internal_format_t \<Rightarrow> bool" where
  "is_afbc = get_modifier MALI_GRALLOC_INTFMT_AFBC_BASIC"

definition set_afbc_32x8 :: "bool \<Rightarrow> internal_format_t \<Rightarrow> internal_format_t" where
  "set_afbc_32x8 = set_modifier MALI_GRALLOC_INTFMT_AFBC_WIDEBLK"

definition get_afbc_32x8 :: "internal_format_t \<Rightarrow> bool" where
  "get_afbc_32x8 = get_modifier MALI_GRALLOC_INTFMT_AFBC_WIDEBLK"

definition set_afbc_64x4 :: "bool \<Rightarrow> internal_format_t \<Rightarrow> internal_format_t" where
  "set_afbc_64x4 = set_modifier MALI_GRALLOC_INTFMT_AFBC_EXTRAWIDEBLK"

definition get_afbc_64x4 :: "internal_format_t \<Rightarrow> bool" where
  "get_afbc_64x4 = get_modifier MALI_GRALLOC_INTFMT_AFBC_EXTRAWIDEBLK"

definition set_afbc_yuv_transform :: "bool \<Rightarrow> internal_format_t \<Rightarrow> internal_format_t" where
  "set_afbc_yuv_transform = set_modifier MALI_GRALLOC_INTFMT_AFBC_YUV_TRANSFORM"

definition get_afbc_yuv_transform :: "internal_format_t \<Rightarrow> bool" where
  "get_afbc_yuv_transform = get_modifier MALI_GRALLOC_INTFMT_AFBC_YUV_TRANSFORM"

definition set_afbc_sparse :: "bool \<Rightarrow> internal_format_t \<Rightarrow> internal_format_t" where
  "set_afbc_sparse = set_modifier MALI_GRALLOC_INTFMT_AFBC_SPARSE"

definition get_afbc_sparse :: "internal_format_t \<Rightarrow> bool" where
  "get_afbc_sparse = get_modifier MALI_GRALLOC_INTFMT_AFBC_SPARSE"

definition set_afbc_tiled_headers :: "bool \<Rightarrow> internal_format_t \<Rightarrow> internal_format_t" where
  "set_afbc_tiled_headers = set_modifier MALI_GRALLOC_INTFMT_AFBC_TILED_HEADERS"

definition get_afbc_tiled_headers :: "internal_format_t \<Rightarrow> bool" where
  "get_afbc_tiled_headers = get_modifier MALI_GRALLOC_INTFMT_AFBC_TILED_HEADERS"

definition set_afbc_double_body :: "bool \<Rightarrow> internal_format_t \<Rightarrow> internal_format_t" where
  "set_afbc_double_body = set_modifier MALI_GRALLOC_INTFMT_AFBC_DOUBLE_BODY"

definition get_afbc_double_body :: "internal_format_t \<Rightarrow> bool" where
  "get_afbc_double_body = get_modifier MALI_GRALLOC_INTFMT_AFBC_DOUBLE_BODY"

definition set_afbc_block_split :: "bool \<Rightarrow> internal_format_t \<Rightarrow> internal_format_t" where
  "set_afbc_block_split = set_modifier MALI_GRALLOC_INTFMT_AFBC_SPLITBLK"

definition get_afbc_block_split :: "internal_format_t \<Rightarrow> bool" where
  "get_afbc_block_split = get_modifier MALI_GRALLOC_INTFMT_AFBC_SPLITBLK"

definition set_afbc_bch :: "bool \<Rightarrow> internal_format_t \<Rightarrow> internal_format_t" where
  "set_afbc_bch = set_modifier MALI_GRALLOC_INTFMT_AFBC_BCH"

definition get_afbc_bch :: "internal_format_t \<Rightarrow> bool" where
  "get_afbc_bch = get_modifier MALI_GRALLOC_INTFMT_AFBC_BCH"

definition set_afbc_usm :: "bool \<Rightarrow> internal_format_t \<Rightarrow> internal_format_t" where
  "set_afbc_usm = set_modifier MALI_GRALLOC_INTFMT_AFBC_USM"

definition get_afbc_usm :: "internal_format_t \<Rightarrow> bool" where
  "get_afbc_usm = get_modifier MALI_GRALLOC_INTFMT_AFBC_USM"

definition make_afrc :: "bool \<Rightarrow> internal_format_t \<Rightarrow> internal_format_t res" where
  "make_afrc nd = make_layout nd MALI_GRALLOC_INTFMT_AFRC_BASIC"

definition is_afrc :: "internal_format_t \<Rightarrow> bool" where
  "is_afrc = get_modifier MALI_GRALLOC_INTFMT_AFRC_BASIC"

definition set_afrc_rot_layout :: "bool \<Rightarrow> internal_format_t \<Rightarrow> internal_format_t" where
  "set_afrc_rot_layout = set_modifier MALI_GRALLOC_INTFMT_AFRC_ROT_LAYOUT"

definition get_afrc_rot_layout :: "internal_format_t \<Rightarrow> bool" where
  "get_afrc_rot_layout = get_modifier MALI_GRALLOC_INTFMT_AFRC_ROT_LAYOUT"

definition make_block_linear :: "bool \<Rightarrow> internal_format_t \<Rightarrow> internal_format_t res" where
  "make_block_linear nd = make_layout nd MALI_GRALLOC_INTFMT_BLOCK_LINEAR_BASIC"

definition is_block_linear :: "internal_format_t \<Rightarrow> bool" where
  "is_block_linear = get_modifier MALI_GRALLOC_INTFMT_BLOCK_LINEAR_BASIC"

section \<open>AFRC coding sizes\<close>

text \<open>
  The enumeration \<open>afrc_coding_unit_size_t\<close> has the underlying type \<open>uint32_t\<close>; a getter
  casts whatever two bits it reads, so the model keeps the word.
\<close>

definition to_bytes :: "u32 \<Rightarrow> u32" where
  "to_bytes sz = MALI_GRALLOC_INTFMT_AFRC_CODING_UNIT_BYTES_UNWRAP sz"

definition set_afrc_rgba_coding_size :: "u32 \<Rightarrow> internal_format_t \<Rightarrow> internal_format_t" where
  "set_afrc_rgba_coding_size sz f =
     f\<lparr>m_modifiers :=
        (m_modifiers f AND
           NOT (MALI_GRALLOC_INTFMT_AFRC_RGBA_CODING_UNIT_BYTES
                  MALI_GRALLOC_INTFMT_AFRC_CODING_UNIT_BYTES_MASK))
        OR MALI_GRALLOC_INTFMT_AFRC_RGBA_CODING_UNIT_BYTES sz\<rparr>"

definition get_afrc_rgba_coding_size :: "internal_format_t \<Rightarrow> u32" where
  "get_afrc_rgba_coding_size f =
     drop_bit 20 (m_modifiers f) AND MALI_GRALLOC_INTFMT_AFRC_CODING_UNIT_BYTES_MASK"

text \<open>The luma macros expand to the RGBA ones.\<close>

definition set_afrc_luma_coding_size :: "u32 \<Rightarrow> internal_format_t \<Rightarrow> internal_format_t" where
  "set_afrc_luma_coding_size = set_afrc_rgba_coding_size"

definition get_afrc_luma_coding_size :: "internal_format_t \<Rightarrow> u32" where
  "get_afrc_luma_coding_size = get_afrc_rgba_coding_size"

definition set_afrc_chroma_coding_size :: "u32 \<Rightarrow> internal_format_t \<Rightarrow> internal_format_t" where
  "set_afrc_chroma_coding_size sz f =
     f\<lparr>m_modifiers :=
        (m_modifiers f AND
           NOT (MALI_GRALLOC_INTFMT_AFRC_CHROMA_CODING_UNIT_BYTES
                  MALI_GRALLOC_INTFMT_AFRC_CODING_UNIT_BYTES_MASK))
        OR MALI_GRALLOC_INTFMT_AFRC_CHROMA_CODING_UNIT_BYTES sz\<rparr>"

definition get_afrc_chroma_coding_size :: "internal_format_t \<Rightarrow> u32" where
  "get_afrc_chroma_coding_size f =
     drop_bit 22 (m_modifiers f) AND MALI_GRALLOC_INTFMT_AFRC_CODING_UNIT_BYTES_MASK"

section \<open>The contract of the modifier accessors\<close>

text \<open>A flag is one bit of the modifier word.\<close>

definition single_bit :: "u32 \<Rightarrow> bool" where
  "single_bit x \<longleftrightarrow> (\<exists>n < 32. x = push_bit n 1)"

lemma single_bit_push [simp]: "n < 32 \<Longrightarrow> single_bit (push_bit n 1)"
  by (auto simp: single_bit_def)

lemma test_flag_push: "test_flag x (push_bit n 1) \<longleftrightarrow> bit x n"
  by (simp add: test_flag_def push_bit_of_1 and_exp_eq_0_iff_not_bit)

lemma single_bit_extension: "0 \<le> k \<Longrightarrow> k < 16 \<Longrightarrow> single_bit (MALI_GRALLOC_INTFMT_EXTENSION_BIT k)"
  unfolding MALI_GRALLOC_INTFMT_EXTENSION_BIT_def by (rule single_bit_push) simp

lemma single_bit_flags [simp]:
  "single_bit MALI_GRALLOC_INTFMT_AFBC_BASIC"
  "single_bit MALI_GRALLOC_INTFMT_AFRC_BASIC"
  "single_bit MALI_GRALLOC_INTFMT_BLOCK_LINEAR_BASIC"
  "single_bit MALI_GRALLOC_INTFMT_AFBC_SPLITBLK"
  "single_bit MALI_GRALLOC_INTFMT_AFBC_WIDEBLK"
  "single_bit MALI_GRALLOC_INTFMT_AFBC_TILED_HEADERS"
  "single_bit MALI_GRALLOC_INTFMT_AFBC_EXTRAWIDEBLK"
  "single_bit MALI_GRALLOC_INTFMT_AFBC_DOUBLE_BODY"
  "single_bit MALI_GRALLOC_INTFMT_AFBC_BCH"
  "single_bit MALI_GRALLOC_INTFMT_AFBC_YUV_TRANSFORM"
  "single_bit MALI_GRALLOC_INTFMT_AFBC_SPARSE"
  "single_bit MALI_GRALLOC_INTFMT_AFBC_USM"
  "single_bit MALI_GRALLOC_INTFMT_AFRC_ROT_LAYOUT"
  unfolding MALI_GRALLOC_INTFMT_AFBC_BASIC_def
    MALI_GRALLOC_INTFMT_AFRC_BASIC_def
    MALI_GRALLOC_INTFMT_BLOCK_LINEAR_BASIC_def
    MALI_GRALLOC_INTFMT_AFBC_SPLITBLK_def
    MALI_GRALLOC_INTFMT_AFBC_WIDEBLK_def
    MALI_GRALLOC_INTFMT_AFBC_TILED_HEADERS_def
    MALI_GRALLOC_INTFMT_AFBC_EXTRAWIDEBLK_def
    MALI_GRALLOC_INTFMT_AFBC_DOUBLE_BODY_def
    MALI_GRALLOC_INTFMT_AFBC_BCH_def
    MALI_GRALLOC_INTFMT_AFBC_YUV_TRANSFORM_def
    MALI_GRALLOC_INTFMT_AFBC_SPARSE_def
    MALI_GRALLOC_INTFMT_AFBC_USM_def
    MALI_GRALLOC_INTFMT_AFRC_ROT_LAYOUT_def
  by (rule single_bit_extension; simp)+

locale modifier_flag =
  fixes flag :: u32
    and set_flag :: "bool \<Rightarrow> internal_format_t \<Rightarrow> internal_format_t"
    and get_flag :: "internal_format_t \<Rightarrow> bool"
  assumes reads_flag: "get_flag f \<longleftrightarrow> get_modifier flag f"
    and set_get: "get_flag (set_flag b f) = b"
    and format_kept: "m_format (set_flag b f) = m_format f"
    and other_kept: "g AND flag = 0 \<Longrightarrow> m_modifiers (set_flag b f) AND g = m_modifiers f AND g"
    and last_wins: "set_flag c (set_flag b f) = set_flag c f"
    and get_then_set: "set_flag (get_flag f) f = f"
begin

lemma base_kept: "get_base (set_flag b f) = get_base f"
  by (simp add: get_base_def format_kept)

lemma other_getter: "g AND flag = 0 \<Longrightarrow> get_modifier g (set_flag b f) = get_modifier g f"
  by (simp add: get_modifier_def test_flag_def other_kept)

lemma unchanged_iff: "set_flag b f = f \<longleftrightarrow> get_flag f = b"
  using set_get [of b f] get_then_set [of f] by auto

end

lemma modifier_flag_single:
  assumes "single_bit flag"
  shows "modifier_flag flag (set_modifier flag) (get_modifier flag)"
proof
  obtain n where n: "n < 32" and flag: "flag = push_bit n 1"
    using assms by (auto simp: single_bit_def)
  have tf: "test_flag x flag \<longleftrightarrow> bit x n" for x
    unfolding flag by (rule test_flag_push)
  have bf: "bit flag m \<longleftrightarrow> m = n" if "m < 32" for m
    using that n unfolding flag by (auto simp: bit_exp_iff)
  fix f b c g
  show "get_modifier flag (set_modifier flag b f) = b"
    using n by (simp add: get_modifier_def set_modifier_def tf bf bit_simps)
  show "set_modifier flag c (set_modifier flag b f) = set_modifier flag c f"
    by (simp add: set_modifier_def)
  show "set_modifier flag (get_modifier flag f) f = f"
    using n by (auto simp: set_modifier_def get_modifier_def tf word_eq_bits bf bit_simps
        intro!: internal_format_t.equality)
  show "m_modifiers (set_modifier flag b f) AND g = m_modifiers f AND g" if "g AND flag = 0"
    using that and_or_not_frame [of flag g "m_modifiers f"]
    by (auto simp: set_modifier_def and.commute)
qed (simp_all add: set_modifier_def)

lemmas modifier_pair_defs =
  set_afbc_32x8_def get_afbc_32x8_def set_afbc_64x4_def get_afbc_64x4_def
  set_afbc_yuv_transform_def get_afbc_yuv_transform_def set_afbc_sparse_def get_afbc_sparse_def
  set_afbc_tiled_headers_def get_afbc_tiled_headers_def set_afbc_double_body_def
  get_afbc_double_body_def set_afbc_block_split_def get_afbc_block_split_def
  set_afbc_bch_def get_afbc_bch_def set_afbc_usm_def get_afbc_usm_def
  set_afrc_rot_layout_def get_afrc_rot_layout_def

interpretation wide: modifier_flag MALI_GRALLOC_INTFMT_AFBC_WIDEBLK set_afbc_32x8 get_afbc_32x8
  unfolding modifier_pair_defs by (rule modifier_flag_single) simp

interpretation extrawide: modifier_flag MALI_GRALLOC_INTFMT_AFBC_EXTRAWIDEBLK set_afbc_64x4 get_afbc_64x4
  unfolding modifier_pair_defs by (rule modifier_flag_single) simp

interpretation ytr: modifier_flag MALI_GRALLOC_INTFMT_AFBC_YUV_TRANSFORM
  set_afbc_yuv_transform get_afbc_yuv_transform
  unfolding modifier_pair_defs by (rule modifier_flag_single) simp

interpretation sparse: modifier_flag MALI_GRALLOC_INTFMT_AFBC_SPARSE set_afbc_sparse get_afbc_sparse
  unfolding modifier_pair_defs by (rule modifier_flag_single) simp

interpretation tiled: modifier_flag MALI_GRALLOC_INTFMT_AFBC_TILED_HEADERS
  set_afbc_tiled_headers get_afbc_tiled_headers
  unfolding modifier_pair_defs by (rule modifier_flag_single) simp

interpretation double_body: modifier_flag MALI_GRALLOC_INTFMT_AFBC_DOUBLE_BODY
  set_afbc_double_body get_afbc_double_body
  unfolding modifier_pair_defs by (rule modifier_flag_single) simp

interpretation block_split: modifier_flag MALI_GRALLOC_INTFMT_AFBC_SPLITBLK
  set_afbc_block_split get_afbc_block_split
  unfolding modifier_pair_defs by (rule modifier_flag_single) simp

interpretation bch: modifier_flag MALI_GRALLOC_INTFMT_AFBC_BCH set_afbc_bch get_afbc_bch
  unfolding modifier_pair_defs by (rule modifier_flag_single) simp

interpretation usm: modifier_flag MALI_GRALLOC_INTFMT_AFBC_USM set_afbc_usm get_afbc_usm
  unfolding modifier_pair_defs by (rule modifier_flag_single) simp

interpretation rot: modifier_flag MALI_GRALLOC_INTFMT_AFRC_ROT_LAYOUT
  set_afrc_rot_layout get_afrc_rot_layout
  unfolding modifier_pair_defs by (rule modifier_flag_single) simp

lemma get_set_modifier [simp]:
  assumes "single_bit a" and "single_bit b"
  shows "get_modifier a (set_modifier b v f) = (if a = b then v else get_modifier a f)"
proof -
  obtain i j where ij: "i < 32" "a = push_bit i 1" "j < 32" "b = push_bit j 1"
    using assms by (auto simp: single_bit_def)
  have b_bit: "bit b m \<longleftrightarrow> m = j" if "m < 32" for m
    using that ij by (auto simp: bit_exp_iff)
  have "bit a i"
    using ij(1,2) by (simp add: bit_exp_iff)
  then have ab: "a = b \<longleftrightarrow> i = j"
    using ij b_bit [of i] by auto
  show ?thesis
    unfolding ab using ij(1,3) b_bit
    by (auto simp: get_modifier_def set_modifier_def ij(2) test_flag_push bit_simps
        simp del: push_bit_of_1)
qed

text \<open>The AFBC flags and the layout flags differ pairwise, in both orientations for the simplifier
  (the AFRC flags reuse extension bits of AFBC).\<close>

lemma flags_distinct:
  "distinct
     [MALI_GRALLOC_INTFMT_AFBC_BASIC, MALI_GRALLOC_INTFMT_AFRC_BASIC,
      MALI_GRALLOC_INTFMT_BLOCK_LINEAR_BASIC, MALI_GRALLOC_INTFMT_AFBC_SPLITBLK,
      MALI_GRALLOC_INTFMT_AFBC_WIDEBLK, MALI_GRALLOC_INTFMT_AFBC_TILED_HEADERS,
      MALI_GRALLOC_INTFMT_AFBC_EXTRAWIDEBLK, MALI_GRALLOC_INTFMT_AFBC_DOUBLE_BODY,
      MALI_GRALLOC_INTFMT_AFBC_BCH, MALI_GRALLOC_INTFMT_AFBC_YUV_TRANSFORM,
      MALI_GRALLOC_INTFMT_AFBC_SPARSE, MALI_GRALLOC_INTFMT_AFBC_USM]"
  "distinct
     [MALI_GRALLOC_INTFMT_AFBC_USM,
      MALI_GRALLOC_INTFMT_AFBC_SPARSE, MALI_GRALLOC_INTFMT_AFBC_YUV_TRANSFORM,
      MALI_GRALLOC_INTFMT_AFBC_BCH, MALI_GRALLOC_INTFMT_AFBC_DOUBLE_BODY,
      MALI_GRALLOC_INTFMT_AFBC_EXTRAWIDEBLK, MALI_GRALLOC_INTFMT_AFBC_TILED_HEADERS,
      MALI_GRALLOC_INTFMT_AFBC_WIDEBLK, MALI_GRALLOC_INTFMT_AFBC_SPLITBLK,
      MALI_GRALLOC_INTFMT_BLOCK_LINEAR_BASIC, MALI_GRALLOC_INTFMT_AFRC_BASIC,
      MALI_GRALLOC_INTFMT_AFBC_BASIC]"
  by (simp_all add: intfmt_values)

lemmas flags_neq [simp] = flags_distinct [simplified]

lemma m_format_set_modifier [simp]: "m_format (set_modifier a v f) = m_format f"
  by (simp add: set_modifier_def)

lemma get_base_set_modifier [simp]: "get_base (set_modifier a v f) = get_base f"
  by (simp add: get_base_def)

lemmas accessor_defs = modifier_pair_defs is_afbc_def is_afrc_def is_block_linear_def

lemma no_modifiers_get [simp]: "m_modifiers f = 0 \<Longrightarrow> \<not> get_modifier a f"
  by (simp add: get_modifier_def)

lemma make_layout_ok:
  "make_layout nd flag f = Inr g \<longleftrightarrow> (nd \<or> \<not> has_modifiers f) \<and> g = set_modifier flag True f"
  by (auto simp: make_layout_def)

section \<open>The contract of the coding-size fields\<close>

locale coding_size_field =
  fixes pos :: nat
    and set_size :: "u32 \<Rightarrow> internal_format_t \<Rightarrow> internal_format_t"
    and get_size :: "internal_format_t \<Rightarrow> u32"
  assumes size_read_back: "sz \<le> 3 \<Longrightarrow> get_size (set_size sz f) = sz"
    and size_bounded: "get_size f \<le> 3"
    and size_format_kept: "m_format (set_size sz f) = m_format f"
    and size_other_kept:
      "g AND push_bit pos 3 = 0 \<Longrightarrow> sz \<le> 3 \<Longrightarrow>
       m_modifiers (set_size sz f) AND g = m_modifiers f AND g"
begin

text \<open>The three documented sizes come back as 16, 24 and 32 bytes.\<close>

lemma bytes_read_back:
  "to_bytes (get_size (set_size MALI_GRALLOC_INTFMT_AFRC_CODING_UNIT_BYTES_16 f)) = 16"
  "to_bytes (get_size (set_size MALI_GRALLOC_INTFMT_AFRC_CODING_UNIT_BYTES_24 f)) = 24"
  "to_bytes (get_size (set_size MALI_GRALLOC_INTFMT_AFRC_CODING_UNIT_BYTES_32 f)) = 32"
  by (simp_all add: size_read_back to_bytes_def
      MALI_GRALLOC_INTFMT_AFRC_CODING_UNIT_BYTES_UNWRAP_def
      MALI_GRALLOC_INTFMT_AFRC_CODING_UNIT_BYTES_16_def
      MALI_GRALLOC_INTFMT_AFRC_CODING_UNIT_BYTES_24_def
      MALI_GRALLOC_INTFMT_AFRC_CODING_UNIT_BYTES_32_def)

lemma size_other_getter:
  "g AND push_bit pos 3 = 0 \<Longrightarrow> sz \<le> 3 \<Longrightarrow> get_modifier g (set_size sz f) = get_modifier g f"
  by (simp add: get_modifier_def test_flag_def size_other_kept)

end

lemma bit_le_3: "x \<le> (3 :: u32) \<longleftrightarrow> (\<forall>n. 2 \<le> n \<longrightarrow> \<not> bit x n)"
proof -
  have "x \<le> 3 \<longleftrightarrow> unat x < 2 ^ 2"
    by (simp add: word_le_nat_alt) arith
  also have "\<dots> \<longleftrightarrow> take_bit 2 (unat x) = unat x"
    by (simp add: take_bit_nat_eq_self_iff)
  also have "\<dots> \<longleftrightarrow> take_bit 2 x = x"
    by (metis unsigned_take_bit_eq word_unat_eq_iff)
  also have "\<dots> \<longleftrightarrow> (\<forall>n. 2 \<le> n \<longrightarrow> \<not> bit x n)"
  proof
    assume "take_bit 2 x = x"
    then have "bit x n \<Longrightarrow> n < 2" for n
      by (metis bit_take_bit_iff)
    then show "\<forall>n. 2 \<le> n \<longrightarrow> \<not> bit x n"
      by (meson not_le)
  qed (auto simp: word_eq_bits bit_simps not_le [symmetric])
  finally show ?thesis .
qed

lemma coding_size_field_shift:
  assumes "pos = 20 \<or> pos = (22 :: nat)"
  shows "coding_size_field pos
    (\<lambda>sz f. f\<lparr>m_modifiers := (m_modifiers f AND NOT (push_bit pos 3)) OR push_bit pos sz\<rparr>)
    (\<lambda>f. drop_bit pos (m_modifiers f) AND 3)"
proof
  have three: "(3 :: int) = mask 2"
    by (simp add: mask_eq_exp_minus_1)
  have b3: "bit (3 :: int) n \<longleftrightarrow> n < 2" for n
    unfolding three bit_mask_iff by auto
  fix sz :: u32 and f :: internal_format_t and g :: u32
  show "drop_bit pos (m_modifiers f) AND 3 \<le> 3"
    by (simp add: word_and_le1)
  show "drop_bit pos (m_modifiers (f\<lparr>m_modifiers :=
      (m_modifiers f AND NOT (push_bit pos 3)) OR push_bit pos sz\<rparr>)) AND 3 = sz" if "sz \<le> 3"
    using assms that unfolding bit_le_3
    by (auto simp: word_eq_bits bit_simps b3) (meson not_le)+
  show "m_modifiers (f\<lparr>m_modifiers :=
      (m_modifiers f AND NOT (push_bit pos 3)) OR push_bit pos sz\<rparr>) AND g = m_modifiers f AND g"
    if "g AND push_bit pos 3 = 0" "sz \<le> 3"
    using assms that unfolding bit_le_3
    by (auto simp: word_eq_bits bit_simps b3)
qed simp

interpretation rgba_size: coding_size_field 20 set_afrc_rgba_coding_size get_afrc_rgba_coding_size
  using coding_size_field_shift [of 20]
  by (simp add: set_afrc_rgba_coding_size_def [abs_def] get_afrc_rgba_coding_size_def [abs_def]
      MALI_GRALLOC_INTFMT_AFRC_RGBA_CODING_UNIT_BYTES_def
      MALI_GRALLOC_INTFMT_AFRC_CODING_UNIT_BYTES_MASK_def)

interpretation luma_size: coding_size_field 20 set_afrc_luma_coding_size get_afrc_luma_coding_size
  unfolding set_afrc_luma_coding_size_def get_afrc_luma_coding_size_def by unfold_locales

interpretation chroma_size: coding_size_field 22 set_afrc_chroma_coding_size get_afrc_chroma_coding_size
  using coding_size_field_shift [of 22]
  by (simp add: set_afrc_chroma_coding_size_def [abs_def] get_afrc_chroma_coding_size_def [abs_def]
      MALI_GRALLOC_INTFMT_AFRC_CHROMA_CODING_UNIT_BYTES_def
      MALI_GRALLOC_INTFMT_AFRC_CODING_UNIT_BYTES_MASK_def)

section \<open>Private formats unpack to what was packed\<close>

lemma sentinel_cleared:
  "(x AND NOT MALI_GRALLOC_INTFMT_SENTINEL) AND MALI_GRALLOC_INTFMT_FMT_MASK =
     x AND MALI_GRALLOC_INTFMT_FMT_MASK"
  "(x AND NOT MALI_GRALLOC_INTFMT_SENTINEL) AND MALI_GRALLOC_INTFMT_EXT_MASK =
     x AND MALI_GRALLOC_INTFMT_EXT_MASK"
  by (simp_all add: intfmt_values and.assoc)

lemma from_private_wrapper:
  assumes "m AND NOT MALI_GRALLOC_INTFMT_EXT_MASK = 0"
  shows "from_private (mali_gralloc_format_wrapper H f m) =
    \<lparr>m_format = mali_gralloc_format_compress H f, m_modifiers = m\<rparr>"
  using wrapper_unpacks [OF assms, of H f]
  by (simp add: from_private_def make_internal_format_def mali_gralloc_format_get_base_def
      mali_gralloc_format_get_modifiers_def sentinel_cleared)

lemma get_base_idem: "get_base \<lparr>m_format = mali_gralloc_format_get_base x, m_modifiers = m\<rparr> =
    mali_gralloc_format_get_base x"
  by (simp add: get_base_def mali_gralloc_format_get_base_def and.assoc)

lemma from_android_ok:
  "x < 0x200 \<Longrightarrow> from_android x = Inr \<lparr>m_format = x, m_modifiers = 0\<rparr>"
proof -
  assume "x < 0x200"
  then have x: "x AND 0x1FF = x"
    by (simp add: less_0x200_iff)
  then have "x AND 0xFFFF0000 = (x AND 0x1FF) AND 0xFFFF0000"
    by simp
  also have "\<dots> = 0"
    by (simp add: and.assoc)
  finally show ?thesis
    using x by (simp add: from_android_def make_internal_format_def Let_def has_modifiers_def
        get_modifiers_def mali_gralloc_format_get_base_def mali_gralloc_format_get_modifiers_def
        intfmt_values)
qed

section \<open>Properties\<close>

lemma wrapper_accessors:
  assumes "m AND NOT MALI_GRALLOC_INTFMT_EXT_MASK = 0"
  shows "get_base (from_private (mali_gralloc_format_wrapper H f m)) = mali_gralloc_format_compress H f"
    and "get_modifiers (from_private (mali_gralloc_format_wrapper H f m)) = m"
  using from_private_wrapper [OF assms, of H f] compress_fits [of H f]
  by (simp_all add: get_base_def get_modifiers_def mali_gralloc_format_get_base_def)

text \<open>Packing a base format below 0x200 and a set of modifiers into a private format and unpacking
  it gives back the same base format and exactly those modifiers, without the sentinel bit that
  marks the packed value as private.\<close>

theorem private_format_roundtrip:
  assumes "m AND NOT MALI_GRALLOC_INTFMT_EXT_MASK = 0"
    and "f < 0x200" and "f \<notin> {H HAL_YV12, H HAL_Y8, H HAL_Y16}"
  shows "mali_gralloc_format_is_private (mali_gralloc_format_wrapper H f m) \<and>
    get_base (from_private (mali_gralloc_format_wrapper H f m)) = f \<and>
    get_modifiers (from_private (mali_gralloc_format_wrapper H f m)) = m"
  using wrapper_unpacks [OF assms(1), of H f] wrapper_accessors [OF assms(1), of H f]
    compress_id [OF assms(3,2)] by simp_all

theorem private_format_roundtrip_witness:
  "get_base (from_private (mali_gralloc_format_wrapper hal_sample 0x100 MALI_GRALLOC_INTFMT_AFBC_BASIC)) = 0x100"
  using private_format_roundtrip [of MALI_GRALLOC_INTFMT_AFBC_BASIC "0x100" hal_sample]
  by (simp add: intfmt_values)

text \<open>The coding unit sizes of an AFRC format are independent: after both are set, the luma and the
  chroma size read back as the bytes they stand for, and no modifier bit outside the two fields
  has changed.\<close>

theorem coding_sizes_roundtrip:
  assumes "l \<le> 3" and "c \<le> 3"
    and "g AND push_bit 20 3 = 0" and "g AND push_bit 22 3 = 0"
  shows "get_afrc_luma_coding_size (set_afrc_chroma_coding_size c (set_afrc_luma_coding_size l f)) = l \<and>
    get_afrc_chroma_coding_size (set_afrc_chroma_coding_size c (set_afrc_luma_coding_size l f)) = c \<and>
    get_modifier g (set_afrc_chroma_coding_size c (set_afrc_luma_coding_size l f)) =
      get_modifier g f \<and>
    get_base (set_afrc_chroma_coding_size c (set_afrc_luma_coding_size l f)) = get_base f"
proof (intro conjI)
  let ?f = "set_afrc_luma_coding_size l f"
  have "push_bit 20 3 AND push_bit 22 (3 :: u32) = 0"
    by (simp add: push_bit_eq_mult)
  then have "m_modifiers (set_afrc_chroma_coding_size c ?f) AND push_bit 20 3 =
      m_modifiers ?f AND push_bit 20 3"
    by (rule chroma_size.size_other_kept [OF _ assms(2)])
  then have "drop_bit 20 (m_modifiers (set_afrc_chroma_coding_size c ?f) AND push_bit 20 3) =
      drop_bit 20 (m_modifiers ?f AND push_bit 20 3)"
    by (rule arg_cong)
  then have "get_afrc_luma_coding_size (set_afrc_chroma_coding_size c ?f) = get_afrc_luma_coding_size ?f"
    by (simp add: get_afrc_luma_coding_size_def get_afrc_rgba_coding_size_def
        MALI_GRALLOC_INTFMT_AFRC_CODING_UNIT_BYTES_MASK_def)
  then show "get_afrc_luma_coding_size (set_afrc_chroma_coding_size c ?f) = l"
    using luma_size.size_read_back [OF assms(1)] by simp
  show "get_afrc_chroma_coding_size (set_afrc_chroma_coding_size c ?f) = c"
    by (rule chroma_size.size_read_back [OF assms(2)])
  show "get_modifier g (set_afrc_chroma_coding_size c ?f) = get_modifier g f"
    using chroma_size.size_other_getter [OF assms(4,2)] luma_size.size_other_getter [OF assms(3,1)]
    by simp
  show "get_base (set_afrc_chroma_coding_size c ?f) = get_base f"
    by (simp add: get_base_def chroma_size.size_format_kept luma_size.size_format_kept)
qed

theorem coding_sizes_roundtrip_witness:
  "get_modifier MALI_GRALLOC_INTFMT_AFRC_BASIC (set_afrc_chroma_coding_size 2 (set_afrc_luma_coding_size 1
     \<lparr>m_format = 0x100, m_modifiers = MALI_GRALLOC_INTFMT_AFRC_BASIC\<rparr>))"
proof -
  have "get_modifier MALI_GRALLOC_INTFMT_AFRC_BASIC \<lparr>m_format = 0x100, m_modifiers = MALI_GRALLOC_INTFMT_AFRC_BASIC\<rparr>"
    by (simp add: get_modifier_def test_flag_def intfmt_values)
  then show ?thesis
    using coding_sizes_roundtrip [of 1 2 MALI_GRALLOC_INTFMT_AFRC_BASIC]
    by (simp add: intfmt_values push_bit_eq_mult)
qed

end
