(* ===== verification/Usages.thy ===== *)
theory Usages
  imports Gralloc_Prelude
begin

text \<open>
  Buffer usage flags, src/src/usages.h: the vendor bits and the meanings they overload, the
  public flags, the masks built from them, and the predicates on a 64-bit usage word.
\<close>

section \<open>Vendor bits\<close>

definition GRALLOC_USAGE_PRIVATE_MASK :: u64 where
  "GRALLOC_USAGE_PRIVATE_MASK = 0xFFFF0000F0000000"

text \<open>\<open>GRALLOC_USAGE_PRIVATE_0\<close> to \<open>3\<close> are bits 28 to 31; \<open>4\<close> to \<open>22\<close> run down from bit 63.\<close>

definition GRALLOC_USAGE_PRIVATE :: "nat \<Rightarrow> u64" where
  "GRALLOC_USAGE_PRIVATE n = push_bit (if n < 4 then 28 + n else 67 - n) 1"

definition RK_GRALLOC_USAGE_ALLOC_HEIGHT_ALIGN_8 :: u64 where
  "RK_GRALLOC_USAGE_ALLOC_HEIGHT_ALIGN_8 = GRALLOC_USAGE_PRIVATE 4"

definition RK_GRALLOC_USAGE_ALLOC_HEIGHT_ALIGN_16 :: u64 where
  "RK_GRALLOC_USAGE_ALLOC_HEIGHT_ALIGN_16 = GRALLOC_USAGE_PRIVATE 5"

definition RK_GRALLOC_USAGE_ALLOC_HEIGHT_ALIGN_64 :: u64 where
  "RK_GRALLOC_USAGE_ALLOC_HEIGHT_ALIGN_64 = GRALLOC_USAGE_PRIVATE 4 OR GRALLOC_USAGE_PRIVATE 5"

definition RK_GRALLOC_USAGE_ALLOC_HEIGHT_ALIGN_MASK :: u64 where
  "RK_GRALLOC_USAGE_ALLOC_HEIGHT_ALIGN_MASK = GRALLOC_USAGE_PRIVATE 4 OR GRALLOC_USAGE_PRIVATE 5"

definition RK_GRALLOC_USAGE_STRIDE_ALIGN_16 :: u64 where
  "RK_GRALLOC_USAGE_STRIDE_ALIGN_16 = GRALLOC_USAGE_PRIVATE 10"

definition RK_GRALLOC_USAGE_STRIDE_ALIGN_128 :: u64 where
  "RK_GRALLOC_USAGE_STRIDE_ALIGN_128 = GRALLOC_USAGE_PRIVATE 9"

definition RK_GRALLOC_USAGE_STRIDE_ALIGN_256_ODD_TIMES :: u64 where
  "RK_GRALLOC_USAGE_STRIDE_ALIGN_256_ODD_TIMES = GRALLOC_USAGE_PRIVATE 8"

definition RK_GRALLOC_USAGE_STRIDE_ALIGN_64 :: u64 where
  "RK_GRALLOC_USAGE_STRIDE_ALIGN_64 = GRALLOC_USAGE_PRIVATE 7"

definition RK_GRALLOC_USAGE_SPECIFY_STRIDE :: u64 where
  "RK_GRALLOC_USAGE_SPECIFY_STRIDE = GRALLOC_USAGE_PRIVATE 2"

definition RK_GRALLOC_USAGE_PHY_CONTIG_BUFFER :: u64 where
  "RK_GRALLOC_USAGE_PHY_CONTIG_BUFFER = GRALLOC_USAGE_PRIVATE 3"

definition RK_GRALLOC_USAGE_WITHIN_4G :: u64 where
  "RK_GRALLOC_USAGE_WITHIN_4G = GRALLOC_USAGE_PRIVATE 11"

definition MALI_GRALLOC_USAGE_FRONTBUFFER :: u64 where
  "MALI_GRALLOC_USAGE_FRONTBUFFER = GRALLOC_USAGE_PRIVATE 0"

definition MALI_GRALLOC_USAGE_FORCE_BACKBUFFER :: u64 where
  "MALI_GRALLOC_USAGE_FORCE_BACKBUFFER = GRALLOC_USAGE_PRIVATE 13"

definition MALI_GRALLOC_USAGE_NO_AFBC :: u64 where
  "MALI_GRALLOC_USAGE_NO_AFBC = GRALLOC_USAGE_PRIVATE 1"

definition MALI_GRALLOC_USAGE_AFBC_PADDING :: u64 where
  "MALI_GRALLOC_USAGE_AFBC_PADDING = GRALLOC_USAGE_PRIVATE 14"

definition MALI_GRALLOC_USAGE_YUV_COLOR_SPACE_BT601 :: u64 where
  "MALI_GRALLOC_USAGE_YUV_COLOR_SPACE_BT601 = GRALLOC_USAGE_PRIVATE 18"

definition MALI_GRALLOC_USAGE_YUV_COLOR_SPACE_BT709 :: u64 where
  "MALI_GRALLOC_USAGE_YUV_COLOR_SPACE_BT709 = GRALLOC_USAGE_PRIVATE 19"

definition MALI_GRALLOC_USAGE_YUV_COLOR_SPACE_BT2020 :: u64 where
  "MALI_GRALLOC_USAGE_YUV_COLOR_SPACE_BT2020 = GRALLOC_USAGE_PRIVATE 18 OR GRALLOC_USAGE_PRIVATE 19"

definition MALI_GRALLOC_USAGE_YUV_COLOR_SPACE_MASK :: u64 where
  "MALI_GRALLOC_USAGE_YUV_COLOR_SPACE_MASK = GRALLOC_USAGE_PRIVATE 18 OR GRALLOC_USAGE_PRIVATE 19"

definition MALI_GRALLOC_USAGE_RANGE_NARROW :: u64 where
  "MALI_GRALLOC_USAGE_RANGE_NARROW = GRALLOC_USAGE_PRIVATE 16"

definition MALI_GRALLOC_USAGE_RANGE_WIDE :: u64 where
  "MALI_GRALLOC_USAGE_RANGE_WIDE = GRALLOC_USAGE_PRIVATE 17"

definition MALI_GRALLOC_USAGE_RANGE_MASK :: u64 where
  "MALI_GRALLOC_USAGE_RANGE_MASK = GRALLOC_USAGE_PRIVATE 16 OR GRALLOC_USAGE_PRIVATE 17"

definition MALI_GRALLOC_USAGE_CHROMA_SITING_CENTER :: u64 where
  "MALI_GRALLOC_USAGE_CHROMA_SITING_CENTER = GRALLOC_USAGE_PRIVATE 20"

definition MALI_GRALLOC_USAGE_CHROMA_SITING_COSITED :: u64 where
  "MALI_GRALLOC_USAGE_CHROMA_SITING_COSITED = GRALLOC_USAGE_PRIVATE 21"

definition MALI_GRALLOC_USAGE_CHROMA_SITING_CENTER_X :: u64 where
  "MALI_GRALLOC_USAGE_CHROMA_SITING_CENTER_X = GRALLOC_USAGE_PRIVATE 22"

definition MALI_GRALLOC_USAGE_CHROMA_SITING_CENTER_Y :: u64 where
  "MALI_GRALLOC_USAGE_CHROMA_SITING_CENTER_Y = GRALLOC_USAGE_PRIVATE 20 OR GRALLOC_USAGE_PRIVATE 21"

definition MALI_GRALLOC_USAGE_CHROMA_SITING_MASK :: u64 where
  "MALI_GRALLOC_USAGE_CHROMA_SITING_MASK = GRALLOC_USAGE_PRIVATE 20 OR GRALLOC_USAGE_PRIVATE 21 OR GRALLOC_USAGE_PRIVATE 22"

definition MALI_GRALLOC_USAGE_AFRC_RGBA_LUMA_CODING_SIZE_SENTINEL :: u64 where
  "MALI_GRALLOC_USAGE_AFRC_RGBA_LUMA_CODING_SIZE_SENTINEL = GRALLOC_USAGE_PRIVATE 2"

definition MALI_GRALLOC_USAGE_AFRC_RGBA_LUMA_CODING_SIZE_16 :: u64 where
  "MALI_GRALLOC_USAGE_AFRC_RGBA_LUMA_CODING_SIZE_16 = GRALLOC_USAGE_PRIVATE 2 OR GRALLOC_USAGE_PRIVATE 0"

definition MALI_GRALLOC_USAGE_AFRC_RGBA_LUMA_CODING_SIZE_24 :: u64 where
  "MALI_GRALLOC_USAGE_AFRC_RGBA_LUMA_CODING_SIZE_24 = GRALLOC_USAGE_PRIVATE 2 OR GRALLOC_USAGE_PRIVATE 1"

definition MALI_GRALLOC_USAGE_AFRC_RGBA_LUMA_CODING_SIZE_32 :: u64 where
  "MALI_GRALLOC_USAGE_AFRC_RGBA_LUMA_CODING_SIZE_32 = GRALLOC_USAGE_PRIVATE 2"

definition MALI_GRALLOC_USAGE_AFRC_RGBA_LUMA_CODING_SIZE_MASK :: u64 where
  "MALI_GRALLOC_USAGE_AFRC_RGBA_LUMA_CODING_SIZE_MASK = GRALLOC_USAGE_PRIVATE 2 OR GRALLOC_USAGE_PRIVATE 1 OR GRALLOC_USAGE_PRIVATE 0"

definition MALI_GRALLOC_USAGE_AFRC_CHROMA_CODING_SIZE_16 :: u64 where
  "MALI_GRALLOC_USAGE_AFRC_CHROMA_CODING_SIZE_16 = GRALLOC_USAGE_PRIVATE 11"

definition MALI_GRALLOC_USAGE_AFRC_CHROMA_CODING_SIZE_24 :: u64 where
  "MALI_GRALLOC_USAGE_AFRC_CHROMA_CODING_SIZE_24 = GRALLOC_USAGE_PRIVATE 12"

definition MALI_GRALLOC_USAGE_AFRC_CHROMA_CODING_SIZE_32 :: u64 where
  "MALI_GRALLOC_USAGE_AFRC_CHROMA_CODING_SIZE_32 = GRALLOC_USAGE_PRIVATE 11 OR GRALLOC_USAGE_PRIVATE 12"

definition MALI_GRALLOC_USAGE_AFRC_CHROMA_CODING_SIZE_MASK :: u64 where
  "MALI_GRALLOC_USAGE_AFRC_CHROMA_CODING_SIZE_MASK = GRALLOC_USAGE_PRIVATE 11 OR GRALLOC_USAGE_PRIVATE 12"

section \<open>Public flags\<close>

definition GRALLOC_USAGE_SW_WRITE_RARELY :: u64 where
  "GRALLOC_USAGE_SW_WRITE_RARELY = 0x20"

definition GRALLOC_USAGE_SW_WRITE_OFTEN :: u64 where
  "GRALLOC_USAGE_SW_WRITE_OFTEN = 0x30"

definition GRALLOC_USAGE_SW_READ_RARELY :: u64 where
  "GRALLOC_USAGE_SW_READ_RARELY = 0x2"

definition GRALLOC_USAGE_SW_READ_OFTEN :: u64 where
  "GRALLOC_USAGE_SW_READ_OFTEN = 0x3"

definition GRALLOC_USAGE_RENDERSCRIPT :: u64 where
  "GRALLOC_USAGE_RENDERSCRIPT = 0x100000"

definition GRALLOC_USAGE_HW_FB :: u64 where
  "GRALLOC_USAGE_HW_FB = 0x1000"

definition GRALLOC_USAGE_HW_2D :: u64 where
  "GRALLOC_USAGE_HW_2D = 0x400"

definition GRALLOC_USAGE_SW_WRITE_MASK :: u64 where
  "GRALLOC_USAGE_SW_WRITE_MASK = 0xF0"

definition GRALLOC_USAGE_SW_READ_MASK :: u64 where
  "GRALLOC_USAGE_SW_READ_MASK = 0xF"

definition GRALLOC_USAGE_PROTECTED :: u64 where
  "GRALLOC_USAGE_PROTECTED = 0x4000"

definition GRALLOC_USAGE_CURSOR :: u64 where
  "GRALLOC_USAGE_CURSOR = 0x8000"

definition GRALLOC_USAGE_HW_RENDER :: u64 where
  "GRALLOC_USAGE_HW_RENDER = 0x200"

definition GRALLOC_USAGE_HW_CAMERA_WRITE :: u64 where
  "GRALLOC_USAGE_HW_CAMERA_WRITE = 0x20000"

definition GRALLOC_USAGE_HW_CAMERA_READ :: u64 where
  "GRALLOC_USAGE_HW_CAMERA_READ = 0x40000"

definition GRALLOC_USAGE_HW_TEXTURE :: u64 where
  "GRALLOC_USAGE_HW_TEXTURE = 0x100"

definition GRALLOC_USAGE_HW_VIDEO_ENCODER :: u64 where
  "GRALLOC_USAGE_HW_VIDEO_ENCODER = 0x10000"

definition GRALLOC_USAGE_HW_COMPOSER :: u64 where
  "GRALLOC_USAGE_HW_COMPOSER = 0x800"

definition GRALLOC_USAGE_EXTERNAL_DISP :: u64 where
  "GRALLOC_USAGE_EXTERNAL_DISP = 0x2000"

definition GRALLOC_USAGE_SENSOR_DIRECT_DATA :: u64 where
  "GRALLOC_USAGE_SENSOR_DIRECT_DATA = 0x800000"

definition GRALLOC_USAGE_GPU_DATA_BUFFER :: u64 where
  "GRALLOC_USAGE_GPU_DATA_BUFFER = 0x1000000"

definition GRALLOC_USAGE_DECODER :: u64 where
  "GRALLOC_USAGE_DECODER = 0x400000"

definition GRALLOC_USAGE_FRONTBUFFER :: u64 where
  "GRALLOC_USAGE_FRONTBUFFER = 0x100000000"

lemma usage_values [flag_defs]:
  "GRALLOC_USAGE_PRIVATE_MASK = 0xFFFF0000F0000000"
  "RK_GRALLOC_USAGE_ALLOC_HEIGHT_ALIGN_8 = 0x8000000000000000"
  "RK_GRALLOC_USAGE_ALLOC_HEIGHT_ALIGN_16 = 0x4000000000000000"
  "RK_GRALLOC_USAGE_ALLOC_HEIGHT_ALIGN_64 = 0xC000000000000000"
  "RK_GRALLOC_USAGE_ALLOC_HEIGHT_ALIGN_MASK = 0xC000000000000000"
  "RK_GRALLOC_USAGE_STRIDE_ALIGN_16 = 0x200000000000000"
  "RK_GRALLOC_USAGE_STRIDE_ALIGN_128 = 0x400000000000000"
  "RK_GRALLOC_USAGE_STRIDE_ALIGN_256_ODD_TIMES = 0x800000000000000"
  "RK_GRALLOC_USAGE_STRIDE_ALIGN_64 = 0x1000000000000000"
  "RK_GRALLOC_USAGE_SPECIFY_STRIDE = 0x40000000"
  "RK_GRALLOC_USAGE_PHY_CONTIG_BUFFER = 0x80000000"
  "RK_GRALLOC_USAGE_WITHIN_4G = 0x100000000000000"
  "MALI_GRALLOC_USAGE_FRONTBUFFER = 0x10000000"
  "MALI_GRALLOC_USAGE_FORCE_BACKBUFFER = 0x40000000000000"
  "MALI_GRALLOC_USAGE_NO_AFBC = 0x20000000"
  "MALI_GRALLOC_USAGE_AFBC_PADDING = 0x20000000000000"
  "MALI_GRALLOC_USAGE_YUV_COLOR_SPACE_BT601 = 0x2000000000000"
  "MALI_GRALLOC_USAGE_YUV_COLOR_SPACE_BT709 = 0x1000000000000"
  "MALI_GRALLOC_USAGE_YUV_COLOR_SPACE_BT2020 = 0x3000000000000"
  "MALI_GRALLOC_USAGE_YUV_COLOR_SPACE_MASK = 0x3000000000000"
  "MALI_GRALLOC_USAGE_RANGE_NARROW = 0x8000000000000"
  "MALI_GRALLOC_USAGE_RANGE_WIDE = 0x4000000000000"
  "MALI_GRALLOC_USAGE_RANGE_MASK = 0xC000000000000"
  "MALI_GRALLOC_USAGE_CHROMA_SITING_CENTER = 0x800000000000"
  "MALI_GRALLOC_USAGE_CHROMA_SITING_COSITED = 0x400000000000"
  "MALI_GRALLOC_USAGE_CHROMA_SITING_CENTER_X = 0x200000000000"
  "MALI_GRALLOC_USAGE_CHROMA_SITING_CENTER_Y = 0xC00000000000"
  "MALI_GRALLOC_USAGE_CHROMA_SITING_MASK = 0xE00000000000"
  "MALI_GRALLOC_USAGE_AFRC_RGBA_LUMA_CODING_SIZE_SENTINEL = 0x40000000"
  "MALI_GRALLOC_USAGE_AFRC_RGBA_LUMA_CODING_SIZE_16 = 0x50000000"
  "MALI_GRALLOC_USAGE_AFRC_RGBA_LUMA_CODING_SIZE_24 = 0x60000000"
  "MALI_GRALLOC_USAGE_AFRC_RGBA_LUMA_CODING_SIZE_32 = 0x40000000"
  "MALI_GRALLOC_USAGE_AFRC_RGBA_LUMA_CODING_SIZE_MASK = 0x70000000"
  "MALI_GRALLOC_USAGE_AFRC_CHROMA_CODING_SIZE_16 = 0x100000000000000"
  "MALI_GRALLOC_USAGE_AFRC_CHROMA_CODING_SIZE_24 = 0x80000000000000"
  "MALI_GRALLOC_USAGE_AFRC_CHROMA_CODING_SIZE_32 = 0x180000000000000"
  "MALI_GRALLOC_USAGE_AFRC_CHROMA_CODING_SIZE_MASK = 0x180000000000000"
  "GRALLOC_USAGE_SW_WRITE_RARELY = 0x20"
  "GRALLOC_USAGE_SW_WRITE_OFTEN = 0x30"
  "GRALLOC_USAGE_SW_READ_RARELY = 0x2"
  "GRALLOC_USAGE_SW_READ_OFTEN = 0x3"
  "GRALLOC_USAGE_RENDERSCRIPT = 0x100000"
  "GRALLOC_USAGE_HW_FB = 0x1000"
  "GRALLOC_USAGE_HW_2D = 0x400"
  "GRALLOC_USAGE_SW_WRITE_MASK = 0xF0"
  "GRALLOC_USAGE_SW_READ_MASK = 0xF"
  "GRALLOC_USAGE_PROTECTED = 0x4000"
  "GRALLOC_USAGE_CURSOR = 0x8000"
  "GRALLOC_USAGE_HW_RENDER = 0x200"
  "GRALLOC_USAGE_HW_CAMERA_WRITE = 0x20000"
  "GRALLOC_USAGE_HW_CAMERA_READ = 0x40000"
  "GRALLOC_USAGE_HW_TEXTURE = 0x100"
  "GRALLOC_USAGE_HW_VIDEO_ENCODER = 0x10000"
  "GRALLOC_USAGE_HW_COMPOSER = 0x800"
  "GRALLOC_USAGE_EXTERNAL_DISP = 0x2000"
  "GRALLOC_USAGE_SENSOR_DIRECT_DATA = 0x800000"
  "GRALLOC_USAGE_GPU_DATA_BUFFER = 0x1000000"
  "GRALLOC_USAGE_DECODER = 0x400000"
  "GRALLOC_USAGE_FRONTBUFFER = 0x100000000"
  by (simp_all add: GRALLOC_USAGE_PRIVATE_def GRALLOC_USAGE_PRIVATE_MASK_def
      RK_GRALLOC_USAGE_ALLOC_HEIGHT_ALIGN_8_def
      RK_GRALLOC_USAGE_ALLOC_HEIGHT_ALIGN_16_def
      RK_GRALLOC_USAGE_ALLOC_HEIGHT_ALIGN_64_def
      RK_GRALLOC_USAGE_ALLOC_HEIGHT_ALIGN_MASK_def
      RK_GRALLOC_USAGE_STRIDE_ALIGN_16_def
      RK_GRALLOC_USAGE_STRIDE_ALIGN_128_def
      RK_GRALLOC_USAGE_STRIDE_ALIGN_256_ODD_TIMES_def
      RK_GRALLOC_USAGE_STRIDE_ALIGN_64_def
      RK_GRALLOC_USAGE_SPECIFY_STRIDE_def
      RK_GRALLOC_USAGE_PHY_CONTIG_BUFFER_def
      RK_GRALLOC_USAGE_WITHIN_4G_def
      MALI_GRALLOC_USAGE_FRONTBUFFER_def
      MALI_GRALLOC_USAGE_FORCE_BACKBUFFER_def
      MALI_GRALLOC_USAGE_NO_AFBC_def
      MALI_GRALLOC_USAGE_AFBC_PADDING_def
      MALI_GRALLOC_USAGE_YUV_COLOR_SPACE_BT601_def
      MALI_GRALLOC_USAGE_YUV_COLOR_SPACE_BT709_def
      MALI_GRALLOC_USAGE_YUV_COLOR_SPACE_BT2020_def
      MALI_GRALLOC_USAGE_YUV_COLOR_SPACE_MASK_def
      MALI_GRALLOC_USAGE_RANGE_NARROW_def
      MALI_GRALLOC_USAGE_RANGE_WIDE_def
      MALI_GRALLOC_USAGE_RANGE_MASK_def
      MALI_GRALLOC_USAGE_CHROMA_SITING_CENTER_def
      MALI_GRALLOC_USAGE_CHROMA_SITING_COSITED_def
      MALI_GRALLOC_USAGE_CHROMA_SITING_CENTER_X_def
      MALI_GRALLOC_USAGE_CHROMA_SITING_CENTER_Y_def
      MALI_GRALLOC_USAGE_CHROMA_SITING_MASK_def
      MALI_GRALLOC_USAGE_AFRC_RGBA_LUMA_CODING_SIZE_SENTINEL_def
      MALI_GRALLOC_USAGE_AFRC_RGBA_LUMA_CODING_SIZE_16_def
      MALI_GRALLOC_USAGE_AFRC_RGBA_LUMA_CODING_SIZE_24_def
      MALI_GRALLOC_USAGE_AFRC_RGBA_LUMA_CODING_SIZE_32_def
      MALI_GRALLOC_USAGE_AFRC_RGBA_LUMA_CODING_SIZE_MASK_def
      MALI_GRALLOC_USAGE_AFRC_CHROMA_CODING_SIZE_16_def
      MALI_GRALLOC_USAGE_AFRC_CHROMA_CODING_SIZE_24_def
      MALI_GRALLOC_USAGE_AFRC_CHROMA_CODING_SIZE_32_def
      MALI_GRALLOC_USAGE_AFRC_CHROMA_CODING_SIZE_MASK_def
      GRALLOC_USAGE_SW_WRITE_RARELY_def
      GRALLOC_USAGE_SW_WRITE_OFTEN_def
      GRALLOC_USAGE_SW_READ_RARELY_def
      GRALLOC_USAGE_SW_READ_OFTEN_def
      GRALLOC_USAGE_RENDERSCRIPT_def
      GRALLOC_USAGE_HW_FB_def
      GRALLOC_USAGE_HW_2D_def
      GRALLOC_USAGE_SW_WRITE_MASK_def
      GRALLOC_USAGE_SW_READ_MASK_def
      GRALLOC_USAGE_PROTECTED_def
      GRALLOC_USAGE_CURSOR_def
      GRALLOC_USAGE_HW_RENDER_def
      GRALLOC_USAGE_HW_CAMERA_WRITE_def
      GRALLOC_USAGE_HW_CAMERA_READ_def
      GRALLOC_USAGE_HW_TEXTURE_def
      GRALLOC_USAGE_HW_VIDEO_ENCODER_def
      GRALLOC_USAGE_HW_COMPOSER_def
      GRALLOC_USAGE_EXTERNAL_DISP_def
      GRALLOC_USAGE_SENSOR_DIRECT_DATA_def
      GRALLOC_USAGE_GPU_DATA_BUFFER_def
      GRALLOC_USAGE_DECODER_def
      GRALLOC_USAGE_FRONTBUFFER_def)

section \<open>Sets of flags\<close>

definition STANDARD_USAGE :: u64 where
  "STANDARD_USAGE =
     GRALLOC_USAGE_SW_READ_MASK OR
     GRALLOC_USAGE_SW_WRITE_MASK OR
     GRALLOC_USAGE_HW_TEXTURE OR
     GRALLOC_USAGE_HW_RENDER OR
     GRALLOC_USAGE_HW_2D OR
     GRALLOC_USAGE_HW_COMPOSER OR
     GRALLOC_USAGE_HW_FB OR
     GRALLOC_USAGE_EXTERNAL_DISP OR
     GRALLOC_USAGE_PROTECTED OR
     GRALLOC_USAGE_CURSOR OR
     GRALLOC_USAGE_HW_VIDEO_ENCODER OR
     GRALLOC_USAGE_HW_CAMERA_WRITE OR
     GRALLOC_USAGE_HW_CAMERA_READ OR
     GRALLOC_USAGE_RENDERSCRIPT OR
     GRALLOC_USAGE_DECODER OR
     GRALLOC_USAGE_SENSOR_DIRECT_DATA OR
     GRALLOC_USAGE_GPU_DATA_BUFFER OR
     GRALLOC_USAGE_FRONTBUFFER"

definition VENDOR_USAGE :: u64 where
  "VENDOR_USAGE =
     GRALLOC_USAGE_PRIVATE 19 OR
     GRALLOC_USAGE_PRIVATE 18 OR
     GRALLOC_USAGE_PRIVATE 17 OR
     GRALLOC_USAGE_PRIVATE 16 OR
     GRALLOC_USAGE_PRIVATE 15 OR
     GRALLOC_USAGE_PRIVATE 14 OR
     GRALLOC_USAGE_PRIVATE 13 OR
     GRALLOC_USAGE_PRIVATE 12 OR
     GRALLOC_USAGE_PRIVATE 11 OR
     GRALLOC_USAGE_PRIVATE 10 OR
     GRALLOC_USAGE_PRIVATE 9 OR
     GRALLOC_USAGE_PRIVATE 8 OR
     GRALLOC_USAGE_PRIVATE 7 OR
     GRALLOC_USAGE_PRIVATE 0 OR
     GRALLOC_USAGE_PRIVATE 1 OR
     GRALLOC_USAGE_PRIVATE 2 OR
     GRALLOC_USAGE_PRIVATE 3 OR
     GRALLOC_USAGE_PRIVATE 4 OR
     GRALLOC_USAGE_PRIVATE 5"

definition VALID_USAGE :: u64 where
  "VALID_USAGE = STANDARD_USAGE OR VENDOR_USAGE"

definition UNIVERSAL_USAGES :: u64 where
  "UNIVERSAL_USAGES =
     GRALLOC_USAGE_PROTECTED OR GRALLOC_USAGE_SW_READ_MASK OR GRALLOC_USAGE_SW_WRITE_MASK"

definition add_universal_usages :: "u64 \<Rightarrow> u64" where
  "add_universal_usages usages = usages OR UNIVERSAL_USAGES"

lemma usage_set_values [flag_defs]:
  "STANDARD_USAGE = 0x101D7FFFF"
  "VENDOR_USAGE = 0xDFFF0000F0000000"
  "UNIVERSAL_USAGES = 0x40FF"
  by (simp_all add: STANDARD_USAGE_def VENDOR_USAGE_def UNIVERSAL_USAGES_def usage_values
      GRALLOC_USAGE_PRIVATE_def)

section \<open>Predicates on usage words\<close>

definition gralloc_usage_is_frontbuffer :: "u64 \<Rightarrow> bool" where
  "gralloc_usage_is_frontbuffer usage \<longleftrightarrow>
     test_flag usage GRALLOC_USAGE_FRONTBUFFER \<or>
     (test_flag usage MALI_GRALLOC_USAGE_FRONTBUFFER \<and>
      \<not> test_flag usage MALI_GRALLOC_USAGE_AFRC_RGBA_LUMA_CODING_SIZE_SENTINEL)"

definition gralloc_usage_is_no_afbc :: "u64 \<Rightarrow> bool" where
  "gralloc_usage_is_no_afbc usage \<longleftrightarrow>
     usage AND MALI_GRALLOC_USAGE_NO_AFBC = MALI_GRALLOC_USAGE_NO_AFBC \<and>
     \<not> test_flag usage MALI_GRALLOC_USAGE_AFRC_RGBA_LUMA_CODING_SIZE_SENTINEL"

text \<open>From src/src/helper_functions.h and src/src/core/buffer_allocation.h.\<close>

definition does_usage_have_flag :: "u64 \<Rightarrow> u64 \<Rightarrow> bool" where
  "does_usage_have_flag usage flag \<longleftrightarrow> flag = usage AND flag"

definition get_usage_flag_for_stride_alignment :: "u64 \<Rightarrow> u64" where
  "get_usage_flag_for_stride_alignment usage =
     usage AND (RK_GRALLOC_USAGE_STRIDE_ALIGN_16 OR RK_GRALLOC_USAGE_STRIDE_ALIGN_64
       OR RK_GRALLOC_USAGE_STRIDE_ALIGN_128 OR RK_GRALLOC_USAGE_STRIDE_ALIGN_256_ODD_TIMES)"

definition is_stride_alignment_specified :: "u64 \<Rightarrow> bool" where
  "is_stride_alignment_specified usage \<longleftrightarrow> get_usage_flag_for_stride_alignment usage \<noteq> 0"

text \<open>
  The bit tests of the code that mention CPU access.
\<close>

definition has_cpu_usage :: "u64 \<Rightarrow> bool" where
  "has_cpu_usage usage \<longleftrightarrow>
     test_flag usage (GRALLOC_USAGE_SW_READ_MASK OR GRALLOC_USAGE_SW_WRITE_MASK)"

definition has_hw_usage :: "u64 \<Rightarrow> bool" where
  "has_hw_usage usage \<longleftrightarrow>
     test_flag usage (NOT (GRALLOC_USAGE_PRIVATE_MASK OR GRALLOC_USAGE_SW_READ_MASK
       OR GRALLOC_USAGE_SW_WRITE_MASK OR GRALLOC_USAGE_FRONTBUFFER))"

text \<open>
  The vendor bits named by the header lie inside the private mask, except the three chroma
  siting bits (45 to 47), and no public flag does.
\<close>

lemma public_usage_not_private: "STANDARD_USAGE AND GRALLOC_USAGE_PRIVATE_MASK = 0"
  by (simp add: usage_set_values usage_values)

lemma vendor_usage_private: "VENDOR_USAGE AND NOT GRALLOC_USAGE_PRIVATE_MASK = 0"
  by (simp add: usage_set_values usage_values)

lemma chroma_siting_usage_not_private:
  "MALI_GRALLOC_USAGE_CHROMA_SITING_MASK AND GRALLOC_USAGE_PRIVATE_MASK = 0"
  by (simp add: usage_values)

lemma has_cpu_usage_alt:
  "has_cpu_usage usage \<longleftrightarrow>
     test_flag usage GRALLOC_USAGE_SW_READ_MASK \<or> test_flag usage GRALLOC_USAGE_SW_WRITE_MASK"
  by (simp add: has_cpu_usage_def test_flag_or_mask)

end
