(* ===== verification/Format_Info.thy ===== *)
theory Format_Info
  imports Internal_Format Usages
begin

text \<open>
  src/src/core/format_info.h and src/src/core/format_info.cpp: the table of base formats, the
  table of IP support, the mapping from platform formats to internal ones, and the lookups over
  them. The tables are split into groups in the order of the source. Small fields of a row are
  numbers: all entries are literals below 256, and the rows are never written.
\<close>

section \<open>Rows\<close>

type_synonym format_support_flags = u8

definition F_NONE :: format_support_flags where "F_NONE = 0"
definition F_LIN :: format_support_flags where "F_LIN = push_bit 0 1"
definition F_AFBC :: format_support_flags where "F_AFBC = push_bit 1 1"
definition F_AFRC :: format_support_flags where "F_AFRC = push_bit 2 1"
definition F_BL_YUV :: format_support_flags where "F_BL_YUV = push_bit 3 1"

lemma support_flag_values [flag_defs]:
  "F_NONE = 0" "F_LIN = 1" "F_AFBC = 2" "F_AFRC = 4" "F_BL_YUV = 8"
  by (simp_all add: F_NONE_def F_LIN_def F_AFBC_def F_AFRC_def F_BL_YUV_def)

record rect_t =
  rect_width :: u16
  rect_height :: u16

record format_info_t =
  fi_id :: u32
  npln :: nat
  ncmp :: "nat list"
  bps :: nat
  bpp_afbc :: "nat list"
  bpp :: "nat list"
  hsub :: nat
  vsub :: nat
  align_w :: nat
  align_h :: nat
  align_w_cpu :: nat
  tile_size :: nat
  has_alpha :: bool
  is_rgb :: bool
  is_yuv :: bool
  afbc :: bool
  linear :: bool
  yuv_transform :: bool
  flex :: bool
  block_linear :: bool
  afrc :: bool
  permitted_usage :: u64

definition total_components :: "format_info_t \<Rightarrow> nat" where
  "total_components f = sum_list (ncmp f)"

definition is_same_or_components_reordered :: "format_info_t \<Rightarrow> format_info_t \<Rightarrow> bool" where
  "is_same_or_components_reordered x y \<longleftrightarrow>
     npln x = npln y \<and> total_components x = total_components y \<and> bps x = bps y \<and>
     is_yuv x = is_yuv y \<and> hsub x = hsub y \<and> vsub x = vsub y"

record format_ip_support_t =
  ip_id :: u32
  cpu_wr :: format_support_flags
  cpu_rd :: format_support_flags
  gpu_wr :: format_support_flags
  gpu_rd :: format_support_flags
  dpu_wr :: format_support_flags
  dpu_rd :: format_support_flags
  dpu_aeu_wr :: format_support_flags
  vpu_wr :: format_support_flags
  vpu_rd :: format_support_flags
  cam_wr :: format_support_flags

section \<open>The table of base formats\<close>

definition formats_rgb :: "hal_env \<Rightarrow> format_info_t list" where
  "formats_rgb H =
    [
      \<lparr>fi_id = fmt_value H FMT_RGB_565, npln = 1, ncmp = [3, 0, 0], bps = 6, bpp_afbc = [16, 0, 0], bpp = [16, 0, 0],
       hsub = 0, vsub = 0, align_w = 1, align_h = 1, align_w_cpu = 1,
       tile_size = 1, has_alpha = False, is_rgb = True, is_yuv = False,
       afbc = True, linear = True, yuv_transform = True, flex = False, block_linear = False, afrc = False,
       permitted_usage = add_universal_usages STANDARD_USAGE\<rparr>,
      \<lparr>fi_id = fmt_value H FMT_RGB_888, npln = 1, ncmp = [3, 0, 0], bps = 8, bpp_afbc = [24, 0, 0], bpp = [24, 0, 0],
       hsub = 0, vsub = 0, align_w = 1, align_h = 1, align_w_cpu = 1,
       tile_size = 1, has_alpha = False, is_rgb = True, is_yuv = False,
       afbc = True, linear = True, yuv_transform = True, flex = True, block_linear = False, afrc = True,
       permitted_usage = add_universal_usages STANDARD_USAGE\<rparr>,
      \<lparr>fi_id = fmt_value H FMT_BGR_888, npln = 1, ncmp = [3, 0, 0], bps = 8, bpp_afbc = [0, 0, 0], bpp = [24, 0, 0],
       hsub = 0, vsub = 0, align_w = 1, align_h = 1, align_w_cpu = 1,
       tile_size = 1, has_alpha = False, is_rgb = True, is_yuv = False,
       afbc = False, linear = True, yuv_transform = False, flex = True, block_linear = False, afrc = True,
       permitted_usage = 0\<rparr>,
      \<lparr>fi_id = fmt_value H FMT_RGBA_8888, npln = 1, ncmp = [4, 0, 0], bps = 8, bpp_afbc = [32, 0, 0], bpp = [32, 0, 0],
       hsub = 0, vsub = 0, align_w = 1, align_h = 1, align_w_cpu = 1,
       tile_size = 1, has_alpha = True, is_rgb = True, is_yuv = False,
       afbc = True, linear = True, yuv_transform = True, flex = True, block_linear = False, afrc = True,
       permitted_usage = add_universal_usages STANDARD_USAGE\<rparr>,
      \<lparr>fi_id = fmt_value H FMT_BGRA_8888, npln = 1, ncmp = [4, 0, 0], bps = 8, bpp_afbc = [32, 0, 0], bpp = [32, 0, 0],
       hsub = 0, vsub = 0, align_w = 1, align_h = 1, align_w_cpu = 1,
       tile_size = 1, has_alpha = True, is_rgb = True, is_yuv = False,
       afbc = True, linear = True, yuv_transform = False, flex = True, block_linear = False, afrc = False,
       permitted_usage = add_universal_usages STANDARD_USAGE\<rparr>,
      \<lparr>fi_id = fmt_value H FMT_RGBX_8888, npln = 1, ncmp = [3, 0, 0], bps = 8, bpp_afbc = [32, 0, 0], bpp = [32, 0, 0],
       hsub = 0, vsub = 0, align_w = 1, align_h = 1, align_w_cpu = 1,
       tile_size = 1, has_alpha = False, is_rgb = True, is_yuv = False,
       afbc = True, linear = True, yuv_transform = True, flex = True, block_linear = False, afrc = False,
       permitted_usage = add_universal_usages STANDARD_USAGE\<rparr>,
      \<lparr>fi_id = fmt_value H FMT_RGBA_1010102, npln = 1, ncmp = [4, 0, 0], bps = 10, bpp_afbc = [32, 0, 0], bpp = [32, 0, 0],
       hsub = 0, vsub = 0, align_w = 1, align_h = 1, align_w_cpu = 1,
       tile_size = 1, has_alpha = True, is_rgb = True, is_yuv = False,
       afbc = True, linear = True, yuv_transform = True, flex = False, block_linear = False, afrc = False,
       permitted_usage = add_universal_usages STANDARD_USAGE\<rparr>,
      \<lparr>fi_id = fmt_value H FMT_RGBA_16161616, npln = 1, ncmp = [4, 0, 0], bps = 16, bpp_afbc = [64, 0, 0], bpp = [64, 0, 0],
       hsub = 0, vsub = 0, align_w = 1, align_h = 1, align_w_cpu = 1,
       tile_size = 1, has_alpha = True, is_rgb = True, is_yuv = False,
       afbc = True, linear = True, yuv_transform = True, flex = True, block_linear = False, afrc = False,
       permitted_usage = add_universal_usages STANDARD_USAGE\<rparr>,
      \<lparr>fi_id = fmt_value H FMT_RGBA_10101010, npln = 1, ncmp = [4, 0, 0], bps = 10, bpp_afbc = [40, 0, 0], bpp = [64, 0, 0],
       hsub = 0, vsub = 0, align_w = 1, align_h = 1, align_w_cpu = 1,
       tile_size = 1, has_alpha = True, is_rgb = True, is_yuv = False,
       afbc = True, linear = True, yuv_transform = True, flex = False, block_linear = False, afrc = True,
       permitted_usage = add_universal_usages STANDARD_USAGE\<rparr>]"

definition formats_yuv420 :: "hal_env \<Rightarrow> format_info_t list" where
  "formats_yuv420 H =
    [
      \<lparr>fi_id = fmt_value H FMT_Y8, npln = 1, ncmp = [1, 0, 0], bps = 8, bpp_afbc = [8, 0, 0], bpp = [8, 0, 0],
       hsub = 1, vsub = 1, align_w = 2, align_h = 2, align_w_cpu = 16,
       tile_size = 1, has_alpha = False, is_rgb = False, is_yuv = True,
       afbc = True, linear = True, yuv_transform = False, flex = True, block_linear = False, afrc = True,
       permitted_usage = add_universal_usages (GRALLOC_USAGE_HW_CAMERA_WRITE OR
       GRALLOC_USAGE_HW_CAMERA_READ OR GRALLOC_USAGE_HW_TEXTURE OR
       GRALLOC_USAGE_HW_RENDER)\<rparr>,
      \<lparr>fi_id = fmt_value H FMT_Y16, npln = 1, ncmp = [1, 0, 0], bps = 16, bpp_afbc = [16, 0, 0], bpp = [16, 0, 0],
       hsub = 1, vsub = 1, align_w = 2, align_h = 2, align_w_cpu = 16,
       tile_size = 1, has_alpha = False, is_rgb = False, is_yuv = True,
       afbc = True, linear = True, yuv_transform = False, flex = True, block_linear = False, afrc = False,
       permitted_usage = add_universal_usages (GRALLOC_USAGE_HW_CAMERA_WRITE OR
       GRALLOC_USAGE_HW_CAMERA_READ OR GRALLOC_USAGE_HW_TEXTURE OR
       GRALLOC_USAGE_HW_RENDER)\<rparr>,
      \<lparr>fi_id = fmt_value H FMT_YUV420_8BIT_I, npln = 1, ncmp = [3, 0, 0], bps = 8, bpp_afbc = [12, 0, 0], bpp = [0, 0, 0],
       hsub = 2, vsub = 2, align_w = 2, align_h = 2, align_w_cpu = 1,
       tile_size = 1, has_alpha = False, is_rgb = False, is_yuv = True,
       afbc = True, linear = False, yuv_transform = False, flex = False, block_linear = False, afrc = False,
       permitted_usage = add_universal_usages STANDARD_USAGE\<rparr>,
      \<lparr>fi_id = fmt_value H FMT_NV12, npln = 2, ncmp = [1, 2, 0], bps = 8, bpp_afbc = [8, 16, 0], bpp = [8, 16, 0],
       hsub = 2, vsub = 2, align_w = 2, align_h = 2, align_w_cpu = 1,
       tile_size = 1, has_alpha = False, is_rgb = False, is_yuv = True,
       afbc = True, linear = True, yuv_transform = False, flex = True, block_linear = True, afrc = True,
       permitted_usage = add_universal_usages (GRALLOC_USAGE_HW_TEXTURE OR
       GRALLOC_USAGE_HW_RENDER OR GRALLOC_USAGE_HW_COMPOSER OR GRALLOC_USAGE_DECODER OR
       GRALLOC_USAGE_HW_VIDEO_ENCODER OR GRALLOC_USAGE_HW_FB OR
       GRALLOC_USAGE_FRONTBUFFER)\<rparr>,
      \<lparr>fi_id = fmt_value H FMT_NV21, npln = 2, ncmp = [1, 2, 0], bps = 8, bpp_afbc = [8, 16, 0], bpp = [8, 16, 0],
       hsub = 2, vsub = 2, align_w = 2, align_h = 2, align_w_cpu = 1,
       tile_size = 1, has_alpha = False, is_rgb = False, is_yuv = True,
       afbc = True, linear = True, yuv_transform = False, flex = True, block_linear = False, afrc = True,
       permitted_usage = add_universal_usages STANDARD_USAGE\<rparr>,
      \<lparr>fi_id = fmt_value H FMT_YV12, npln = 3, ncmp = [1, 1, 1], bps = 8, bpp_afbc = [8, 8, 8], bpp = [8, 8, 8],
       hsub = 2, vsub = 2, align_w = 2, align_h = 2, align_w_cpu = 16,
       tile_size = 1, has_alpha = False, is_rgb = False, is_yuv = True,
       afbc = True, linear = True, yuv_transform = False, flex = True, block_linear = False, afrc = False,
       permitted_usage = add_universal_usages (GRALLOC_USAGE_HW_CAMERA_WRITE OR
       GRALLOC_USAGE_HW_CAMERA_READ OR GRALLOC_USAGE_HW_TEXTURE OR GRALLOC_USAGE_HW_RENDER OR
       GRALLOC_USAGE_HW_COMPOSER OR GRALLOC_USAGE_HW_FB OR GRALLOC_USAGE_HW_VIDEO_ENCODER OR
       GRALLOC_USAGE_DECODER OR GRALLOC_USAGE_EXTERNAL_DISP OR
       GRALLOC_USAGE_FRONTBUFFER)\<rparr>,
      \<lparr>fi_id = fmt_value H FMT_YU12, npln = 3, ncmp = [1, 1, 1], bps = 8, bpp_afbc = [0, 0, 0], bpp = [8, 8, 8],
       hsub = 2, vsub = 2, align_w = 2, align_h = 2, align_w_cpu = 16,
       tile_size = 1, has_alpha = False, is_rgb = False, is_yuv = True,
       afbc = False, linear = True, yuv_transform = False, flex = True, block_linear = False, afrc = True,
       permitted_usage = add_universal_usages STANDARD_USAGE\<rparr>]"

definition formats_yuv422_444 :: "hal_env \<Rightarrow> format_info_t list" where
  "formats_yuv422_444 H =
    [
      \<lparr>fi_id = fmt_value H FMT_YUV422_8BIT, npln = 1, ncmp = [3, 0, 0], bps = 8, bpp_afbc = [16, 0, 0], bpp = [16, 0, 0],
       hsub = 2, vsub = 1, align_w = 2, align_h = 1, align_w_cpu = 1,
       tile_size = 1, has_alpha = False, is_rgb = False, is_yuv = True,
       afbc = True, linear = True, yuv_transform = False, flex = True, block_linear = False, afrc = False,
       permitted_usage = add_universal_usages STANDARD_USAGE\<rparr>,
      \<lparr>fi_id = fmt_value H FMT_NV16, npln = 2, ncmp = [1, 2, 0], bps = 8, bpp_afbc = [8, 16, 0], bpp = [8, 16, 0],
       hsub = 2, vsub = 1, align_w = 2, align_h = 1, align_w_cpu = 1,
       tile_size = 1, has_alpha = False, is_rgb = False, is_yuv = True,
       afbc = True, linear = True, yuv_transform = False, flex = True, block_linear = True, afrc = True,
       permitted_usage = add_universal_usages STANDARD_USAGE\<rparr>,
      \<lparr>fi_id = fmt_value H FMT_NV24, npln = 2, ncmp = [1, 2, 0], bps = 8, bpp_afbc = [0, 0, 0], bpp = [8, 16, 0],
       hsub = 1, vsub = 1, align_w = 1, align_h = 1, align_w_cpu = 1,
       tile_size = 1, has_alpha = False, is_rgb = False, is_yuv = True,
       afbc = False, linear = True, yuv_transform = False, flex = True, block_linear = False, afrc = False,
       permitted_usage = 0\<rparr>,
      \<lparr>fi_id = fmt_value H FMT_YUV444, npln = 3, ncmp = [1, 1, 1], bps = 8, bpp_afbc = [0, 0, 0], bpp = [0, 0, 0],
       hsub = 1, vsub = 1, align_w = 1, align_h = 1, align_w_cpu = 1,
       tile_size = 1, has_alpha = False, is_rgb = False, is_yuv = True,
       afbc = False, linear = False, yuv_transform = False, flex = False, block_linear = False, afrc = True,
       permitted_usage = add_universal_usages STANDARD_USAGE\<rparr>,
      \<lparr>fi_id = fmt_value H FMT_NV30, npln = 3, ncmp = [1, 2, 0], bps = 10, bpp_afbc = [0, 0, 0], bpp = [10, 20, 0],
       hsub = 1, vsub = 1, align_w = 2, align_h = 2, align_w_cpu = 1,
       tile_size = 1, has_alpha = False, is_rgb = False, is_yuv = True,
       afbc = False, linear = True, yuv_transform = False, flex = False, block_linear = False, afrc = False,
       permitted_usage = 0\<rparr>,
      \<lparr>fi_id = fmt_value H FMT_Q410, npln = 3, ncmp = [1, 1, 1], bps = 10, bpp_afbc = [0, 0, 0], bpp = [0, 0, 0],
       hsub = 1, vsub = 1, align_w = 1, align_h = 1, align_w_cpu = 1,
       tile_size = 1, has_alpha = False, is_rgb = False, is_yuv = True,
       afbc = False, linear = False, yuv_transform = False, flex = False, block_linear = False, afrc = True,
       permitted_usage = add_universal_usages STANDARD_USAGE\<rparr>,
      \<lparr>fi_id = fmt_value H FMT_Q401, npln = 3, ncmp = [1, 1, 1], bps = 10, bpp_afbc = [0, 0, 0], bpp = [0, 0, 0],
       hsub = 1, vsub = 1, align_w = 1, align_h = 1, align_w_cpu = 1,
       tile_size = 1, has_alpha = False, is_rgb = False, is_yuv = True,
       afbc = False, linear = False, yuv_transform = False, flex = False, block_linear = False, afrc = True,
       permitted_usage = add_universal_usages STANDARD_USAGE\<rparr>]"

definition formats_yuv_10bit :: "hal_env \<Rightarrow> format_info_t list" where
  "formats_yuv_10bit H =
    [
      \<lparr>fi_id = fmt_value H FMT_YUV420_10BIT_I, npln = 1, ncmp = [3, 0, 0], bps = 10, bpp_afbc = [15, 0, 0], bpp = [0, 0, 0],
       hsub = 2, vsub = 2, align_w = 2, align_h = 2, align_w_cpu = 1,
       tile_size = 1, has_alpha = False, is_rgb = False, is_yuv = True,
       afbc = True, linear = False, yuv_transform = False, flex = False, block_linear = False, afrc = False,
       permitted_usage = add_universal_usages STANDARD_USAGE\<rparr>,
      \<lparr>fi_id = fmt_value H FMT_Y0L2, npln = 1, ncmp = [4, 0, 0], bps = 10, bpp_afbc = [0, 0, 0], bpp = [16, 0, 0],
       hsub = 2, vsub = 2, align_w = 2, align_h = 2, align_w_cpu = 1,
       tile_size = 2, has_alpha = True, is_rgb = False, is_yuv = True,
       afbc = False, linear = True, yuv_transform = False, flex = False, block_linear = False, afrc = False,
       permitted_usage = add_universal_usages STANDARD_USAGE\<rparr>,
      \<lparr>fi_id = fmt_value H FMT_P010, npln = 2, ncmp = [1, 2, 0], bps = 10, bpp_afbc = [10, 20, 0], bpp = [16, 32, 0],
       hsub = 2, vsub = 2, align_w = 2, align_h = 2, align_w_cpu = 1,
       tile_size = 1, has_alpha = False, is_rgb = False, is_yuv = True,
       afbc = True, linear = True, yuv_transform = False, flex = True, block_linear = True, afrc = True,
       permitted_usage = add_universal_usages STANDARD_USAGE\<rparr>,
      \<lparr>fi_id = fmt_value H FMT_NV15, npln = 2, ncmp = [1, 2, 0], bps = 10, bpp_afbc = [0, 0, 0], bpp = [10, 20, 0],
       hsub = 2, vsub = 2, align_w = 2, align_h = 2, align_w_cpu = 1,
       tile_size = 1, has_alpha = False, is_rgb = False, is_yuv = True,
       afbc = False, linear = True, yuv_transform = False, flex = False, block_linear = True, afrc = False,
       permitted_usage = add_universal_usages STANDARD_USAGE\<rparr>,
      \<lparr>fi_id = fmt_value H FMT_Y210, npln = 1, ncmp = [3, 0, 0], bps = 10, bpp_afbc = [20, 0, 0], bpp = [32, 0, 0],
       hsub = 2, vsub = 1, align_w = 2, align_h = 1, align_w_cpu = 1,
       tile_size = 1, has_alpha = False, is_rgb = False, is_yuv = True,
       afbc = True, linear = True, yuv_transform = False, flex = True, block_linear = False, afrc = False,
       permitted_usage = add_universal_usages STANDARD_USAGE\<rparr>,
      \<lparr>fi_id = fmt_value H FMT_P210, npln = 2, ncmp = [1, 2, 0], bps = 10, bpp_afbc = [10, 20, 0], bpp = [16, 32, 0],
       hsub = 2, vsub = 1, align_w = 2, align_h = 1, align_w_cpu = 1,
       tile_size = 1, has_alpha = False, is_rgb = False, is_yuv = True,
       afbc = True, linear = True, yuv_transform = False, flex = True, block_linear = False, afrc = True,
       permitted_usage = add_universal_usages STANDARD_USAGE\<rparr>,
      \<lparr>fi_id = fmt_value H FMT_Y410, npln = 1, ncmp = [4, 0, 0], bps = 10, bpp_afbc = [0, 0, 0], bpp = [32, 0, 0],
       hsub = 1, vsub = 1, align_w = 1, align_h = 1, align_w_cpu = 1,
       tile_size = 1, has_alpha = True, is_rgb = False, is_yuv = True,
       afbc = False, linear = True, yuv_transform = False, flex = False, block_linear = False, afrc = False,
       permitted_usage = add_universal_usages STANDARD_USAGE\<rparr>]"

definition formats_raw :: "hal_env \<Rightarrow> format_info_t list" where
  "formats_raw H =
    [
      \<lparr>fi_id = fmt_value H FMT_RAW16, npln = 1, ncmp = [1, 0, 0], bps = 16, bpp_afbc = [0, 0, 0], bpp = [16, 0, 0],
       hsub = 0, vsub = 0, align_w = 2, align_h = 2, align_w_cpu = 16,
       tile_size = 1, has_alpha = False, is_rgb = False, is_yuv = False,
       afbc = False, linear = True, yuv_transform = False, flex = False, block_linear = False, afrc = False,
       permitted_usage = add_universal_usages STANDARD_USAGE\<rparr>,
      \<lparr>fi_id = fmt_value H FMT_RAW12, npln = 1, ncmp = [1, 0, 0], bps = 12, bpp_afbc = [0, 0, 0], bpp = [12, 0, 0],
       hsub = 0, vsub = 0, align_w = 4, align_h = 2, align_w_cpu = 4,
       tile_size = 1, has_alpha = False, is_rgb = False, is_yuv = False,
       afbc = False, linear = True, yuv_transform = False, flex = False, block_linear = False, afrc = False,
       permitted_usage = add_universal_usages (GRALLOC_USAGE_HW_CAMERA_WRITE OR
       GRALLOC_USAGE_HW_CAMERA_READ OR GRALLOC_USAGE_RENDERSCRIPT OR GRALLOC_USAGE_HW_TEXTURE OR
       GRALLOC_USAGE_HW_RENDER)\<rparr>,
      \<lparr>fi_id = fmt_value H FMT_RAW10, npln = 1, ncmp = [1, 0, 0], bps = 10, bpp_afbc = [0, 0, 0], bpp = [10, 0, 0],
       hsub = 0, vsub = 0, align_w = 4, align_h = 2, align_w_cpu = 4,
       tile_size = 1, has_alpha = False, is_rgb = False, is_yuv = False,
       afbc = False, linear = True, yuv_transform = False, flex = False, block_linear = False, afrc = False,
       permitted_usage = add_universal_usages (GRALLOC_USAGE_HW_CAMERA_WRITE OR
       GRALLOC_USAGE_HW_CAMERA_READ OR GRALLOC_USAGE_RENDERSCRIPT OR GRALLOC_USAGE_HW_TEXTURE OR
       GRALLOC_USAGE_HW_RENDER)\<rparr>,
      \<lparr>fi_id = fmt_value H FMT_BLOB, npln = 1, ncmp = [1, 0, 0], bps = 8, bpp_afbc = [0, 0, 0], bpp = [8, 0, 0],
       hsub = 0, vsub = 0, align_w = 1, align_h = 1, align_w_cpu = 1,
       tile_size = 1, has_alpha = False, is_rgb = False, is_yuv = False,
       afbc = False, linear = True, yuv_transform = False, flex = False, block_linear = False, afrc = False,
       permitted_usage = add_universal_usages STANDARD_USAGE\<rparr>]"

definition formats_depth :: "hal_env \<Rightarrow> format_info_t list" where
  "formats_depth H =
    [
      \<lparr>fi_id = fmt_value H FMT_DEPTH_16, npln = 1, ncmp = [1, 0, 0], bps = 16, bpp_afbc = [0, 0, 0], bpp = [16, 0, 0],
       hsub = 0, vsub = 0, align_w = 1, align_h = 1, align_w_cpu = 1,
       tile_size = 1, has_alpha = False, is_rgb = False, is_yuv = False,
       afbc = False, linear = True, yuv_transform = False, flex = False, block_linear = False, afrc = False,
       permitted_usage = add_universal_usages STANDARD_USAGE\<rparr>,
      \<lparr>fi_id = fmt_value H FMT_DEPTH_24, npln = 1, ncmp = [1, 0, 0], bps = 24, bpp_afbc = [0, 0, 0], bpp = [24, 0, 0],
       hsub = 0, vsub = 0, align_w = 1, align_h = 1, align_w_cpu = 1,
       tile_size = 1, has_alpha = False, is_rgb = False, is_yuv = False,
       afbc = False, linear = True, yuv_transform = False, flex = False, block_linear = False, afrc = False,
       permitted_usage = add_universal_usages STANDARD_USAGE\<rparr>,
      \<lparr>fi_id = fmt_value H FMT_DEPTH_24_STENCIL_8, npln = 1, ncmp = [2, 0, 0], bps = 24, bpp_afbc = [0, 0, 0], bpp = [32, 0, 0],
       hsub = 0, vsub = 0, align_w = 1, align_h = 1, align_w_cpu = 1,
       tile_size = 1, has_alpha = False, is_rgb = False, is_yuv = False,
       afbc = False, linear = True, yuv_transform = False, flex = False, block_linear = False, afrc = False,
       permitted_usage = add_universal_usages STANDARD_USAGE\<rparr>,
      \<lparr>fi_id = fmt_value H FMT_DEPTH_32F, npln = 1, ncmp = [1, 0, 0], bps = 32, bpp_afbc = [0, 0, 0], bpp = [32, 0, 0],
       hsub = 0, vsub = 0, align_w = 1, align_h = 1, align_w_cpu = 1,
       tile_size = 1, has_alpha = False, is_rgb = False, is_yuv = False,
       afbc = False, linear = True, yuv_transform = False, flex = False, block_linear = False, afrc = False,
       permitted_usage = add_universal_usages STANDARD_USAGE\<rparr>,
      \<lparr>fi_id = fmt_value H FMT_DEPTH_32F_STENCIL_8, npln = 1, ncmp = [2, 0, 0], bps = 32, bpp_afbc = [0, 0, 0], bpp = [40, 0, 0],
       hsub = 0, vsub = 0, align_w = 1, align_h = 1, align_w_cpu = 1,
       tile_size = 1, has_alpha = False, is_rgb = False, is_yuv = False,
       afbc = False, linear = True, yuv_transform = False, flex = False, block_linear = False, afrc = False,
       permitted_usage = add_universal_usages STANDARD_USAGE\<rparr>,
      \<lparr>fi_id = fmt_value H FMT_STENCIL_8, npln = 1, ncmp = [1, 0, 0], bps = 8, bpp_afbc = [0, 0, 0], bpp = [8, 0, 0],
       hsub = 0, vsub = 0, align_w = 1, align_h = 1, align_w_cpu = 1,
       tile_size = 1, has_alpha = False, is_rgb = False, is_yuv = False,
       afbc = False, linear = True, yuv_transform = False, flex = False, block_linear = False, afrc = False,
       permitted_usage = add_universal_usages STANDARD_USAGE\<rparr>,
      \<lparr>fi_id = fmt_value H FMT_R8, npln = 1, ncmp = [1, 0, 0], bps = 8, bpp_afbc = [0, 0, 0], bpp = [8, 0, 0],
       hsub = 0, vsub = 0, align_w = 1, align_h = 1, align_w_cpu = 1,
       tile_size = 1, has_alpha = False, is_rgb = True, is_yuv = False,
       afbc = False, linear = True, yuv_transform = False, flex = False, block_linear = False, afrc = False,
       permitted_usage = add_universal_usages (GRALLOC_USAGE_HW_TEXTURE OR
       GRALLOC_USAGE_HW_RENDER)\<rparr>]"

definition formats :: "hal_env \<Rightarrow> format_info_t list" where
  "formats H = formats_rgb H @ formats_yuv420 H @ formats_yuv422_444 H @ formats_yuv_10bit H @
     formats_raw H @ formats_depth H"

section \<open>The table of IP support\<close>

definition ip_support_rgb :: "hal_env \<Rightarrow> format_ip_support_t list" where
  "ip_support_rgb H =
    [
      \<lparr>ip_id = fmt_value H FMT_RGB_565,
       cpu_wr = F_LIN, cpu_rd = F_LIN, gpu_wr = F_LIN OR F_AFBC, gpu_rd = F_LIN OR F_AFBC,
       dpu_wr = F_NONE, dpu_rd = F_LIN OR F_AFBC, dpu_aeu_wr = F_AFBC,
       vpu_wr = F_NONE, vpu_rd = F_NONE, cam_wr = F_NONE\<rparr>,
      \<lparr>ip_id = fmt_value H FMT_RGB_888,
       cpu_wr = F_LIN, cpu_rd = F_LIN, gpu_wr = F_LIN OR F_AFBC OR F_AFRC, gpu_rd = F_LIN OR F_AFBC OR F_AFRC,
       dpu_wr = F_LIN, dpu_rd = F_LIN OR F_AFBC OR F_AFRC, dpu_aeu_wr = F_AFBC,
       vpu_wr = F_NONE, vpu_rd = F_NONE, cam_wr = F_NONE\<rparr>,
      \<lparr>ip_id = fmt_value H FMT_BGR_888,
       cpu_wr = F_LIN, cpu_rd = F_LIN, gpu_wr = F_LIN OR F_AFBC OR F_AFRC, gpu_rd = F_LIN OR F_AFBC OR F_AFRC,
       dpu_wr = F_LIN, dpu_rd = F_LIN OR F_AFBC OR F_AFRC, dpu_aeu_wr = F_AFBC,
       vpu_wr = F_NONE, vpu_rd = F_NONE, cam_wr = F_NONE\<rparr>,
      \<lparr>ip_id = fmt_value H FMT_RGBA_8888,
       cpu_wr = F_LIN, cpu_rd = F_LIN, gpu_wr = F_LIN OR F_AFBC OR F_AFRC, gpu_rd = F_LIN OR F_AFBC OR F_AFRC,
       dpu_wr = F_LIN, dpu_rd = F_LIN OR F_AFBC OR F_AFRC, dpu_aeu_wr = F_AFBC,
       vpu_wr = F_NONE, vpu_rd = F_LIN, cam_wr = F_NONE\<rparr>,
      \<lparr>ip_id = fmt_value H FMT_BGRA_8888,
       cpu_wr = F_LIN, cpu_rd = F_LIN, gpu_wr = F_LIN, gpu_rd = F_LIN,
       dpu_wr = F_LIN, dpu_rd = F_LIN, dpu_aeu_wr = F_NONE,
       vpu_wr = F_NONE, vpu_rd = F_LIN, cam_wr = F_NONE\<rparr>,
      \<lparr>ip_id = fmt_value H FMT_RGBX_8888,
       cpu_wr = F_LIN, cpu_rd = F_LIN, gpu_wr = F_LIN OR F_AFBC, gpu_rd = F_LIN OR F_AFBC,
       dpu_wr = F_LIN, dpu_rd = F_LIN OR F_AFBC, dpu_aeu_wr = F_NONE,
       vpu_wr = F_NONE, vpu_rd = F_NONE, cam_wr = F_NONE\<rparr>,
      \<lparr>ip_id = fmt_value H FMT_RGBA_1010102,
       cpu_wr = F_LIN, cpu_rd = F_LIN, gpu_wr = F_LIN OR F_AFBC, gpu_rd = F_LIN OR F_AFBC,
       dpu_wr = F_LIN, dpu_rd = F_LIN OR F_AFBC, dpu_aeu_wr = F_AFBC,
       vpu_wr = F_NONE, vpu_rd = F_NONE, cam_wr = F_NONE\<rparr>,
      \<lparr>ip_id = fmt_value H FMT_RGBA_16161616,
       cpu_wr = F_LIN, cpu_rd = F_LIN, gpu_wr = F_LIN OR F_AFBC, gpu_rd = F_LIN OR F_AFBC,
       dpu_wr = F_NONE, dpu_rd = F_NONE, dpu_aeu_wr = F_NONE,
       vpu_wr = F_NONE, vpu_rd = F_NONE, cam_wr = F_NONE\<rparr>,
      \<lparr>ip_id = fmt_value H FMT_RGBA_10101010,
       cpu_wr = F_LIN, cpu_rd = F_LIN, gpu_wr = F_LIN OR F_AFBC OR F_AFRC, gpu_rd = F_LIN OR F_AFBC OR F_AFRC,
       dpu_wr = F_NONE, dpu_rd = F_AFRC, dpu_aeu_wr = F_NONE,
       vpu_wr = F_NONE, vpu_rd = F_NONE, cam_wr = F_NONE\<rparr>]"

definition ip_support_yuv420 :: "hal_env \<Rightarrow> format_ip_support_t list" where
  "ip_support_yuv420 H =
    [
      \<lparr>ip_id = fmt_value H FMT_Y8,
       cpu_wr = F_LIN, cpu_rd = F_LIN, gpu_wr = F_NONE, gpu_rd = F_NONE,
       dpu_wr = F_NONE, dpu_rd = F_NONE, dpu_aeu_wr = F_NONE,
       vpu_wr = F_NONE, vpu_rd = F_NONE, cam_wr = F_NONE\<rparr>,
      \<lparr>ip_id = fmt_value H FMT_Y16,
       cpu_wr = F_LIN, cpu_rd = F_LIN, gpu_wr = F_NONE, gpu_rd = F_NONE,
       dpu_wr = F_NONE, dpu_rd = F_NONE, dpu_aeu_wr = F_NONE,
       vpu_wr = F_NONE, vpu_rd = F_NONE, cam_wr = F_NONE\<rparr>,
      \<lparr>ip_id = fmt_value H FMT_YUV420_8BIT_I,
       cpu_wr = F_NONE, cpu_rd = F_NONE, gpu_wr = F_AFBC, gpu_rd = F_AFBC,
       dpu_wr = F_NONE, dpu_rd = F_AFBC, dpu_aeu_wr = F_AFBC,
       vpu_wr = F_AFBC, vpu_rd = F_AFBC, cam_wr = F_NONE\<rparr>,
      \<lparr>ip_id = fmt_value H FMT_NV12,
       cpu_wr = F_LIN, cpu_rd = F_LIN, gpu_wr = F_LIN OR F_AFRC OR F_BL_YUV, gpu_rd = F_LIN OR F_AFBC OR F_BL_YUV OR F_AFRC,
       dpu_wr = F_LIN, dpu_rd = F_LIN OR F_AFRC, dpu_aeu_wr = F_NONE,
       vpu_wr = F_LIN OR F_BL_YUV, vpu_rd = F_LIN, cam_wr = F_NONE\<rparr>,
      \<lparr>ip_id = fmt_value H FMT_NV21,
       cpu_wr = F_LIN, cpu_rd = F_LIN, gpu_wr = F_LIN OR F_AFRC, gpu_rd = F_LIN OR F_AFRC,
       dpu_wr = F_NONE, dpu_rd = F_NONE OR F_AFRC, dpu_aeu_wr = F_NONE,
       vpu_wr = F_LIN, vpu_rd = F_LIN, cam_wr = F_NONE\<rparr>,
      \<lparr>ip_id = fmt_value H FMT_YV12,
       cpu_wr = F_LIN, cpu_rd = F_LIN, gpu_wr = F_LIN OR F_AFRC, gpu_rd = F_LIN OR F_AFRC,
       dpu_wr = F_NONE, dpu_rd = F_LIN OR F_AFRC, dpu_aeu_wr = F_NONE,
       vpu_wr = F_LIN, vpu_rd = F_LIN, cam_wr = F_NONE\<rparr>,
      \<lparr>ip_id = fmt_value H FMT_YU12,
       cpu_wr = F_LIN, cpu_rd = F_LIN, gpu_wr = F_LIN OR F_AFRC, gpu_rd = F_LIN OR F_AFRC,
       dpu_wr = F_NONE, dpu_rd = F_LIN OR F_AFRC, dpu_aeu_wr = F_NONE,
       vpu_wr = F_LIN, vpu_rd = F_LIN, cam_wr = F_NONE\<rparr>]"

definition ip_support_yuv422_444 :: "hal_env \<Rightarrow> format_ip_support_t list" where
  "ip_support_yuv422_444 H =
    [
      \<lparr>ip_id = fmt_value H FMT_YUV422_8BIT,
       cpu_wr = F_LIN, cpu_rd = F_LIN, gpu_wr = F_LIN OR F_AFBC, gpu_rd = F_LIN OR F_AFBC,
       dpu_wr = F_NONE, dpu_rd = F_LIN OR F_AFBC, dpu_aeu_wr = F_AFBC,
       vpu_wr = F_NONE, vpu_rd = F_NONE, cam_wr = F_NONE\<rparr>,
      \<lparr>ip_id = fmt_value H FMT_NV16,
       cpu_wr = F_LIN, cpu_rd = F_LIN, gpu_wr = F_LIN OR F_AFRC OR F_BL_YUV, gpu_rd = F_LIN OR F_AFBC OR F_BL_YUV OR F_AFRC,
       dpu_wr = F_NONE, dpu_rd = F_NONE OR F_AFRC, dpu_aeu_wr = F_NONE,
       vpu_wr = F_BL_YUV, vpu_rd = F_NONE, cam_wr = F_NONE\<rparr>,
      \<lparr>ip_id = fmt_value H FMT_NV24,
       cpu_wr = F_LIN, cpu_rd = F_LIN, gpu_wr = F_LIN OR F_AFRC OR F_BL_YUV, gpu_rd = F_LIN OR F_AFBC OR F_BL_YUV OR F_AFRC,
       dpu_wr = F_NONE, dpu_rd = F_NONE OR F_AFRC, dpu_aeu_wr = F_NONE,
       vpu_wr = F_BL_YUV, vpu_rd = F_NONE, cam_wr = F_NONE\<rparr>,
      \<lparr>ip_id = fmt_value H FMT_YUV444,
       cpu_wr = F_NONE, cpu_rd = F_NONE, gpu_wr = F_AFRC, gpu_rd = F_AFRC,
       dpu_wr = F_NONE, dpu_rd = F_AFRC, dpu_aeu_wr = F_NONE,
       vpu_wr = F_NONE, vpu_rd = F_NONE, cam_wr = F_NONE\<rparr>,
      \<lparr>ip_id = fmt_value H FMT_NV30,
       cpu_wr = F_NONE, cpu_rd = F_NONE, gpu_wr = F_NONE, gpu_rd = F_BL_YUV,
       dpu_wr = F_NONE, dpu_rd = F_NONE, dpu_aeu_wr = F_NONE,
       vpu_wr = F_BL_YUV, vpu_rd = F_NONE, cam_wr = F_NONE\<rparr>,
      \<lparr>ip_id = fmt_value H FMT_Q410,
       cpu_wr = F_NONE, cpu_rd = F_NONE, gpu_wr = F_AFRC, gpu_rd = F_AFRC,
       dpu_wr = F_NONE, dpu_rd = F_AFRC, dpu_aeu_wr = F_NONE,
       vpu_wr = F_NONE, vpu_rd = F_NONE, cam_wr = F_NONE\<rparr>,
      \<lparr>ip_id = fmt_value H FMT_Q401,
       cpu_wr = F_NONE, cpu_rd = F_NONE, gpu_wr = F_AFRC, gpu_rd = F_AFRC,
       dpu_wr = F_NONE, dpu_rd = F_AFRC, dpu_aeu_wr = F_NONE,
       vpu_wr = F_NONE, vpu_rd = F_NONE, cam_wr = F_NONE\<rparr>]"

definition ip_support_yuv_10bit :: "hal_env \<Rightarrow> format_ip_support_t list" where
  "ip_support_yuv_10bit H =
    [
      \<lparr>ip_id = fmt_value H FMT_YUV420_10BIT_I,
       cpu_wr = F_NONE, cpu_rd = F_NONE, gpu_wr = F_AFBC, gpu_rd = F_AFBC,
       dpu_wr = F_NONE, dpu_rd = F_AFBC, dpu_aeu_wr = F_AFBC,
       vpu_wr = F_AFBC, vpu_rd = F_AFBC, cam_wr = F_NONE\<rparr>,
      \<lparr>ip_id = fmt_value H FMT_Y0L2,
       cpu_wr = F_LIN, cpu_rd = F_LIN, gpu_wr = F_LIN, gpu_rd = F_LIN,
       dpu_wr = F_NONE, dpu_rd = F_LIN, dpu_aeu_wr = F_NONE,
       vpu_wr = F_LIN, vpu_rd = F_LIN, cam_wr = F_NONE\<rparr>,
      \<lparr>ip_id = fmt_value H FMT_P010,
       cpu_wr = F_LIN, cpu_rd = F_LIN, gpu_wr = F_LIN OR F_BL_YUV OR F_AFRC, gpu_rd = F_LIN OR F_BL_YUV OR F_AFRC,
       dpu_wr = F_NONE, dpu_rd = F_LIN OR F_AFRC, dpu_aeu_wr = F_NONE,
       vpu_wr = F_LIN OR F_BL_YUV, vpu_rd = F_LIN, cam_wr = F_NONE\<rparr>,
      \<lparr>ip_id = fmt_value H FMT_NV15,
       cpu_wr = F_NONE, cpu_rd = F_NONE, gpu_wr = F_NONE, gpu_rd = F_BL_YUV,
       dpu_wr = F_NONE, dpu_rd = F_NONE, dpu_aeu_wr = F_NONE,
       vpu_wr = F_BL_YUV, vpu_rd = F_NONE, cam_wr = F_NONE\<rparr>,
      \<lparr>ip_id = fmt_value H FMT_Y210,
       cpu_wr = F_LIN, cpu_rd = F_LIN, gpu_wr = F_LIN OR F_AFBC, gpu_rd = F_LIN OR F_AFBC,
       dpu_wr = F_NONE, dpu_rd = F_NONE, dpu_aeu_wr = F_NONE,
       vpu_wr = F_NONE, vpu_rd = F_NONE, cam_wr = F_NONE\<rparr>,
      \<lparr>ip_id = fmt_value H FMT_P210,
       cpu_wr = F_LIN, cpu_rd = F_LIN, gpu_wr = F_LIN OR F_AFRC, gpu_rd = F_LIN OR F_AFRC,
       dpu_wr = F_NONE, dpu_rd = F_NONE OR F_AFRC, dpu_aeu_wr = F_NONE,
       vpu_wr = F_NONE, vpu_rd = F_NONE, cam_wr = F_NONE\<rparr>,
      \<lparr>ip_id = fmt_value H FMT_Y410,
       cpu_wr = F_LIN, cpu_rd = F_LIN, gpu_wr = F_LIN OR F_AFBC, gpu_rd = F_LIN,
       dpu_wr = F_NONE, dpu_rd = F_NONE, dpu_aeu_wr = F_NONE,
       vpu_wr = F_NONE, vpu_rd = F_NONE, cam_wr = F_NONE\<rparr>]"

definition ip_support_raw :: "hal_env \<Rightarrow> format_ip_support_t list" where
  "ip_support_raw H =
    [
      \<lparr>ip_id = fmt_value H FMT_RAW16,
       cpu_wr = F_LIN, cpu_rd = F_LIN, gpu_wr = F_NONE, gpu_rd = F_LIN,
       dpu_wr = F_NONE, dpu_rd = F_NONE, dpu_aeu_wr = F_NONE,
       vpu_wr = F_NONE, vpu_rd = F_NONE, cam_wr = F_LIN\<rparr>,
      \<lparr>ip_id = fmt_value H FMT_RAW12,
       cpu_wr = F_LIN, cpu_rd = F_LIN, gpu_wr = F_NONE, gpu_rd = F_NONE,
       dpu_wr = F_NONE, dpu_rd = F_NONE, dpu_aeu_wr = F_NONE,
       vpu_wr = F_NONE, vpu_rd = F_NONE, cam_wr = F_NONE\<rparr>,
      \<lparr>ip_id = fmt_value H FMT_RAW10,
       cpu_wr = F_LIN, cpu_rd = F_LIN, gpu_wr = F_NONE, gpu_rd = F_NONE,
       dpu_wr = F_NONE, dpu_rd = F_NONE, dpu_aeu_wr = F_NONE,
       vpu_wr = F_NONE, vpu_rd = F_NONE, cam_wr = F_NONE\<rparr>,
      \<lparr>ip_id = fmt_value H FMT_BLOB,
       cpu_wr = F_LIN, cpu_rd = F_LIN, gpu_wr = F_LIN, gpu_rd = F_LIN,
       dpu_wr = F_NONE, dpu_rd = F_NONE, dpu_aeu_wr = F_NONE,
       vpu_wr = F_NONE, vpu_rd = F_NONE, cam_wr = F_NONE\<rparr>]"

definition ip_support_depth :: "hal_env \<Rightarrow> format_ip_support_t list" where
  "ip_support_depth H =
    [
      \<lparr>ip_id = fmt_value H FMT_DEPTH_16,
       cpu_wr = F_LIN, cpu_rd = F_LIN, gpu_wr = F_NONE, gpu_rd = F_NONE,
       dpu_wr = F_NONE, dpu_rd = F_NONE, dpu_aeu_wr = F_NONE,
       vpu_wr = F_NONE, vpu_rd = F_NONE, cam_wr = F_NONE\<rparr>,
      \<lparr>ip_id = fmt_value H FMT_DEPTH_24,
       cpu_wr = F_LIN, cpu_rd = F_LIN, gpu_wr = F_NONE, gpu_rd = F_NONE,
       dpu_wr = F_NONE, dpu_rd = F_NONE, dpu_aeu_wr = F_NONE,
       vpu_wr = F_NONE, vpu_rd = F_NONE, cam_wr = F_NONE\<rparr>,
      \<lparr>ip_id = fmt_value H FMT_DEPTH_24_STENCIL_8,
       cpu_wr = F_LIN, cpu_rd = F_LIN, gpu_wr = F_NONE, gpu_rd = F_NONE,
       dpu_wr = F_NONE, dpu_rd = F_NONE, dpu_aeu_wr = F_NONE,
       vpu_wr = F_NONE, vpu_rd = F_NONE, cam_wr = F_NONE\<rparr>,
      \<lparr>ip_id = fmt_value H FMT_DEPTH_32F,
       cpu_wr = F_LIN, cpu_rd = F_LIN, gpu_wr = F_NONE, gpu_rd = F_NONE,
       dpu_wr = F_NONE, dpu_rd = F_NONE, dpu_aeu_wr = F_NONE,
       vpu_wr = F_NONE, vpu_rd = F_NONE, cam_wr = F_NONE\<rparr>,
      \<lparr>ip_id = fmt_value H FMT_DEPTH_32F_STENCIL_8,
       cpu_wr = F_LIN, cpu_rd = F_LIN, gpu_wr = F_NONE, gpu_rd = F_NONE,
       dpu_wr = F_NONE, dpu_rd = F_NONE, dpu_aeu_wr = F_NONE,
       vpu_wr = F_NONE, vpu_rd = F_NONE, cam_wr = F_NONE\<rparr>,
      \<lparr>ip_id = fmt_value H FMT_STENCIL_8,
       cpu_wr = F_LIN, cpu_rd = F_LIN, gpu_wr = F_NONE, gpu_rd = F_NONE,
       dpu_wr = F_NONE, dpu_rd = F_NONE, dpu_aeu_wr = F_NONE,
       vpu_wr = F_NONE, vpu_rd = F_NONE, cam_wr = F_NONE\<rparr>,
      \<lparr>ip_id = fmt_value H FMT_R8,
       cpu_wr = F_LIN, cpu_rd = F_LIN, gpu_wr = F_LIN, gpu_rd = F_LIN,
       dpu_wr = F_NONE, dpu_rd = F_NONE, dpu_aeu_wr = F_NONE,
       vpu_wr = F_NONE, vpu_rd = F_NONE, cam_wr = F_NONE\<rparr>]"

definition formats_ip_support :: "hal_env \<Rightarrow> format_ip_support_t list" where
  "formats_ip_support H = ip_support_rgb H @ ip_support_yuv420 H @ ip_support_yuv422_444 H @
     ip_support_yuv_10bit H @ ip_support_raw H @ ip_support_depth H"

section \<open>Platform formats and their internal formats\<close>

definition hal_to_internal_format :: "hal_env \<Rightarrow> (u32 \<times> u32) list" where
  "hal_to_internal_format H =
    [(H HAL_RGBA_8888, fmt_value H FMT_RGBA_8888),
     (H HAL_RGBX_8888, fmt_value H FMT_RGBX_8888),
     (H HAL_RGB_888, fmt_value H FMT_RGB_888),
     (H HAL_BGR_888, fmt_value H FMT_BGR_888),
     (H HAL_RGB_565, fmt_value H FMT_RGB_565),
     (H HAL_BGRA_8888, fmt_value H FMT_BGRA_8888),
     (H HAL_YCbCr_422_SP, fmt_value H FMT_NV16),
     (H HAL_YCrCb_420_SP, fmt_value H FMT_NV21),
     (H HAL_YCbCr_422_I, fmt_value H FMT_YUV422_8BIT),
     (H HAL_RGBA_FP16, fmt_value H FMT_RGBA_16161616),
     (H HAL_RAW16, fmt_value H FMT_RAW16),
     (H HAL_BLOB, fmt_value H FMT_BLOB),
     (H HAL_IMPLEMENTATION_DEFINED, fmt_value H FMT_NV12),
     (H HAL_YCbCr_420_888, fmt_value H FMT_NV12),
     (H HAL_RAW_OPAQUE, fmt_value H FMT_UNDEFINED),
     (H HAL_RAW10, fmt_value H FMT_RAW10),
     (H HAL_RAW12, fmt_value H FMT_RAW12),
     (H HAL_YCbCr_422_888, fmt_value H FMT_YUV422_8BIT),
     (H HAL_YCbCr_444_888, fmt_value H FMT_UNDEFINED),
     (H HAL_FLEX_RGB_888, fmt_value H FMT_UNDEFINED),
     (H HAL_FLEX_RGBA_8888, fmt_value H FMT_UNDEFINED),
     (H HAL_RGBA_1010102, fmt_value H FMT_RGBA_1010102),
     (H HAL_DEPTH_16, fmt_value H FMT_DEPTH_16),
     (H HAL_DEPTH_24, fmt_value H FMT_DEPTH_24),
     (H HAL_DEPTH_24_STENCIL_8, fmt_value H FMT_DEPTH_24_STENCIL_8),
     (H HAL_DEPTH_32F, fmt_value H FMT_DEPTH_32F),
     (H HAL_DEPTH_32F_STENCIL_8, fmt_value H FMT_DEPTH_32F_STENCIL_8),
     (H HAL_STENCIL_8, fmt_value H FMT_STENCIL_8),
     (H HAL_YCBCR_P010, fmt_value H FMT_P010),
     (H HAL_Y8, fmt_value H FMT_Y8),
     (H HAL_Y16, fmt_value H FMT_Y16),
     (H HAL_YV12, fmt_value H FMT_YV12),
     (PIXEL_FORMAT_R8, fmt_value H FMT_R8)]"

section \<open>Lookups\<close>

definition get_all_base_formats :: "hal_env \<Rightarrow> format_info_t list" where
  "get_all_base_formats H = formats H"

definition get_format_info :: "hal_env \<Rightarrow> u32 \<Rightarrow> format_info_t option" where
  "get_format_info H base_format = find (\<lambda>f. fi_id f = base_format) (formats H)"

definition get_format_ip_support :: "hal_env \<Rightarrow> u32 \<Rightarrow> format_ip_support_t option" where
  "get_format_ip_support H base_format = find (\<lambda>e. ip_id e = base_format) (formats_ip_support H)"

definition get_internal_format :: "hal_env \<Rightarrow> u32 \<Rightarrow> u32" where
  "get_internal_format H base_format =
     (let internal_format =
        (case find (\<lambda>e. fst e = base_format) (hal_to_internal_format H) of
           Some e \<Rightarrow> snd e | None \<Rightarrow> base_format)
      in if get_format_info H internal_format = None then fmt_value H FMT_UNDEFINED
         else internal_format)"

section \<open>The default dataspace\<close>

text \<open>The \<open>HAL_DATASPACE_*\<close> constants of the platform are a parameter, like the formats.\<close>

datatype dataspace_name =
    DATASPACE_UNKNOWN
  | STANDARD_UNSPECIFIED | STANDARD_BT601_625 | STANDARD_BT709 | STANDARD_BT2020
  | RANGE_UNSPECIFIED | RANGE_LIMITED | RANGE_FULL

type_synonym dataspace_env = "dataspace_name \<Rightarrow> u64"

definition dataspace_color :: "dataspace_env \<Rightarrow> format_info_t \<Rightarrow> u64 \<Rightarrow> i32 \<Rightarrow> i32 \<Rightarrow> u64" where
  "dataspace_color D f usage w h =
     (let dflt = (if 10 \<le> bps f then D STANDARD_BT2020
                  else if sless32 w 1280 \<or> sless32 h 720 then D STANDARD_BT601_625
                  else D STANDARD_BT709);
          m = usage AND MALI_GRALLOC_USAGE_YUV_COLOR_SPACE_MASK
      in if m = MALI_GRALLOC_USAGE_YUV_COLOR_SPACE_BT601 then D STANDARD_BT601_625
         else if m = MALI_GRALLOC_USAGE_YUV_COLOR_SPACE_BT709 then D STANDARD_BT709
         else if m = MALI_GRALLOC_USAGE_YUV_COLOR_SPACE_BT2020 then D STANDARD_BT2020
         else dflt)"

definition dataspace_range :: "dataspace_env \<Rightarrow> format_info_t \<Rightarrow> u64 \<Rightarrow> u64" where
  "dataspace_range D f usage =
     (let m = usage AND MALI_GRALLOC_USAGE_RANGE_MASK
      in if m = MALI_GRALLOC_USAGE_RANGE_NARROW then D RANGE_LIMITED
         else if m = MALI_GRALLOC_USAGE_RANGE_WIDE then D RANGE_FULL
         else if 10 \<le> bps f then D RANGE_FULL else D RANGE_LIMITED)"

definition get_format_dataspace ::
  "dataspace_env \<Rightarrow> format_info_t option \<Rightarrow> u64 \<Rightarrow> i32 \<Rightarrow> i32 \<Rightarrow> i32" where
  "get_format_dataspace D fo usage w h =
     (case fo of
        None \<Rightarrow> ucast (D DATASPACE_UNKNOWN)
      | Some f \<Rightarrow>
          if is_yuv f then ucast (dataspace_color D f usage w h OR dataspace_range D f usage)
          else ucast (D DATASPACE_UNKNOWN))"

section \<open>Well-formed rows\<close>

text \<open>
  What the comments of \<open>format_info_t\<close> promise of a row. The subsampling of a format that is
  not YUV is 0, \<open>NV30\<close> counts three planes with two of them in use, and the linear alignment
  rule for whole bytes fails for the 10-bit packed formats, so those three are stated apart.
\<close>

definition power_of_two :: "nat \<Rightarrow> bool" where
  "power_of_two n \<longleftrightarrow> n \<in> {1, 2, 4, 8, 16, 32, 64, 128}"

definition row_wf :: "format_info_t \<Rightarrow> bool" where
  "row_wf f \<longleftrightarrow>
     1 \<le> npln f \<and> npln f \<le> 3 \<and> length (ncmp f) = 3 \<and> length (bpp f) = 3 \<and>
     length (bpp_afbc f) = 3 \<and>
     power_of_two (align_w f) \<and> power_of_two (align_h f) \<and> power_of_two (align_w_cpu f) \<and>
     power_of_two (tile_size f) \<and>
     (is_yuv f \<longrightarrow> power_of_two (hsub f) \<and> power_of_two (vsub f) \<and> hsub f dvd align_w f \<and>
        vsub f dvd align_h f) \<and>
     (\<not> is_yuv f \<longrightarrow> hsub f = 0 \<and> vsub f = 0 \<and> npln f = 1) \<and>
     \<not> (is_yuv f \<and> is_rgb f)"

definition row_layouts_wf :: "format_info_t \<Rightarrow> bool" where
  "row_layouts_wf f \<longleftrightarrow>
     (linear f \<or> afbc f \<or> afrc f) \<and>
     (linear f \<longrightarrow> 0 < bpp f ! 0) \<and>
     (afbc f \<longrightarrow> (\<forall>i < npln f. 0 < bpp_afbc f ! i)) \<and>
     (\<not> afbc f \<longrightarrow> bpp_afbc f = [0, 0, 0]) \<and>
     (yuv_transform f \<longrightarrow> is_rgb f \<and> afbc f \<and> 3 \<le> total_components f) \<and>
     (flex f \<longrightarrow> linear f) \<and>
     (block_linear f \<longrightarrow> npln f = 2 \<and> linear f)"

lemmas formats_defs = formats_def formats_rgb_def formats_yuv420_def formats_yuv422_444_def
  formats_yuv_10bit_def formats_raw_def formats_depth_def

lemmas ip_support_defs = formats_ip_support_def ip_support_rgb_def ip_support_yuv420_def
  ip_support_yuv422_444_def ip_support_yuv_10bit_def ip_support_raw_def ip_support_depth_def

lemma row_wf_groups:
  "list_all row_wf (formats_rgb H)" "list_all row_wf (formats_yuv420 H)"
  "list_all row_wf (formats_yuv422_444 H)" "list_all row_wf (formats_yuv_10bit H)"
  "list_all row_wf (formats_raw H)" "list_all row_wf (formats_depth H)"
  by (simp_all add: formats_defs row_wf_def power_of_two_def)

lemma row_layouts_wf_groups:
  "list_all row_layouts_wf (formats_rgb H)" "list_all row_layouts_wf (formats_yuv420 H)"
  "list_all row_layouts_wf (formats_yuv422_444 H)" "list_all row_layouts_wf (formats_yuv_10bit H)"
  "list_all row_layouts_wf (formats_raw H)" "list_all row_layouts_wf (formats_depth H)"
  by (simp_all add: formats_defs row_layouts_wf_def total_components_def less_Suc_eq
      numeral_2_eq_2 numeral_3_eq_3)

lemma formats_row_wf: "f \<in> set (formats H) \<Longrightarrow> row_wf f"
  using row_wf_groups [of H] by (auto simp: formats_def list_all_iff)

lemma formats_row_layouts_wf: "f \<in> set (formats H) \<Longrightarrow> row_layouts_wf f"
  using row_layouts_wf_groups [of H] by (auto simp: formats_def list_all_iff)

section \<open>Lookups find exactly the rows\<close>

text \<open>The enumerators of the rows, in table order.\<close>

definition table_formats :: "mali_gralloc_pixel_format list" where
  "table_formats =
     [FMT_RGB_565, FMT_RGB_888, FMT_BGR_888, FMT_RGBA_8888, FMT_BGRA_8888, FMT_RGBX_8888,
      FMT_RGBA_1010102, FMT_RGBA_16161616, FMT_RGBA_10101010, FMT_Y8, FMT_Y16,
      FMT_YUV420_8BIT_I, FMT_NV12, FMT_NV21, FMT_YV12, FMT_YU12, FMT_YUV422_8BIT, FMT_NV16,
      FMT_NV24, FMT_YUV444, FMT_NV30, FMT_Q410, FMT_Q401, FMT_YUV420_10BIT_I, FMT_Y0L2,
      FMT_P010, FMT_NV15, FMT_Y210, FMT_P210, FMT_Y410, FMT_RAW16, FMT_RAW12, FMT_RAW10,
      FMT_BLOB, FMT_DEPTH_16, FMT_DEPTH_24, FMT_DEPTH_24_STENCIL_8, FMT_DEPTH_32F,
      FMT_DEPTH_32F_STENCIL_8, FMT_STENCIL_8, FMT_R8]"

lemma formats_ids: "map fi_id (formats H) = map (fmt_value H) table_formats"
  by (simp add: formats_defs table_formats_def)

lemma ip_support_ids: "map ip_id (formats_ip_support H) = map (fmt_value H) table_formats"
  by (simp add: ip_support_defs table_formats_def)

lemma table_formats_complete: "f \<in> set table_formats \<longleftrightarrow> f \<noteq> FMT_UNDEFINED \<and> f \<noteq> FMT_RAW_OPAQUE"
  by (cases f) (simp_all add: table_formats_def)

lemma distinct_table_formats: "distinct table_formats"
  by (simp add: table_formats_def)

lemma formats_ids_distinct:
  assumes "hal_documented H"
  shows "distinct (map fi_id (formats H))"
  unfolding formats_ids distinct_map
  using distinct_table_formats by (auto intro: inj_onI simp: fmt_value_inj [OF assms])

text \<open>The first hit of a search over distinct keys is the only hit.\<close>

lemma find_key_iff:
  assumes "distinct (map key xs)"
  shows "find (\<lambda>x. key x = k) xs = Some x \<longleftrightarrow> x \<in> set xs \<and> key x = k"
  using assms
proof (induction xs)
  case (Cons y ys)
  show ?case
  proof (cases "key y = k")
    case True
    then have "x \<in> set ys \<Longrightarrow> key x \<noteq> k"
      using Cons.prems by (simp, metis image_eqI)
    with True show ?thesis by auto
  qed (use Cons in auto)
qed simp

lemma get_format_info_iff:
  assumes "hal_documented H"
  shows "get_format_info H b = Some f \<longleftrightarrow> f \<in> set (formats H) \<and> fi_id f = b"
  unfolding get_format_info_def by (rule find_key_iff) (rule formats_ids_distinct [OF assms])

lemma get_format_info_SomeD:
  "get_format_info H b = Some f \<Longrightarrow> f \<in> set (formats H) \<and> fi_id f = b"
  by (auto simp: get_format_info_def find_Some_iff in_set_conv_nth)

lemma get_format_info_None_iff:
  "get_format_info H b = None \<longleftrightarrow> b \<notin> fmt_value H ` set table_formats"
proof -
  have "fmt_value H ` set table_formats = fi_id ` set (formats H)"
    by (metis formats_ids set_map)
  then show ?thesis
    by (auto simp: get_format_info_def find_None_iff)
qed

lemma get_format_ip_support_None_iff:
  "get_format_ip_support H b = None \<longleftrightarrow> b \<notin> fmt_value H ` set table_formats"
proof -
  have "fmt_value H ` set table_formats = ip_id ` set (formats_ip_support H)"
    by (metis ip_support_ids set_map)
  then show ?thesis
    by (auto simp: get_format_ip_support_def find_None_iff)
qed

text \<open>So the two tables know the same formats, whatever the platform constants are.\<close>

lemma tables_agree: "get_format_info H b = None \<longleftrightarrow> get_format_ip_support H b = None"
  by (simp add: get_format_info_None_iff get_format_ip_support_None_iff)

lemma get_internal_format_known:
  "get_internal_format H b = fmt_value H FMT_UNDEFINED \<or>
   get_format_info H (get_internal_format H b) \<noteq> None"
  by (auto simp: get_internal_format_def Let_def)

section \<open>Properties\<close>

text \<open>Both tables have one row for each member of the enumeration except the undefined format and
  RAW_OPAQUE, no two rows share an identifier, and so each lookup finds exactly the row of its
  argument: a format has layout information if and only if it has IP support information.\<close>

theorem table_lookups_exact:
  assumes "hal_documented H"
  shows "distinct (map fi_id (formats H)) \<and> map ip_id (formats_ip_support H) = map fi_id (formats H) \<and>
    get_format_info H (fmt_value H FMT_UNDEFINED) = None \<and>
    (get_format_info H b = Some f \<longleftrightarrow> f \<in> set (formats H) \<and> fi_id f = b) \<and>
    (get_format_info H b \<noteq> None \<longleftrightarrow>
      (\<exists>t. b = fmt_value H t \<and> t \<noteq> FMT_UNDEFINED \<and> t \<noteq> FMT_RAW_OPAQUE)) \<and>
    (get_format_ip_support H b \<noteq> None \<longleftrightarrow> get_format_info H b \<noteq> None)"
proof -
  have "fmt_value H FMT_UNDEFINED \<notin> fmt_value H ` set table_formats"
  proof
    assume "fmt_value H FMT_UNDEFINED \<in> fmt_value H ` set table_formats"
    then obtain t where "t \<in> set table_formats" "fmt_value H FMT_UNDEFINED = fmt_value H t" ..
    then show False
      unfolding table_formats_complete fmt_value_inj [OF assms] by simp
  qed
  then have "get_format_info H (fmt_value H FMT_UNDEFINED) = None"
    unfolding get_format_info_None_iff .
  moreover have "get_format_info H b \<noteq> None \<longleftrightarrow>
      (\<exists>t. b = fmt_value H t \<and> t \<noteq> FMT_UNDEFINED \<and> t \<noteq> FMT_RAW_OPAQUE)"
    unfolding get_format_info_None_iff not_not image_iff Bex_def table_formats_complete
    by (rule iff_exI) (simp add: conj_commute conj_left_commute)
  moreover have "map ip_id (formats_ip_support H) = map fi_id (formats H)"
    by (simp add: formats_ids ip_support_ids)
  moreover have "get_format_ip_support H b \<noteq> None \<longleftrightarrow> get_format_info H b \<noteq> None"
    unfolding tables_agree ..
  ultimately show ?thesis
    using formats_ids_distinct [OF assms] get_format_info_iff [OF assms, of b f]
    by (intro conjI)
qed

theorem table_lookups_exact_witness:
  "get_format_ip_support hal_sample 0x1FF = None \<and> distinct (map fi_id (formats hal_sample))"
proof -
  have "0x1FF \<notin> fmt_value hal_sample ` set table_formats"
    by (simp add: table_formats_def fmt_value_def)
  then have "get_format_info hal_sample 0x1FF = None"
    by (simp add: get_format_info_None_iff)
  then show ?thesis
    using table_lookups_exact [OF hal_documented_sample, of "0x1FF"] by blast
qed


end
