(* ===== verification/Alloc_Type.thy ===== *)
theory Alloc_Type
  imports Format_Info
begin

text \<open>
  The allocation type of src/src/core/buffer_allocation.h and .cpp: which compression scheme a
  format asks for, the superblock sizes, plane dimensions in pixels, the stride alignment by
  least common multiple, and AFBC header initialisation.
\<close>

section \<open>Formats and their rows (internal_format.cpp, formats.cpp)\<close>

definition get_base_info :: "hal_env \<Rightarrow> internal_format_t \<Rightarrow> format_info_t option" where
  "get_base_info H f = get_format_info H (get_base f)"

definition base_info :: "hal_env \<Rightarrow> internal_format_t \<Rightarrow> format_info_t res" where
  "base_info H f = (case get_base_info H f of None \<Rightarrow> Inl Check_failed | Some i \<Rightarrow> Inr i)"

definition is_subsampled_yuv :: "hal_env \<Rightarrow> internal_format_t \<Rightarrow> bool" where
  "is_subsampled_yuv H f =
     (case get_base_info H f of
        None \<Rightarrow> False
      | Some i \<Rightarrow> is_yuv i \<and> (1 < hsub i \<or> 1 < vsub i))"

definition is_base_format_used_by_rk_video :: "hal_env \<Rightarrow> u32 \<Rightarrow> bool" where
  "is_base_format_used_by_rk_video H base_format \<longleftrightarrow>
     base_format = fmt_value H FMT_NV12 \<or>
     base_format = fmt_value H FMT_NV16 \<or>
     base_format = fmt_value H FMT_YUV420_8BIT_I \<or>
     base_format = fmt_value H FMT_YUV420_10BIT_I \<or>
     base_format = fmt_value H FMT_YUV422_8BIT \<or>
     base_format = fmt_value H FMT_Y210 \<or>
     base_format = fmt_value H FMT_NV15 \<or>
     base_format = fmt_value H FMT_NV24 \<or>
     base_format = fmt_value H FMT_NV30"

section \<open>Allocation types\<close>

datatype AllocBaseType = UNCOMPRESSED | AFBC | AFBC_WIDEBLK | AFBC_EXTRAWIDEBLK | AFRC | BLOCK_LINEAR

record afrc_params =
  rgba_luma_coding_unit_bytes :: u32
  rgba_luma_plane_alignment :: u32
  chroma_coding_unit_bytes :: u32
  chroma_plane_alignment :: u32
  clump_width :: "u32 list"
  clump_height :: "u32 list"
  paging_tile_width :: u32
  paging_tile_height :: u32

record alloc_type_t =
  primary_type :: AllocBaseType
  is_multi_plane :: bool
  is_tiled :: bool
  is_padded :: bool
  is_frontbuffer_safe :: bool
  at_afrc :: afrc_params

definition at_is_afbc :: "alloc_type_t \<Rightarrow> bool" where
  "at_is_afbc a =
     (case primary_type a of AFBC \<Rightarrow> True | AFBC_WIDEBLK \<Rightarrow> True | AFBC_EXTRAWIDEBLK \<Rightarrow> True | _ \<Rightarrow> False)"

definition at_is_afrc :: "alloc_type_t \<Rightarrow> bool" where
  "at_is_afrc a \<longleftrightarrow> primary_type a = AFRC"

definition at_is_block_linear :: "alloc_type_t \<Rightarrow> bool" where
  "at_is_block_linear a \<longleftrightarrow> primary_type a = BLOCK_LINEAR"

text \<open>Value-initialised parameters.\<close>

definition no_afrc :: afrc_params where
  "no_afrc = \<lparr>rgba_luma_coding_unit_bytes = 0, rgba_luma_plane_alignment = 0,
     chroma_coding_unit_bytes = 0, chroma_plane_alignment = 0, clump_width = [0, 0, 0],
     clump_height = [0, 0, 0], paging_tile_width = 0, paging_tile_height = 0\<rparr>"

definition afrc_plane_alignment_requirement :: "u32 \<Rightarrow> u32" where
  "afrc_plane_alignment_requirement coding_unit_size =
     (if coding_unit_size = 16 then 1024
      else if coding_unit_size = 24 then 512
      else if coding_unit_size = 32 then 2048
      else 0)"

text \<open>The clump dimensions of one plane, by its number of components.\<close>

definition clump_of :: "u32 \<Rightarrow> u32 \<Rightarrow> nat \<Rightarrow> (u32 \<times> u32) option" where
  "clump_of ptw pth n =
     (if n = 1 then Some (ptw, pth)
      else if n = 2 then Some (8, 4)
      else if n = 3 \<or> n = 4 then Some (4, 4)
      else None)"

primrec fill_clumps ::
  "u32 \<Rightarrow> u32 \<Rightarrow> nat list \<Rightarrow> nat list \<Rightarrow> u32 list \<times> u32 list \<Rightarrow> (u32 list \<times> u32 list) option" where
  "fill_clumps ptw pth comps [] acc = Some acc"
| "fill_clumps ptw pth comps (plane # planes) acc =
     (case clump_of ptw pth (comps ! plane) of
        None \<Rightarrow> None
      | Some (w, h) \<Rightarrow>
          fill_clumps ptw pth comps planes ((fst acc)[plane := w], (snd acc)[plane := h]))"

section \<open>\<open>get_alloc_type\<close>\<close>

definition afbc_primary_type :: "internal_format_t \<Rightarrow> AllocBaseType" where
  "afbc_primary_type f =
     (if get_afbc_32x8 f then AFBC_WIDEBLK
      else if get_afbc_64x4 f then AFBC_EXTRAWIDEBLK
      else AFBC)"

definition get_afbc_alloc_type :: "format_info_t \<Rightarrow> internal_format_t \<Rightarrow> u64 \<Rightarrow> alloc_type_t option" where
  "get_afbc_alloc_type info f usage =
     (let tiled = get_afbc_tiled_headers f;
          multi = (tiled \<and> 1 < npln info \<and> get_afbc_64x4 f)
      in if get_afbc_64x4 f \<and> \<not> tiled then None
         else if npln info = 1 \<and> get_afbc_32x8 f \<and> get_afbc_64x4 f then None
         else Some
           \<lparr>primary_type = afbc_primary_type f,
            is_multi_plane = multi,
            is_tiled = tiled,
            is_padded = test_flag usage MALI_GRALLOC_USAGE_AFBC_PADDING,
            is_frontbuffer_safe = (tiled \<and> get_afbc_double_body f),
            at_afrc = no_afrc\<rparr>)"

definition get_afrc_alloc_type :: "format_info_t \<Rightarrow> internal_format_t \<Rightarrow> alloc_type_t option" where
  "get_afrc_alloc_type info f =
     (let ptw = (if get_afrc_rot_layout f then 8 else 16);
          pth = (if get_afrc_rot_layout f then 8 else 4);
          luma = to_bytes (get_afrc_rgba_coding_size f);
          luma_align = afrc_plane_alignment_requirement luma;
          chroma = to_bytes (get_afrc_chroma_coding_size f);
          chroma_align = afrc_plane_alignment_requirement chroma
      in if luma_align = 0 then None
         else if chroma_align = 0 then None
         else case fill_clumps ptw pth (ncmp info) [0..<npln info] ([0, 0, 0], [0, 0, 0]) of
                None \<Rightarrow> None
              | Some (cw, ch) \<Rightarrow> Some
                  \<lparr>primary_type = AFRC, is_multi_plane = 1 < npln info, is_tiled = False,
                   is_padded = False, is_frontbuffer_safe = False,
                   at_afrc =
                     \<lparr>rgba_luma_coding_unit_bytes = luma, rgba_luma_plane_alignment = luma_align,
                      chroma_coding_unit_bytes = chroma, chroma_plane_alignment = chroma_align,
                      clump_width = cw, clump_height = ch,
                      paging_tile_width = ptw, paging_tile_height = pth\<rparr>\<rparr>)"

definition get_alloc_type :: "hal_env \<Rightarrow> internal_format_t \<Rightarrow> u64 \<Rightarrow> alloc_type_t option" where
  "get_alloc_type H f usage =
     (case get_base_info H f of
        None \<Rightarrow> None
      | Some info \<Rightarrow>
          (if is_afbc f then get_afbc_alloc_type info f usage
           else if is_afrc f then get_afrc_alloc_type info f
           else Some
             \<lparr>primary_type = (if is_block_linear f then BLOCK_LINEAR else UNCOMPRESSED),
              is_multi_plane = 1 < npln info, is_tiled = False, is_padded = False,
              is_frontbuffer_safe = False, at_afrc = no_afrc\<rparr>))"

section \<open>Superblocks and buffer alignment\<close>

definition get_afbc_sb_size_base :: "AllocBaseType \<Rightarrow> rect_t" where
  "get_afbc_sb_size_base t =
     (case t of
        AFBC \<Rightarrow> \<lparr>rect_width = 16, rect_height = 16\<rparr>
      | AFBC_WIDEBLK \<Rightarrow> \<lparr>rect_width = 32, rect_height = 8\<rparr>
      | AFBC_EXTRAWIDEBLK \<Rightarrow> \<lparr>rect_width = 64, rect_height = 4\<rparr>
      | _ \<Rightarrow> \<lparr>rect_width = 0, rect_height = 0\<rparr>)"

definition get_afbc_sb_size :: "alloc_type_t \<Rightarrow> nat \<Rightarrow> rect_t" where
  "get_afbc_sb_size a plane =
     (if 0 < plane \<and> at_is_afbc a \<and> is_multi_plane a
      then get_afbc_sb_size_base AFBC_EXTRAWIDEBLK
      else get_afbc_sb_size_base (primary_type a))"

definition afbc_buffer_align :: "bool \<Rightarrow> i32 \<Rightarrow> i32" where
  "afbc_buffer_align tiled sz = GRALLOC_ALIGN_int sz (if tiled then 4 * 1024 else 1024)"

definition max2 :: "i32 \<Rightarrow> i32 \<Rightarrow> i32" where
  "max2 a b = (if sless32 b a then a else b)"

definition max3 :: "i32 \<Rightarrow> i32 \<Rightarrow> i32 \<Rightarrow> i32" where
  "max3 a b c = (if sless32 (max2 a b) c then c else max2 a b)"

section \<open>Plane dimensions\<close>

text \<open>The tile of an AFBC plane; the product is stored in the 16-bit fields of \<open>rect_t\<close>.\<close>

definition afbc_tile_size :: "format_info_t \<Rightarrow> alloc_type_t \<Rightarrow> nat \<Rightarrow> rect_t" where
  "afbc_tile_size info a plane =
     (let sb = get_afbc_sb_size a plane;
          k = (if 32 < bpp_afbc info ! plane then 4 else 8)
      in if is_tiled a then \<lparr>rect_width = k * rect_width sb, rect_height = k * rect_height sb\<rparr>
         else sb)"

definition afbc_pixel_align :: "format_info_t \<Rightarrow> alloc_type_t \<Rightarrow> nat \<Rightarrow> i32 \<times> i32" where
  "afbc_pixel_align info a plane =
     (let sb = get_afbc_sb_size a plane;
          num_sb_align = (if is_padded a \<and> \<not> is_yuv info then 4 else 0);
          tile = afbc_tile_size info a plane;
          aw = max2 (max2 0 num_sb_align * ucast (rect_width sb)) (ucast (rect_width tile));
          ah = max2 1 (ucast (rect_height tile))
      in (aw, if primary_type a = AFBC_WIDEBLK \<and> \<not> is_tiled a then max2 ah 16 else ah))"

definition pixel_align :: "format_info_t \<Rightarrow> alloc_type_t \<Rightarrow> nat \<Rightarrow> bool \<Rightarrow> i32 \<times> i32" where
  "pixel_align info a plane cpu =
     (if cpu then (of_nat (align_w_cpu info), 1)
      else if at_is_afbc a then afbc_pixel_align info a plane
      else if at_is_afrc a then
        (paging_tile_width (at_afrc a) * clump_width (at_afrc a) ! plane,
         paging_tile_height (at_afrc a) * clump_height (at_afrc a) ! plane)
      else if at_is_block_linear a then (16, 16)
      else (1, 1))"

definition get_pixel_w_h ::
  "u32 \<Rightarrow> u32 \<Rightarrow> format_info_t \<Rightarrow> alloc_type_t \<Rightarrow> nat \<Rightarrow> bool \<Rightarrow> (u32 \<times> u32) res" where
  "get_pixel_w_h w h info a plane cpu =
     (let w1 = GRALLOC_ALIGN w (of_nat (align_w info));
          h1 = GRALLOC_ALIGN h (of_nat (align_h info));
          (paw, pah) = pixel_align info a plane cpu;
          tile = of_nat (tile_size info)
      in bind_res (if 0 < plane then c_div w1 (of_nat (hsub info)) else Inr w1) (\<lambda>w2.
         bind_res (if 0 < plane then c_div h1 (of_nat (vsub info)) else Inr h1) (\<lambda>h2.
         Inr (GRALLOC_ALIGN w2 (max3 1 paw tile), GRALLOC_ALIGN h2 (max3 1 pah tile)))))"

section \<open>Least common multiples\<close>

text \<open>Euclid's loop; the second argument decreases, so it ends.\<close>

function gcd_loop :: "u32 \<Rightarrow> u32 \<Rightarrow> u32" where
  "gcd_loop a b = (if b \<noteq> 0 then gcd_loop b (a mod b) else a)"
  by auto
termination
  by (relation "measure (\<lambda>(a, b). unat b)") (simp_all add: word_mod_less_divisor unat_mono word_gt_0)

definition gcd32 :: "u32 \<Rightarrow> u32 \<Rightarrow> u32" where
  "gcd32 a b = (if a = b then a else if a < b then gcd_loop b a else gcd_loop a b)"

definition lcm32 :: "u32 \<Rightarrow> u32 \<Rightarrow> u32" where
  "lcm32 a b = (if a \<noteq> 0 \<and> b \<noteq> 0 then (a * b) div gcd32 a b else max2 a b)"

section \<open>AFBC headers\<close>

definition AFBC_PIXELS_PER_BLOCK :: i32 where "AFBC_PIXELS_PER_BLOCK = 256"

definition AFBC_HEADER_BUFFER_BYTES_PER_BLOCKENTRY :: i32 where
  "AFBC_HEADER_BUFFER_BYTES_PER_BLOCKENTRY = 16"

definition afbc_n_headers :: "i32 \<Rightarrow> i32 \<Rightarrow> u32" where
  "afbc_n_headers w h = sdiv32 (w * h) AFBC_PIXELS_PER_BLOCK"

definition afbc_body_offset :: "bool \<Rightarrow> u32 \<Rightarrow> i32" where
  "afbc_body_offset tiled n = afbc_buffer_align tiled (n * AFBC_HEADER_BUFFER_BYTES_PER_BLOCKENTRY)"

text \<open>The four header words of a superblock for the layout that the format needs.\<close>

definition afbc_header :: "hal_env \<Rightarrow> internal_format_t \<Rightarrow> bool \<Rightarrow> i32 \<Rightarrow> u32 list" where
  "afbc_header H f multi body_offset =
     (if is_subsampled_yuv H f \<and> \<not> multi
      then [body_offset + push_bit 28 1, 0x80200040, 0x1004000, 0x20080]
      else if get_afbc_tiled_headers f then [0, 0, 0, 0]
      else [body_offset, 0x1, 0x10000, 0x0])"

text \<open>Memory is a list of 32-bit words here; \<open>pos\<close> is a word index.\<close>

primrec write_headers :: "u32 list \<Rightarrow> nat \<Rightarrow> u32 list \<Rightarrow> nat \<Rightarrow> u32 list" where
  "write_headers hdr 0 mem pos = mem"
| "write_headers hdr (Suc n) mem pos =
     write_headers hdr n (take pos mem @ hdr @ drop (pos + length hdr) mem) (pos + length hdr)"

definition init_afbc ::
  "hal_env \<Rightarrow> internal_format_t \<Rightarrow> bool \<Rightarrow> i32 \<Rightarrow> i32 \<Rightarrow> nat \<Rightarrow> u32 list \<Rightarrow> u32 list" where
  "init_afbc H f multi w h pos mem =
     (let n = afbc_n_headers w h;
          body_offset = afbc_body_offset (get_afbc_tiled_headers f) n
      in write_headers (afbc_header H f multi body_offset) (unat n) mem pos)"

section \<open>Euclid's loop computes the greatest common divisor\<close>

declare gcd_loop.simps [simp del]

lemma unat_gcd_loop: "unat (gcd_loop a b) = gcd (unat a) (unat b)"
proof (induction a b rule: gcd_loop.induct)
  case (1 a b)
  show ?case
  proof (cases "b = 0")
    case True
    then show ?thesis by (simp add: gcd_loop.simps)
  next
    case False
    then have "unat (gcd_loop a b) = gcd (unat b) (unat a mod unat b)"
      using 1 by (simp add: gcd_loop.simps [of a b] unat_mod)
    then show ?thesis
      by (metis gcd_red_nat)
  qed
qed

lemma unat_gcd32: "unat (gcd32 a b) = gcd (unat a) (unat b)"
  by (simp add: gcd32_def unat_gcd_loop gcd.commute)

lemma unat_lcm32:
  assumes "a \<noteq> 0" "b \<noteq> 0" and "unat a * unat b < 2 ^ 32"
  shows "unat (lcm32 a b) = lcm (unat a) (unat b)"
proof -
  have "unat (a * b) = unat a * unat b"
    using assms(3) by (intro iffD1 [OF unat_mult_lem]) simp
  then show ?thesis
    using assms(1,2) by (simp add: lcm32_def unat_div unat_gcd32 lcm_nat_def)
qed

section \<open>Signed maxima of small words\<close>

lemma sint_small:
  fixes a :: i32
  assumes "unat a < 2 ^ 31"
  shows "sint a = int (unat a)"
proof -
  have u: "uint a = int (unat a)"
    by simp
  have "unat a < 2147483648"
    using assms by simp
  then have "uint a < 2147483648"
    unfolding u by linarith
  then have "uint a < 2 ^ 31"
    by simp
  moreover have "- (2 ^ 31) \<le> uint a"
    by (rule order_trans [of _ 0]) simp_all
  ultimately have "signed_take_bit 31 (uint a) = uint a"
    by (intro signed_take_bit_int_eq_self)
  then show ?thesis
    by (simp add: sint_uint)
qed

lemma sless32_small:
  "unat a < 2 ^ 31 \<Longrightarrow> unat b < 2 ^ 31 \<Longrightarrow> sless32 a b \<longleftrightarrow> unat a < unat b"
  by (simp add: sless32_def sint_small del: of_nat_unat)

lemma unat_max2:
  "unat a < 2 ^ 31 \<Longrightarrow> unat b < 2 ^ 31 \<Longrightarrow> unat (max2 a b) = max (unat a) (unat b)"
  by (auto simp: max2_def sless32_small)

lemma unat_max3:
  assumes "unat a < 2 ^ 31" "unat b < 2 ^ 31" "unat c < 2 ^ 31"
  shows "unat (max3 a b c) = max (max (unat a) (unat b)) (unat c)"
proof -
  have "unat (max2 a b) < 2 ^ 31"
    using assms by (simp add: unat_max2)
  then have "sless32 (max2 a b) c \<longleftrightarrow> max (unat a) (unat b) < unat c"
    using assms by (simp add: sless32_small unat_max2)
  then show ?thesis
    using assms by (auto simp: max3_def unat_max2)
qed

section \<open>Well-formed allocation types\<close>

definition alloc_type_wf :: "format_info_t \<Rightarrow> alloc_type_t \<Rightarrow> bool" where
  "alloc_type_wf info a \<longleftrightarrow>
     (primary_type a = AFBC_EXTRAWIDEBLK \<longrightarrow> is_tiled a) \<and>
     (at_is_afbc a \<and> is_multi_plane a \<longrightarrow> is_tiled a \<and> primary_type a \<noteq> AFBC \<and> 1 < npln info) \<and>
     (is_frontbuffer_safe a \<longrightarrow> is_tiled a) \<and>
     (is_tiled a \<longrightarrow> at_is_afbc a) \<and>
     (at_is_afrc a \<longrightarrow>
        (paging_tile_width (at_afrc a), paging_tile_height (at_afrc a)) \<in> {(8, 8), (16, 4)} \<and>
        rgba_luma_coding_unit_bytes (at_afrc a) \<in> {16, 24, 32} \<and>
        chroma_coding_unit_bytes (at_afrc a) \<in> {16, 24, 32} \<and>
        rgba_luma_plane_alignment (at_afrc a) =
          afrc_plane_alignment_requirement (rgba_luma_coding_unit_bytes (at_afrc a)) \<and>
        chroma_plane_alignment (at_afrc a) =
          afrc_plane_alignment_requirement (chroma_coding_unit_bytes (at_afrc a)) \<and>
        (\<forall>p < npln info.
           clump_of (paging_tile_width (at_afrc a)) (paging_tile_height (at_afrc a)) (ncmp info ! p) =
             Some (clump_width (at_afrc a) ! p, clump_height (at_afrc a) ! p)))"

lemma fill_clumps_nth:
  assumes "fill_clumps ptw pth comps ps (cw, ch) = Some (cw', ch')" and "distinct ps"
    and "length cw = 3" "length ch = 3"
  shows "length cw' = 3 \<and> length ch' = 3 \<and>
     (\<forall>q. q \<notin> set ps \<longrightarrow> cw' ! q = cw ! q \<and> ch' ! q = ch ! q) \<and>
     (\<forall>q \<in> set ps. q < 3 \<longrightarrow> clump_of ptw pth (comps ! q) = Some (cw' ! q, ch' ! q))"
  using assms
proof (induction ps arbitrary: cw ch)
  case (Cons p ps)
  obtain w h where wh: "clump_of ptw pth (comps ! p) = Some (w, h)"
    and rest: "fill_clumps ptw pth comps ps (cw[p := w], ch[p := h]) = Some (cw', ch')"
    using Cons.prems(1) by (auto split: option.splits)
  have "length cw' = 3 \<and> length ch' = 3 \<and>
     (\<forall>q. q \<notin> set ps \<longrightarrow> cw' ! q = cw[p := w] ! q \<and> ch' ! q = ch[p := h] ! q) \<and>
     (\<forall>q \<in> set ps. q < 3 \<longrightarrow> clump_of ptw pth (comps ! q) = Some (cw' ! q, ch' ! q))"
    using Cons.IH [OF rest] Cons.prems by simp
  with wh Cons.prems show ?case
    by (auto simp: nth_list_update)
qed simp

lemma alignment_requirement_nonzero:
  "afrc_plane_alignment_requirement n \<noteq> 0 \<Longrightarrow> n \<in> {16, 24, 32}"
  by (auto simp: afrc_plane_alignment_requirement_def split: if_splits)

lemma get_afbc_alloc_type_wf:
  "get_afbc_alloc_type info f usage = Some a \<Longrightarrow> alloc_type_wf info a"
  by (auto simp: get_afbc_alloc_type_def Let_def alloc_type_wf_def at_is_afbc_def at_is_afrc_def
      afbc_primary_type_def split: if_splits)

lemma fill_clumps_upt:
  assumes "fill_clumps ptw pth comps [0..<n] ([0, 0, 0], [0, 0, 0]) = Some (cw, ch)" and "n \<le> 3"
    and "p < n"
  shows "clump_of ptw pth (comps ! p) = Some (cw ! p, ch ! p)"
  using fill_clumps_nth [OF assms(1)] assms(2,3) by simp

lemma get_afrc_alloc_type_wf:
  assumes "get_afrc_alloc_type info f = Some a" and "row_wf info"
  shows "alloc_type_wf info a"
proof -
  define ptw :: u32 where "ptw = (if get_afrc_rot_layout f then 8 else 16)"
  define pth :: u32 where "pth = (if get_afrc_rot_layout f then 8 else 4)"
  have n: "npln info \<le> 3"
    using assms(2) by (simp add: row_wf_def)
  have tile: "(ptw, pth) \<in> {(8, 8), (16, 4)}"
    by (simp add: ptw_def pth_def)
  obtain cw ch where
    luma: "afrc_plane_alignment_requirement (to_bytes (get_afrc_rgba_coding_size f)) \<noteq> 0" and
    chroma: "afrc_plane_alignment_requirement (to_bytes (get_afrc_chroma_coding_size f)) \<noteq> 0" and
    fill: "fill_clumps ptw pth (ncmp info) [0..<npln info] ([0, 0, 0], [0, 0, 0]) = Some (cw, ch)" and
    a: "at_afrc a = \<lparr>rgba_luma_coding_unit_bytes = to_bytes (get_afrc_rgba_coding_size f),
        rgba_luma_plane_alignment =
          afrc_plane_alignment_requirement (to_bytes (get_afrc_rgba_coding_size f)),
        chroma_coding_unit_bytes = to_bytes (get_afrc_chroma_coding_size f),
        chroma_plane_alignment =
          afrc_plane_alignment_requirement (to_bytes (get_afrc_chroma_coding_size f)),
        clump_width = cw, clump_height = ch, paging_tile_width = ptw, paging_tile_height = pth\<rparr>"
      "primary_type a = AFRC" "\<not> is_tiled a" "\<not> is_frontbuffer_safe a"
    using assms(1) unfolding get_afrc_alloc_type_def ptw_def [symmetric] pth_def [symmetric] Let_def
    by (simp split: if_split_asm option.split_asm prod.split_asm) (metis alloc_type_t.select_convs)
  show ?thesis
    using tile alignment_requirement_nonzero [OF luma] alignment_requirement_nonzero [OF chroma]
      fill_clumps_upt [OF fill n]
    by (simp add: alloc_type_wf_def at_is_afbc_def at_is_afrc_def a)
qed

lemma get_alloc_type_wf:
  assumes "get_alloc_type H f usage = Some a" and "get_base_info H f = Some info"
  shows "alloc_type_wf info a"
proof -
  have "row_wf info"
    using get_format_info_SomeD [OF assms(2) [unfolded get_base_info_def]] formats_row_wf by blast
  then show ?thesis
    using assms get_afbc_alloc_type_wf get_afrc_alloc_type_wf
    by (auto simp: get_alloc_type_def alloc_type_wf_def at_is_afbc_def at_is_afrc_def
        split: if_splits)
qed

section \<open>Plane dimensions in natural numbers\<close>

definition align_unit_w :: "format_info_t \<Rightarrow> alloc_type_t \<Rightarrow> nat \<Rightarrow> bool \<Rightarrow> nat" where
  "align_unit_w info a p cpu = unat (max3 1 (fst (pixel_align info a p cpu)) (of_nat (tile_size info)))"

definition align_unit_h :: "format_info_t \<Rightarrow> alloc_type_t \<Rightarrow> nat \<Rightarrow> bool \<Rightarrow> nat" where
  "align_unit_h info a p cpu = unat (max3 1 (snd (pixel_align info a p cpu)) (of_nat (tile_size info)))"

definition plane_samples :: "nat \<Rightarrow> nat \<Rightarrow> nat \<Rightarrow> nat" where
  "plane_samples p sub n = (if 0 < p then n div sub else n)"

definition spec_plane_w :: "format_info_t \<Rightarrow> alloc_type_t \<Rightarrow> nat \<Rightarrow> bool \<Rightarrow> nat \<Rightarrow> nat" where
  "spec_plane_w info a p cpu w =
     align_up (plane_samples p (hsub info) (align_up w (align_w info))) (align_unit_w info a p cpu)"

definition spec_plane_h :: "format_info_t \<Rightarrow> alloc_type_t \<Rightarrow> nat \<Rightarrow> bool \<Rightarrow> nat \<Rightarrow> nat" where
  "spec_plane_h info a p cpu h =
     align_up (plane_samples p (vsub info) (align_up h (align_h info))) (align_unit_h info a p cpu)"

lemma power_of_two_bounds: "power_of_two n \<Longrightarrow> 0 < n \<and> n \<le> 128"
  by (auto simp: power_of_two_def)

lemma unat_of_nat_small: "n < 2 ^ 32 \<Longrightarrow> unat (of_nat n :: u32) = n"
  by (simp add: unat_of_nat take_bit_nat_eq_self)

lemma clump_of_bounds:
  assumes "clump_of ptw pth n = Some (w, h)" and "(ptw, pth) \<in> {(8, 8), (16, 4)}"
  shows "unat (ptw * w) \<le> 512 \<and> unat (pth * h) \<le> 128"
    and "(w, h) \<in> {(8, 8), (16, 4), (8, 4), (4, 4)}"
  using assms by (auto simp: clump_of_def split: if_splits)

lemma afbc_pixel_align_bounds:
  "unat (fst (afbc_pixel_align info a p)) \<le> 512 \<and> unat (snd (afbc_pixel_align info a p)) \<le> 128"
  by (cases "primary_type a")
    (simp_all add: afbc_pixel_align_def Let_def afbc_tile_size_def get_afbc_sb_size_def
      get_afbc_sb_size_base_def at_is_afbc_def max2_def sless32_def)

lemma pixel_align_bounds:
  assumes "row_wf info" and "alloc_type_wf info a" and "p < npln info"
  shows "unat (fst (pixel_align info a p cpu)) \<le> 512"
    and "unat (snd (pixel_align info a p cpu)) \<le> 128"
proof -
  have cpu: "unat (of_nat (align_w_cpu info) :: u32) \<le> 128"
    using assms(1) power_of_two_bounds [of "align_w_cpu info"]
    by (simp add: row_wf_def unat_of_nat_small)
  have afrc: "at_is_afrc a \<Longrightarrow>
      unat (paging_tile_width (at_afrc a) * clump_width (at_afrc a) ! p) \<le> 512 \<and>
      unat (paging_tile_height (at_afrc a) * clump_height (at_afrc a) ! p) \<le> 128"
    using assms(2,3) by (intro clump_of_bounds(1) [of _ _ "ncmp info ! p"]) (simp_all add: alloc_type_wf_def)
  show "unat (fst (pixel_align info a p cpu)) \<le> 512"
    using cpu afrc afbc_pixel_align_bounds [of info a p] by (simp add: pixel_align_def)
  show "unat (snd (pixel_align info a p cpu)) \<le> 128"
    using afrc afbc_pixel_align_bounds [of info a p] by (simp add: pixel_align_def)
qed

lemma align_unit_bounds:
  assumes "row_wf info" and "alloc_type_wf info a" and "p < npln info"
  shows "1 \<le> align_unit_w info a p cpu \<and> align_unit_w info a p cpu \<le> 512"
    and "1 \<le> align_unit_h info a p cpu \<and> align_unit_h info a p cpu \<le> 128"
proof -
  have t: "unat (of_nat (tile_size info) :: u32) \<le> 128"
    using assms(1) power_of_two_bounds [of "tile_size info"]
    by (simp add: row_wf_def unat_of_nat_small)
  show "1 \<le> align_unit_w info a p cpu \<and> align_unit_w info a p cpu \<le> 512"
    using pixel_align_bounds(1) [OF assms, of cpu] t by (simp add: align_unit_w_def unat_max3)
  show "1 \<le> align_unit_h info a p cpu \<and> align_unit_h info a p cpu \<le> 128"
    using pixel_align_bounds(2) [OF assms, of cpu] t by (simp add: align_unit_h_def unat_max3)
qed

lemma align_step:
  fixes v :: u32
  assumes "0 < b" "b \<le> 512" "unat v \<le> 2 ^ 25"
  shows "unat (GRALLOC_ALIGN v (of_nat b)) = align_up (unat v) b"
    and "align_up (unat v) b < unat v + 512"
proof -
  have "unat (of_nat b :: u32) = b"
    using assms by (simp add: unat_of_nat_small)
  then show "unat (GRALLOC_ALIGN v (of_nat b)) = align_up (unat v) b"
    using assms by (subst unat_GRALLOC_ALIGN) (auto simp flip: unat_eq_zero)
  show "align_up (unat v) b < unat v + 512"
    using align_up_less [of b "unat v"] assms by linarith
qed

lemma sub_step:
  fixes v :: u32
  assumes "0 < p \<longrightarrow> 0 < s" "s \<le> 128"
  obtains v' where "(if 0 < p then c_div v (of_nat s) else Inr v) = Inr v'"
    and "unat v' = plane_samples p s (unat v)" and "unat v' \<le> unat v"
proof (cases "0 < p")
  case True
  have s: "unat (of_nat s :: u32) = s"
    using assms by (simp add: unat_of_nat_small)
  then have "(of_nat s :: u32) \<noteq> 0"
    using True assms by (auto simp flip: unat_eq_zero)
  with True s that [of "v div of_nat s"] show ?thesis
    by (simp add: plane_samples_def unat_div)
next
  case False
  with that [of v] show ?thesis by (simp add: plane_samples_def)
qed

lemma row_subsampling:
  assumes "row_wf info" and "p < npln info"
  shows "0 < p \<longrightarrow> 0 < hsub info" "0 < p \<longrightarrow> 0 < vsub info" "hsub info \<le> 128" "vsub info \<le> 128"
    and "0 < align_w info" "align_w info \<le> 128" "0 < align_h info" "align_h info \<le> 128"
  using assms power_of_two_bounds by (cases "is_yuv info"; fastforce simp: row_wf_def)+

lemma get_pixel_w_h_eq:
  assumes "row_wf info" and "alloc_type_wf info a" and "p < npln info"
    and "unat w \<le> 2 ^ 24" and "unat h \<le> 2 ^ 24"
  obtains w' h' where "get_pixel_w_h w h info a p cpu = Inr (w', h')"
    and "unat w' = spec_plane_w info a p cpu (unat w)"
    and "unat h' = spec_plane_h info a p cpu (unat h)"
proof -
  note sub = row_subsampling [OF assms(1,3)]
  note unit = align_unit_bounds [OF assms(1,2,3), of cpu]
  obtain paw pah where pa: "pixel_align info a p cpu = (paw, pah)"
    by (cases "pixel_align info a p cpu")
  define w1 h1 where "w1 = GRALLOC_ALIGN w (of_nat (align_w info))"
    and "h1 = GRALLOC_ALIGN h (of_nat (align_h info))"
  have w1: "unat w1 = align_up (unat w) (align_w info)" "unat w1 \<le> 2 ^ 24 + 512"
    and h1: "unat h1 = align_up (unat h) (align_h info)" "unat h1 \<le> 2 ^ 24 + 512"
    using align_step [of "align_w info" w] align_step [of "align_h info" h] sub assms(4,5)
    unfolding w1_def h1_def by auto
  obtain w2 where w2: "(if 0 < p then c_div w1 (of_nat (hsub info)) else Inr w1) = Inr w2"
    "unat w2 = plane_samples p (hsub info) (unat w1)" "unat w2 \<le> unat w1"
    by (rule sub_step [OF sub(1,3)])
  obtain h2 where h2: "(if 0 < p then c_div h1 (of_nat (vsub info)) else Inr h1) = Inr h2"
    "unat h2 = plane_samples p (vsub info) (unat h1)" "unat h2 \<le> unat h1"
    by (rule sub_step [OF sub(2,4)])
  have uw: "max3 1 paw (of_nat (tile_size info)) = of_nat (align_unit_w info a p cpu)"
    and uh: "max3 1 pah (of_nat (tile_size info)) = of_nat (align_unit_h info a p cpu)"
    by (simp_all add: align_unit_w_def align_unit_h_def pa)
  show ?thesis
  proof (rule that)
    show "get_pixel_w_h w h info a p cpu =
      Inr (GRALLOC_ALIGN w2 (of_nat (align_unit_w info a p cpu)),
           GRALLOC_ALIGN h2 (of_nat (align_unit_h info a p cpu)))"
      unfolding get_pixel_w_h_def Let_def pa prod.case w1_def [symmetric] h1_def [symmetric] w2 h2
        uw uh by simp
    show "unat (GRALLOC_ALIGN w2 (of_nat (align_unit_w info a p cpu))) =
        spec_plane_w info a p cpu (unat w)"
      using align_step [of "align_unit_w info a p cpu" w2] unit w1 w2
      by (simp add: spec_plane_w_def)
    show "unat (GRALLOC_ALIGN h2 (of_nat (align_unit_h info a p cpu))) =
        spec_plane_h info a p cpu (unat h)"
      using align_step [of "align_unit_h info a p cpu" h2] unit h1 h2
      by (simp add: spec_plane_h_def)
  qed
qed

text \<open>The specified dimensions cover the requested picture and stay close to it.\<close>

lemma plane_samples_covers:
  assumes "s dvd n" and "0 < p \<longrightarrow> 0 < s"
  shows "plane_samples p s n * (if 0 < p then s else 1) = n"
  using assms by (simp add: plane_samples_def)

lemma spec_plane_w_covers:
  assumes "row_wf info" and "alloc_type_wf info a" and "p < npln info"
  shows "w \<le> spec_plane_w info a p cpu w * (if 0 < p then hsub info else 1)"
proof -
  note sub = row_subsampling [OF assms(1,3)]
  have dvd: "0 < p \<longrightarrow> hsub info dvd align_up w (align_w info)"
    using assms(1,3) dvd_trans [OF _ align_up_dvd [of "align_w info" w]]
    by (auto simp: row_wf_def)
  have "w \<le> align_up w (align_w info)"
    using sub by (simp add: align_up_ge)
  also have "\<dots> = plane_samples p (hsub info) (align_up w (align_w info)) * (if 0 < p then hsub info else 1)"
    using dvd by (simp add: plane_samples_def)
  also have "\<dots> \<le> spec_plane_w info a p cpu w * (if 0 < p then hsub info else 1)"
    unfolding spec_plane_w_def using align_unit_bounds(1) [OF assms, of cpu]
    by (intro mult_right_mono align_up_ge) linarith+
  finally show ?thesis .
qed

lemma spec_plane_h_covers:
  assumes "row_wf info" and "alloc_type_wf info a" and "p < npln info"
  shows "h \<le> spec_plane_h info a p cpu h * (if 0 < p then vsub info else 1)"
proof -
  note sub = row_subsampling [OF assms(1,3)]
  have dvd: "0 < p \<longrightarrow> vsub info dvd align_up h (align_h info)"
    using assms(1,3) dvd_trans [OF _ align_up_dvd [of "align_h info" h]]
    by (auto simp: row_wf_def)
  have "h \<le> align_up h (align_h info)"
    using sub by (simp add: align_up_ge)
  also have "\<dots> = plane_samples p (vsub info) (align_up h (align_h info)) * (if 0 < p then vsub info else 1)"
    using dvd by (simp add: plane_samples_def)
  also have "\<dots> \<le> spec_plane_h info a p cpu h * (if 0 < p then vsub info else 1)"
    unfolding spec_plane_h_def using align_unit_bounds(2) [OF assms, of cpu]
    by (intro mult_right_mono align_up_ge) linarith+
  finally show ?thesis .
qed

section \<open>Header initialisation writes its headers and nothing else\<close>

lemma write_headers_eq:
  "pos + n * length hdr \<le> length mem \<Longrightarrow>
   write_headers hdr n mem pos =
     take pos mem @ concat (replicate n hdr) @ drop (pos + n * length hdr) mem"
proof (induction n arbitrary: mem pos)
  case (Suc n)
  define mem' where "mem' = take pos mem @ hdr @ drop (pos + length hdr) mem"
  have len: "length mem' = length mem"
    using Suc.prems by (simp add: mem'_def)
  have "write_headers hdr n mem' (pos + length hdr) =
      take (pos + length hdr) mem' @ concat (replicate n hdr) @
      drop (pos + length hdr + n * length hdr) mem'"
    using Suc.prems len by (intro Suc.IH) simp
  also have "take (pos + length hdr) mem' = take pos mem @ hdr"
    using Suc.prems by (simp add: mem'_def)
  also have "drop (pos + length hdr + n * length hdr) mem' = drop (pos + Suc n * length hdr) mem"
    using Suc.prems by (simp add: mem'_def ac_simps)
  finally show ?case
    by (simp add: mem'_def)
qed simp

lemma length_afbc_header [simp]: "length (afbc_header H f multi off) = 4"
  by (simp add: afbc_header_def)

lemma init_afbc_eq:
  assumes "pos + 4 * unat (afbc_n_headers w h) \<le> length mem"
  shows "init_afbc H f multi w h pos mem =
    take pos mem @
    concat (replicate (unat (afbc_n_headers w h))
      (afbc_header H f multi (afbc_body_offset (get_afbc_tiled_headers f) (afbc_n_headers w h)))) @
    drop (pos + 4 * unat (afbc_n_headers w h)) mem"
  unfolding init_afbc_def Let_def using assms by (subst write_headers_eq) (simp_all add: mult.commute)

section \<open>Properties\<close>

text \<open>\<open>lcm\<close> is the least common multiple of its arguments whenever their product fits 32 bits,
  so a stride aligned to it satisfies the hardware and the CPU alignment at once; Euclid's
  loop always ends.\<close>

theorem lcm_correct:
  assumes "a \<noteq> 0" and "b \<noteq> 0" and "unat a * unat b < 2 ^ 32"
  shows "unat (lcm32 a b) = lcm (unat a) (unat b) \<and> unat (gcd32 a b) = gcd (unat a) (unat b)"
  using unat_lcm32 [OF assms] by (simp add: unat_gcd32)

theorem lcm_correct_witness: "unat (lcm32 64 24) = 192"
proof -
  have "lcm 64 (24 :: nat) = 192"
    by code_simp
  then show ?thesis
    using lcm_correct [of 64 24] by simp
qed

text \<open>An allocation type is consistent: extra-wide and multi-plane AFBC have tiled headers, and
  every AFRC plane has the clump size of its component count.\<close>

theorem alloc_type_consistent:
  assumes "get_alloc_type H f usage = Some a" and "get_base_info H f = Some info"
  shows "alloc_type_wf info a"
  by (rule get_alloc_type_wf [OF assms])

theorem alloc_type_consistent_witness:
  "\<exists>a info. get_base_info hal_sample \<lparr>m_format = 0x100, m_modifiers = 0\<rparr> = Some info \<and>
     get_alloc_type hal_sample \<lparr>m_format = 0x100, m_modifiers = 0\<rparr> 0 = Some a \<and> alloc_type_wf info a"
proof -
  let ?f = "\<lparr>m_format = 0x100, m_modifiers = 0\<rparr> :: internal_format_t"
  have "formats_yuv420 hal_sample ! 3 \<in> set (formats hal_sample)"
    "fi_id (formats_yuv420 hal_sample ! 3) = 0x100"
    by (simp_all add: formats_yuv420_def formats_def fmt_value_def)
  then have info: "get_base_info hal_sample ?f = Some (formats_yuv420 hal_sample ! 3)"
    by (simp add: get_base_info_def get_format_info_iff [OF hal_documented_sample] get_base_def
        mali_gralloc_format_get_base_def intfmt_values)
  then obtain a where "get_alloc_type hal_sample ?f 0 = Some a"
    by (simp add: get_alloc_type_def is_afbc_def is_afrc_def get_modifier_def)
  with info alloc_type_consistent [OF this info] show ?thesis by blast
qed

text \<open>\<open>init_afbc\<close> writes one 16-byte header per superblock, contiguously from the start of the
  plane, and leaves all other memory as it was.\<close>

theorem init_afbc_frame:
  assumes "pos + 4 * unat (afbc_n_headers w h) \<le> length mem"
  shows "length (init_afbc H f multi w h pos mem) = length mem \<and>
    take pos (init_afbc H f multi w h pos mem) = take pos mem \<and>
    drop (pos + 4 * unat (afbc_n_headers w h)) (init_afbc H f multi w h pos mem) =
      drop (pos + 4 * unat (afbc_n_headers w h)) mem \<and>
    take (4 * unat (afbc_n_headers w h)) (drop pos (init_afbc H f multi w h pos mem)) =
      concat (replicate (unat (afbc_n_headers w h))
        (afbc_header H f multi (afbc_body_offset (get_afbc_tiled_headers f) (afbc_n_headers w h))))"
proof -
  have len: "length (concat (replicate n (afbc_header H f multi off))) = 4 * n" for n off
    by (induction n) simp_all
  show ?thesis
    unfolding init_afbc_eq [OF assms] using assms by (simp add: len)
qed

theorem init_afbc_frame_witness:
  "length (init_afbc hal_sample \<lparr>m_format = 1, m_modifiers = 0\<rparr> False 32 16 4 (replicate 20 7)) = 20"
  using init_afbc_frame [of 4 32 16 "replicate 20 7" hal_sample "\<lparr>m_format = 1, m_modifiers = 0\<rparr>" False]
  by (simp add: afbc_n_headers_def sdiv32_def sdiv_int_def AFBC_PIXELS_PER_BLOCK_def)

end
