(* ===== verification/Capabilities.thy ===== *)
theory Capabilities
  imports Gralloc_Prelude
begin

text \<open>
  src/src/capabilities: which IP supports which feature. The files parsed are those of
  capabilities_type.xsd; the generated parser \<open>readCapabilities\<close> and the directory are
  parameters, the search over them and the permission checks are modelled.
\<close>

section \<open>IP sets (formats.h, capabilities.h)\<close>

type_synonym mali_gralloc_ip = u32

definition MALI_GRALLOC_IP_NONE :: mali_gralloc_ip where "MALI_GRALLOC_IP_NONE = 0"
definition MALI_GRALLOC_IP_CPU :: mali_gralloc_ip where "MALI_GRALLOC_IP_CPU = push_bit 0 1"
definition MALI_GRALLOC_IP_GPU :: mali_gralloc_ip where "MALI_GRALLOC_IP_GPU = push_bit 1 1"
definition MALI_GRALLOC_IP_DPU :: mali_gralloc_ip where "MALI_GRALLOC_IP_DPU = push_bit 2 1"
definition MALI_GRALLOC_IP_DPU_AEU :: mali_gralloc_ip where "MALI_GRALLOC_IP_DPU_AEU = push_bit 3 1"
definition MALI_GRALLOC_IP_VPU :: mali_gralloc_ip where "MALI_GRALLOC_IP_VPU = push_bit 4 1"
definition MALI_GRALLOC_IP_CAM :: mali_gralloc_ip where "MALI_GRALLOC_IP_CAM = push_bit 5 1"

lemma ip_values [flag_defs]:
  "MALI_GRALLOC_IP_NONE = 0" "MALI_GRALLOC_IP_CPU = 1" "MALI_GRALLOC_IP_GPU = 2"
  "MALI_GRALLOC_IP_DPU = 4" "MALI_GRALLOC_IP_DPU_AEU = 8" "MALI_GRALLOC_IP_VPU = 16"
  "MALI_GRALLOC_IP_CAM = 32"
  by (simp_all add: MALI_GRALLOC_IP_NONE_def MALI_GRALLOC_IP_CPU_def MALI_GRALLOC_IP_GPU_def
      MALI_GRALLOC_IP_DPU_def MALI_GRALLOC_IP_DPU_AEU_def MALI_GRALLOC_IP_VPU_def
      MALI_GRALLOC_IP_CAM_def push_bit_of_1)

text \<open>The class \<open>ip_t\<close> wraps one \<open>mali_gralloc_ip\<close>; producers and consumers are such sets.\<close>

definition ip_empty :: "mali_gralloc_ip \<Rightarrow> bool" where
  "ip_empty ips \<longleftrightarrow> ips = 0"

definition ip_contains :: "mali_gralloc_ip \<Rightarrow> mali_gralloc_ip \<Rightarrow> bool" where
  "ip_contains ips ip \<longleftrightarrow> test_flag ip ips"

definition ip_add :: "mali_gralloc_ip \<Rightarrow> mali_gralloc_ip \<Rightarrow> mali_gralloc_ip" where
  "ip_add ips ip = ips OR ip"

definition ip_remove :: "mali_gralloc_ip \<Rightarrow> mali_gralloc_ip \<Rightarrow> mali_gralloc_ip" where
  "ip_remove ips ip = ips AND NOT ip"

section \<open>Features and their names\<close>

datatype feature_t =
    FORMAT_R10G10B10A2 | FORMAT_R16G16B16A16_FLOAT | YUV_BL_8 | YUV_BL_10
  | AFBC_16X16 | AFBC_32X8 | AFBC_64X4 | AFBC_BLOCK_SPLIT | AFBC_TILED_HEADERS | AFBC_DOUBLE_BODY
  | AFBC_WRITE_NON_SPARSE | AFBC_YUV | AFBC_FORMAT_R16G16B16A16_FLOAT | AFRC_ROT_LAYOUT
  | AFRC_SCAN_LAYOUT | DISABLED
  | UNKNOWN_FEATURE

definition feature_name_map :: "(feature_t \<times> string) list" where
  "feature_name_map =
     [(FORMAT_R10G10B10A2, ''FORMAT_R10G10B10A2''),
      (FORMAT_R16G16B16A16_FLOAT, ''FORMAT_R16G16B16A16_FLOAT''), (YUV_BL_8, ''YUV_BL_8''),
      (YUV_BL_10, ''YUV_BL_10''), (AFBC_16X16, ''AFBC_16X16''), (AFBC_32X8, ''AFBC_32X8''),
      (AFBC_64X4, ''AFBC_64X4''), (AFBC_BLOCK_SPLIT, ''AFBC_BLOCK_SPLIT''),
      (AFBC_TILED_HEADERS, ''AFBC_TILED_HEADERS''), (AFBC_DOUBLE_BODY, ''AFBC_DOUBLE_BODY''),
      (AFBC_WRITE_NON_SPARSE, ''AFBC_WRITE_NON_SPARSE''), (AFBC_YUV, ''AFBC_YUV''),
      (AFBC_FORMAT_R16G16B16A16_FLOAT, ''AFBC_FORMAT_R16G16B16A16_FLOAT''),
      (AFRC_ROT_LAYOUT, ''AFRC_ROT_LAYOUT''), (AFRC_SCAN_LAYOUT, ''AFRC_SCAN_LAYOUT''),
      (DISABLED, ''DISABLED'')]"

definition feature_to_name :: "feature_t \<Rightarrow> string" where
  "feature_to_name feature =
     (case map_of feature_name_map feature of Some s \<Rightarrow> s | None \<Rightarrow> ''UNKNOWN'')"

definition name_to_feature :: "string \<Rightarrow> feature_t" where
  "name_to_feature s =
     (case map_of (map (\<lambda>(f, n). (n, f)) feature_name_map) s of
        Some f \<Rightarrow> f | None \<Rightarrow> UNKNOWN_FEATURE)"

section \<open>Capability files\<close>

text \<open>The data of capabilities_type.xsd. Each enumeration has one more value for unknown text.\<close>

datatype xml_ip = XML_GPU | XML_DPU | XML_DPU_AEU | XML_VPU | XML_CAM | XML_IP_UNKNOWN

datatype xml_permission = XML_RW | XML_RO | XML_WO | XML_NO | XML_PERMISSION_UNKNOWN

datatype xml_name =
    XML_FORMAT_R10G10B10A2 | XML_FORMAT_R16G16B16A16_FLOAT | XML_YUV_BL_8 | XML_YUV_BL_10
  | XML_AFBC_16X16 | XML_AFBC_32X8 | XML_AFBC_64X4 | XML_AFBC_BLOCK_SPLIT
  | XML_AFBC_TILED_HEADERS | XML_AFBC_DOUBLE_BODY | XML_AFBC_WRITE_NON_SPARSE | XML_AFBC_YUV
  | XML_AFBC_FORMAT_R16G16B16A16_FLOAT | XML_AFRC_ROT_LAYOUT | XML_AFRC_SCAN_LAYOUT | XML_DISABLED
  | XML_NAME_UNKNOWN

record xml_feature =
  xf_name :: xml_name
  xf_permission :: xml_permission

record ip_capabilities =
  ic_ip :: xml_ip
  ic_features :: "xml_feature list"

type_synonym capabilities = "ip_capabilities list"

fun xml_matches_feature :: "xml_name \<Rightarrow> feature_t \<Rightarrow> bool" where
  "xml_matches_feature XML_FORMAT_R10G10B10A2 feature = (feature = FORMAT_R10G10B10A2)"
| "xml_matches_feature XML_FORMAT_R16G16B16A16_FLOAT feature = (feature = FORMAT_R16G16B16A16_FLOAT)"
| "xml_matches_feature XML_YUV_BL_8 feature = (feature = YUV_BL_8)"
| "xml_matches_feature XML_YUV_BL_10 feature = (feature = YUV_BL_10)"
| "xml_matches_feature XML_AFBC_16X16 feature = (feature = AFBC_16X16)"
| "xml_matches_feature XML_AFBC_32X8 feature = (feature = AFBC_32X8)"
| "xml_matches_feature XML_AFBC_64X4 feature = (feature = AFBC_64X4)"
| "xml_matches_feature XML_AFBC_BLOCK_SPLIT feature = (feature = AFBC_BLOCK_SPLIT)"
| "xml_matches_feature XML_AFBC_TILED_HEADERS feature = (feature = AFBC_TILED_HEADERS)"
| "xml_matches_feature XML_AFBC_DOUBLE_BODY feature = (feature = AFBC_DOUBLE_BODY)"
| "xml_matches_feature XML_AFBC_WRITE_NON_SPARSE feature = (feature = AFBC_WRITE_NON_SPARSE)"
| "xml_matches_feature XML_AFBC_YUV feature = (feature = AFBC_YUV)"
| "xml_matches_feature XML_AFBC_FORMAT_R16G16B16A16_FLOAT feature = (feature = AFBC_FORMAT_R16G16B16A16_FLOAT)"
| "xml_matches_feature XML_AFRC_ROT_LAYOUT feature = (feature = AFRC_ROT_LAYOUT)"
| "xml_matches_feature XML_AFRC_SCAN_LAYOUT feature = (feature = AFRC_SCAN_LAYOUT)"
| "xml_matches_feature XML_DISABLED feature = (feature = DISABLED)"
| "xml_matches_feature XML_NAME_UNKNOWN feature = False"

datatype permission_t = perm_read | perm_write

definition permission_grants :: "xml_permission \<Rightarrow> permission_t \<Rightarrow> bool" where
  "permission_grants p req =
     (let (readable, writeable) =
        (case p of XML_RW \<Rightarrow> (True, True) | XML_RO \<Rightarrow> (True, False) | XML_WO \<Rightarrow> (False, True)
         | XML_NO \<Rightarrow> (False, False) | XML_PERMISSION_UNKNOWN \<Rightarrow> (False, False))
      in case req of perm_read \<Rightarrow> readable | perm_write \<Rightarrow> writeable)"

primrec is_feature_supported :: "xml_feature list \<Rightarrow> feature_t \<Rightarrow> permission_t \<Rightarrow> bool" where
  "is_feature_supported [] feature permission = False"
| "is_feature_supported (x # xs) feature permission =
     (if xml_matches_feature (xf_name x) feature then permission_grants (xf_permission x) permission
      else is_feature_supported xs feature permission)"

definition convert_gralloc_ip_to_capabilities_type_ip :: "mali_gralloc_ip \<Rightarrow> xml_ip" where
  "convert_gralloc_ip_to_capabilities_type_ip ip =
     (if ip = MALI_GRALLOC_IP_GPU then XML_GPU
      else if ip = MALI_GRALLOC_IP_DPU then XML_DPU
      else if ip = MALI_GRALLOC_IP_DPU_AEU then XML_DPU_AEU
      else if ip = MALI_GRALLOC_IP_VPU then XML_VPU
      else if ip = MALI_GRALLOC_IP_CAM then XML_CAM
      else XML_IP_UNKNOWN)"

definition gralloc_ip_to_string :: "mali_gralloc_ip \<Rightarrow> string" where
  "gralloc_ip_to_string ip =
     (if ip = MALI_GRALLOC_IP_GPU then ''GPU''
      else if ip = MALI_GRALLOC_IP_DPU then ''DPU''
      else if ip = MALI_GRALLOC_IP_DPU_AEU then ''DPU_AEU''
      else if ip = MALI_GRALLOC_IP_VPU then ''VPU''
      else if ip = MALI_GRALLOC_IP_CAM then ''CAM''
      else ''UNKNOWN'')"

definition find_ip_capabilities_in_config ::
  "mali_gralloc_ip \<Rightarrow> capabilities \<Rightarrow> ip_capabilities option" where
  "find_ip_capabilities_in_config ip caps =
     (let current_ip = convert_gralloc_ip_to_capabilities_type_ip ip
      in if current_ip = XML_IP_UNKNOWN then None
         else find (\<lambda>c. ic_ip c = current_ip) caps)"

section \<open>The directory search\<close>

datatype d_type_t = DT_UNKNOWN | DT_REG | DT_OTHER

text \<open>One directory entry; \<open>de_stat\<close> is what \<open>stat\<close> answers: whether the file is regular.\<close>

record dir_entry =
  de_name :: string
  de_type :: d_type_t
  de_stat :: "bool option"

definition xml_base_path :: string where
  "xml_base_path = ''/vendor/etc/gralloc''"

definition get_file_extension :: "string \<Rightarrow> string option" where
  "get_file_extension file_name =
     (let ext = rev (takeWhile (\<lambda>c. c \<noteq> CHR ''.'') (rev file_name))
      in if CHR ''.'' \<notin> set file_name \<or> ext = [] then None else Some ext)"

definition is_regular_file :: "dir_entry \<Rightarrow> bool" where
  "is_regular_file e = (case de_stat e of None \<Rightarrow> False | Some r \<Rightarrow> r)"

definition entry_considered :: "dir_entry \<Rightarrow> bool" where
  "entry_considered e \<longleftrightarrow>
     (if de_type e = DT_UNKNOWN then is_regular_file e else de_type e = DT_REG) \<and>
     get_file_extension (de_name e) = Some ''xml''"

text \<open>\<open>rd\<close> is the generated parser, \<open>None\<close> for a file it cannot parse.\<close>

primrec search_entries ::
  "(string \<Rightarrow> capabilities option) \<Rightarrow> mali_gralloc_ip \<Rightarrow> string \<Rightarrow> dir_entry list \<Rightarrow>
   (string \<times> ip_capabilities) option" where
  "search_entries rd ip base [] = None"
| "search_entries rd ip base (e # es) =
     (let full_file_path = base @ ''/'' @ de_name e
      in if \<not> entry_considered e then search_entries rd ip base es
         else case rd full_file_path of
                None \<Rightarrow> None
              | Some config \<Rightarrow>
                  (case find_ip_capabilities_in_config ip config of
                     Some c \<Rightarrow> Some (full_file_path, c)
                   | None \<Rightarrow> search_entries rd ip base es))"

definition find_ip_capabilities ::
  "(string \<Rightarrow> dir_entry list option) \<Rightarrow> (string \<Rightarrow> capabilities option) \<Rightarrow> mali_gralloc_ip \<Rightarrow>
   string \<Rightarrow> (string \<times> ip_capabilities) option" where
  "find_ip_capabilities opendir rd ip base =
     (case opendir base of None \<Rightarrow> None | Some es \<Rightarrow> search_entries rd ip base es)"

section \<open>Capability handles and \<open>ip_support_feature\<close>\<close>

record ip_capability =
  cap_ip :: mali_gralloc_ip
  cap_path :: string
  cap_caps :: "ip_capabilities option"

definition make_ip_capability ::
  "(string \<Rightarrow> dir_entry list option) \<Rightarrow> (string \<Rightarrow> capabilities option) \<Rightarrow> mali_gralloc_ip \<Rightarrow>
   ip_capability" where
  "make_ip_capability opendir rd ip =
     (case find_ip_capabilities opendir rd ip xml_base_path of
        None \<Rightarrow> \<lparr>cap_ip = ip, cap_path = [], cap_caps = None\<rparr>
      | Some (path, c) \<Rightarrow> \<lparr>cap_ip = ip, cap_path = path, cap_caps = Some c\<rparr>)"

definition capability_handles ::
  "(string \<Rightarrow> dir_entry list option) \<Rightarrow> (string \<Rightarrow> capabilities option) \<Rightarrow> ip_capability list" where
  "capability_handles opendir rd =
     map (make_ip_capability opendir rd)
       [MALI_GRALLOC_IP_GPU, MALI_GRALLOC_IP_DPU, MALI_GRALLOC_IP_DPU_AEU, MALI_GRALLOC_IP_VPU,
        MALI_GRALLOC_IP_CAM]"

definition caps_supports_feature_cpu :: "feature_t \<Rightarrow> bool" where
  "caps_supports_feature_cpu feature \<longleftrightarrow>
     feature = FORMAT_R10G10B10A2 \<or> feature = FORMAT_R16G16B16A16_FLOAT"

text \<open>The loop over the handles: a missing GPU file aborts, another missing file is ignored.\<close>

primrec support_handles ::
  "mali_gralloc_ip \<Rightarrow> mali_gralloc_ip \<Rightarrow> feature_t \<Rightarrow> ip_capability list \<Rightarrow> bool res" where
  "support_handles producers consumers feature [] = Inr True"
| "support_handles producers consumers feature (h # hs) =
     (case cap_caps h of
        None \<Rightarrow>
          (if cap_ip h = MALI_GRALLOC_IP_GPU then Inl Always_fatal
           else support_handles producers consumers feature hs)
      | Some c \<Rightarrow>
          (if test_flag producers (cap_ip h) \<and>
              \<not> is_feature_supported (ic_features c) feature perm_write then Inr False
           else if test_flag consumers (cap_ip h) \<and>
              \<not> is_feature_supported (ic_features c) feature perm_read then Inr False
           else support_handles producers consumers feature hs))"

definition ip_support_feature ::
  "ip_capability list \<Rightarrow> mali_gralloc_ip \<Rightarrow> mali_gralloc_ip \<Rightarrow> feature_t \<Rightarrow> bool res" where
  "ip_support_feature E producers consumers feature =
     (if (test_flag producers MALI_GRALLOC_IP_CPU \<or> test_flag consumers MALI_GRALLOC_IP_CPU) \<and>
         \<not> caps_supports_feature_cpu feature then Inr False
      else support_handles producers consumers feature E)"

definition mali_gralloc_ip_supports_feature ::
  "ip_capability list \<Rightarrow> mali_gralloc_ip \<Rightarrow> mali_gralloc_ip \<Rightarrow> string \<Rightarrow> bool res" where
  "mali_gralloc_ip_supports_feature E producers consumers feature_name =
     (let feature = name_to_feature feature_name
      in if feature = UNKNOWN_FEATURE then Inr False
         else ip_support_feature E producers consumers feature)"

definition producers_support :: "ip_capability list \<Rightarrow> mali_gralloc_ip \<Rightarrow> feature_t \<Rightarrow> bool res" where
  "producers_support E producers feature =
     ip_support_feature E producers MALI_GRALLOC_IP_NONE feature"

definition consumers_support :: "ip_capability list \<Rightarrow> mali_gralloc_ip \<Rightarrow> feature_t \<Rightarrow> bool res" where
  "consumers_support E consumers feature =
     ip_support_feature E MALI_GRALLOC_IP_NONE consumers feature"

definition ip_support ::
  "ip_capability list \<Rightarrow> mali_gralloc_ip \<Rightarrow> mali_gralloc_ip \<Rightarrow> feature_t \<Rightarrow> bool res" where
  "ip_support E producers consumers feature = ip_support_feature E producers consumers feature"

text \<open>
  The loop of \<open>ip_t::present\<close>: the single-bit set \<open>ip\<close> is shifted left until it exceeds the
  set or becomes 0. It becomes 0 after 32 shifts, so a counter of 32 covers every run.
\<close>

primrec present_loop :: "nat \<Rightarrow> ip_capability list \<Rightarrow> mali_gralloc_ip \<Rightarrow> mali_gralloc_ip \<Rightarrow> bool res" where
  "present_loop 0 E ips ip = Inr True"
| "present_loop (Suc n) E ips ip =
     (if ip \<le> ips \<and> ip \<noteq> 0 then
        bind_res (if ip_contains ips ip then ip_support_feature E ip ip DISABLED else Inr False)
          (\<lambda>absent. if absent then Inr False else present_loop n E ips (push_bit 1 ip))
      else Inr True)"

definition ip_present :: "ip_capability list \<Rightarrow> mali_gralloc_ip \<Rightarrow> bool res" where
  "ip_present E ips = present_loop 32 E ips 1"

section \<open>Facts about names and the search\<close>

lemma name_to_feature_feature_to_name: "name_to_feature (feature_to_name f) = f"
  by (cases f) (simp_all add: name_to_feature_def feature_to_name_def feature_name_map_def)

lemma xml_matches_unique:
  "xml_matches_feature x f \<Longrightarrow> xml_matches_feature x g \<Longrightarrow> f = g"
  by (cases x) simp_all

lemma is_feature_supported_grants:
  "is_feature_supported xs f perm \<longleftrightarrow>
     (\<exists>x. find (\<lambda>x. xml_matches_feature (xf_name x) f) xs = Some x \<and>
        permission_grants (xf_permission x) perm)"
  by (induction xs) auto

lemma permission_grants_iff:
  "permission_grants p perm_read \<longleftrightarrow> p = XML_RW \<or> p = XML_RO"
  "permission_grants p perm_write \<longleftrightarrow> p = XML_RW \<or> p = XML_WO"
  by (cases p; simp add: permission_grants_def)+

text \<open>An entry that the search passes over: not considered, or a file without the IP.\<close>

definition entry_passed ::
  "(string \<Rightarrow> capabilities option) \<Rightarrow> mali_gralloc_ip \<Rightarrow> string \<Rightarrow> dir_entry \<Rightarrow> bool" where
  "entry_passed rd ip base e \<longleftrightarrow>
     (entry_considered e \<longrightarrow>
        (\<exists>config. rd (base @ ''/'' @ de_name e) = Some config \<and>
           find_ip_capabilities_in_config ip config = None))"

lemma search_entries_Some_iff:
  "search_entries rd ip base es = Some (path, c) \<longleftrightarrow>
     (\<exists>pre e post config. es = pre @ e # post \<and> list_all (entry_passed rd ip base) pre \<and>
        entry_considered e \<and> path = base @ ''/'' @ de_name e \<and> rd path = Some config \<and>
        find_ip_capabilities_in_config ip config = Some c)"
  (is "?L es \<longleftrightarrow> (\<exists>pre e post config. ?R es pre e post config)")
proof (induction es)
  case (Cons x xs)
  let ?hit = "\<exists>config. entry_considered x \<and> path = base @ ''/'' @ de_name x \<and> rd path = Some config \<and>
        find_ip_capabilities_in_config ip config = Some c"
  have "?L (x # xs) \<longleftrightarrow> ?hit \<or> (entry_passed rd ip base x \<and> ?L xs)"
    by (auto simp: entry_passed_def Let_def split: option.splits)
  also have "\<dots> \<longleftrightarrow> (\<exists>pre e post config. ?R (x # xs) pre e post config)"
  proof
    assume "?hit \<or> (entry_passed rd ip base x \<and> ?L xs)"
    then show "\<exists>pre e post config. ?R (x # xs) pre e post config"
    proof
      assume ?hit
      then obtain config where "?R (x # xs) [] x xs config" by auto
      then show ?thesis by blast
    next
      assume a: "entry_passed rd ip base x \<and> ?L xs"
      then obtain pre e post config where "?R xs pre e post config"
        using Cons.IH by blast
      with a have "?R (x # xs) (x # pre) e post config"
        by auto
      then show ?thesis by blast
    qed
  next
    assume "\<exists>pre e post config. ?R (x # xs) pre e post config"
    then obtain pre e post config where r: "?R (x # xs) pre e post config" by blast
    show "?hit \<or> (entry_passed rd ip base x \<and> ?L xs)"
    proof (cases pre)
      case Nil
      with r show ?thesis by auto
    next
      case (Cons y ys)
      with r have "?R xs ys e post config" "entry_passed rd ip base x" by auto
      then show ?thesis using Cons.IH by blast
    qed
  qed
  finally show ?case .
qed simp

section \<open>The capability oracle\<close>

text \<open>
  What format selection relies on: a set of IPs supports a feature when every member does, and
  producers and consumers are asked independently. A fault (no GPU capabilities) is never a
  positive answer.
\<close>

locale capability_oracle =
  fixes supports :: "mali_gralloc_ip \<Rightarrow> mali_gralloc_ip \<Rightarrow> feature_t \<Rightarrow> bool res"
  assumes union_producers:
      "supports (p OR q) c f = Inr True \<longleftrightarrow> supports p c f = Inr True \<and> supports q c f = Inr True"
    and union_consumers:
      "supports p (c OR d) f = Inr True \<longleftrightarrow> supports p c f = Inr True \<and> supports p d f = Inr True"
    and separate:
      "supports p c f = Inr True \<longleftrightarrow> supports p 0 f = Inr True \<and> supports 0 c f = Inr True"
begin

lemma fewer_producers:
  "supports p c f = Inr True \<Longrightarrow> q OR p = p \<Longrightarrow> supports q c f = Inr True"
  using union_producers [of q p c f] by simp

lemma fewer_consumers:
  "supports p c f = Inr True \<Longrightarrow> d OR c = c \<Longrightarrow> supports p d f = Inr True"
  using union_consumers [of p d c f] by simp

lemma fewer_ips:
  "supports p c f = Inr True \<Longrightarrow> q OR p = p \<Longrightarrow> d OR c = c \<Longrightarrow> supports q d f = Inr True"
  by (meson fewer_producers fewer_consumers)

lemma producers_alone: "supports p c f = Inr True \<Longrightarrow> supports p 0 f = Inr True"
  using separate by blast

lemma consumers_alone: "supports p c f = Inr True \<Longrightarrow> supports 0 c f = Inr True"
  using separate by blast

end

lemma support_handles_True_iff:
  "support_handles p c f E = Inr True \<longleftrightarrow>
     (\<forall>h \<in> set E. case cap_caps h of
        None \<Rightarrow> cap_ip h \<noteq> MALI_GRALLOC_IP_GPU
      | Some caps \<Rightarrow>
          (test_flag p (cap_ip h) \<longrightarrow> is_feature_supported (ic_features caps) f perm_write) \<and>
          (test_flag c (cap_ip h) \<longrightarrow> is_feature_supported (ic_features caps) f perm_read))"
  by (induction E) (auto split: option.splits)

lemma ip_support_feature_True_iff:
  "ip_support_feature E p c f = Inr True \<longleftrightarrow>
     (test_flag p MALI_GRALLOC_IP_CPU \<or> test_flag c MALI_GRALLOC_IP_CPU \<longrightarrow>
        caps_supports_feature_cpu f) \<and>
     support_handles p c f E = Inr True"
  by (auto simp: ip_support_feature_def)

interpretation caps: capability_oracle "ip_support_feature E" for E
proof
  fix p q c d f
  show "ip_support_feature E (p OR q) c f = Inr True \<longleftrightarrow>
      ip_support_feature E p c f = Inr True \<and> ip_support_feature E q c f = Inr True"
    unfolding ip_support_feature_True_iff support_handles_True_iff test_flag_or
    by (auto split: option.splits)
  show "ip_support_feature E p (c OR d) f = Inr True \<longleftrightarrow>
      ip_support_feature E p c f = Inr True \<and> ip_support_feature E p d f = Inr True"
    unfolding ip_support_feature_True_iff support_handles_True_iff test_flag_or
    by (auto split: option.splits)
  show "ip_support_feature E p c f = Inr True \<longleftrightarrow>
      ip_support_feature E p 0 f = Inr True \<and> ip_support_feature E 0 c f = Inr True"
    unfolding ip_support_feature_True_iff support_handles_True_iff
    by (auto split: option.splits)
qed

definition gpu_caps_present :: "ip_capability list \<Rightarrow> bool" where
  "gpu_caps_present E \<longleftrightarrow> (\<forall>h \<in> set E. cap_caps h = None \<longrightarrow> cap_ip h \<noteq> MALI_GRALLOC_IP_GPU)"

lemma ip_support_feature_total:
  assumes "gpu_caps_present E"
  obtains b where "ip_support_feature E p c f = Inr b"
proof -
  have "\<exists>b. support_handles p c f E = Inr b"
    using assms by (induction E) (auto simp: gpu_caps_present_def split: option.splits)
  then show ?thesis
    using that by (simp add: ip_support_feature_def) metis
qed

section \<open>Presence\<close>

lemma contains_push: "ip_contains ips (push_bit k 1) \<longleftrightarrow> bit ips k"
  by (simp add: ip_contains_def test_flag_def push_bit_of_1 and.commute [of "2 ^ k"]
      and_exp_eq_0_iff_not_bit)

lemma less_exp_no_bits:
  assumes "ips < push_bit k (1 :: u32)" and "k < 32" and "k \<le> i"
  shows "\<not> bit ips i"
proof -
  have "ips AND mask k = ips"
    using assms(1,2) by (simp add: less_mask_eq push_bit_of_1)
  then have "bit ips i \<longleftrightarrow> i < k \<and> bit ips i"
    by (metis bit_and_iff bit_mask_iff)
  with assms(3) show ?thesis by linarith
qed

lemma present_loop_eq:
  assumes "gpu_caps_present E" and "n + k = 32"
  shows "present_loop n E ips (push_bit k 1) =
    Inr (\<forall>i \<in> {k..<32}. bit ips i \<longrightarrow>
           ip_support_feature E (push_bit i 1) (push_bit i 1) DISABLED = Inr False)"
  using assms(2)
proof (induction n arbitrary: k)
  case (Suc n)
  have nz: "push_bit k (1 :: u32) \<noteq> 0"
    using Suc.prems by (simp add: push_bit_of_1)
  obtain b where b: "ip_support_feature E (push_bit k 1) (push_bit k 1) DISABLED = Inr b"
    by (rule ip_support_feature_total [OF assms(1)])
  have range: "{k..<32} = insert k {Suc k..<32}"
    using Suc.prems by auto
  have IH: "present_loop n E ips (push_bit (Suc k) 1) =
    Inr (\<forall>i \<in> {Suc k..<32}. bit ips i \<longrightarrow>
           ip_support_feature E (push_bit i 1) (push_bit i 1) DISABLED = Inr False)"
    using Suc.IH [of "Suc k"] Suc.prems by simp
  show ?case
  proof (cases "push_bit k 1 \<le> ips")
    case True
    have "present_loop (Suc n) E ips (push_bit k 1) =
        (if bit ips k \<and> b then Inr False else present_loop n E ips (push_bit (Suc k) 1))"
      using True nz b by (simp add: contains_push del: push_bit_of_1)
    also have "\<dots> = Inr (\<forall>i \<in> {k..<32}. bit ips i \<longrightarrow>
           ip_support_feature E (push_bit i 1) (push_bit i 1) DISABLED = Inr False)"
      unfolding range IH using b by (cases b; cases "bit ips k"; simp del: push_bit_of_1)
    finally show ?thesis .
  next
    case False
    then have "\<forall>i \<in> {k..<32}. \<not> bit ips i"
      using less_exp_no_bits [of ips k] Suc.prems by auto
    with False show ?thesis by auto
  qed
qed simp

section \<open>Properties\<close>

text \<open>The feature names of the unit-test interface and the features are in bijection: a name
  translated to a feature and back is unchanged unless it names no feature.\<close>

theorem feature_name_roundtrip:
  "name_to_feature (feature_to_name f) = f \<and>
   (name_to_feature s = UNKNOWN_FEATURE \<or> feature_to_name (name_to_feature s) = s)"
proof -
  have "name_to_feature s = f \<Longrightarrow> f = UNKNOWN_FEATURE \<or> feature_to_name f = s" for f
    by (auto simp: name_to_feature_def feature_to_name_def feature_name_map_def split: if_splits)
  then show ?thesis
    using name_to_feature_feature_to_name by blast
qed

text \<open>The directory search for the capabilities of an IP answers with the first entry that is a
  regular .xml file naming the IP, provided every .xml file before it could be parsed.\<close>

theorem capability_search:
  "find_ip_capabilities opendir rd ip base = Some (path, c) \<longleftrightarrow>
     (\<exists>pre e post config. opendir base = Some (pre @ e # post) \<and>
        list_all (entry_passed rd ip base) pre \<and>
        entry_considered e \<and> path = base @ ''/'' @ de_name e \<and> rd path = Some config \<and>
        find_ip_capabilities_in_config ip config = Some c)"
  by (auto simp: find_ip_capabilities_def search_entries_Some_iff split: option.splits)

text \<open>Features are only lost by asking for more: what a set of producers and consumers supports,
  every smaller set supports, and each side supports it on its own.\<close>

theorem support_antitone:
  assumes "ip_support E p c f = Inr True" and "q OR p = p" and "d OR c = c"
  shows "ip_support E q d f = Inr True \<and> producers_support E q f = Inr True \<and>
    consumers_support E d f = Inr True"
proof -
  have "ip_support_feature E q d f = Inr True"
    using assms unfolding ip_support_def by (rule caps.fewer_ips)
  then show ?thesis
    using caps.producers_alone [of E q d f] caps.consumers_alone [of E q d f]
    by (simp add: ip_support_def producers_support_def consumers_support_def MALI_GRALLOC_IP_NONE_def)
qed

theorem support_antitone_witness:
  "ip_support [] MALI_GRALLOC_IP_GPU MALI_GRALLOC_IP_DPU AFBC_16X16 = Inr True"
proof -
  have "ip_support [] (MALI_GRALLOC_IP_GPU OR MALI_GRALLOC_IP_VPU) MALI_GRALLOC_IP_DPU AFBC_16X16 = Inr True"
    by (simp add: ip_support_def ip_support_feature_def flag_defs test_flag_def)
  moreover have "MALI_GRALLOC_IP_GPU OR (MALI_GRALLOC_IP_GPU OR MALI_GRALLOC_IP_VPU) =
      MALI_GRALLOC_IP_GPU OR MALI_GRALLOC_IP_VPU"
    by simp
  ultimately show ?thesis
    using support_antitone [of "[]" "MALI_GRALLOC_IP_GPU OR MALI_GRALLOC_IP_VPU" MALI_GRALLOC_IP_DPU
      AFBC_16X16 MALI_GRALLOC_IP_GPU MALI_GRALLOC_IP_DPU] or.idem by blast
qed

text \<open>The loop of \<open>present\<close> ends for every set of IPs, and answers that no IP of the set is marked
  as disabled in its own capabilities.\<close>

theorem present_decides:
  assumes "gpu_caps_present E"
  shows "ip_present E ips =
    Inr (\<forall>i < 32. bit ips i \<longrightarrow>
      ip_support_feature E (push_bit i 1) (push_bit i 1) DISABLED = Inr False)"
  using present_loop_eq [OF assms, of 32 0 ips] by (simp add: ip_present_def Ball_def)

theorem present_decides_witness:
  "ip_present [] MALI_GRALLOC_IP_DPU = Inr False"
proof -
  have "gpu_caps_present []" "bit MALI_GRALLOC_IP_DPU 2"
    by (simp_all add: gpu_caps_present_def flag_defs bit_numeral_rec)
  moreover have "ip_support_feature [] (push_bit 2 1) (push_bit 2 1) DISABLED = Inr True"
    by (simp add: ip_support_feature_def test_flag_def flag_defs)
  ultimately have "\<not> (\<forall>i < 32. bit MALI_GRALLOC_IP_DPU i \<longrightarrow>
      ip_support_feature [] (push_bit i 1) (push_bit i 1) DISABLED = Inr False)"
    by (intro notI) (drule spec [of _ 2], simp)
  then show ?thesis
    unfolding present_decides [OF \<open>gpu_caps_present []\<close>] by simp
qed

end
