(* ===== verification/Format_Select.thy ===== *)
theory Format_Select
  imports Alloc_Type Capabilities
begin

text \<open>
  The selection of an allocation format in src/src/core/formats.cpp (the part shared with the
  Arm code): who produces and consumes a buffer, what each IP supports, which AFBC, AFRC or
  block-linear modifiers a format gets, and the choice of the best compatible base format.
  \<open>E\<close> is the list of capability handles, \<open>H\<close> the platform formats.
\<close>

section \<open>Boolean operators over operations that can abort\<close>

definition and_res :: "bool res \<Rightarrow> bool res \<Rightarrow> bool res" where
  "and_res a b = bind_res a (\<lambda>x. if x then b else Inr False)"

definition or_res :: "bool res \<Rightarrow> bool res \<Rightarrow> bool res" where
  "or_res a b = bind_res a (\<lambda>x. if x then Inr True else b)"

definition not_res :: "bool res \<Rightarrow> bool res" where
  "not_res a = bind_res a (\<lambda>x. Inr (\<not> x))"

definition if_res :: "bool res \<Rightarrow> 'a \<Rightarrow> 'a \<Rightarrow> 'a res" where
  "if_res c x y = bind_res c (\<lambda>b. Inr (if b then x else y))"

lemma and_res_True [simp]: "and_res a b = Inr True \<longleftrightarrow> a = Inr True \<and> b = Inr True"
  by (auto simp: and_res_def)

lemma and_res_simps [simp]:
  "and_res (Inr True) b = b" "and_res (Inr False) b = Inr False" "and_res (Inl e) b = Inl e"
  "or_res (Inr True) b = Inr True" "or_res (Inr False) b = b" "or_res (Inl e) b = Inl e"
  "not_res (Inr x) = Inr (\<not> x)" "not_res (Inl e) = Inl e"
  by (simp_all add: and_res_def or_res_def not_res_def)

lemma if_res_eq [simp]:
  "if_res c x y = Inr z \<longleftrightarrow> (\<exists>b. c = Inr b \<and> z = (if b then x else y))"
  by (auto simp: if_res_def)

section \<open>Producers and consumers of a usage\<close>

definition applicable_usage :: "u64 \<Rightarrow> u64" where
  "applicable_usage usage =
     (usage AND NOT GRALLOC_USAGE_PRIVATE_MASK) AND NOT GRALLOC_USAGE_PROTECTED"

definition add_if :: "bool \<Rightarrow> mali_gralloc_ip \<Rightarrow> mali_gralloc_ip \<Rightarrow> mali_gralloc_ip" where
  "add_if c ip ips = (if c then ip_add ips ip else ips)"

definition get_consumers :: "u64 \<Rightarrow> mali_gralloc_ip" where
  "get_consumers usage0 =
     (let usage = applicable_usage usage0
      in if usage = GRALLOC_USAGE_HW_COMPOSER then MALI_GRALLOC_IP_DPU
         else
           add_if (test_flag usage (GRALLOC_USAGE_HW_TEXTURE OR GRALLOC_USAGE_GPU_DATA_BUFFER))
             MALI_GRALLOC_IP_GPU
          (add_if (usage AND (GRALLOC_USAGE_HW_TEXTURE OR GRALLOC_USAGE_HW_COMPOSER) =
                     GRALLOC_USAGE_HW_TEXTURE OR GRALLOC_USAGE_HW_COMPOSER) MALI_GRALLOC_IP_DPU
          (add_if (test_flag usage GRALLOC_USAGE_HW_VIDEO_ENCODER) MALI_GRALLOC_IP_VPU
          (add_if (test_flag usage GRALLOC_USAGE_HW_FB) MALI_GRALLOC_IP_DPU
          (add_if (test_flag usage GRALLOC_USAGE_SW_READ_MASK) MALI_GRALLOC_IP_CPU
             MALI_GRALLOC_IP_NONE)))))"

definition get_producers :: "u64 \<Rightarrow> mali_gralloc_ip" where
  "get_producers usage0 =
     (let usage = applicable_usage usage0
      in if usage = GRALLOC_USAGE_HW_COMPOSER then MALI_GRALLOC_IP_DPU_AEU
         else
           add_if (usage AND GRALLOC_USAGE_DECODER = GRALLOC_USAGE_DECODER) MALI_GRALLOC_IP_VPU
          (add_if (test_flag usage GRALLOC_USAGE_HW_CAMERA_WRITE) MALI_GRALLOC_IP_CAM
          (add_if (test_flag usage (GRALLOC_USAGE_HW_RENDER OR GRALLOC_USAGE_GPU_DATA_BUFFER))
             MALI_GRALLOC_IP_GPU
          (add_if (usage AND GRALLOC_USAGE_DECODER \<noteq> GRALLOC_USAGE_DECODER \<and>
                   usage AND (GRALLOC_USAGE_HW_COMPOSER OR GRALLOC_USAGE_HW_VIDEO_ENCODER) =
                     GRALLOC_USAGE_HW_COMPOSER OR GRALLOC_USAGE_HW_VIDEO_ENCODER)
             MALI_GRALLOC_IP_DPU
          (add_if (test_flag usage GRALLOC_USAGE_SW_WRITE_MASK) MALI_GRALLOC_IP_CPU
             MALI_GRALLOC_IP_NONE)))))"

section \<open>Adjusted dimensions\<close>

definition rk_adjust_height :: "u64 \<Rightarrow> i32 \<Rightarrow> i32" where
  "rk_adjust_height usage h =
     (let m = usage AND RK_GRALLOC_USAGE_ALLOC_HEIGHT_ALIGN_MASK
      in if m = RK_GRALLOC_USAGE_ALLOC_HEIGHT_ALIGN_8 then GRALLOC_ALIGN_int h 8
         else if m = RK_GRALLOC_USAGE_ALLOC_HEIGHT_ALIGN_16 then GRALLOC_ALIGN_int h 16
         else if m = RK_GRALLOC_USAGE_ALLOC_HEIGHT_ALIGN_64 then GRALLOC_ALIGN_int h 64
         else h)"

definition is_depth_or_stencil :: "hal_env \<Rightarrow> u32 \<Rightarrow> bool" where
  "is_depth_or_stencil H b \<longleftrightarrow>
     b = fmt_value H FMT_STENCIL_8 \<or> b = fmt_value H FMT_DEPTH_16 \<or>
     b = fmt_value H FMT_DEPTH_24 \<or> b = fmt_value H FMT_DEPTH_24_STENCIL_8 \<or>
     b = fmt_value H FMT_DEPTH_32F \<or> b = fmt_value H FMT_DEPTH_32F_STENCIL_8"

definition mali_gralloc_adjust_dimensions ::
  "hal_env \<Rightarrow> internal_format_t \<Rightarrow> u64 \<Rightarrow> i32 \<Rightarrow> i32 \<Rightarrow> i32 \<times> i32" where
  "mali_gralloc_adjust_dimensions H alloc_format usage w h =
     (let h1 = rk_adjust_height usage h;
          h2 = (if is_depth_or_stencil H (get_base alloc_format) then h1 * 2 else h1)
      in if ip_contains (get_producers usage) MALI_GRALLOC_IP_GPU \<and> is_afbc alloc_format
         then (GRALLOC_ALIGN_int w 16, GRALLOC_ALIGN_int h2 16)
         else (w, h2))"

section \<open>Support of a base format\<close>

definition restrict_if ::
  "mali_gralloc_ip \<Rightarrow> mali_gralloc_ip \<Rightarrow> format_support_flags \<Rightarrow> format_support_flags \<Rightarrow>
   format_support_flags" where
  "restrict_if ips ip flags support = (if ip_contains ips ip then support AND flags else support)"

definition ip_supports_base_format ::
  "mali_gralloc_ip \<Rightarrow> mali_gralloc_ip \<Rightarrow> format_ip_support_t \<Rightarrow> format_support_flags" where
  "ip_supports_base_format producers consumers f =
     (restrict_if consumers MALI_GRALLOC_IP_VPU (vpu_rd f) \<circ>
      restrict_if consumers MALI_GRALLOC_IP_DPU (dpu_rd f) \<circ>
      restrict_if consumers MALI_GRALLOC_IP_GPU (gpu_rd f) \<circ>
      restrict_if consumers MALI_GRALLOC_IP_CPU (cpu_rd f) \<circ>
      restrict_if producers MALI_GRALLOC_IP_VPU (vpu_wr f) \<circ>
      restrict_if producers MALI_GRALLOC_IP_CAM (cam_wr f) \<circ>
      restrict_if producers MALI_GRALLOC_IP_DPU_AEU (dpu_aeu_wr f) \<circ>
      restrict_if producers MALI_GRALLOC_IP_DPU (dpu_wr f) \<circ>
      restrict_if producers MALI_GRALLOC_IP_GPU (gpu_wr f) \<circ>
      restrict_if producers MALI_GRALLOC_IP_CPU (cpu_wr f)) (NOT 0)"

definition usage_supports_base_format :: "u64 \<Rightarrow> format_support_flags \<Rightarrow> format_support_flags" where
  "usage_supports_base_format usages format_flags =
     (if test_flag usages GRALLOC_USAGE_GPU_DATA_BUFFER then format_flags AND F_LIN
      else format_flags)"

definition is_afbc_multiplane_supported ::
  "ip_capability list \<Rightarrow> mali_gralloc_ip \<Rightarrow> mali_gralloc_ip \<Rightarrow> bool res" where
  "is_afbc_multiplane_supported E producers consumers =
     and_res (ip_support E producers consumers AFBC_16X16)
    (and_res (ip_support E producers consumers AFBC_TILED_HEADERS)
    (and_res (ip_support E producers consumers AFBC_64X4)
       (Inr (ip_empty producers))))"

text \<open>Each block of \<open>is_format_supported\<close>, on the flags that reach it.\<close>

definition clear_if :: "bool res \<Rightarrow> format_support_flags \<Rightarrow> format_support_flags \<Rightarrow> format_support_flags res" where
  "clear_if c m f = if_res c (f AND NOT m) f"

definition check_afbc_support ::
  "ip_capability list \<Rightarrow> format_info_t \<Rightarrow> u64 \<Rightarrow> mali_gralloc_ip \<Rightarrow> mali_gralloc_ip \<Rightarrow>
   format_support_flags \<Rightarrow> format_support_flags res" where
  "check_afbc_support E info usage producers consumers f =
     (if \<not> test_flag f F_AFBC then Inr f else
      bind_res (clear_if (or_res (Inr (\<not> afbc info))
                 (not_res (ip_support E producers consumers AFBC_16X16))) F_AFBC f) (\<lambda>f1.
      bind_res (clear_if (and_res (Inr (1 < npln info))
                 (not_res (is_afbc_multiplane_supported E producers consumers))) F_AFBC f1) (\<lambda>f2.
      bind_res (clear_if (and_res (Inr (is_yuv info))
                 (not_res (ip_support E producers consumers AFBC_YUV))) F_AFBC f2) (\<lambda>f3.
      clear_if (and_res (Inr (gralloc_usage_is_frontbuffer usage))
                 (not_res (ip_support E producers consumers AFBC_DOUBLE_BODY))) F_AFBC f3))))"

definition check_afrc_support ::
  "ip_capability list \<Rightarrow> format_info_t \<Rightarrow> mali_gralloc_ip \<Rightarrow> mali_gralloc_ip \<Rightarrow>
   format_support_flags \<Rightarrow> format_support_flags res" where
  "check_afrc_support E info producers consumers f =
     (if \<not> test_flag f F_AFRC then Inr f else
      clear_if (or_res (Inr (\<not> afrc info))
        (and_res (not_res (ip_support E producers consumers AFRC_ROT_LAYOUT))
                 (not_res (ip_support E producers consumers AFRC_SCAN_LAYOUT)))) F_AFRC f)"

definition check_bl_support ::
  "ip_capability list \<Rightarrow> format_info_t \<Rightarrow> mali_gralloc_ip \<Rightarrow> mali_gralloc_ip \<Rightarrow>
   format_support_flags \<Rightarrow> format_support_flags res" where
  "check_bl_support E info producers consumers f =
     (if \<not> test_flag f F_BL_YUV then Inr f
      else if \<not> (block_linear info \<and> is_yuv info) then Inr (f AND NOT F_BL_YUV)
      else bind_res (and_res (Inr (bps info = 8))
             (not_res (ip_support E producers consumers YUV_BL_8))) (\<lambda>no8.
        if no8 then Inr (f AND NOT F_BL_YUV)
        else clear_if (and_res (Inr (bps info = 10))
               (not_res (ip_support E producers consumers YUV_BL_10))) F_BL_YUV f))"

definition check_wide_support ::
  "hal_env \<Rightarrow> ip_capability list \<Rightarrow> format_info_t \<Rightarrow> mali_gralloc_ip \<Rightarrow> mali_gralloc_ip \<Rightarrow>
   format_support_flags \<Rightarrow> format_support_flags res" where
  "check_wide_support H E info producers consumers f =
     (if f = F_NONE then Inr f else
      bind_res (and_res (Inr (fi_id info = fmt_value H FMT_RGBA_1010102))
        (not_res (ip_support E producers consumers FORMAT_R10G10B10A2))) (\<lambda>no10.
      if no10 then Inr F_NONE
      else if fi_id info = fmt_value H FMT_RGBA_16161616 then
        bind_res (ip_support E producers consumers FORMAT_R16G16B16A16_FLOAT) (\<lambda>ok.
        if \<not> ok then Inr F_NONE
        else if_res (ip_support E producers consumers AFBC_FORMAT_R16G16B16A16_FLOAT) f F_LIN)
      else Inr f))"

definition is_format_supported ::
  "hal_env \<Rightarrow> ip_capability list \<Rightarrow> format_info_t \<Rightarrow> format_ip_support_t \<Rightarrow> u64 \<Rightarrow>
   mali_gralloc_ip \<Rightarrow> mali_gralloc_ip \<Rightarrow> format_support_flags res" where
  "is_format_supported H E info ips usage producers consumers =
     (let f = usage_supports_base_format usage (ip_supports_base_format producers consumers ips)
      in bind_res (check_afbc_support E info usage producers consumers f) (\<lambda>f1.
         bind_res (check_afrc_support E info producers consumers f1) (\<lambda>f2.
         bind_res (check_bl_support E info producers consumers f2)
           (check_wide_support H E info producers consumers))))"

section \<open>Valid AFBC modifiers\<close>

definition drop_wide_for_double_body :: "internal_format_t \<Rightarrow> internal_format_t" where
  "drop_wide_for_double_body f =
     (if get_afbc_double_body f then set_afbc_64x4 False (set_afbc_32x8 False f) else f)"

definition drop_split_for_subsampled :: "hal_env \<Rightarrow> internal_format_t \<Rightarrow> internal_format_t" where
  "drop_split_for_subsampled H f =
     (if get_afbc_32x8 f \<and> get_afbc_block_split f \<and> is_subsampled_yuv H f
      then set_afbc_block_split False f else f)"

definition split_for_wide ::
  "hal_env \<Rightarrow> ip_capability list \<Rightarrow> mali_gralloc_ip \<Rightarrow> mali_gralloc_ip \<Rightarrow> u32 \<Rightarrow>
   internal_format_t \<Rightarrow> internal_format_t res" where
  "split_for_wide H E producers consumers base f =
     (if get_afbc_32x8 f \<and> \<not> get_afbc_block_split f \<and> \<not> is_subsampled_yuv H f \<and>
         base \<noteq> fmt_value H FMT_RGB_565
      then if_res (ip_support E producers consumers AFBC_BLOCK_SPLIT)
             (set_afbc_block_split True f) (set_afbc_32x8 False f)
      else Inr f)"

text \<open>The checks that drop a modifier which a producer or consumer does not support.\<close>

definition drop_unsupported ::
  "bool \<Rightarrow> bool res \<Rightarrow> (internal_format_t \<Rightarrow> internal_format_t) \<Rightarrow> internal_format_t \<Rightarrow>
   internal_format_t res" where
  "drop_unsupported sel supported drop_it f =
     if_res (and_res (Inr sel) (not_res supported)) (drop_it f) f"

definition validate_afbc_format ::
  "hal_env \<Rightarrow> ip_capability list \<Rightarrow> internal_format_t \<Rightarrow> mali_gralloc_ip \<Rightarrow> mali_gralloc_ip \<Rightarrow>
   internal_format_t res" where
  "validate_afbc_format H E f0 producers consumers =
     (let base = get_base f0;
          f2 = drop_split_for_subsampled H (drop_wide_for_double_body f0)
      in bind_res (split_for_wide H E producers consumers base f2) (\<lambda>f3.
         let f4 = (if base = fmt_value H FMT_RGB_565 then set_afbc_block_split False f3 else f3)
         in bind_res (drop_unsupported (is_afbc f4) (ip_support E producers consumers AFBC_16X16)
              clear_modifiers f4) (\<lambda>f5.
            bind_res (drop_unsupported (get_afbc_block_split f5)
              (ip_support E producers consumers AFBC_BLOCK_SPLIT) (set_afbc_block_split False) f5) (\<lambda>f6.
            bind_res (drop_unsupported (get_afbc_32x8 f6)
              (ip_support E producers consumers AFBC_32X8) (set_afbc_32x8 False) f6) (\<lambda>f7.
            bind_res (drop_unsupported (get_afbc_tiled_headers f7)
              (ip_support E producers consumers AFBC_TILED_HEADERS) (set_afbc_tiled_headers False) f7) (\<lambda>f8.
            if_res (and_res (Inr (\<not> get_afbc_sparse f8))
                (or_res (not_res (producers_support E producers AFBC_WRITE_NON_SPARSE))
                        (Inr (ip_empty producers))))
              (set_afbc_sparse True f8) f8))))))"

section \<open>Deriving AFRC, AFBC and block-linear formats\<close>

definition luma_coding_size :: "u64 \<Rightarrow> u32 option" where
  "luma_coding_size usage =
     (let m = usage AND MALI_GRALLOC_USAGE_AFRC_RGBA_LUMA_CODING_SIZE_MASK
      in if m = MALI_GRALLOC_USAGE_AFRC_RGBA_LUMA_CODING_SIZE_16
         then Some MALI_GRALLOC_INTFMT_AFRC_CODING_UNIT_BYTES_16
         else if m = MALI_GRALLOC_USAGE_AFRC_RGBA_LUMA_CODING_SIZE_24
         then Some MALI_GRALLOC_INTFMT_AFRC_CODING_UNIT_BYTES_24
         else if m = MALI_GRALLOC_USAGE_AFRC_RGBA_LUMA_CODING_SIZE_32
         then Some MALI_GRALLOC_INTFMT_AFRC_CODING_UNIT_BYTES_32
         else None)"

definition chroma_coding_size :: "u64 \<Rightarrow> u32 option" where
  "chroma_coding_size usage =
     (let m = usage AND MALI_GRALLOC_USAGE_AFRC_CHROMA_CODING_SIZE_MASK
      in if m = MALI_GRALLOC_USAGE_AFRC_CHROMA_CODING_SIZE_16
         then Some MALI_GRALLOC_INTFMT_AFRC_CODING_UNIT_BYTES_16
         else if m = MALI_GRALLOC_USAGE_AFRC_CHROMA_CODING_SIZE_24
         then Some MALI_GRALLOC_INTFMT_AFRC_CODING_UNIT_BYTES_24
         else if m = MALI_GRALLOC_USAGE_AFRC_CHROMA_CODING_SIZE_32
         then Some MALI_GRALLOC_INTFMT_AFRC_CODING_UNIT_BYTES_32
         else None)"

definition apply_coding_sizes ::
  "format_info_t \<Rightarrow> u64 \<Rightarrow> internal_format_t \<Rightarrow> internal_format_t \<Rightarrow> internal_format_t" where
  "apply_coding_sizes info usage base_format f =
     (case luma_coding_size usage of
        None \<Rightarrow> base_format
      | Some luma \<Rightarrow>
          (let f1 = set_afrc_luma_coding_size luma f
           in if is_yuv info then
                (case chroma_coding_size usage of
                   None \<Rightarrow> base_format
                 | Some chroma \<Rightarrow> set_afrc_chroma_coding_size chroma f1)
              else if test_flag usage MALI_GRALLOC_USAGE_AFRC_CHROMA_CODING_SIZE_MASK
              then base_format else f1))"

definition get_afrc_format ::
  "bool \<Rightarrow> ip_capability list \<Rightarrow> format_info_t \<Rightarrow> u64 \<Rightarrow> mali_gralloc_ip \<Rightarrow> mali_gralloc_ip \<Rightarrow>
   internal_format_t res" where
  "get_afrc_format nd E info usage producers consumers =
     bind_res (from_android (fi_id info)) (\<lambda>base_format.
     bind_res (ip_support E producers consumers AFRC_ROT_LAYOUT) (\<lambda>rot.
     if rot then
       bind_res (make_afrc nd base_format) (\<lambda>f.
         Inr (apply_coding_sizes info usage base_format (set_afrc_rot_layout True f)))
     else
       bind_res (ip_support E producers consumers AFRC_SCAN_LAYOUT) (\<lambda>scan.
       if scan then
         bind_res (make_afrc nd base_format) (\<lambda>f.
           Inr (apply_coding_sizes info usage base_format f))
       else Inr base_format)))"

text \<open>Reasons for which \<open>get_afbc_format\<close> returns the base format at once.\<close>

definition avoid_afbc ::
  "ip_capability list \<Rightarrow> format_info_t \<Rightarrow> mali_gralloc_ip \<Rightarrow> mali_gralloc_ip \<Rightarrow> bool res" where
  "avoid_afbc E info producers consumers =
     or_res (and_res (Inr (is_yuv info))
       (or_res (and_res (Inr (\<not> ip_empty consumers)) (not_res (consumers_support E consumers AFBC_YUV)))
               (not_res (producers_support E producers AFBC_YUV))))
    (or_res (Inr (ip_contains producers MALI_GRALLOC_IP_VPU \<and> ip_contains consumers MALI_GRALLOC_IP_VPU))
            (not_res (ip_support E producers consumers AFBC_16X16)))"

definition enable_split_block :: "format_info_t \<Rightarrow> mali_gralloc_ip \<Rightarrow> mali_gralloc_ip \<Rightarrow> bool" where
  "enable_split_block info producers consumers \<longleftrightarrow>
     \<not> (is_yuv info \<and> ip_contains producers MALI_GRALLOC_IP_GPU) \<and>
     \<not> ((\<not> is_rgb info \<or> bpp info ! 0 < 24) \<and>
        (ip_contains producers MALI_GRALLOC_IP_DPU_AEU \<or> ip_contains consumers MALI_GRALLOC_IP_DPU))"

definition add_tiled_headers ::
  "ip_capability list \<Rightarrow> u64 \<Rightarrow> mali_gralloc_ip \<Rightarrow> mali_gralloc_ip \<Rightarrow> internal_format_t \<Rightarrow>
   internal_format_t res" where
  "add_tiled_headers E usage producers consumers f =
     bind_res (ip_support E producers consumers AFBC_TILED_HEADERS) (\<lambda>tiled.
     if tiled then
       let f1 = set_afbc_tiled_headers True f
       in if_res (and_res (Inr (gralloc_usage_is_frontbuffer usage))
                          (ip_support E producers consumers AFBC_DOUBLE_BODY))
            (set_afbc_double_body True f1) f1
     else Inr f)"

definition add_gpu_dpu_features ::
  "ip_capability list \<Rightarrow> format_info_t \<Rightarrow> mali_gralloc_ip \<Rightarrow> mali_gralloc_ip \<Rightarrow> internal_format_t \<Rightarrow>
   internal_format_t res" where
  "add_gpu_dpu_features E info producers consumers f =
     bind_res (and_res (Inr (ip_contains producers MALI_GRALLOC_IP_GPU \<and>
                             ip_contains consumers MALI_GRALLOC_IP_DPU))
                       (ip_present E MALI_GRALLOC_IP_DPU)) (\<lambda>gpu_to_dpu.
     if gpu_to_dpu then
       bind_res (if_res (and_res (ip_support E producers consumers AFBC_32X8) (Inr (\<not> is_yuv info)))
                   (set_afbc_32x8 True f) f) (\<lambda>f1.
       if_res (ip_support E producers consumers AFBC_BLOCK_SPLIT)
         (set_afbc_block_split (enable_split_block info producers consumers) f1) f1)
     else Inr f)"

definition get_afbc_format ::
  "hal_env \<Rightarrow> bool \<Rightarrow> ip_capability list \<Rightarrow> format_info_t \<Rightarrow> u64 \<Rightarrow> mali_gralloc_ip \<Rightarrow>
   mali_gralloc_ip \<Rightarrow> internal_format_t res" where
  "get_afbc_format H nd E info usage producers consumers =
     bind_res (from_android (fi_id info)) (\<lambda>base_format.
     bind_res (avoid_afbc E info producers consumers) (\<lambda>avoid.
     if avoid then Inr base_format else
     bind_res (make_afbc nd base_format) (\<lambda>f1.
     let f2 = set_afbc_yuv_transform (yuv_transform info) f1
     in bind_res (if_res (or_res (Inr (ip_empty producers))
                    (not_res (producers_support E producers AFBC_WRITE_NON_SPARSE)))
                   (set_afbc_sparse True f2) f2) (\<lambda>f3.
        bind_res (add_tiled_headers E usage producers consumers f3) (\<lambda>f4.
        bind_res (add_gpu_dpu_features E info producers consumers f4) (\<lambda>f5.
        validate_afbc_format H E f5 producers consumers))))))"

definition get_bl_format ::
  "bool \<Rightarrow> ip_capability list \<Rightarrow> internal_format_t \<Rightarrow> mali_gralloc_ip \<Rightarrow> mali_gralloc_ip \<Rightarrow>
   internal_format_t res" where
  "get_bl_format nd E base_format producers consumers =
     bind_res (or_res (ip_support E producers consumers YUV_BL_8)
                      (ip_support E producers consumers YUV_BL_10)) (\<lambda>ok.
     if ok then make_block_linear nd base_format else Inr base_format)"

section \<open>Facts about the validation steps\<close>

lemma is_subsampled_yuv_base: "get_base g = get_base f \<Longrightarrow> is_subsampled_yuv H g = is_subsampled_yuv H f"
  by (simp add: is_subsampled_yuv_def get_base_info_def)

lemma get_base_clear_modifiers [simp]: "get_base (clear_modifiers f) = get_base f"
  by (simp add: get_base_def clear_modifiers_def)

lemma get_modifier_clear [simp]: "\<not> get_modifier a (clear_modifiers f)"
  by (simp add: clear_modifiers_def)

lemma drop_unsupported_cases:
  assumes "drop_unsupported sel supported drop_it f = Inr g"
  obtains "sel" "g = drop_it f" | "g = f" "sel \<longrightarrow> supported = Inr True"
  using assms by (cases sel; cases supported) (auto simp: drop_unsupported_def split: if_splits)

text \<open>What holds after each group of steps of \<open>validate_afbc_format\<close>.\<close>

definition shape_ok :: "hal_env \<Rightarrow> u32 \<Rightarrow> internal_format_t \<Rightarrow> bool" where
  "shape_ok H base f \<longleftrightarrow>
     get_base f = base \<and>
     (get_afbc_double_body f \<longrightarrow> \<not> get_afbc_32x8 f \<and> \<not> get_afbc_64x4 f) \<and>
     (get_afbc_32x8 f \<and> is_subsampled_yuv H f \<longrightarrow> \<not> get_afbc_block_split f) \<and>
     (base = fmt_value H FMT_RGB_565 \<longrightarrow> \<not> get_afbc_block_split f)"

lemma subsampled_set [simp]:
  "is_subsampled_yuv H (set_modifier a v f) = is_subsampled_yuv H f"
  "is_subsampled_yuv H (clear_modifiers f) = is_subsampled_yuv H f"
  by (rule is_subsampled_yuv_base; simp)+

lemma shape_ok_initial:
  assumes "split_for_wide H E p c (get_base f0)
      (drop_split_for_subsampled H (drop_wide_for_double_body f0)) = Inr f3"
  shows "shape_ok H (get_base f0)
    (if get_base f0 = fmt_value H FMT_RGB_565 then set_afbc_block_split False f3 else f3)"
  using assms
  by (auto simp: shape_ok_def split_for_wide_def drop_split_for_subsampled_def
      drop_wide_for_double_body_def accessor_defs split: if_splits)

text \<open>Dropping a modifier keeps the shape.\<close>

lemma shape_ok_drops:
  assumes "shape_ok H b f"
  shows "shape_ok H b (clear_modifiers f)" "shape_ok H b (set_afbc_block_split False f)"
    "shape_ok H b (set_afbc_32x8 False f)" "shape_ok H b (set_afbc_tiled_headers v f)"
    "shape_ok H b (set_afbc_sparse v f)"
  using assms by (auto simp: shape_ok_def accessor_defs)

text \<open>A step for one modifier: it is supported afterwards, and no other selection appears.\<close>

lemma drop_step:
  assumes "drop_unsupported (get_modifier a f) supported (set_modifier a False) f = Inr g"
    and "single_bit a"
  shows "get_modifier a g \<Longrightarrow> supported = Inr True"
    and "single_bit b \<Longrightarrow> get_modifier b g \<Longrightarrow> get_modifier b f"
  using assms by (auto elim!: drop_unsupported_cases split: if_splits)

lemma clear_step:
  assumes "drop_unsupported (is_afbc f) supported clear_modifiers f = Inr g"
  shows "is_afbc g \<Longrightarrow> supported = Inr True" and "get_modifier b g \<Longrightarrow> get_modifier b f"
  using assms by (auto elim!: drop_unsupported_cases simp: is_afbc_def)

definition features_supported ::
  "ip_capability list \<Rightarrow> mali_gralloc_ip \<Rightarrow> mali_gralloc_ip \<Rightarrow> internal_format_t \<Rightarrow> bool" where
  "features_supported E p c g \<longleftrightarrow>
     (is_afbc g \<longrightarrow> ip_support E p c AFBC_16X16 = Inr True) \<and>
     (get_afbc_block_split g \<longrightarrow> ip_support E p c AFBC_BLOCK_SPLIT = Inr True) \<and>
     (get_afbc_32x8 g \<longrightarrow> ip_support E p c AFBC_32X8 = Inr True) \<and>
     (get_afbc_tiled_headers g \<longrightarrow> ip_support E p c AFBC_TILED_HEADERS = Inr True) \<and>
     (\<not> get_afbc_sparse g \<longrightarrow>
        \<not> ip_empty p \<and> producers_support E p AFBC_WRITE_NON_SPARSE = Inr True)"

lemma validate_afbc_format_steps:
  assumes "validate_afbc_format H E f0 p c = Inr g"
  obtains f4 f5 f6 f7 f8 where "shape_ok H (get_base f0) f4"
    and "drop_unsupported (is_afbc f4) (ip_support E p c AFBC_16X16) clear_modifiers f4 = Inr f5"
    and "drop_unsupported (get_afbc_block_split f5) (ip_support E p c AFBC_BLOCK_SPLIT)
           (set_afbc_block_split False) f5 = Inr f6"
    and "drop_unsupported (get_afbc_32x8 f6) (ip_support E p c AFBC_32X8) (set_afbc_32x8 False) f6 = Inr f7"
    and "drop_unsupported (get_afbc_tiled_headers f7) (ip_support E p c AFBC_TILED_HEADERS)
           (set_afbc_tiled_headers False) f7 = Inr f8"
    and "g = set_afbc_sparse True f8 \<or>
      g = f8 \<and> (get_afbc_sparse f8 \<or>
        \<not> ip_empty p \<and> producers_support E p AFBC_WRITE_NON_SPARSE = Inr True)"
proof -
  obtain f3 f5 f6 f7 f8 b where
    s: "split_for_wide H E p c (get_base f0)
      (drop_split_for_subsampled H (drop_wide_for_double_body f0)) = Inr f3" and
    rest: "drop_unsupported (is_afbc (if get_base f0 = fmt_value H FMT_RGB_565
         then set_afbc_block_split False f3 else f3)) (ip_support E p c AFBC_16X16) clear_modifiers
        (if get_base f0 = fmt_value H FMT_RGB_565 then set_afbc_block_split False f3 else f3) = Inr f5"
      "drop_unsupported (get_afbc_block_split f5) (ip_support E p c AFBC_BLOCK_SPLIT)
           (set_afbc_block_split False) f5 = Inr f6"
      "drop_unsupported (get_afbc_32x8 f6) (ip_support E p c AFBC_32X8) (set_afbc_32x8 False) f6 = Inr f7"
      "drop_unsupported (get_afbc_tiled_headers f7) (ip_support E p c AFBC_TILED_HEADERS)
           (set_afbc_tiled_headers False) f7 = Inr f8" and
    b: "and_res (Inr (\<not> get_afbc_sparse f8))
         (or_res (not_res (producers_support E p AFBC_WRITE_NON_SPARSE)) (Inr (ip_empty p))) = Inr b"
      "g = (if b then set_afbc_sparse True f8 else f8)"
    using assms unfolding validate_afbc_format_def Let_def bind_res_eq_Inr if_res_eq by blast
  have "g = set_afbc_sparse True f8 \<or>
      g = f8 \<and> (get_afbc_sparse f8 \<or>
        \<not> ip_empty p \<and> producers_support E p AFBC_WRITE_NON_SPARSE = Inr True)"
    using b by (cases "get_afbc_sparse f8"; cases "producers_support E p AFBC_WRITE_NON_SPARSE")
      (auto simp: or_res_def split: if_splits)
  with shape_ok_initial [OF s] rest show ?thesis
    by (rule that)
qed

lemma validate_afbc_format_ok:
  assumes "validate_afbc_format H E f0 p c = Inr g"
  shows "shape_ok H (get_base f0) g" and "features_supported E p c g"
proof -
  obtain f4 f5 f6 f7 f8 where s4: "shape_ok H (get_base f0) f4"
    and s5: "drop_unsupported (is_afbc f4) (ip_support E p c AFBC_16X16) clear_modifiers f4 = Inr f5"
    and s6: "drop_unsupported (get_afbc_block_split f5) (ip_support E p c AFBC_BLOCK_SPLIT)
           (set_afbc_block_split False) f5 = Inr f6"
    and s7: "drop_unsupported (get_afbc_32x8 f6) (ip_support E p c AFBC_32X8) (set_afbc_32x8 False) f6 = Inr f7"
    and s8: "drop_unsupported (get_afbc_tiled_headers f7) (ip_support E p c AFBC_TILED_HEADERS)
           (set_afbc_tiled_headers False) f7 = Inr f8"
    and g: "g = set_afbc_sparse True f8 \<or>
      g = f8 \<and> (get_afbc_sparse f8 \<or>
        \<not> ip_empty p \<and> producers_support E p AFBC_WRITE_NON_SPARSE = Inr True)"
    by (rule validate_afbc_format_steps [OF assms])
  have "shape_ok H (get_base f0) f8"
    using s4 s5 s6 s7 s8 by (auto elim!: drop_unsupported_cases intro: shape_ok_drops)
  with g show "shape_ok H (get_base f0) g"
    by (auto intro: shape_ok_drops)
  note steps = clear_step [OF s5] drop_step [OF s6 [unfolded accessor_defs]]
    drop_step [OF s7 [unfolded accessor_defs]] drop_step [OF s8 [unfolded accessor_defs]]
  have "is_afbc f8 \<Longrightarrow> ip_support E p c AFBC_16X16 = Inr True"
    "get_afbc_block_split f8 \<Longrightarrow> ip_support E p c AFBC_BLOCK_SPLIT = Inr True"
    "get_afbc_32x8 f8 \<Longrightarrow> ip_support E p c AFBC_32X8 = Inr True"
    "get_afbc_tiled_headers f8 \<Longrightarrow> ip_support E p c AFBC_TILED_HEADERS = Inr True"
    unfolding accessor_defs using steps [unfolded accessor_defs] by simp_all
  with g show "features_supported E p c g"
    by (auto simp: features_supported_def accessor_defs)
qed

section \<open>What the derived formats look like\<close>

lemma get_base_coding_sizes [simp]:
  "get_base (set_afrc_luma_coding_size z f) = get_base f"
  "get_base (set_afrc_chroma_coding_size z f) = get_base f"
  by (simp_all add: get_base_def set_afrc_luma_coding_size_def set_afrc_rgba_coding_size_def
      set_afrc_chroma_coding_size_def)

lemma get_base_make_layout: "make_layout nd a f = Inr g \<Longrightarrow> get_base g = get_base f"
  by (auto simp: make_layout_ok)

lemma apply_coding_sizes_base:
  "get_base f = get_base b \<Longrightarrow> get_base (apply_coding_sizes info usage b f) = get_base b"
  by (simp add: apply_coding_sizes_def Let_def split: option.splits)

lemma get_afrc_format_base:
  assumes "get_afrc_format nd E info usage p c = Inr g" and "from_android (fi_id info) = Inr b"
  shows "get_base g = get_base b"
  using assms
  by (auto simp: get_afrc_format_def make_afrc_def set_afrc_rot_layout_def
      intro!: apply_coding_sizes_base dest!: get_base_make_layout split: if_splits)

lemma add_tiled_headers_base:
  "add_tiled_headers E usage p c f = Inr g \<Longrightarrow> get_base g = get_base f"
  by (auto simp: add_tiled_headers_def Let_def accessor_defs split: if_splits)

lemma add_gpu_dpu_features_base:
  "add_gpu_dpu_features E info p c f = Inr g \<Longrightarrow> get_base g = get_base f"
  by (auto simp: add_gpu_dpu_features_def accessor_defs split: if_splits)

lemma get_afbc_format_cases:
  assumes "get_afbc_format H nd E info usage p c = Inr g" and "from_android (fi_id info) = Inr b"
  obtains "g = b" | f where "get_base f = get_base b" and "validate_afbc_format H E f p c = Inr g"
proof -
  obtain v where v: "avoid_afbc E info p c = Inr v"
    and rest: "(if v then Inr b else
      bind_res (make_afbc nd b) (\<lambda>f1.
     let f2 = set_afbc_yuv_transform (yuv_transform info) f1
     in bind_res (if_res (or_res (Inr (ip_empty p))
                    (not_res (producers_support E p AFBC_WRITE_NON_SPARSE)))
                   (set_afbc_sparse True f2) f2) (\<lambda>f3.
        bind_res (add_tiled_headers E usage p c f3) (\<lambda>f4.
        bind_res (add_gpu_dpu_features E info p c f4) (\<lambda>f5.
        validate_afbc_format H E f5 p c))))) = Inr g"
    using assms unfolding get_afbc_format_def bind_res_eq_Inr by auto
  consider "g = b" | f1 f3 f4 f5 w where "make_afbc nd b = Inr f1"
    "f3 = (if w then set_afbc_sparse True (set_afbc_yuv_transform (yuv_transform info) f1)
           else set_afbc_yuv_transform (yuv_transform info) f1)"
    "add_tiled_headers E usage p c f3 = Inr f4" "add_gpu_dpu_features E info p c f4 = Inr f5"
    "validate_afbc_format H E f5 p c = Inr g"
  proof (cases v)
    case True
    then show ?thesis using rest that(1) by simp
  next
    case False
    then show ?thesis
      using rest [unfolded if_not_P [OF False]] that(2)
      unfolding Let_def bind_res_eq_Inr if_res_eq by blast
  qed
  then show ?thesis
  proof cases
    case 1
    then show ?thesis by (rule that)
  next
    case 2
    have "get_base f1 = get_base b"
      using 2(1) by (simp add: make_afbc_def get_base_make_layout)
    then have "get_base f3 = get_base b"
      by (simp add: 2(2) accessor_defs)
    then have "get_base f5 = get_base b"
      using add_tiled_headers_base [OF 2(3)] add_gpu_dpu_features_base [OF 2(4)] by simp
    then show ?thesis
      using 2(5) that by blast
  qed
qed

lemma get_afbc_format_base:
  assumes "get_afbc_format H nd E info usage p c = Inr g" and "from_android (fi_id info) = Inr b"
  shows "get_base g = get_base b"
  using assms by (rule get_afbc_format_cases)
    (auto dest: validate_afbc_format_ok(1) simp: shape_ok_def)

lemma multiplane_unsupported:
  "\<not> ip_empty p \<Longrightarrow> is_afbc_multiplane_supported E p c \<noteq> Inr True"
  by (simp add: is_afbc_multiplane_supported_def)

text \<open>No check ever adds a flag.\<close>

lemma clear_if_sub: "clear_if b m f = Inr g \<Longrightarrow> test_flag g n \<Longrightarrow> test_flag f n"
  by (auto simp: clear_if_def test_flag_def and.assoc and.left_commute split: if_splits)
    (metis and.assoc and.commute and_zero_eq)

text \<open>For a format of several planes the AFBC flag does not survive a known producer.\<close>

lemma and_not_clears: "\<not> test_flag (f AND NOT m) m"
  by (simp add: test_flag_def and.assoc)

lemma clear_if_cleared:
  assumes "clear_if b m f = Inr g" and "b \<noteq> Inr False"
  shows "\<not> test_flag g m"
proof (cases b)
  case (Inr v)
  then show ?thesis
    using assms by (cases v) (auto simp: clear_if_def and_not_clears)
qed (use assms in \<open>auto simp: clear_if_def\<close>)

lemma check_afbc_multiplane:
  assumes "check_afbc_support E info usage p c f = Inr g" and "1 < npln info" and "\<not> ip_empty p"
  shows "\<not> test_flag g F_AFBC"
proof (cases "test_flag f F_AFBC")
  case True
  obtain f1 f2 f3 b1 b3 where
    2: "clear_if (and_res (Inr (1 < npln info))
          (not_res (is_afbc_multiplane_supported E p c))) F_AFBC f1 = Inr f2" and
    3: "clear_if (and_res (Inr (is_yuv info)) b1) F_AFBC f2 = Inr f3" and
    4: "clear_if b3 F_AFBC f3 = Inr g"
    using assms(1) True unfolding check_afbc_support_def by (simp del: and_res_simps) blast
  have "not_res (is_afbc_multiplane_supported E p c) \<noteq> Inr False"
    using multiplane_unsupported [OF assms(3), of E c]
    by (cases "is_afbc_multiplane_supported E p c") auto
  then have "\<not> test_flag f2 F_AFBC"
    using clear_if_cleared [OF 2] assms(2) by simp
  then show ?thesis
    using clear_if_sub [OF 3] clear_if_sub [OF 4] by blast
next
  case False
  then show ?thesis
    using assms(1) by (simp add: check_afbc_support_def)
qed

end
