(* ===== verification/Format_Choice.thy ===== *)
theory Format_Choice
  imports Format_Select
begin

text \<open>
  The second half of the selection in src/src/core/formats.cpp: the format a row supports, the
  comparison of base formats, the graded search for the best one, private (forced) formats, and
  the checks of usages around them. Also the requested parameters of buffer_descriptor.h.
\<close>

section \<open>Requests (buffer_descriptor.h)\<close>

definition GPU_DATA_BUFFER_WITH_ANY_FORMAT :: u32 where "GPU_DATA_BUFFER_WITH_ANY_FORMAT = 1"
definition USE_AIDL_FRONTBUFFER_USAGE :: u32 where "USE_AIDL_FRONTBUFFER_USAGE = push_bit 1 1"
definition SUPPORTS_R8 :: u32 where "SUPPORTS_R8 = push_bit 2 1"

text \<open>
  Preprocessor settings of the build: the two display workarounds, Rockchip's own manner of
  selecting formats, private formats, and \<open>NDEBUG\<close>.
\<close>

record build_config =
  cfg_fb_disable_afbc :: bool
  cfg_force_bgra :: bool
  cfg_rk_manner :: bool
  cfg_private_formats :: bool
  cfg_ndebug :: bool

section \<open>The format one row supports\<close>

record fmt_props_t =
  fp_flags :: format_support_flags
  fp_format :: internal_format_t

definition supported_flags ::
  "build_config \<Rightarrow> hal_env \<Rightarrow> ip_capability list \<Rightarrow> format_info_t \<Rightarrow> format_ip_support_t \<Rightarrow> u64 \<Rightarrow>
   mali_gralloc_ip \<Rightarrow> mali_gralloc_ip \<Rightarrow> format_support_flags res" where
  "supported_flags cfg H E info ips usage producers consumers =
     bind_res (is_format_supported H E info ips usage producers consumers) (\<lambda>f1.
     bind_res (if f1 = F_NONE \<and> ip_contains consumers MALI_GRALLOC_IP_GPU \<and>
                  ip_contains consumers MALI_GRALLOC_IP_DPU
               then is_format_supported H E info ips usage producers
                      (ip_remove consumers MALI_GRALLOC_IP_DPU)
               else Inr f1) (\<lambda>f2.
     Inr (if cfg_fb_disable_afbc cfg \<and> test_flag usage GRALLOC_USAGE_HW_FB
          then f2 AND NOT (F_AFBC OR F_AFRC OR F_BL_YUV) else f2)))"

definition try_afrc ::
  "build_config \<Rightarrow> ip_capability list \<Rightarrow> format_info_t \<Rightarrow> u64 \<Rightarrow> mali_gralloc_ip \<Rightarrow> mali_gralloc_ip \<Rightarrow>
   format_support_flags \<Rightarrow> fmt_props_t option res" where
  "try_afrc cfg E info usage producers consumers flags =
     (if \<not> test_flag flags F_AFRC then Inr None else
      bind_res (get_afrc_format (cfg_ndebug cfg) E info usage producers consumers) (\<lambda>f.
      Inr (if is_afrc f then Some \<lparr>fp_flags = F_AFRC, fp_format = f\<rparr> else None)))"

definition try_afbc ::
  "build_config \<Rightarrow> hal_env \<Rightarrow> ip_capability list \<Rightarrow> format_info_t \<Rightarrow> u64 \<Rightarrow> mali_gralloc_ip \<Rightarrow>
   mali_gralloc_ip \<Rightarrow> format_support_flags \<Rightarrow> fmt_props_t option res" where
  "try_afbc cfg H E info usage producers consumers flags =
     (if \<not> test_flag flags F_AFBC \<or> gralloc_usage_is_no_afbc usage then Inr None else
      bind_res (get_afbc_format H (cfg_ndebug cfg) E info usage producers consumers) (\<lambda>f.
      Inr (if is_afbc f then
             (case get_alloc_type H f usage of
                Some a \<Rightarrow>
                  (if npln info = 1 \<or> is_multi_plane a then Some \<lparr>fp_flags = F_AFBC, fp_format = f\<rparr>
                   else None)
              | None \<Rightarrow> None)
           else None)))"

definition try_bl ::
  "build_config \<Rightarrow> ip_capability list \<Rightarrow> internal_format_t \<Rightarrow> mali_gralloc_ip \<Rightarrow> mali_gralloc_ip \<Rightarrow>
   format_support_flags \<Rightarrow> fmt_props_t option res" where
  "try_bl cfg E base_format producers consumers flags =
     (if \<not> test_flag flags F_BL_YUV then Inr None else
      bind_res (get_bl_format (cfg_ndebug cfg) E base_format producers consumers) (\<lambda>f.
      Inr (if is_block_linear f then Some \<lparr>fp_flags = F_BL_YUV, fp_format = f\<rparr> else None)))"

text \<open>Take the first that answers, as the successive returns do.\<close>

definition or_else :: "'a option res \<Rightarrow> 'a option res \<Rightarrow> 'a option res" where
  "or_else a b = bind_res a (\<lambda>x. case x of Some y \<Rightarrow> Inr (Some y) | None \<Rightarrow> b)"

definition get_supported_format ::
  "build_config \<Rightarrow> hal_env \<Rightarrow> ip_capability list \<Rightarrow> format_info_t \<Rightarrow> u64 \<Rightarrow> mali_gralloc_ip \<Rightarrow>
   mali_gralloc_ip \<Rightarrow> fmt_props_t option res" where
  "get_supported_format cfg H E info usage producers consumers =
     bind_res (from_android (fi_id info)) (\<lambda>base_format.
     case get_format_ip_support H (fi_id info) of
       None \<Rightarrow> Inr None
     | Some ips \<Rightarrow>
         bind_res (supported_flags cfg H E info ips usage producers consumers) (\<lambda>flags.
         or_else (try_afrc cfg E info usage producers consumers flags)
        (or_else (try_afbc cfg H E info usage producers consumers flags)
        (or_else (try_bl cfg E base_format producers consumers flags)
           (Inr (if test_flag flags F_LIN then Some \<lparr>fp_flags = F_LIN, fp_format = base_format\<rparr>
                 else None))))))"

section \<open>Comparing base formats\<close>

definition comparable_components :: "hal_env \<Rightarrow> format_info_t \<Rightarrow> format_info_t \<Rightarrow> bool" where
  "comparable_components H f_old f_new =
     (if is_yuv f_old \<and> bps f_new = bps f_old then
        total_components f_new = total_components f_old \<or>
        (has_alpha f_old \<and> total_components f_new = 3 \<and> is_yuv f_new \<and> \<not> has_alpha f_new)
      else if is_rgb f_old then
        total_components f_new = total_components f_old \<and>
        ((bpp f_new ! 0 = bpp f_old ! 0 \<and> bps f_new = bps f_old) \<or>
         (fi_id f_old = fmt_value H FMT_RGBX_8888 \<and> bpp f_new ! 0 = 24) \<or>
         (fi_id f_old = fmt_value H FMT_RGB_565 \<and> bpp f_new ! 0 = 24))
      else fi_id f_new = fi_id f_old)"

definition is_format_compatible :: "hal_env \<Rightarrow> format_info_t \<Rightarrow> format_info_t \<Rightarrow> bool" where
  "is_format_compatible H f_old f_new \<longleftrightarrow>
     hsub f_new = hsub f_old \<and> vsub f_new = vsub f_old \<and> is_rgb f_new = is_rgb f_old \<and>
     is_yuv f_new = is_yuv f_old \<and> comparable_components H f_old f_new"

definition fmt_ext_values :: "(u32 \<times> u64) list" where
  "fmt_ext_values =
     [(MALI_GRALLOC_INTFMT_AFBC_BASIC, push_bit 1 1),
      (MALI_GRALLOC_INTFMT_AFBC_SPLITBLK, 1),
      (MALI_GRALLOC_INTFMT_AFBC_WIDEBLK, 1),
      (MALI_GRALLOC_INTFMT_AFBC_TILED_HEADERS, 1),
      (MALI_GRALLOC_INTFMT_AFBC_EXTRAWIDEBLK, 1),
      (MALI_GRALLOC_INTFMT_AFBC_DOUBLE_BODY, 1),
      (MALI_GRALLOC_INTFMT_AFBC_BCH, 1),
      (MALI_GRALLOC_INTFMT_AFBC_YUV_TRANSFORM, 1),
      (MALI_GRALLOC_INTFMT_AFBC_SPARSE, 1),
      (MALI_GRALLOC_INTFMT_BLOCK_LINEAR_BASIC, 1),
      (MALI_GRALLOC_INTFMT_AFRC_BASIC, push_bit 30 1)]"

definition modifier_grade :: "internal_format_t \<Rightarrow> u64" where
  "modifier_grade f = sum_list (map (\<lambda>(ext, v). if test_flag (get_modifiers f) ext then v else 0) fmt_ext_values)"

definition grade_format :: "hal_env \<Rightarrow> internal_format_t \<Rightarrow> u32 \<Rightarrow> u64 res" where
  "grade_format H f req_format =
     (case get_format_info H req_format of
        None \<Rightarrow> Inl Check_failed
      | Some req_info \<Rightarrow>
          bind_res (base_info H f) (\<lambda>info.
            if is_afrc f then
              Inr ((if req_format = get_base f \<or> is_same_or_components_reordered req_info info
                    then 2 else 1) + modifier_grade f)
            else if is_rgb req_info \<and> bpp req_info ! 0 \<noteq> bpp info ! 0 then Inr 0
            else Inr (1 + modifier_grade f)))"

section \<open>The best format\<close>

record best_state =
  bs_count :: nat
  bs_req_grade :: u64
  bs_best_grade :: u64
  bs_first_best :: internal_format_t
  bs_req_format :: internal_format_t

definition best_start :: best_state where
  "best_start = \<lparr>bs_count = 0, bs_req_grade = 0, bs_best_grade = 0,
     bs_first_best = internal_format_invalid, bs_req_format = internal_format_invalid\<rparr>"

text \<open>The part of the loop body that a supported and compatible format with a grade runs.\<close>

definition best_update :: "u32 \<Rightarrow> internal_format_t \<Rightarrow> u64 \<Rightarrow> best_state \<Rightarrow> best_state" where
  "best_update req f grade s =
     (let s1 = s\<lparr>bs_count := bs_count s + 1\<rparr>;
          s2 = (if bs_best_grade s1 < grade then s1\<lparr>bs_best_grade := grade, bs_first_best := f\<rparr> else s1)
      in if get_base f = req then s2\<lparr>bs_req_grade := grade, bs_req_format := f\<rparr> else s2)"

primrec best_loop ::
  "build_config \<Rightarrow> hal_env \<Rightarrow> ip_capability list \<Rightarrow> format_info_t \<Rightarrow> u32 \<Rightarrow> u64 \<Rightarrow> mali_gralloc_ip \<Rightarrow>
   mali_gralloc_ip \<Rightarrow> format_info_t list \<Rightarrow> best_state \<Rightarrow> best_state res" where
  "best_loop cfg H E req_info req usage producers consumers [] s = Inr s"
| "best_loop cfg H E req_info req usage producers consumers (info # infos) s =
     (if \<not> is_format_compatible H req_info info
      then best_loop cfg H E req_info req usage producers consumers infos s
      else bind_res (get_supported_format cfg H E info usage producers consumers) (\<lambda>r.
        case r of
          None \<Rightarrow> best_loop cfg H E req_info req usage producers consumers infos s
        | Some p \<Rightarrow>
            bind_res (grade_format H (fp_format p) req) (\<lambda>grade.
            best_loop cfg H E req_info req usage producers consumers infos
              (if grade \<noteq> 0 then best_update req (fp_format p) grade s else s))))"

definition pick_best :: "mali_gralloc_ip \<Rightarrow> mali_gralloc_ip \<Rightarrow> best_state \<Rightarrow> internal_format_t" where
  "pick_best producers consumers s =
     (if 0 < bs_count s then
        (if bs_req_grade s \<noteq> bs_best_grade s \<and> \<not> ip_contains producers MALI_GRALLOC_IP_CPU \<and>
            \<not> ip_contains consumers MALI_GRALLOC_IP_CPU then bs_first_best s
         else if bs_req_grade s \<noteq> 0 then bs_req_format s
         else internal_format_invalid)
      else internal_format_invalid)"

definition get_best_format ::
  "build_config \<Rightarrow> hal_env \<Rightarrow> ip_capability list \<Rightarrow> u32 \<Rightarrow> u64 \<Rightarrow> mali_gralloc_ip \<Rightarrow> mali_gralloc_ip \<Rightarrow>
   internal_format_t res" where
  "get_best_format cfg H E req usage producers consumers =
     (if req = fmt_value H FMT_UNDEFINED then Inl Check_failed else
      case get_format_info H req of
        None \<Rightarrow> Inl Check_failed
      | Some req_info \<Rightarrow>
          bind_res (best_loop cfg H E req_info req usage producers consumers
                      (get_all_base_formats H) best_start) (\<lambda>s.
          Inr (pick_best producers consumers s)))"

section \<open>Private formats\<close>

definition is_format_multiplane_afbc :: "internal_format_t \<Rightarrow> bool" where
  "is_format_multiplane_afbc f \<longleftrightarrow> is_afbc f \<and> get_afbc_64x4 f \<and> get_afbc_tiled_headers f"

definition check_modifiers_against_format :: "format_info_t \<Rightarrow> internal_format_t \<Rightarrow> bool" where
  "check_modifiers_against_format info f =
     (if is_afrc f \<and> afrc info then True
      else if \<not> has_modifiers f \<or> (is_block_linear f \<and> block_linear info) then True
      else if is_afbc f then afbc info \<and> (npln info = 1 \<or> is_format_multiplane_afbc f)
      else False)"

definition select_forced_format :: "hal_env \<Rightarrow> u32 \<Rightarrow> internal_format_t" where
  "select_forced_format H req_format =
     (let int_format = from_private req_format;
          internal_format = get_internal_format H (get_base int_format)
      in case get_format_info H internal_format of
           None \<Rightarrow> internal_format_invalid
         | Some info \<Rightarrow>
             (if internal_format = fmt_value H FMT_UNDEFINED then internal_format_invalid
              else let candidate = from_private (internal_format OR get_modifiers int_format)
                   in if check_modifiers_against_format info candidate then candidate
                      else internal_format_invalid))"

section \<open>Selecting by usage\<close>

definition usage_permitted :: "format_info_t \<Rightarrow> u64 \<Rightarrow> bool" where
  "usage_permitted info usage \<longleftrightarrow>
     (permitted_usage info OR usage) AND NOT VENDOR_USAGE = permitted_usage info AND NOT VENDOR_USAGE"

text \<open>The checks on the request that need the identified producers and consumers.\<close>

definition request_rejected :: "hal_env \<Rightarrow> u32 \<Rightarrow> format_info_t \<Rightarrow> u32 \<Rightarrow> u64 \<Rightarrow> bool" where
  "request_rejected H flags info req_base usage \<longleftrightarrow>
     (gralloc_usage_is_no_afbc usage \<and> is_yuv info) \<or>
     (flags AND GPU_DATA_BUFFER_WITH_ANY_FORMAT = 0 \<and> test_flag usage GRALLOC_USAGE_GPU_DATA_BUFFER \<and>
        req_base \<noteq> fmt_value H FMT_BLOB) \<or>
     (flags AND USE_AIDL_FRONTBUFFER_USAGE = 0 \<and> test_flag usage GRALLOC_USAGE_FRONTBUFFER) \<or>
     (req_base = fmt_value H FMT_R8 \<and> flags AND SUPPORTS_R8 = 0)"

definition force_bgra ::
  "build_config \<Rightarrow> hal_env \<Rightarrow> u64 \<Rightarrow> internal_format_t \<Rightarrow> internal_format_t res" where
  "force_bgra cfg H usage f =
     (if cfg_force_bgra cfg \<and> test_flag usage GRALLOC_USAGE_HW_FB then
        (if get_base f \<noteq> H HAL_BGRA_8888 \<and>
            test_flag usage (GRALLOC_USAGE_SW_WRITE_MASK OR GRALLOC_USAGE_SW_READ_MASK)
         then Inr internal_format_invalid
         else from_android (H HAL_BGRA_8888))
      else Inr f)"

definition select_best_format ::
  "build_config \<Rightarrow> hal_env \<Rightarrow> ip_capability list \<Rightarrow> u32 \<Rightarrow> u32 \<Rightarrow> u64 \<Rightarrow> internal_format_t res" where
  "select_best_format cfg H E flags req_format usage =
     (let req_base = get_internal_format H req_format
      in case get_format_info H req_base of
           None \<Rightarrow> Inr internal_format_invalid
         | Some info \<Rightarrow>
             (let producers = get_producers usage;
                  consumers = get_consumers usage
              in if req_base = fmt_value H FMT_UNDEFINED \<or> \<not> usage_permitted info usage
                 then Inr internal_format_invalid
                 else if ip_empty producers \<and> ip_empty consumers then Inr internal_format_invalid
                 else if request_rejected H flags info req_base usage then Inr internal_format_invalid
                 else bind_res (get_best_format cfg H E (fi_id info) usage
                        (if ip_empty producers then ip_add producers MALI_GRALLOC_IP_CPU else producers)
                        consumers)
                      (force_bgra cfg H usage)))"

text \<open>The branch of \<open>mali_gralloc_select_format\<close> for builds without Rockchip's manner.\<close>

definition arm_select_format ::
  "build_config \<Rightarrow> hal_env \<Rightarrow> ip_capability list \<Rightarrow> u32 \<Rightarrow> u32 \<Rightarrow> u64 \<Rightarrow> internal_format_t res" where
  "arm_select_format cfg H E flags req_format usage =
     (if test_flag usage (NOT VALID_USAGE) then Inr internal_format_invalid
      else if cfg_private_formats cfg \<and> mali_gralloc_format_is_private req_format
      then Inr (select_forced_format H req_format)
      else select_best_format cfg H E flags req_format usage)"

section \<open>The supported format of a row\<close>

lemma or_else_Some:
  "or_else a b = Inr (Some y) \<longleftrightarrow> a = Inr (Some y) \<or> a = Inr None \<and> b = Inr (Some y)"
  by (auto simp: or_else_def split: option.splits)

text \<open>The layout a flag of the support table stands for.\<close>

definition layout_of_flag ::
  "hal_env \<Rightarrow> format_info_t \<Rightarrow> u64 \<Rightarrow> internal_format_t \<Rightarrow> fmt_props_t \<Rightarrow> bool" where
  "layout_of_flag H info usage b fp \<longleftrightarrow>
     (fp_flags fp = F_AFRC \<and> is_afrc (fp_format fp)) \<or>
     (fp_flags fp = F_AFBC \<and> is_afbc (fp_format fp) \<and> \<not> gralloc_usage_is_no_afbc usage \<and>
        (\<exists>a. get_alloc_type H (fp_format fp) usage = Some a \<and> (npln info = 1 \<or> is_multi_plane a))) \<or>
     (fp_flags fp = F_BL_YUV \<and> is_block_linear (fp_format fp)) \<or>
     (fp_flags fp = F_LIN \<and> fp_format fp = b)"

lemma try_afrc_Some:
  assumes "try_afrc cfg E info usage p c flags = Inr (Some fp)" and "from_android (fi_id info) = Inr b"
  shows "get_base (fp_format fp) = get_base b" "fp_flags fp = F_AFRC" "is_afrc (fp_format fp)"
    "test_flag flags F_AFRC"
  using assms get_afrc_format_base [OF _ assms(2)]
  by (auto simp: try_afrc_def split: if_splits)

lemma try_afbc_Some:
  assumes "try_afbc cfg H E info usage p c flags = Inr (Some fp)" and "from_android (fi_id info) = Inr b"
  shows "get_base (fp_format fp) = get_base b" "fp_flags fp = F_AFBC" "is_afbc (fp_format fp)"
    "test_flag flags F_AFBC" "\<not> gralloc_usage_is_no_afbc usage"
    "\<exists>a. get_alloc_type H (fp_format fp) usage = Some a \<and> (npln info = 1 \<or> is_multi_plane a)"
    "get_afbc_format H (cfg_ndebug cfg) E info usage p c = Inr (fp_format fp)"
  using assms get_afbc_format_base [OF _ assms(2)]
  by (auto simp: try_afbc_def split: if_splits option.splits)

lemma try_bl_Some:
  assumes "try_bl cfg E b p c flags = Inr (Some fp)"
  shows "get_base (fp_format fp) = get_base b" "fp_flags fp = F_BL_YUV" "is_block_linear (fp_format fp)"
    "test_flag flags F_BL_YUV"
proof -
  obtain f where f: "get_bl_format (cfg_ndebug cfg) E b p c = Inr f"
    and *: "test_flag flags F_BL_YUV" "is_block_linear f" "fp = \<lparr>fp_flags = F_BL_YUV, fp_format = f\<rparr>"
    using assms by (simp add: try_bl_def split: if_splits)
  have "get_base f = get_base b"
    using f by (simp add: get_bl_format_def make_block_linear_def split: if_splits)
      (auto dest: get_base_make_layout split: if_splits)
  with * show "get_base (fp_format fp) = get_base b" "fp_flags fp = F_BL_YUV"
    "is_block_linear (fp_format fp)" "test_flag flags F_BL_YUV"
    by simp_all
qed

lemma get_supported_format_Some:
  assumes "get_supported_format cfg H E info usage p c = Inr (Some fp)"
  obtains b ips flags where "from_android (fi_id info) = Inr b"
    "get_format_ip_support H (fi_id info) = Some ips"
    "supported_flags cfg H E info ips usage p c = Inr flags"
    "test_flag flags (fp_flags fp)"
    "get_base (fp_format fp) = get_base b" "layout_of_flag H info usage b fp"
    "fp_flags fp = F_AFBC \<longrightarrow> get_afbc_format H (cfg_ndebug cfg) E info usage p c = Inr (fp_format fp)"
proof -
  obtain b where b: "from_android (fi_id info) = Inr b"
    using assms by (auto simp: get_supported_format_def)
  obtain ips where ips: "get_format_ip_support H (fi_id info) = Some ips"
    using assms b by (auto simp: get_supported_format_def split: option.splits)
  obtain flags where flags: "supported_flags cfg H E info ips usage p c = Inr flags"
    and cases: "try_afrc cfg E info usage p c flags = Inr (Some fp) \<or>
      try_afbc cfg H E info usage p c flags = Inr (Some fp) \<or>
      try_bl cfg E b p c flags = Inr (Some fp) \<or>
      test_flag flags F_LIN \<and> fp = \<lparr>fp_flags = F_LIN, fp_format = b\<rparr>"
    using assms b ips by (auto simp: get_supported_format_def or_else_Some split: if_splits)
  have distinct: "F_AFRC \<noteq> F_AFBC" "F_BL_YUV \<noteq> F_AFBC" "F_LIN \<noteq> F_AFBC"
    by (simp_all add: flag_defs F_LIN_def F_AFBC_def F_AFRC_def F_BL_YUV_def)
  have "test_flag flags (fp_flags fp) \<and> get_base (fp_format fp) = get_base b \<and>
    layout_of_flag H info usage b fp \<and>
    (fp_flags fp = F_AFBC \<longrightarrow> get_afbc_format H (cfg_ndebug cfg) E info usage p c = Inr (fp_format fp))"
    using cases try_afrc_Some [OF _ b, of cfg E usage p c flags fp]
      try_afbc_Some [OF _ b, of cfg H E usage p c flags fp] try_bl_Some [of cfg E b p c flags fp]
    by (elim disjE) (simp_all add: layout_of_flag_def distinct)
  then show ?thesis
    using that b ips flags by blast
qed

section \<open>The candidates of the search\<close>

definition graded ::
  "build_config \<Rightarrow> hal_env \<Rightarrow> ip_capability list \<Rightarrow> format_info_t \<Rightarrow> u32 \<Rightarrow> u64 \<Rightarrow> mali_gralloc_ip \<Rightarrow>
   mali_gralloc_ip \<Rightarrow> format_info_t \<Rightarrow> internal_format_t \<Rightarrow> u64 \<Rightarrow> bool" where
  "graded cfg H E req_info req usage p c info f g \<longleftrightarrow>
     is_format_compatible H req_info info \<and>
     (\<exists>fp. get_supported_format cfg H E info usage p c = Inr (Some fp) \<and> fp_format fp = f) \<and>
     grade_format H f req = Inr g \<and> g \<noteq> 0"

text \<open>What the loop knows of the rows it has seen (\<open>G info f g\<close>: row \<open>info\<close> offers \<open>f\<close> at grade \<open>g\<close>).\<close>

definition best_inv ::
  "(format_info_t \<Rightarrow> internal_format_t \<Rightarrow> u64 \<Rightarrow> bool) \<Rightarrow> u32 \<Rightarrow> format_info_t set \<Rightarrow> best_state \<Rightarrow> bool" where
  "best_inv G req D s \<longleftrightarrow>
     (bs_count s = 0 \<longleftrightarrow> bs_best_grade s = 0) \<and>
     (\<forall>info\<in>D. \<forall>f g. G info f g \<longrightarrow> g \<le> bs_best_grade s \<and> (get_base f = req \<longrightarrow> bs_req_grade s \<noteq> 0)) \<and>
     (bs_best_grade s \<noteq> 0 \<longrightarrow> (\<exists>info\<in>D. G info (bs_first_best s) (bs_best_grade s))) \<and>
     (bs_req_grade s \<noteq> 0 \<longrightarrow>
        get_base (bs_req_format s) = req \<and> (\<exists>info\<in>D. G info (bs_req_format s) (bs_req_grade s)))"

lemma best_inv_start: "best_inv G req {} best_start"
  by (simp add: best_inv_def best_start_def)

text \<open>A row that offers nothing, and a row that offers exactly one graded format.\<close>

lemma best_inv_skip:
  "best_inv G req D s \<Longrightarrow> \<nexists>f g. G info f g \<Longrightarrow> best_inv G req (insert info D) s"
  by (auto simp: best_inv_def)

lemma best_update_fields [simp]:
  "bs_count (best_update req f g s) = bs_count s + 1"
  "bs_best_grade (best_update req f g s) = max (bs_best_grade s) g"
  "bs_first_best (best_update req f g s) = (if bs_best_grade s < g then f else bs_first_best s)"
  "bs_req_grade (best_update req f g s) = (if get_base f = req then g else bs_req_grade s)"
  "bs_req_format (best_update req f g s) = (if get_base f = req then f else bs_req_format s)"
  by (auto simp: best_update_def Let_def max_def)

text \<open>The conjuncts of the invariant after an update: the bound, the best format, and the one of the requested base.\<close>

lemma best_inv_bound:
  assumes inv: "best_inv G req D s" and "g \<noteq> 0" and unique: "\<And>f' g'. G info f' g' \<Longrightarrow> f' = f \<and> g' = g"
    and "info' \<in> insert info D" and G': "G info' f' g'"
  shows "g' \<le> max (bs_best_grade s) g \<and> (get_base f' = req \<longrightarrow> (if get_base f = req then g else bs_req_grade s) \<noteq> 0)"
proof -
  consider "f' = f" "g' = g" | "info' \<in> D"
    using unique assms(4) G' by blast
  then show ?thesis
  proof cases
    case 1
    then show ?thesis using assms(2) by simp
  next
    case 2
    then have "g' \<le> bs_best_grade s" "get_base f' = req \<longrightarrow> bs_req_grade s \<noteq> 0"
      using inv G' by (simp_all add: best_inv_def)
    then show ?thesis using assms(2) by (simp add: le_max_iff_disj)
  qed
qed

lemma best_inv_best:
  assumes inv: "best_inv G req D s" and G: "G info f g" and "g \<noteq> 0"
  shows "\<exists>info'\<in>insert info D. G info' (if bs_best_grade s < g then f else bs_first_best s) (max (bs_best_grade s) g)"
proof (cases "bs_best_grade s < g")
  case True
  then have "max (bs_best_grade s) g = g"
    by (simp add: max_absorb2 less_imp_le)
  then show ?thesis using True G by simp
next
  case False
  then have "bs_best_grade s \<noteq> 0"
    using assms(3) word_neq_0_conv by metis
  then have "\<exists>info'\<in>D. G info' (bs_first_best s) (bs_best_grade s)"
    using inv unfolding best_inv_def by blast
  moreover have "max (bs_best_grade s) g = bs_best_grade s"
    using False by (simp add: max_absorb1)
  ultimately show ?thesis using False by auto
qed

lemma best_inv_req:
  assumes inv: "best_inv G req D s" and G: "G info f g"
  shows "(if get_base f = req then g else bs_req_grade s) \<noteq> 0 \<longrightarrow>
      get_base (if get_base f = req then f else bs_req_format s) = req \<and>
      (\<exists>info'\<in>insert info D. G info' (if get_base f = req then f else bs_req_format s)
        (if get_base f = req then g else bs_req_grade s))"
proof (cases "get_base f = req")
  case True
  then show ?thesis using G by auto
next
  case False
  moreover have "bs_req_grade s \<noteq> 0 \<longrightarrow>
      get_base (bs_req_format s) = req \<and> (\<exists>info\<in>D. G info (bs_req_format s) (bs_req_grade s))"
    using inv unfolding best_inv_def by blast
  ultimately show ?thesis by auto
qed

lemma best_inv_update:
  assumes inv: "best_inv G req D s" and G: "G info f g" and "g \<noteq> 0"
    and unique: "\<And>f' g'. G info f' g' \<Longrightarrow> f' = f \<and> g' = g"
  shows "best_inv G req (insert info D) (best_update req f g s)"
proof -
  have "g \<le> max (bs_best_grade s) g"
    by simp
  then have "max (bs_best_grade s) g \<noteq> 0"
    using assms(3) by (metis word_le_0_iff)
  then show ?thesis
    using best_inv_bound [OF inv assms(3) unique]
    unfolding best_inv_def best_update_fields
    by (intro conjI ballI allI impI best_inv_req [OF inv G, rule_format] best_inv_best [OF inv G assms(3)]) simp_all
qed

lemma graded_nonzero: "graded cfg H E req_info req usage p c info f g \<Longrightarrow> g \<noteq> 0"
  by (simp add: graded_def)

lemma best_loop_inv:
  assumes "best_loop cfg H E req_info req usage p c infos s = Inr s'"
    and "best_inv (graded cfg H E req_info req usage p c) req D s"
  shows "best_inv (graded cfg H E req_info req usage p c) req (D \<union> set infos) s'"
  using assms
proof (induction infos arbitrary: s D)
  case (Cons info infos)
  let ?G = "graded cfg H E req_info req usage p c"
  have step: ?case if "best_loop cfg H E req_info req usage p c infos t = Inr s'"
    and "best_inv ?G req (insert info D) t" for t
    using Cons.IH [OF that] by simp
  show ?case
  proof (cases "is_format_compatible H req_info info")
    case False
    then have "\<nexists>f g. ?G info f g"
      by (simp add: graded_def)
    then show ?thesis
      using False Cons.prems(1) by (intro step [OF _ best_inv_skip [OF Cons.prems(2)]]) simp_all
  next
    case True
    then obtain r where r: "get_supported_format cfg H E info usage p c = Inr r"
      using Cons.prems(1) by auto
    show ?thesis
    proof (cases r)
      case None
      then have "\<nexists>f g. ?G info f g"
        using r by (simp add: graded_def)
      then show ?thesis
        using None r True Cons.prems(1)
        by (intro step [OF _ best_inv_skip [OF Cons.prems(2)]]) simp_all
    next
      case (Some fp)
      then obtain g where g: "grade_format H (fp_format fp) req = Inr g"
        and rest: "best_loop cfg H E req_info req usage p c infos
          (if g \<noteq> 0 then best_update req (fp_format fp) g s else s) = Inr s'"
        using r True Cons.prems(1) by auto
      have only: "?G info f' g' \<longleftrightarrow> g \<noteq> 0 \<and> f' = fp_format fp \<and> g' = g" for f' g'
        using r Some g True by (auto simp: graded_def)
      show ?thesis
      proof (cases "g = 0")
        case True
        then show ?thesis
          using rest by (intro step [OF _ best_inv_skip [OF Cons.prems(2)]]) (simp_all add: only)
      next
        case False
        then show ?thesis
          using rest by (intro step [OF _ best_inv_update [OF Cons.prems(2)]]) (simp_all add: only)
      qed
    qed
  qed
qed simp

lemma get_best_format_search:
  assumes "get_best_format cfg H E req usage p c = Inr f"
  obtains req_info s where "get_format_info H req = Some req_info"
    "best_inv (graded cfg H E req_info req usage p c) req (set (get_all_base_formats H)) s"
    "f = pick_best p c s"
proof -
  obtain req_info s where "get_format_info H req = Some req_info"
    "best_loop cfg H E req_info req usage p c (get_all_base_formats H) best_start = Inr s"
    "f = pick_best p c s"
    using assms by (auto simp: get_best_format_def split: if_splits option.splits)
  then show ?thesis
    using best_loop_inv [OF _ best_inv_start] that by fastforce
qed

section \<open>Base formats of rows\<close>

lemma row_id_small:
  assumes "hal_documented H" and "info \<in> set (formats H)"
  shows "fi_id info < 0x200"
proof -
  have "fi_id info \<in> fmt_value H ` set table_formats"
    using assms(2) formats_ids [of H] by (metis imageI set_map)
  then show ?thesis
    using fmt_value_less [OF assms(1)] by auto
qed

lemma row_base_format:
  assumes "hal_documented H" and "info \<in> set (formats H)"
  shows "from_android (fi_id info) = Inr \<lparr>m_format = fi_id info, m_modifiers = 0\<rparr>"
    and "get_base \<lparr>m_format = fi_id info, m_modifiers = m\<rparr> = fi_id info"
  using row_id_small [OF assms] from_android_ok
  by (simp_all add: get_base_def mali_gralloc_format_get_base_def intfmt_values less_0x200_iff)

text \<open>Only AFBC selection sets the AFBC bit.\<close>

lemma afrc_format_not_afbc:
  assumes "get_afrc_format nd E info usage p c = Inr g" and "from_android (fi_id info) = Inr b"
    and "m_modifiers b = 0"
  shows "\<not> is_afbc g"
proof -
  have sz: "luma_coding_size usage = Some z \<Longrightarrow> z \<le> 3" "chroma_coding_size usage = Some z \<Longrightarrow> z \<le> 3" for z
    by (auto simp: luma_coding_size_def chroma_coding_size_def Let_def intfmt_values
        MALI_GRALLOC_INTFMT_AFRC_CODING_UNIT_BYTES_16_def
        MALI_GRALLOC_INTFMT_AFRC_CODING_UNIT_BYTES_24_def
        MALI_GRALLOC_INTFMT_AFRC_CODING_UNIT_BYTES_32_def split: if_splits)
  have free: "MALI_GRALLOC_INTFMT_AFBC_BASIC AND push_bit 20 3 = 0"
    "MALI_GRALLOC_INTFMT_AFBC_BASIC AND push_bit 22 3 = 0"
    by (simp_all add: intfmt_values push_bit_eq_mult)
  have keep: "\<not> is_afbc f \<Longrightarrow> \<not> is_afbc (apply_coding_sizes info usage b f)" for f
    using assms(3) sz free
    by (auto simp: apply_coding_sizes_def Let_def is_afbc_def
        luma_size.size_other_getter chroma_size.size_other_getter split: option.splits)
  have rot: "MALI_GRALLOC_INTFMT_AFBC_BASIC \<noteq> MALI_GRALLOC_INTFMT_AFRC_ROT_LAYOUT"
    by (simp add: intfmt_values MALI_GRALLOC_INTFMT_AFRC_ROT_LAYOUT_def)
  have start: "make_afrc nd b = Inr f \<Longrightarrow> \<not> is_afbc f \<and> \<not> is_afbc (set_afrc_rot_layout True f)" for f
    using assms(3) rot by (auto simp: make_afrc_def make_layout_ok accessor_defs)
  show ?thesis
    using assms(1-3) keep start by (auto simp: get_afrc_format_def is_afbc_def split: if_splits)
qed

lemma bl_format_not_afbc:
  "get_bl_format nd E b p c = Inr g \<Longrightarrow> m_modifiers b = 0 \<Longrightarrow> \<not> is_afbc g"
  by (auto simp: get_bl_format_def make_block_linear_def make_layout_ok accessor_defs split: if_splits)

lemma supported_row:
  assumes "hal_documented H" and "info \<in> set (formats H)"
    and "get_supported_format cfg H E info usage p c = Inr (Some fp)"
  obtains ips flags where "get_format_ip_support H (fi_id info) = Some ips"
    "supported_flags cfg H E info ips usage p c = Inr flags" "test_flag flags (fp_flags fp)"
    "get_base (fp_format fp) = fi_id info"
    "layout_of_flag H info usage \<lparr>m_format = fi_id info, m_modifiers = 0\<rparr> fp"
    "is_afbc (fp_format fp) \<longleftrightarrow> fp_flags fp = F_AFBC"
proof -
  note b = row_base_format [OF assms(1,2)]
  obtain ips flags where *: "get_format_ip_support H (fi_id info) = Some ips"
    "supported_flags cfg H E info ips usage p c = Inr flags" "test_flag flags (fp_flags fp)"
    "get_base (fp_format fp) = fi_id info"
    "layout_of_flag H info usage \<lparr>m_format = fi_id info, m_modifiers = 0\<rparr> fp"
    using get_supported_format_Some [OF assms(3)] b by (metis sum.inject(2))
  have "try_afrc cfg E info usage p c flags = Inr (Some fp) \<or>
      try_afbc cfg H E info usage p c flags = Inr (Some fp) \<or>
      try_bl cfg E \<lparr>m_format = fi_id info, m_modifiers = 0\<rparr> p c flags = Inr (Some fp) \<or>
      fp = \<lparr>fp_flags = F_LIN, fp_format = \<lparr>m_format = fi_id info, m_modifiers = 0\<rparr>\<rparr>"
    using assms(3) b *(1,2) by (auto simp: get_supported_format_def or_else_Some split: if_splits)
  then have "is_afbc (fp_format fp) \<longleftrightarrow> fp_flags fp = F_AFBC"
  proof (elim disjE)
    assume a: "try_afrc cfg E info usage p c flags = Inr (Some fp)"
    then have "\<not> is_afbc (fp_format fp)"
      using afrc_format_not_afbc [OF _ b(1)] by (auto simp: try_afrc_def split: if_splits)
    then show ?thesis
      using try_afrc_Some(2) [OF a b(1)] by (simp add: flag_defs)
  next
    assume "try_afbc cfg H E info usage p c flags = Inr (Some fp)"
    then show ?thesis
      using try_afbc_Some(2,3) b(1) by blast
  next
    assume a: "try_bl cfg E \<lparr>m_format = fi_id info, m_modifiers = 0\<rparr> p c flags = Inr (Some fp)"
    then have "\<not> is_afbc (fp_format fp)"
      using bl_format_not_afbc by (fastforce simp: try_bl_def split: if_splits)
    then show ?thesis
      using try_bl_Some(2) [OF a] by (simp add: flag_defs)
  qed (simp add: flag_defs is_afbc_def)
  with * show ?thesis
    using that by blast
qed

section \<open>The flags that reach the choice\<close>

lemma and_not_sub: "test_flag (f AND NOT m) n \<Longrightarrow> test_flag f n"
  for f :: format_support_flags
  by (rule clear_if_sub [of "Inr True" m f "f AND NOT m"]) (auto simp: clear_if_def)

lemma check_afrc_bl_sub:
  "check_afrc_support E info p c f = Inr g \<Longrightarrow> test_flag g n \<Longrightarrow> test_flag f n"
  "check_bl_support E info p c f = Inr g \<Longrightarrow> test_flag g n \<Longrightarrow> test_flag f n"
proof -
  show "check_afrc_support E info p c f = Inr g \<Longrightarrow> test_flag g n \<Longrightarrow> test_flag f n"
    by (auto simp: check_afrc_support_def dest: clear_if_sub split: if_splits)
  show "check_bl_support E info p c f = Inr g \<Longrightarrow> test_flag g n \<Longrightarrow> test_flag f n"
    by (auto simp: check_bl_support_def dest: clear_if_sub and_not_sub split: if_splits)
qed

lemma check_wide_afbc:
  "check_wide_support H E info p c f = Inr g \<Longrightarrow> test_flag g F_AFBC \<Longrightarrow> test_flag f F_AFBC"
  by (auto simp: check_wide_support_def flag_defs test_flag_def split: if_splits)

lemma is_format_supported_multiplane:
  assumes "is_format_supported H E info ips usage p c = Inr flags" and "1 < npln info"
    and "\<not> ip_empty p"
  shows "\<not> test_flag flags F_AFBC"
proof -
  obtain f f1 f2 f3 where 1: "check_afbc_support E info usage p c f = Inr f1"
    and 2: "check_afrc_support E info p c f1 = Inr f2" and 3: "check_bl_support E info p c f2 = Inr f3"
    and 4: "check_wide_support H E info p c f3 = Inr flags"
    using assms(1) by (auto simp: is_format_supported_def Let_def)
  have "\<not> test_flag f1 F_AFBC"
    by (rule check_afbc_multiplane [OF 1 assms(2,3)])
  then show ?thesis
    using check_wide_afbc [OF 4] check_afrc_bl_sub(2) [OF 3] check_afrc_bl_sub(1) [OF 2] by blast
qed

lemma supported_flags_multiplane:
  assumes "supported_flags cfg H E info ips usage p c = Inr flags" and "1 < npln info"
    and "\<not> ip_empty p"
  shows "\<not> test_flag flags F_AFBC"
proof -
  obtain f1 f2 where f1: "is_format_supported H E info ips usage p c = Inr f1"
    and f2: "(if f1 = F_NONE \<and> ip_contains c MALI_GRALLOC_IP_GPU \<and> ip_contains c MALI_GRALLOC_IP_DPU
      then is_format_supported H E info ips usage p (ip_remove c MALI_GRALLOC_IP_DPU)
      else Inr f1) = Inr f2"
    and flags: "flags = (if cfg_fb_disable_afbc cfg \<and> test_flag usage GRALLOC_USAGE_HW_FB
      then f2 AND NOT (F_AFBC OR F_AFRC OR F_BL_YUV) else f2)"
    using assms(1) unfolding supported_flags_def bind_res_eq_Inr sum.inject by blast
  have "\<not> test_flag f2 F_AFBC"
    using f1 f2 is_format_supported_multiplane [OF _ assms(2,3)] by (simp split: if_splits)
  moreover from this have "\<not> test_flag (f2 AND NOT (F_AFBC OR F_AFRC OR F_BL_YUV)) F_AFBC"
    by (blast dest: and_not_sub)
  ultimately show ?thesis
    unfolding flags by presburger
qed

section \<open>Properties of the choice\<close>

lemma pick_best_cases:
  assumes "best_inv G req D s" and "f = pick_best p c s"
  shows "f \<noteq> internal_format_invalid \<Longrightarrow> \<exists>info\<in>D. \<exists>g. G info f g"
    and "ip_contains p MALI_GRALLOC_IP_CPU \<or> ip_contains c MALI_GRALLOC_IP_CPU \<Longrightarrow>
      f = internal_format_invalid \<or> get_base f = req"
    and "\<not> ip_contains p MALI_GRALLOC_IP_CPU \<Longrightarrow> \<not> ip_contains c MALI_GRALLOC_IP_CPU \<Longrightarrow>
      info \<in> D \<Longrightarrow> G info f' g' \<Longrightarrow> g' \<noteq> 0 \<Longrightarrow> \<exists>info\<in>D. \<exists>g. G info f g \<and> g' \<le> g"
    and "info \<in> D \<Longrightarrow> G info f' g' \<Longrightarrow> g' \<noteq> 0 \<Longrightarrow> get_base f' = req \<Longrightarrow>
      \<exists>info\<in>D. \<exists>g. G info f g"
proof -
  have inv: "bs_count s = 0 \<longleftrightarrow> bs_best_grade s = 0"
    "\<And>info f g. info \<in> D \<Longrightarrow> G info f g \<Longrightarrow> g \<le> bs_best_grade s"
    "\<And>info f g. info \<in> D \<Longrightarrow> G info f g \<Longrightarrow> get_base f = req \<Longrightarrow> bs_req_grade s \<noteq> 0"
    "bs_best_grade s \<noteq> 0 \<Longrightarrow> \<exists>info\<in>D. G info (bs_first_best s) (bs_best_grade s)"
    "bs_req_grade s \<noteq> 0 \<Longrightarrow> get_base (bs_req_format s) = req"
    "bs_req_grade s \<noteq> 0 \<Longrightarrow> \<exists>info\<in>D. G info (bs_req_format s) (bs_req_grade s)"
    using assms(1) unfolding best_inv_def by blast+
  show "f \<noteq> internal_format_invalid \<Longrightarrow> \<exists>info\<in>D. \<exists>g. G info f g"
    using assms(2) inv(1,4,6) by (fastforce simp: pick_best_def split: if_splits)
  show "ip_contains p MALI_GRALLOC_IP_CPU \<or> ip_contains c MALI_GRALLOC_IP_CPU \<Longrightarrow>
      f = internal_format_invalid \<or> get_base f = req"
    using assms(2) inv(5) by (auto simp: pick_best_def split: if_splits)
  have pos: "info \<in> D \<Longrightarrow> G info f' g' \<Longrightarrow> g' \<noteq> 0 \<Longrightarrow> bs_best_grade s \<noteq> 0" for info f' g'
    using inv(2) [of info f' g'] by auto
  show "\<not> ip_contains p MALI_GRALLOC_IP_CPU \<Longrightarrow> \<not> ip_contains c MALI_GRALLOC_IP_CPU \<Longrightarrow>
      info \<in> D \<Longrightarrow> G info f' g' \<Longrightarrow> g' \<noteq> 0 \<Longrightarrow> \<exists>info\<in>D. \<exists>g. G info f g \<and> g' \<le> g"
    using assms(2) inv(1,4,6) pos [of info f' g'] inv(2) [of info f' g']
    by (cases "bs_req_grade s = bs_best_grade s") (auto simp: pick_best_def)
  show "info \<in> D \<Longrightarrow> G info f' g' \<Longrightarrow> g' \<noteq> 0 \<Longrightarrow> get_base f' = req \<Longrightarrow> \<exists>info\<in>D. \<exists>g. G info f g"
    using assms(2) inv(1,4,6) pos [of info f' g'] inv(3) [of info f' g']
    by (auto simp: pick_best_def)
qed

text \<open>C9: the search of \<open>get_best_format\<close>. A format it returns is one that a compatible row of the
  table supports. Without CPU access no compatible row offers a format of higher grade, so the
  search fails only when no row offers anything; with CPU access the requested base format is kept.\<close>

theorem best_format_is_best:
  assumes "get_best_format cfg H E req usage p c = Inr f"
  shows "\<exists>req_info. get_format_info H req = Some req_info \<and>
    (f \<noteq> internal_format_invalid \<longrightarrow>
      (\<exists>info \<in> set (formats H). \<exists>g. graded cfg H E req_info req usage p c info f g)) \<and>
    (ip_contains p MALI_GRALLOC_IP_CPU \<or> ip_contains c MALI_GRALLOC_IP_CPU \<longrightarrow>
      f = internal_format_invalid \<or> get_base f = req) \<and>
    (\<not> ip_contains p MALI_GRALLOC_IP_CPU \<and> \<not> ip_contains c MALI_GRALLOC_IP_CPU \<longrightarrow>
      (\<forall>info' \<in> set (formats H). \<forall>f' g'. graded cfg H E req_info req usage p c info' f' g' \<longrightarrow>
        (\<exists>info \<in> set (formats H). \<exists>g. graded cfg H E req_info req usage p c info f g \<and> g' \<le> g)))"
proof -
  obtain req_info s where r: "get_format_info H req = Some req_info"
    and inv: "best_inv (graded cfg H E req_info req usage p c) req (set (formats H)) s"
    and f: "f = pick_best p c s"
    using get_best_format_search [OF assms] unfolding get_all_base_formats_def .
  note cases = pick_best_cases [OF inv f]
  show ?thesis
    using r cases(1-3) graded_nonzero by blast
qed

text \<open>A sample build and the capabilities of a GPU with AFBC, to evaluate the search.\<close>

definition sample_build :: build_config where
  "sample_build = \<lparr>cfg_fb_disable_afbc = False, cfg_force_bgra = False, cfg_rk_manner = False,
     cfg_private_formats = True, cfg_ndebug = False\<rparr>"

definition sample_caps :: "ip_capability list" where
  "sample_caps =
     [\<lparr>cap_ip = MALI_GRALLOC_IP_GPU, cap_path = ''gpu.xml'',
       cap_caps = Some \<lparr>ic_ip = XML_GPU, ic_features =
         [\<lparr>xf_name = XML_FORMAT_R10G10B10A2, xf_permission = XML_RW\<rparr>,
          \<lparr>xf_name = XML_AFBC_16X16, xf_permission = XML_RW\<rparr>,
          \<lparr>xf_name = XML_AFBC_TILED_HEADERS, xf_permission = XML_RO\<rparr>]\<rparr>\<rparr>]"

definition sample_usage :: u64 where
  "sample_usage = GRALLOC_USAGE_HW_TEXTURE OR GRALLOC_USAGE_HW_RENDER"

definition sample_row :: format_info_t where
  "sample_row = formats_rgb hal_sample ! 6"

lemma best_loop_append:
  "best_loop cfg H E ri req usage p c (xs @ ys) s =
     bind_res (best_loop cfg H E ri req usage p c xs s) (best_loop cfg H E ri req usage p c ys)"
  by (induction xs arbitrary: s) (auto split: option.split simp: bind_res_def split: sum.splits)

lemma best_loop_skip:
  "list_all (\<lambda>info. \<not> is_format_compatible H ri info) xs \<Longrightarrow>
   best_loop cfg H E ri req usage p c xs s = Inr s"
  by (induction xs) auto

lemma sample_row_info: "get_format_info hal_sample 0x2B = Some sample_row"
proof -
  have "sample_row \<in> set (formats hal_sample)" "fi_id sample_row = 0x2B"
    by (simp_all add: sample_row_def formats_rgb_def formats_def fmt_value_def)
  then show ?thesis
    by (simp add: get_format_info_iff [OF hal_documented_sample])
qed

lemma sample_incompatible:
  "list_all (\<lambda>info. \<not> is_format_compatible hal_sample sample_row info)
     (take 6 (formats_rgb hal_sample) @ drop 7 (formats_rgb hal_sample) @ formats_yuv420 hal_sample @
      formats_yuv422_444 hal_sample @ formats_yuv_10bit hal_sample @ formats_raw hal_sample @
      formats_depth hal_sample)"
  by (simp add: sample_row_def formats_defs is_format_compatible_def comparable_components_def
      total_components_def)

lemma sample_formats_split:
  "get_all_base_formats hal_sample =
     take 6 (formats_rgb hal_sample) @ sample_row # drop 7 (formats_rgb hal_sample) @
     formats_yuv420 hal_sample @ formats_yuv422_444 hal_sample @ formats_yuv_10bit hal_sample @
     formats_raw hal_sample @ formats_depth hal_sample"
  by (simp add: get_all_base_formats_def formats_def sample_row_def formats_rgb_def)

definition sample_format :: internal_format_t where
  "sample_format = set_afbc_sparse True (set_afbc_yuv_transform True
     (set_modifier MALI_GRALLOC_INTFMT_AFBC_BASIC True \<lparr>m_format = 0x2B, m_modifiers = 0\<rparr>))"


definition sample_ips :: format_ip_support_t where
  "sample_ips = \<lparr>ip_id = 0x2B,
       cpu_wr = F_LIN, cpu_rd = F_LIN, gpu_wr = F_LIN OR F_AFBC, gpu_rd = F_LIN OR F_AFBC,
       dpu_wr = F_LIN, dpu_rd = F_LIN OR F_AFBC, dpu_aeu_wr = F_AFBC,
       vpu_wr = F_NONE, vpu_rd = F_NONE, cam_wr = F_NONE\<rparr>"

lemma sample_flags:
  "supported_flags sample_build hal_sample sample_caps sample_row sample_ips sample_usage
      MALI_GRALLOC_IP_GPU MALI_GRALLOC_IP_GPU = Inr 3"
  by code_simp

lemma sample_afbc: "get_afbc_format hal_sample False sample_caps sample_row sample_usage
      MALI_GRALLOC_IP_GPU MALI_GRALLOC_IP_GPU = Inr sample_format"
  by code_simp

lemma sample_supported:
  "get_supported_format sample_build hal_sample sample_caps sample_row sample_usage
     MALI_GRALLOC_IP_GPU MALI_GRALLOC_IP_GPU = Inr (Some \<lparr>fp_flags = F_AFBC, fp_format = sample_format\<rparr>)"
proof -
  have id: "fi_id sample_row = 0x2B"
    using sample_row_info by (simp add: get_format_info_iff [OF hal_documented_sample])
  have ips: "get_format_ip_support hal_sample 0x2B = Some sample_ips"
    by (simp add: get_format_ip_support_def ip_support_defs fmt_value_def sample_ips_def)
  have flag3: "test_flag (3 :: 8 word) F_AFBC"
    by (simp add: test_flag_def flag_defs)
  have base: "get_base_info hal_sample sample_format = Some sample_row"
    using sample_row_info by (simp add: get_base_info_def sample_format_def get_base_def
      mali_gralloc_format_get_base_def intfmt_values accessor_defs)
  have s: "is_afbc sample_format" "\<not> gralloc_usage_is_no_afbc sample_usage" "npln sample_row = 1"
    "\<not> get_afbc_64x4 sample_format"
    by (code_simp)+
  moreover obtain a where "get_alloc_type hal_sample sample_format sample_usage = Some a"
    using base by (simp add: get_alloc_type_def get_afbc_alloc_type_def s Let_def)
  ultimately have "try_afbc sample_build hal_sample sample_caps sample_row sample_usage
     MALI_GRALLOC_IP_GPU MALI_GRALLOC_IP_GPU 3 = Inr (Some \<lparr>fp_flags = F_AFBC, fp_format = sample_format\<rparr>)"
    by (simp add: try_afbc_def sample_afbc sample_build_def flag3)
  moreover have no_afrc: "try_afrc sample_build sample_caps sample_row sample_usage
     MALI_GRALLOC_IP_GPU MALI_GRALLOC_IP_GPU 3 = Inr None"
    by (simp add: try_afrc_def test_flag_def flag_defs)
  ultimately show ?thesis
    using ips sample_flags
    by (simp add: get_supported_format_def id from_android_ok or_else_def)
qed

lemma sample_grade:
  "grade_format hal_sample sample_format 0x2B = Inr 5"
proof -
  have base: "get_base_info hal_sample sample_format = Some sample_row"
    using sample_row_info by (simp add: get_base_info_def sample_format_def get_base_def
      mali_gralloc_format_get_base_def intfmt_values accessor_defs)
  have "\<not> is_afrc sample_format" "modifier_grade sample_format = 4"
    by (code_simp)+
  then show ?thesis
    using sample_row_info base
    by (simp add: grade_format_def base_info_def)
qed

lemma sample_search:
  "get_best_format sample_build hal_sample sample_caps 0x2B sample_usage
     MALI_GRALLOC_IP_GPU MALI_GRALLOC_IP_GPU = Inr sample_format"
proof -
  note inc = sample_incompatible [unfolded list_all_append]
  have "best_loop sample_build hal_sample sample_caps sample_row 0x2B sample_usage
     MALI_GRALLOC_IP_GPU MALI_GRALLOC_IP_GPU (get_all_base_formats hal_sample) best_start =
     Inr (best_update 0x2B sample_format 5 best_start)"
    unfolding sample_formats_split best_loop_append
    using inc by (simp add: best_loop_skip sample_supported sample_grade is_format_compatible_def
      comparable_components_def)
  moreover have "pick_best MALI_GRALLOC_IP_GPU MALI_GRALLOC_IP_GPU
      (best_update 0x2B sample_format 5 best_start) = sample_format"
    by code_simp
  ultimately show ?thesis
    by (simp add: get_best_format_def sample_row_info fmt_value_def)
qed

theorem best_format_is_best_witness:
  "graded sample_build hal_sample sample_caps sample_row 0x2B sample_usage
     MALI_GRALLOC_IP_GPU MALI_GRALLOC_IP_GPU sample_row sample_format 5 \<and>
   (\<exists>info \<in> set (formats hal_sample). \<exists>g.
      graded sample_build hal_sample sample_caps sample_row 0x2B sample_usage
        MALI_GRALLOC_IP_GPU MALI_GRALLOC_IP_GPU info sample_format g \<and> 5 \<le> g)"
proof -
  have compat: "is_format_compatible hal_sample sample_row sample_row"
    by code_simp
  then have g: "graded sample_build hal_sample sample_caps sample_row 0x2B sample_usage
     MALI_GRALLOC_IP_GPU MALI_GRALLOC_IP_GPU sample_row sample_format 5"
    by (simp add: graded_def sample_supported sample_grade)
  moreover have "sample_row \<in> set (formats hal_sample)"
    using get_format_info_SomeD [OF sample_row_info] ..
  moreover have "\<not> ip_contains MALI_GRALLOC_IP_GPU MALI_GRALLOC_IP_CPU"
    by code_simp
  ultimately show ?thesis
    using best_format_is_best [OF sample_search] sample_row_info by auto
qed

lemma get_best_format_row:
  assumes "hal_documented H" and "get_best_format cfg H E req usage p c = Inr f"
    and "f \<noteq> internal_format_invalid"
  obtains info fp where "info \<in> set (formats H)" "fp_format fp = f"
    "get_supported_format cfg H E info usage p c = Inr (Some fp)" "get_base f = fi_id info"
proof -
  obtain req_info s where
    inv: "best_inv (graded cfg H E req_info req usage p c) req (set (formats H)) s"
    and f: "f = pick_best p c s"
    using get_best_format_search [OF assms(2)] unfolding get_all_base_formats_def .
  obtain info g where info: "info \<in> set (formats H)" "graded cfg H E req_info req usage p c info f g"
    using pick_best_cases(1) [OF inv f assms(3)] by blast
  then obtain fp where "get_supported_format cfg H E info usage p c = Inr (Some fp)" "fp_format fp = f"
    unfolding graded_def by blast
  then show ?thesis
    using that info(1) supported_row [OF assms(1) info(1)] by metis
qed

lemma select_best_format_cases:
  assumes "select_best_format cfg H E flags req_format usage = Inr f" and "f \<noteq> internal_format_invalid"
  obtains info p g where "get_format_info H (get_internal_format H req_format) = Some info"
    "usage_permitted info usage"
    "\<not> request_rejected H flags info (get_internal_format H req_format) usage"
    "p = (if ip_empty (get_producers usage) then ip_add (get_producers usage) MALI_GRALLOC_IP_CPU
          else get_producers usage)" "\<not> ip_empty p"
    "\<not> (ip_empty (get_producers usage) \<and> ip_empty (get_consumers usage))"
    "get_best_format cfg H E (fi_id info) usage p (get_consumers usage) = Inr g"
    "force_bgra cfg H usage g = Inr f"
proof -
  have "\<not> ip_empty (ip_add ips MALI_GRALLOC_IP_CPU)" for ips
    by (simp add: ip_empty_def ip_add_def or_eq_0_iff flag_defs)
  then show ?thesis
    using assms that by (auto simp: select_best_format_def Let_def split: option.splits if_splits)
qed

text \<open>C6: whatever \<open>select_best_format\<close> answers with AFBC can be allocated: its base format has a
  single plane and a row, no usage forbids AFBC, and \<open>get_alloc_type\<close> knows the layout.\<close>

theorem selected_afbc_allocatable:
  assumes "hal_documented H" and "select_best_format cfg H E flags req_format usage = Inr f"
    and "is_afbc f"
  shows "\<exists>info \<in> set (formats H). fi_id info = get_base f \<and> npln info = 1 \<and>
    \<not> gralloc_usage_is_no_afbc usage \<and> (\<exists>a. get_alloc_type H f usage = Some a)"
proof -
  have "f \<noteq> internal_format_invalid"
    using assms(3) by (auto simp: internal_format_invalid_def is_afbc_def)
  then obtain info :: format_info_t and p g where p: "\<not> ip_empty p"
    and g: "get_best_format cfg H E (fi_id info) usage p (get_consumers usage) = Inr g"
    and f: "force_bgra cfg H usage g = Inr f"
    by (rule select_best_format_cases [OF assms(2)]) blast
  have "H HAL_BGRA_8888 < 0x200"
    using fmt_value_less [OF assms(1), of FMT_BGRA_8888] by (simp add: fmt_value_def)
  then have "g = f"
    using f assms(3) from_android_ok
    by (auto simp: force_bgra_def is_afbc_def internal_format_invalid_def split: if_splits)
  then obtain row fp where row: "row \<in> set (formats H)" "fp_format fp = f" "get_base f = fi_id row"
    and s: "get_supported_format cfg H E row usage p (get_consumers usage) = Inr (Some fp)"
    using get_best_format_row [OF assms(1) g] \<open>f \<noteq> internal_format_invalid\<close> by metis
  obtain ips fl where
    fl: "supported_flags cfg H E row ips usage p (get_consumers usage) = Inr fl"
    and "test_flag fl (fp_flags fp)" "fp_flags fp = F_AFBC"
    and l: "layout_of_flag H row usage \<lparr>m_format = fi_id row, m_modifiers = 0\<rparr> fp"
    using supported_row [OF assms(1) row(1) s] row(2) assms(3) by metis
  then have "\<not> 1 < npln row"
    using supported_flags_multiplane [OF fl _ p] by auto
  moreover have "1 \<le> npln row"
    using formats_row_wf [OF row(1)] by (simp add: row_wf_def)
  moreover have "F_AFBC \<noteq> F_AFRC" "F_AFBC \<noteq> F_BL_YUV" "F_AFBC \<noteq> F_LIN"
    by (simp_all add: flag_defs)
  then have "\<not> gralloc_usage_is_no_afbc usage \<and> (\<exists>a. get_alloc_type H f usage = Some a)"
    using row(2) l \<open>fp_flags fp = F_AFBC\<close> by (auto simp: layout_of_flag_def)
  ultimately show ?thesis
    using row(1,3) by auto
qed

lemma sample_select:
  "select_best_format sample_build hal_sample sample_caps 0 0x2B sample_usage = Inr sample_format"
proof -
  have i: "get_internal_format hal_sample 0x2B = 0x2B"
    using sample_row_info
    by (simp add: get_internal_format_def hal_to_internal_format_def fmt_value_def)
  have p: "get_producers sample_usage = MALI_GRALLOC_IP_GPU"
    "get_consumers sample_usage = MALI_GRALLOC_IP_GPU" "\<not> ip_empty MALI_GRALLOC_IP_GPU"
    "usage_permitted sample_row sample_usage" "fi_id sample_row = 0x2B"
    "\<not> request_rejected hal_sample 0 sample_row 0x2B sample_usage"
    "force_bgra sample_build hal_sample sample_usage sample_format = Inr sample_format"
    by (code_simp)+
  show ?thesis
    by (simp add: select_best_format_def i sample_row_info p Let_def fmt_value_def sample_search)
qed

theorem selected_afbc_allocatable_witness:
  "\<exists>info \<in> set (formats hal_sample). fi_id info = get_base sample_format \<and> npln info = 1"
proof -
  have "is_afbc sample_format"
    by code_simp
  then show ?thesis
    using selected_afbc_allocatable [OF hal_documented_sample sample_select] by blast
qed



text \<open>A private format that \<open>select_forced_format\<close> accepts names a row of the table and asks for
  no modifiers, or for a layout its row supports; AFBC with several planes needs tiled 64x4
  headers.\<close>

theorem forced_format_ok:
  assumes "select_forced_format H req_format = f" and "f \<noteq> internal_format_invalid"
  shows "\<exists>info \<in> set (formats H). fi_id info = get_internal_format H (get_base (from_private req_format)) \<and>
    (has_modifiers f \<longrightarrow>
      is_afrc f \<and> afrc info \<or> is_block_linear f \<and> block_linear info \<or>
      is_afbc f \<and> afbc info \<and> (npln info = 1 \<or> get_afbc_64x4 f \<and> get_afbc_tiled_headers f))"
proof -
  obtain info where "get_format_info H (get_internal_format H (get_base (from_private req_format))) = Some info"
    and "check_modifiers_against_format info f"
    using assms by (auto simp: select_forced_format_def Let_def split: option.splits if_splits)
  then show ?thesis
    using get_format_info_SomeD
    by (fastforce simp: check_modifiers_against_format_def is_format_multiplane_afbc_def split: if_splits)
qed

theorem forced_format_ok_witness:
  "\<exists>info \<in> set (formats hal_sample). fi_id info = 0x2B \<and> afbc info \<and> npln info = 1"
proof -
  let ?req = "MALI_GRALLOC_INTFMT_SENTINEL OR 0x2B OR MALI_GRALLOC_INTFMT_AFBC_BASIC"
  let ?f = "\<lparr>m_format = 0x2B, m_modifiers = MALI_GRALLOC_INTFMT_AFBC_BASIC\<rparr>"
  have i: "get_internal_format hal_sample 0x2B = 0x2B"
    using sample_row_info
    by (simp add: get_internal_format_def hal_to_internal_format_def fmt_value_def)
  have b: "get_base (from_private ?req) = 0x2B"
    "from_private (0x2B OR get_modifiers (from_private ?req)) = ?f"
    "check_modifiers_against_format sample_row ?f" "\<not> is_afrc ?f" "\<not> is_block_linear ?f"
    "has_modifiers ?f" "?f \<noteq> internal_format_invalid" "\<not> get_afbc_64x4 ?f"
    by (code_simp)+
  have "select_forced_format hal_sample ?req = ?f"
    by (simp add: select_forced_format_def b i sample_row_info fmt_value_def Let_def)
  from forced_format_ok [OF this b(7)] show ?thesis
    unfolding b(1) i using b by blast
qed

end
