(* ===== verification/Rk_Select.thy ===== *)
theory Rk_Select
  imports Format_Choice
begin

text \<open>
  Rockchip's own manner of selecting formats, the last part of src/src/core/formats.cpp: the board
  platform and the framebuffer size, both cached in the process and read from or kept in system
  properties, the mapping of requested formats, the decision for or against AFBC, and
  \<open>mali_gralloc_select_format\<close>, which the build configures to use it or the Arm selection.
\<close>

section \<open>System properties and process state\<close>

text \<open>
  The property service of the system (libcutils) is a parameter: its operations on its own state
  \<open>'p\<close>. \<open>ps_get s key default\<close> answers \<open>default\<close> for a property that is not set.
\<close>

record 'p property_service =
  ps_get :: "'p \<Rightarrow> string \<Rightarrow> string \<Rightarrow> string"
  ps_set :: "'p \<Rightarrow> string \<Rightarrow> string \<Rightarrow> 'p"

datatype rk_board_platform_t = RK3326 | RK356X | RK3588 | RK_BOARD_PLATFORM_UNKNOWN

record 'p rk_state =
  s_platform :: rk_board_platform_t
  s_fb_size :: i32
  rk_props :: 'p

section \<open>Decimal text\<close>

text \<open>\<open>sprintf ("%d")\<close> of an \<open>int\<close>, and \<open>atoi\<close> (text out of the range of \<open>int\<close> is undefined in C).\<close>

definition digit_char :: "nat \<Rightarrow> char" where
  "digit_char d = ''0123456789'' ! d"

fun show_nat :: "nat \<Rightarrow> string" where
  "show_nat n = (if n < 10 then [digit_char n] else show_nat (n div 10) @ [digit_char (n mod 10)])"

declare show_nat.simps [simp del]

definition show_int :: "i32 \<Rightarrow> string" where
  "show_int v = (if sint v < 0 then CHR ''-'' # show_nat (nat (- sint v)) else show_nat (nat (sint v)))"

definition digit_value :: "char \<Rightarrow> nat option" where
  "digit_value c = (if c \<in> set ''0123456789''
     then Some (length (takeWhile (\<lambda>x. x \<noteq> c) ''0123456789'')) else None)"

fun read_nat :: "nat \<Rightarrow> string \<Rightarrow> nat" where
  "read_nat acc [] = acc"
| "read_nat acc (c # cs) =
     (case digit_value c of None \<Rightarrow> acc | Some d \<Rightarrow> read_nat (10 * acc + d) cs)"

definition is_c_space :: "char \<Rightarrow> bool" where
  "is_c_space c \<longleftrightarrow> c \<in> {CHR '' '', CHR 0x09, CHR 0x0A, CHR 0x0B, CHR 0x0C, CHR 0x0D}"

definition atoi :: "string \<Rightarrow> i32" where
  "atoi s =
     (case dropWhile is_c_space s of
        [] \<Rightarrow> 0
      | c # cs \<Rightarrow>
          if c = CHR ''-'' then - of_nat (read_nat 0 cs)
          else if c = CHR ''+'' then of_nat (read_nat 0 cs)
          else of_nat (read_nat 0 (c # cs)))"

section \<open>Platform and framebuffer size\<close>

definition get_rk_board_platform ::
  "'p property_service \<Rightarrow> 'p rk_state \<Rightarrow> (rk_board_platform_t \<times> 'p rk_state) res" where
  "get_rk_board_platform P st =
     (if s_platform st = RK_BOARD_PLATFORM_UNKNOWN then
        let value = ps_get P (rk_props st) ''ro.board.platform'' ''0''
        in if value = ''rk3326'' then Inr (RK3326, st\<lparr>s_platform := RK3326\<rparr>)
           else if value = ''rk356x'' then Inr (RK356X, st\<lparr>s_platform := RK356X\<rparr>)
           else if value = ''rk3588'' then Inr (RK3588, st\<lparr>s_platform := RK3588\<rparr>)
           else Inl Always_fatal
      else Inr (s_platform st, st))"

definition is_rk_ext_hal_format :: "hal_env \<Rightarrow> u64 \<Rightarrow> bool" where
  "is_rk_ext_hal_format H hal_format \<longleftrightarrow>
     hal_format = ucast (H HAL_YCrCb_NV12) \<or> hal_format = ucast (H HAL_YCrCb_NV12_10)"

definition is_no_afbc_for_sf_client_layer_required_via_prop ::
  "'p property_service \<Rightarrow> 'p rk_state \<Rightarrow> bool" where
  "is_no_afbc_for_sf_client_layer_required_via_prop P st \<longleftrightarrow>
     ps_get P (rk_props st) ''vendor.gralloc.no_afbc_for_sf_client_layer'' ''0'' = ''1''"

definition is_no_afbc_for_fb_target_layer_required_via_prop ::
  "'p property_service \<Rightarrow> 'p rk_state \<Rightarrow> bool" where
  "is_no_afbc_for_fb_target_layer_required_via_prop P st \<longleftrightarrow>
     ps_get P (rk_props st) ''vendor.gralloc.no_afbc_for_fb_target_layer'' ''0'' = ''1''"

definition PROP_NAME_OF_FB_SIZE :: string where
  "PROP_NAME_OF_FB_SIZE = ''vendor.gralloc.fb_size''"

definition get_fb_size :: "'p property_service \<Rightarrow> 'p rk_state \<Rightarrow> i32 \<times> 'p rk_state" where
  "get_fb_size P st =
     (if s_fb_size st \<noteq> 0 then (s_fb_size st, st)
      else let v = atoi (ps_get P (rk_props st) PROP_NAME_OF_FB_SIZE ''0'')
           in (v, st\<lparr>s_fb_size := v\<rparr>))"

definition save_fb_size :: "'p property_service \<Rightarrow> i32 \<Rightarrow> 'p rk_state \<Rightarrow> 'p rk_state" where
  "save_fb_size P fb_size st =
     (let (v, st1) = get_fb_size P st
      in if v \<noteq> 0 then st1
         else st1\<lparr>s_fb_size := fb_size,
           rk_props := ps_set P (rk_props st1) PROP_NAME_OF_FB_SIZE (show_int fb_size)\<rparr>)"

definition is_not_to_use_non_afbc_for_small_buffers_required_via_prop ::
  "'p property_service \<Rightarrow> 'p rk_state \<Rightarrow> bool" where
  "is_not_to_use_non_afbc_for_small_buffers_required_via_prop P st \<longleftrightarrow>
     ps_get P (rk_props st) ''vendor.gralloc.not_to_use_non_afbc_for_small_buffers'' ''0'' = ''1''"

definition should_sf_client_layer_use_afbc_format_by_size ::
  "'p property_service \<Rightarrow> hal_env \<Rightarrow> u64 \<Rightarrow> i32 \<Rightarrow> 'p rk_state \<Rightarrow> bool \<times> 'p rk_state" where
  "should_sf_client_layer_use_afbc_format_by_size P H base_format buffer_size st =
     (let (fb_size, st1) = get_fb_size P st
      in if base_format \<noteq> ucast (fmt_value H FMT_RGBA_8888) then (True, st1)
         else if is_not_to_use_non_afbc_for_small_buffers_required_via_prop P st1 then (True, st1)
         else if sless32 buffer_size (sdiv32 fb_size 4) then (False, st1)
         else (True, st1))"

section \<open>The requested format\<close>

text \<open>The chain of \<open>if\<close>s that maps \<open>req_format\<close>; the last case keeps it.\<close>

definition rk_map_req_format :: "hal_env \<Rightarrow> u32 \<Rightarrow> u64 \<Rightarrow> u32" where
  "rk_map_req_format H req_format usage =
     (if H HAL_YCrCb_NV12 = req_format then fmt_value H FMT_NV12
      else if H HAL_YCbCr_422_SP = req_format then fmt_value H FMT_NV16
      else if H HAL_YCrCb_NV12_10 = req_format then fmt_value H FMT_NV15
      else if H HAL_YCBCR_444_888 = req_format then fmt_value H FMT_NV24
      else if H HAL_NV30 = req_format then fmt_value H FMT_NV30
      else if req_format = H HAL_IMPLEMENTATION_DEFINED then
        (if usage AND GRALLOC_USAGE_HW_VIDEO_ENCODER = GRALLOC_USAGE_HW_VIDEO_ENCODER \<or>
            usage AND GRALLOC_USAGE_HW_CAMERA_WRITE = GRALLOC_USAGE_HW_CAMERA_WRITE
         then fmt_value H FMT_NV12 else H HAL_RGBX_8888)
      else if req_format = H HAL_YCbCr_420_888 then fmt_value H FMT_NV12
      else if H HAL_YUV420_8BIT_I = req_format then fmt_value H FMT_YUV420_8BIT_I
      else if H HAL_YUV420_10BIT_I = req_format then fmt_value H FMT_YUV420_10BIT_I
      else if H HAL_YCbCr_422_I = req_format then fmt_value H FMT_YUV422_8BIT
      else if H HAL_Y210 = req_format then fmt_value H FMT_Y210
      else if req_format = H HAL_YCRCB_420_SP then fmt_value H FMT_NV21
      else req_format)"

definition rk_internal_format :: "hal_env \<Rightarrow> u32 \<Rightarrow> u64 \<Rightarrow> u32" where
  "rk_internal_format H req_format usage =
     (let m = rk_map_req_format H req_format usage
      in if \<not> is_rk_ext_hal_format H (scast req_format) \<and> m = req_format then
           (if get_internal_format H req_format = fmt_value H FMT_UNDEFINED then req_format
            else get_internal_format H req_format)
         else m)"

section \<open>The decision for AFBC\<close>

text \<open>Reasons for which a framebuffer target is not compressed.\<close>

definition fb_target_not_afbc :: "hal_env \<Rightarrow> u64 \<Rightarrow> u32 \<Rightarrow> bool" where
  "fb_target_not_afbc H usage internal_format \<longleftrightarrow>
     usage AND GRALLOC_USAGE_HW_VIDEO_ENCODER = GRALLOC_USAGE_HW_VIDEO_ENCODER \<or>
     usage AND MALI_GRALLOC_USAGE_NO_AFBC = MALI_GRALLOC_USAGE_NO_AFBC \<or>
     usage AND (GRALLOC_USAGE_SW_READ_MASK OR GRALLOC_USAGE_SW_WRITE_MASK) \<noteq> 0 \<or>
     usage AND GRALLOC_USAGE_HW_CAMERA_WRITE = GRALLOC_USAGE_HW_CAMERA_WRITE \<or>
     usage AND GRALLOC_USAGE_HW_CAMERA_READ = GRALLOC_USAGE_HW_CAMERA_READ \<or>
     internal_format = fmt_value H FMT_NV12 \<or> internal_format = fmt_value H FMT_P010 \<or>
     internal_format = fmt_value H FMT_RGBA_16161616 \<or> internal_format = fmt_value H FMT_NV16"

text \<open>The branch for framebuffer targets: the format, the modifier and the new state.\<close>

definition rk_fb_target ::
  "'p property_service \<Rightarrow> hal_env \<Rightarrow> u64 \<Rightarrow> u32 \<Rightarrow> 'p rk_state \<Rightarrow> (u32 \<times> u32 \<times> 'p rk_state) res" where
  "rk_fb_target P H usage internal_format st =
     (if is_no_afbc_for_fb_target_layer_required_via_prop P st then Inr (internal_format, 0, st)
      else if fb_target_not_afbc H usage internal_format then Inr (internal_format, 0, st)
      else bind_res (get_rk_board_platform P st) (\<lambda>(platform, st1).
        case platform of
          RK3326 \<Rightarrow> Inr (fmt_value H FMT_RGBA_8888,
            MALI_GRALLOC_INTFMT_AFBC_BASIC OR MALI_GRALLOC_INTFMT_AFBC_YUV_TRANSFORM, st1)
        | RK_BOARD_PLATFORM_UNKNOWN \<Rightarrow> Inl Always_fatal
        | _ \<Rightarrow>
            (if usage AND MALI_GRALLOC_USAGE_NO_AFBC = 0
             then Inr (fmt_value H FMT_RGBA_8888, MALI_GRALLOC_INTFMT_AFBC_BASIC, st1)
             else Inr (fmt_value H FMT_RGBA_8888, 0, st1))))"

definition client_usage_allows_afbc :: "u64 \<Rightarrow> bool" where
  "client_usage_allows_afbc usage \<longleftrightarrow>
     usage AND (GRALLOC_USAGE_SW_READ_MASK OR GRALLOC_USAGE_SW_WRITE_MASK) = 0 \<and>
     usage AND GRALLOC_USAGE_HW_VIDEO_ENCODER = 0 \<and>
     usage AND GRALLOC_USAGE_HW_CAMERA_WRITE = 0 \<and> usage AND GRALLOC_USAGE_HW_CAMERA_READ = 0"

definition client_format_allows_afbc :: "hal_env \<Rightarrow> u32 \<Rightarrow> bool" where
  "client_format_allows_afbc H f \<longleftrightarrow>
     f \<noteq> fmt_value H FMT_NV12 \<and> f \<noteq> fmt_value H FMT_NV30 \<and> f \<noteq> fmt_value H FMT_NV24 \<and>
     f \<noteq> fmt_value H FMT_NV15 \<and> f \<noteq> fmt_value H FMT_P010 \<and> f \<noteq> fmt_value H FMT_RGBA_16161616 \<and>
     f \<noteq> fmt_value H FMT_NV16 \<and> f \<noteq> fmt_value H FMT_BGR_888 \<and> f \<noteq> H HAL_DEPTH_32F"

text \<open>The branch for other layers: the modifier and the new state.\<close>

definition rk_client_layer ::
  "'p property_service \<Rightarrow> hal_env \<Rightarrow> u64 \<Rightarrow> i32 \<Rightarrow> u32 \<Rightarrow> 'p rk_state \<Rightarrow> (u32 \<times> 'p rk_state) res" where
  "rk_client_layer P H usage buffer_size internal_format st =
     (if usage AND MALI_GRALLOC_USAGE_NO_AFBC = 0 \<and>
         \<not> is_no_afbc_for_sf_client_layer_required_via_prop P st then
        bind_res (get_rk_board_platform P st) (\<lambda>(platform, st1).
          if (platform = RK356X \<or> platform = RK3588) \<and> client_usage_allows_afbc usage \<and>
             client_format_allows_afbc H internal_format then
            let (use_afbc, st2) = should_sf_client_layer_use_afbc_format_by_size P H
                  (ucast internal_format) buffer_size st1
            in Inr (if use_afbc then MALI_GRALLOC_INTFMT_AFBC_BASIC else 0, st2)
          else Inr (0, st1))
      else Inr (0, st))"

definition rk_gralloc_select_format ::
  "'p property_service \<Rightarrow> hal_env \<Rightarrow> u32 \<Rightarrow> u64 \<Rightarrow> i32 \<Rightarrow> 'p rk_state \<Rightarrow>
   (internal_format_t \<times> 'p rk_state) res" where
  "rk_gralloc_select_format P H req_format usage buffer_size st =
     (let internal_format = rk_internal_format H req_format usage
      in if usage AND GRALLOC_USAGE_HW_FB = GRALLOC_USAGE_HW_FB then
           bind_res (rk_fb_target P H usage internal_format st) (\<lambda>(f, modifier, st1).
             Inr (from_private (f OR modifier), save_fb_size P buffer_size st1))
         else
           bind_res (rk_client_layer P H usage buffer_size internal_format st) (\<lambda>(modifier, st1).
             Inr (from_private (internal_format OR modifier), st1)))"

section \<open>The entry point\<close>

text \<open>\<open>descriptor.hal_format\<close> (64 bits) is converted to the 32-bit \<open>mali_gralloc_android_format\<close>.\<close>

definition mali_gralloc_select_format ::
  "build_config \<Rightarrow> 'p property_service \<Rightarrow> hal_env \<Rightarrow> ip_capability list \<Rightarrow> u32 \<Rightarrow> u64 \<Rightarrow> u64 \<Rightarrow>
   i32 \<Rightarrow> 'p rk_state \<Rightarrow> (internal_format_t \<times> 'p rk_state) res" where
  "mali_gralloc_select_format cfg P H E flags hal_format usage buffer_size st =
     (let req_format = ucast hal_format
      in if cfg_rk_manner cfg then rk_gralloc_select_format P H req_format usage buffer_size st
         else bind_res (arm_select_format cfg H E flags req_format usage) (\<lambda>f. Inr (f, st)))"

section \<open>Decimal text reads back\<close>

lemma digits_read:
  "list_all (\<lambda>d. digit_value (digit_char d) = Some d \<and> \<not> is_c_space (digit_char d) \<and>
     digit_char d \<noteq> CHR ''-'' \<and> digit_char d \<noteq> CHR ''+'') [0..<10]"
  by code_simp

lemma digit_read:
  assumes "d < 10"
  shows "digit_value (digit_char d) = Some d" "\<not> is_c_space (digit_char d)"
    "digit_char d \<noteq> CHR ''-''" "digit_char d \<noteq> CHR ''+''"
  using digits_read assms by (simp_all add: list_all_iff del: upt.simps)

lemma show_nat_digits: "list_all (\<lambda>c. \<exists>d < 10. c = digit_char d) (show_nat n)"
proof (induction n rule: show_nat.induct)
  case (1 n)
  then show ?case
    by (subst show_nat.simps) (auto intro: exI [of _ "n mod 10"])
qed

lemma show_nat_nonempty: "\<exists>d cs. d < 10 \<and> show_nat n = digit_char d # cs"
proof -
  have "show_nat n \<noteq> []"
    by (subst show_nat.simps) simp
  then show ?thesis
    using show_nat_digits [of n] by (cases "show_nat n") auto
qed

lemma read_nat_append:
  "list_all (\<lambda>c. \<exists>d < 10. c = digit_char d) xs \<Longrightarrow> read_nat acc (xs @ ys) = read_nat (read_nat acc xs) ys"
  by (induction xs arbitrary: acc) (auto simp: digit_read)

lemma read_show_nat: "read_nat 0 (show_nat n) = n"
proof (induction n rule: show_nat.induct)
  case (1 n)
  then show ?case
    by (subst show_nat.simps) (simp add: digit_read read_nat_append show_nat_digits)
qed

lemma atoi_show_int: "atoi (show_int v) = v"
proof (cases "sint v < 0")
  case True
  have "- of_nat (nat (- sint v)) = v"
    using True by simp
  then show ?thesis
    using True by (simp add: atoi_def show_int_def is_c_space_def read_show_nat)
next
  case False
  obtain d cs where "d < 10" "show_nat (nat (sint v)) = digit_char d # cs"
    using show_nat_nonempty by blast
  moreover have "of_nat (nat (sint v)) = v"
    using False by simp
  ultimately show ?thesis
    using False read_show_nat [of "nat (sint v)"] by (simp add: atoi_def show_int_def digit_read)
qed

section \<open>The packed result\<close>

lemma afbc_of_packed:
  "is_afbc (from_private (f OR m)) \<longleftrightarrow>
     test_flag f MALI_GRALLOC_INTFMT_AFBC_BASIC \<or> test_flag m MALI_GRALLOC_INTFMT_AFBC_BASIC"
proof -
  have "(x AND NOT 0x8000) AND 0xFFFF0000 AND 0x10000 = x AND (0x10000 :: u32)" for x
    by (simp add: and.assoc)
  then show ?thesis
    by (simp add: is_afbc_def get_modifier_def from_private_def make_internal_format_def
        mali_gralloc_format_get_modifiers_def intfmt_values test_flag_def bit.conj_disj_distrib2
        or_eq_0_iff and.assoc)
qed

section \<open>The branches\<close>

lemma platform_known:
  "get_rk_board_platform P st = Inr (p, st') \<Longrightarrow> p \<noteq> RK_BOARD_PLATFORM_UNKNOWN \<and> s_platform st' = p \<and>
     (s_platform st \<noteq> RK_BOARD_PLATFORM_UNKNOWN \<longrightarrow> p = s_platform st) \<and>
     s_fb_size st' = s_fb_size st \<and> rk_props st' = rk_props st"
  by (auto simp: get_rk_board_platform_def Let_def split: if_splits)

text \<open>For a flag of one bit the two tests that the code uses agree.\<close>

lemma one_bit_test: "test_flag x (2 ^ n) \<longleftrightarrow> x AND 2 ^ n = (2 ^ n :: u64)" if "n < 64"
proof -
  have "x AND 2 ^ n = (if bit x n then 2 ^ n else 0)"
    using that by (auto simp: word_eq_bits bit_simps)
  then show ?thesis
    using that by (simp add: test_flag_def)
qed

lemma single_bit_usages:
  "test_flag usage GRALLOC_USAGE_HW_VIDEO_ENCODER \<longleftrightarrow>
     usage AND GRALLOC_USAGE_HW_VIDEO_ENCODER = GRALLOC_USAGE_HW_VIDEO_ENCODER"
  "test_flag usage GRALLOC_USAGE_HW_CAMERA_WRITE \<longleftrightarrow>
     usage AND GRALLOC_USAGE_HW_CAMERA_WRITE = GRALLOC_USAGE_HW_CAMERA_WRITE"
  "test_flag usage GRALLOC_USAGE_HW_CAMERA_READ \<longleftrightarrow>
     usage AND GRALLOC_USAGE_HW_CAMERA_READ = GRALLOC_USAGE_HW_CAMERA_READ"
  "test_flag usage MALI_GRALLOC_USAGE_NO_AFBC \<longleftrightarrow>
     usage AND MALI_GRALLOC_USAGE_NO_AFBC = MALI_GRALLOC_USAGE_NO_AFBC"
  using one_bit_test [of 16 usage] one_bit_test [of 17 usage] one_bit_test [of 18 usage]
    one_bit_test [of 29 usage] by (simp_all add: usage_values)

text \<open>The branch of \<open>rk_fb_target\<close> that keeps RGBA_8888 uncompressed is never taken.\<close>

lemma rk_fb_target_cases:
  assumes "rk_fb_target P H usage i st = Inr (f, m, st')"
  obtains "f = i" "m = 0" "st' = st"
    "is_no_afbc_for_fb_target_layer_required_via_prop P st \<or> fb_target_not_afbc H usage i"
  | p where "f = fmt_value H FMT_RGBA_8888" "test_flag m MALI_GRALLOC_INTFMT_AFBC_BASIC"
    "m AND MALI_GRALLOC_INTFMT_FMT_MASK = 0" "\<not> fb_target_not_afbc H usage i"
    "get_rk_board_platform P st = Inr (p, st')"
proof -
  have b: "test_flag MALI_GRALLOC_INTFMT_AFBC_BASIC MALI_GRALLOC_INTFMT_AFBC_BASIC"
    "test_flag (MALI_GRALLOC_INTFMT_AFBC_BASIC OR MALI_GRALLOC_INTFMT_AFBC_YUV_TRANSFORM)
       MALI_GRALLOC_INTFMT_AFBC_BASIC"
    by (simp_all add: test_flag_def intfmt_values)
  consider "is_no_afbc_for_fb_target_layer_required_via_prop P st \<or> fb_target_not_afbc H usage i"
    | p st1 where "\<not> is_no_afbc_for_fb_target_layer_required_via_prop P st"
      "\<not> fb_target_not_afbc H usage i" "get_rk_board_platform P st = Inr (p, st1)"
    using assms by (auto simp: rk_fb_target_def split: if_splits)
  then show ?thesis
  proof cases
    case 1
    then show ?thesis
      using assms that(1) by (auto simp: rk_fb_target_def split: if_splits)
  next
    case 2
    then have "usage AND MALI_GRALLOC_USAGE_NO_AFBC = 0"
      by (simp add: fb_target_not_afbc_def test_flag_def flip: single_bit_usages)
    then have "f = fmt_value H FMT_RGBA_8888 \<and> test_flag m MALI_GRALLOC_INTFMT_AFBC_BASIC \<and>
        m AND MALI_GRALLOC_INTFMT_FMT_MASK = 0 \<and> st' = st1"
      using 2 assms b by (cases p) (auto simp: rk_fb_target_def intfmt_values)
    then show ?thesis
      using 2 that(2) by blast
  qed
qed

lemma rk_client_layer_cases:
  assumes "rk_client_layer P H usage sz i st = Inr (m, st')"
  obtains "m = 0" | "m = MALI_GRALLOC_INTFMT_AFBC_BASIC" "client_usage_allows_afbc usage"
    "client_format_allows_afbc H i" "usage AND MALI_GRALLOC_USAGE_NO_AFBC = 0"
    "s_platform st' = RK356X \<or> s_platform st' = RK3588"
  using assms
  by (auto simp: rk_client_layer_def should_sf_client_layer_use_afbc_format_by_size_def get_fb_size_def
      Let_def dest!: platform_known split: if_splits prod.splits)

section \<open>What is never compressed\<close>

definition afbc_excluded :: "u64 \<Rightarrow> bool" where
  "afbc_excluded usage \<longleftrightarrow>
     test_flag usage (GRALLOC_USAGE_SW_READ_MASK OR GRALLOC_USAGE_SW_WRITE_MASK) \<or>
     test_flag usage GRALLOC_USAGE_HW_VIDEO_ENCODER \<or>
     test_flag usage GRALLOC_USAGE_HW_CAMERA_WRITE \<or> test_flag usage GRALLOC_USAGE_HW_CAMERA_READ \<or>
     test_flag usage MALI_GRALLOC_USAGE_NO_AFBC"


text \<open>For a request that is not itself a private AFBC format, AFBC is selected for framebuffer
  targets only as RGBA_8888, whatever format was requested, and for other layers only on RK356X
  and RK3588, with the requested base format.\<close>

theorem rk_afbc_base_format:
  assumes "rk_gralloc_select_format P H req usage sz st = Inr (f, st')" and "is_afbc f"
    and "\<not> test_flag (rk_internal_format H req usage) MALI_GRALLOC_INTFMT_AFBC_BASIC"
    and "hal_documented H"
  shows "if usage AND GRALLOC_USAGE_HW_FB = GRALLOC_USAGE_HW_FB
    then get_base f = fmt_value H FMT_RGBA_8888
    else get_base f = mali_gralloc_format_get_base (rk_internal_format H req usage) \<and>
      s_platform st' \<in> {RK356X, RK3588} \<and> client_format_allows_afbc H (rk_internal_format H req usage)"
proof -
  have base: "get_base (from_private (i OR m)) = mali_gralloc_format_get_base i"
    if "m AND MALI_GRALLOC_INTFMT_FMT_MASK = 0" for i m
  proof -
    have "(i OR m) AND MALI_GRALLOC_INTFMT_FMT_MASK = i AND MALI_GRALLOC_INTFMT_FMT_MASK"
      using that by (simp add: bit.conj_disj_distrib2)
    then show ?thesis
      unfolding from_private_def make_internal_format_def get_base_def mali_gralloc_format_get_base_def
      by (simp only: sentinel_cleared) (simp add: and.assoc)
  qed
  let ?i = "rk_internal_format H req usage"
  show ?thesis
  proof (cases "usage AND GRALLOC_USAGE_HW_FB = GRALLOC_USAGE_HW_FB")
    case True
    then obtain i m st1 where fb: "rk_fb_target P H usage ?i st = Inr (i, m, st1)"
      and f: "f = from_private (i OR m)"
      using assms(1) by (auto simp: rk_gralloc_select_format_def Let_def)
    from fb show ?thesis
    proof (cases rule: rk_fb_target_cases)
      case 1
      then show ?thesis
        using assms(2,3) f afbc_of_packed [of ?i 0] by simp
    next
      case (2 p)
      then show ?thesis
        using True f base [of m i] fmt_value_masked [OF assms(4)]
        by (simp add: mali_gralloc_format_get_base_def intfmt_values)
    qed
  next
    case False
    then obtain m st1 where cl: "rk_client_layer P H usage sz ?i st = Inr (m, st1)"
      and f: "f = from_private (?i OR m)" "st' = st1"
      using assms(1) by (auto simp: rk_gralloc_select_format_def Let_def)
    from cl show ?thesis
    proof (cases rule: rk_client_layer_cases)
      case 1
      then show ?thesis
        using assms(2,3) f afbc_of_packed [of ?i 0] by simp
    next
      case 2
      then show ?thesis
        using False f base [of m ?i] by (simp add: intfmt_values)
    qed
  qed
qed

section \<open>The cached values over time\<close>

text \<open>
  What may happen in a process: a selection, a reading of platform or framebuffer size, and any
  change of the properties by the rest of the system.
\<close>

inductive rk_step :: "'p property_service \<Rightarrow> hal_env \<Rightarrow> 'p rk_state \<Rightarrow> 'p rk_state \<Rightarrow> bool"
  for P H where
  rk_select: "rk_gralloc_select_format P H req usage sz st = Inr (f, st') \<Longrightarrow> rk_step P H st st'"
| rk_platform: "get_rk_board_platform P st = Inr (p, st') \<Longrightarrow> rk_step P H st st'"
| rk_fb: "get_fb_size P st = (v, st') \<Longrightarrow> rk_step P H st st'"
| rk_property: "rk_step P H st (st\<lparr>rk_props := props\<rparr>)"

inductive rk_run :: "'p property_service \<Rightarrow> hal_env \<Rightarrow> 'p rk_state \<Rightarrow> 'p rk_state \<Rightarrow> bool"
  for P H where
  rk_refl: "rk_run P H st st"
| rk_trans: "rk_run P H st st1 \<Longrightarrow> rk_step P H st1 st2 \<Longrightarrow> rk_run P H st st2"

definition cached :: "'p rk_state \<Rightarrow> 'p rk_state \<Rightarrow> bool" where
  "cached st st' \<longleftrightarrow>
     (s_platform st \<noteq> RK_BOARD_PLATFORM_UNKNOWN \<longrightarrow> s_platform st' = s_platform st) \<and>
     (s_fb_size st \<noteq> 0 \<longrightarrow> s_fb_size st' = s_fb_size st)"

lemma cached_trans: "cached a b \<Longrightarrow> cached b c \<Longrightarrow> cached a c"
  by (auto simp: cached_def)

lemma cached_platform: "get_rk_board_platform P st = Inr (p, st') \<Longrightarrow> cached st st'"
  by (auto simp: cached_def dest: platform_known)

lemma cached_fb: "get_fb_size P st = (v, st') \<Longrightarrow> cached st st'"
  "cached st (save_fb_size P v st)"
  by (auto simp: cached_def get_fb_size_def save_fb_size_def Let_def split: if_splits)

lemma cached_fb_target: "rk_fb_target P H usage i st = Inr (f, m, st') \<Longrightarrow> cached st st'"
  by (erule rk_fb_target_cases) (auto simp: cached_def dest: platform_known)

lemma cached_client: 
  assumes "rk_client_layer P H usage sz i st = Inr (m, st')"
  shows "cached st st'"
proof -
  have by_size: "should_sf_client_layer_use_afbc_format_by_size P H b sz s = (u, s') \<Longrightarrow> cached s s'" for b s u s'
    by (auto simp: should_sf_client_layer_use_afbc_format_by_size_def split: prod.splits if_splits
        dest: cached_fb(1))
  have "cached st st"
    by (simp add: cached_def)
  then show ?thesis
    using assms by (auto simp: rk_client_layer_def split: if_splits prod.splits
        dest!: cached_platform by_size intro: cached_trans)
qed

lemma rk_step_cached: "rk_step P H st st' \<Longrightarrow> cached st st'"
proof (induction rule: rk_step.cases)
  case (rk_select req usage sz st f st')
  then show ?case
    by (auto simp: rk_gralloc_select_format_def Let_def split: if_splits
        dest!: cached_fb_target cached_client intro: cached_trans cached_fb(2))
qed (auto dest: cached_platform cached_fb(1) simp: cached_def)

text \<open>Once a process has read the board platform or knows the framebuffer size, neither changes any
  more, whatever it selects afterwards and whatever happens to the properties.\<close>

theorem rk_cache_stable:
  assumes "rk_run P H st st'"
  shows "(s_platform st \<noteq> RK_BOARD_PLATFORM_UNKNOWN \<longrightarrow> s_platform st' = s_platform st) \<and>
    (s_fb_size st \<noteq> 0 \<longrightarrow> s_fb_size st' = s_fb_size st)"
proof -
  have "cached st st'"
    using assms
    by (induction rule: rk_run.induct) (auto simp: cached_def dest: rk_step_cached intro: cached_trans)
  then show ?thesis
    by (simp add: cached_def)
qed

text \<open>The documented behaviour of the property service that sharing the size needs.\<close>

definition property_remembered :: "'p property_service \<Rightarrow> bool" where
  "property_remembered P \<longleftrightarrow> (\<forall>s k v d. v \<noteq> [] \<longrightarrow> ps_get P (ps_set P s k v) k d = v)"

text \<open>The framebuffer size is shared through its property. If no process knew it, the size that one
  process saves is what every other process, whose own copy is still 0, reads afterwards; and a
  second save changes nothing.\<close>

theorem fb_size_shared:
  assumes "property_remembered P" and "fst (get_fb_size P st) = 0" and "v \<noteq> 0"
  shows "fst (get_fb_size P (other\<lparr>s_fb_size := 0, rk_props := rk_props (save_fb_size P v st)\<rparr>)) = v \<and>
    save_fb_size P w (save_fb_size P v st) = save_fb_size P v st"
proof -
  have written: "show_int v \<noteq> []"
    using show_nat_nonempty [of "nat (sint v)"] by (auto simp: show_int_def)
  have saved: "s_fb_size (save_fb_size P v st) = v"
    "rk_props (save_fb_size P v st) = ps_set P (rk_props st) PROP_NAME_OF_FB_SIZE (show_int v)"
    using assms(2) by (auto simp: save_fb_size_def get_fb_size_def Let_def split: if_splits)
  have "ps_get P (rk_props (save_fb_size P v st)) PROP_NAME_OF_FB_SIZE ''0'' = show_int v"
    using assms(1) written by (simp add: property_remembered_def saved(2))
  then have "fst (get_fb_size P (other\<lparr>s_fb_size := 0, rk_props := rk_props (save_fb_size P v st)\<rparr>)) = v"
    by (simp add: get_fb_size_def Let_def atoi_show_int)
  moreover have "save_fb_size P w (save_fb_size P v st) = save_fb_size P v st"
    using saved(1) assms(3) by (simp add: save_fb_size_def [of P w] get_fb_size_def)
  ultimately show ?thesis ..
qed

text \<open>A property service kept as a map, to evaluate examples.\<close>

definition map_properties :: "(string \<rightharpoonup> string) property_service" where
  "map_properties =
     \<lparr>ps_get = (\<lambda>s k d. case s k of None \<Rightarrow> d | Some v \<Rightarrow> if v = [] then d else v),
      ps_set = (\<lambda>s k v. s(k \<mapsto> v))\<rparr>"

definition rk_fresh :: "(string \<rightharpoonup> string) rk_state" where
  "rk_fresh = \<lparr>s_platform = RK_BOARD_PLATFORM_UNKNOWN, s_fb_size = 0,
     rk_props = [''ro.board.platform'' \<mapsto> ''rk3588'']\<rparr>"

theorem fb_size_shared_witness:
  "fst (get_fb_size map_properties (rk_fresh\<lparr>rk_props := rk_props (save_fb_size map_properties 2073600 rk_fresh)\<rparr>)) =
     2073600"
proof -
  have "property_remembered map_properties"
    by (simp add: property_remembered_def map_properties_def)
  moreover have "fst (get_fb_size map_properties rk_fresh) = 0"
    by (simp add: get_fb_size_def map_properties_def rk_fresh_def PROP_NAME_OF_FB_SIZE_def atoi_def
        is_c_space_def digit_value_def)
  ultimately show ?thesis
    using fb_size_shared [of map_properties rk_fresh 2073600 rk_fresh]
    by (simp add: rk_fresh_def)
qed

theorem rk_cache_stable_witness:
  "s_platform (rk_fresh\<lparr>s_platform := RK3588, rk_props := Map.empty\<rparr>) = RK3588"
proof -
  have "rk_run map_properties hal_sample (rk_fresh\<lparr>s_platform := RK3588\<rparr>)
      (rk_fresh\<lparr>s_platform := RK3588, rk_props := Map.empty\<rparr>)"
    using rk_trans [OF rk_refl rk_property] by fastforce
  then show ?thesis
    using rk_cache_stable by fastforce
qed

lemma rk_fresh_no_props:
  "\<not> is_no_afbc_for_sf_client_layer_required_via_prop map_properties rk_fresh"
  "\<not> is_no_afbc_for_fb_target_layer_required_via_prop map_properties rk_fresh"
  by (simp_all add: is_no_afbc_for_sf_client_layer_required_via_prop_def
      is_no_afbc_for_fb_target_layer_required_via_prop_def map_properties_def rk_fresh_def)

lemma rk_fresh_platform:
  "get_rk_board_platform map_properties rk_fresh = Inr (RK3588, rk_fresh\<lparr>s_platform := RK3588\<rparr>)"
  by (simp add: get_rk_board_platform_def map_properties_def rk_fresh_def)


theorem rk_afbc_base_format_witness:
  "\<exists>f st'. rk_gralloc_select_format map_properties hal_sample 4 GRALLOC_USAGE_HW_FB 2073600 rk_fresh =
     Inr (f, st') \<and> get_base f = fmt_value hal_sample FMT_RGBA_8888"
proof -
  let ?i = "rk_internal_format hal_sample 4 GRALLOC_USAGE_HW_FB"
  have "get_internal_format hal_sample 4 = 4"
    by (simp add: get_internal_format_def hal_to_internal_format_def fmt_value_def
        get_format_info_None_iff table_formats_def)
  then have i: "?i = 4"
    by (simp add: rk_internal_format_def rk_map_req_format_def is_rk_ext_hal_format_def fmt_value_def)
  have "\<not> fb_target_not_afbc hal_sample GRALLOC_USAGE_HW_FB 4"
    "GRALLOC_USAGE_HW_FB AND MALI_GRALLOC_USAGE_NO_AFBC = 0"
    by (simp_all add: fb_target_not_afbc_def usage_values fmt_value_def)
  then obtain st' where
    s: "rk_gralloc_select_format map_properties hal_sample 4 GRALLOC_USAGE_HW_FB 2073600 rk_fresh =
      Inr (from_private (fmt_value hal_sample FMT_RGBA_8888 OR MALI_GRALLOC_INTFMT_AFBC_BASIC), st')"
    by (simp add: rk_gralloc_select_format_def rk_fb_target_def rk_fresh_no_props rk_fresh_platform i)
  moreover have "is_afbc (from_private (fmt_value hal_sample FMT_RGBA_8888 OR MALI_GRALLOC_INTFMT_AFBC_BASIC))"
    by (simp add: afbc_of_packed test_flag_def intfmt_values)
  moreover have "\<not> test_flag ?i MALI_GRALLOC_INTFMT_AFBC_BASIC"
    unfolding i by (simp add: test_flag_def intfmt_values)
  ultimately show ?thesis
    using rk_afbc_base_format [OF s _ _ hal_documented_sample] by auto
qed

end
