(* ===== verification/Alloc_Size.thy ===== *)
theory Alloc_Size
  imports Alloc_Type
begin

text \<open>
  \<open>calc_allocation_size\<close> of src/src/core/buffer_allocation.cpp: per plane, the pixel
  dimensions, the byte stride of each layout, the body and header sizes, the offset and the
  running total. One definition per block of the loop body, composed as the loop composes them.
  \<open>nd\<close> says whether asserts are compiled out.
\<close>

section \<open>Plane layouts (buffer.h)\<close>

record plane_info_t =
  plane_offset :: u32
  byte_stride :: u32
  alloc_width :: u32
  alloc_height :: u32

type_synonym plane_layout = "plane_info_t list"

definition max_planes :: nat where "max_planes = 3"

definition no_plane :: plane_info_t where
  "no_plane = \<lparr>plane_offset = 0, byte_stride = 0, alloc_width = 0, alloc_height = 0\<rparr>"

definition no_layout :: plane_layout where
  "no_layout = replicate max_planes no_plane"

section \<open>Byte stride of the compressed and block-linear layouts\<close>

definition coding_unit_bytes :: "alloc_type_t \<Rightarrow> nat \<Rightarrow> u32" where
  "coding_unit_bytes a plane =
     (if plane = 0 then rgba_luma_coding_unit_bytes (at_afrc a)
      else chroma_coding_unit_bytes (at_afrc a))"

definition plane_alignment :: "alloc_type_t \<Rightarrow> nat \<Rightarrow> u32" where
  "plane_alignment a plane =
     (if plane = 0 then rgba_luma_plane_alignment (at_afrc a)
      else chroma_plane_alignment (at_afrc a))"

text \<open>The division is listed before the assertion on its remainder: both divide by \<open>sh\<close>.\<close>

definition afrc_byte_stride :: "bool \<Rightarrow> alloc_type_t \<Rightarrow> nat \<Rightarrow> u32 \<Rightarrow> u32 res" where
  "afrc_byte_stride nd a plane aw =
     bind_res (c_div aw (clump_width (at_afrc a) ! plane)) (\<lambda>clumps.
     bind_res (c_div clumps (paging_tile_width (at_afrc a))) (\<lambda>paging_tile_stride.
       let ptbs = paging_tile_stride * 64 * coding_unit_bytes a plane;
           sh = paging_tile_height (at_afrc a) * clump_height (at_afrc a) ! plane
       in bind_res (c_div ptbs sh) (\<lambda>stride.
          bind_res (c_assert nd (ptbs mod sh = 0)) (\<lambda>_. Inr stride))))"

definition packed_byte_stride :: "bool \<Rightarrow> u32 \<Rightarrow> nat \<Rightarrow> u32 res" where
  "packed_byte_stride nd aw bits =
     bind_res (c_assert nd ((aw * of_nat bits) mod 8 = 0)) (\<lambda>_. Inr ((aw * of_nat bits) div 8))"

definition block_linear_byte_stride ::
  "bool \<Rightarrow> format_info_t \<Rightarrow> nat \<Rightarrow> u32 \<Rightarrow> u32 \<Rightarrow> u32 res" where
  "block_linear_byte_stride nd info plane aw aw0 =
     bind_res (c_assert nd ((aw * of_nat (bpp info ! plane)) mod 8 = 0)) (\<lambda>_.
     bind_res (if 0 < plane then c_div 16 (of_nat (vsub info)) else Inr 16) (\<lambda>sample_height.
     bind_res (if 0 < plane then c_div 16 (of_nat (hsub info)) else Inr 16) (\<lambda>sample_width.
       let bytes_per_block = sample_height * sample_width * of_nat (bpp info ! plane) div 8;
           number_of_x_blocks = aw0 div 16;
           block_stride = number_of_x_blocks * bytes_per_block
       in bind_res (c_div block_stride sample_height) (\<lambda>stride.
          bind_res (c_assert nd (bytes_per_block mod sample_height = 0)) (\<lambda>_.
          bind_res (c_assert nd (0 < number_of_x_blocks)) (\<lambda>_. Inr stride))))))"

section \<open>Byte stride of uncompressed layouts\<close>

definition linear_hw_align :: "hal_env \<Rightarrow> format_info_t \<Rightarrow> u64 \<Rightarrow> bool \<Rightarrow> u64 \<Rightarrow> u32" where
  "linear_hw_align H info usage stride_specified flag =
     (if \<not> has_hw_usage usage then 0
      else if is_base_format_used_by_rk_video H (fi_id info) \<and> (stride_specified \<or> flag \<noteq> 0) then 1
      else if is_yuv info then 128 else 64)"

definition linear_cpu_align :: "bool \<Rightarrow> hal_env \<Rightarrow> format_info_t \<Rightarrow> nat \<Rightarrow> u64 \<Rightarrow> u32 res" where
  "linear_cpu_align nd H info plane usage =
     (if has_cpu_usage usage \<and> fi_id info \<noteq> fmt_value H FMT_BGR_888 then
        bind_res (c_assert nd ((bpp info ! plane * align_w_cpu info) mod 8 = 0))
          (\<lambda>_. Inr (of_nat (bpp info ! plane * align_w_cpu info div 8)))
      else Inr 0)"

definition align_stride :: "format_info_t \<Rightarrow> u32 \<Rightarrow> u32 \<Rightarrow> u32 res" where
  "align_stride info stride_align bs =
     (if stride_align \<noteq> 0
      then c_div (GRALLOC_ALIGN (bs * of_nat (tile_size info)) stride_align) (of_nat (tile_size info))
      else Inr bs)"

text \<open>The pixel stride that a Rockchip client asks of an NV12 buffer (\<open>width\<close> is an \<open>int\<close>).\<close>

definition rk_pixel_stride :: "i32 \<Rightarrow> u64 \<Rightarrow> u32" where
  "rk_pixel_stride w flag =
     (if flag = RK_GRALLOC_USAGE_STRIDE_ALIGN_16 then GRALLOC_ALIGN_int w 16
      else if flag = RK_GRALLOC_USAGE_STRIDE_ALIGN_64 then GRALLOC_ALIGN_int w 64
      else if flag = RK_GRALLOC_USAGE_STRIDE_ALIGN_128 then GRALLOC_ALIGN_int w 128
      else if flag = RK_GRALLOC_USAGE_STRIDE_ALIGN_256_ODD_TIMES then
        ((w + 255) AND NOT 255) OR 256
      else 0)"

definition nv12_byte_stride :: "format_info_t \<Rightarrow> nat \<Rightarrow> i32 \<Rightarrow> u64 \<Rightarrow> u32 res" where
  "nv12_byte_stride info plane w flag =
     (let bs = rk_pixel_stride w flag * of_nat (bpp info ! plane) div 8
      in if plane = 0 then Inr bs else c_div bs (of_nat (hsub info)))"

definition update_yv12_stride :: "bool \<Rightarrow> nat \<Rightarrow> u32 \<Rightarrow> u32 \<Rightarrow> u32 res" where
  "update_yv12_stride nd plane luma_stride stride_align =
     (if plane = 0 then
        (if 2 * stride_align = 0 then Inl Division_by_zero
         else Inr (GRALLOC_ALIGN luma_stride (2 * stride_align)))
      else
        let bs = luma_stride div 2
        in bind_res (if nd then Inr () else if stride_align = 0 then Inl Division_by_zero
                     else c_assert nd (bs = GRALLOC_ALIGN bs stride_align)) (\<lambda>_.
           bind_res (c_assert nd (bs AND 15 = 0)) (\<lambda>_. Inr bs)))"

text \<open>The same request for the other Rockchip formats adjusts the byte stride.\<close>

definition rk_byte_stride :: "u32 \<Rightarrow> u64 \<Rightarrow> u32" where
  "rk_byte_stride bs flag =
     (if flag = RK_GRALLOC_USAGE_STRIDE_ALIGN_16 then GRALLOC_ALIGN bs 16
      else if flag = RK_GRALLOC_USAGE_STRIDE_ALIGN_64 then GRALLOC_ALIGN bs 64
      else if flag = RK_GRALLOC_USAGE_STRIDE_ALIGN_128 then GRALLOC_ALIGN bs 128
      else if flag = RK_GRALLOC_USAGE_STRIDE_ALIGN_256_ODD_TIMES then
        ((bs + 255) AND NOT 255) OR 256
      else bs)"

text \<open>\<open>bs0\<close> is the stride of plane 0, already final when \<open>plane\<close> is a later one.\<close>

definition linear_byte_stride ::
  "bool \<Rightarrow> hal_env \<Rightarrow> format_info_t \<Rightarrow> u64 \<Rightarrow> bool \<Rightarrow> u64 \<Rightarrow> nat \<Rightarrow> i32 \<Rightarrow> u32 \<Rightarrow> u32 \<Rightarrow> u32 res" where
  "linear_byte_stride nd H info usage stride_specified flag plane w aw bs0 =
     bind_res (packed_byte_stride nd aw (bpp info ! plane)) (\<lambda>bs1.
     bind_res (linear_cpu_align nd H info plane usage) (\<lambda>cpu_align.
       let stride_align = lcm32 (linear_hw_align H info usage stride_specified flag) cpu_align
       in bind_res (align_stride info stride_align bs1) (\<lambda>bs2.
          bind_res (if flag \<noteq> 0 \<and> fi_id info = fmt_value H FMT_NV12
                    then nv12_byte_stride info plane w flag else Inr bs2) (\<lambda>bs3.
          bind_res (if fi_id info = fmt_value H FMT_YV12 \<and> has_hw_usage usage \<and> has_cpu_usage usage
                    then update_yv12_stride nd plane (if plane = 0 then bs3 else bs0) stride_align
                    else Inr bs3) (\<lambda>bs4.
            let bs5 = (if flag \<noteq> 0 \<and> fi_id info \<noteq> fmt_value H FMT_NV12
                       then rk_byte_stride bs4 flag else bs4);
                bs6 = (if fi_id info = fmt_value H FMT_NV30 then GRALLOC_ALIGN bs5 64 else bs5)
            in Inr bs6)))))"

definition plane_byte_stride ::
  "bool \<Rightarrow> hal_env \<Rightarrow> alloc_type_t \<Rightarrow> format_info_t \<Rightarrow> u64 \<Rightarrow> bool \<Rightarrow> u64 \<Rightarrow> nat \<Rightarrow> i32 \<Rightarrow>
   u32 \<Rightarrow> u32 \<Rightarrow> u32 \<Rightarrow> u32 res" where
  "plane_byte_stride nd H a info usage stride_specified flag plane w aw aw0 bs0 =
     (if at_is_afrc a then afrc_byte_stride nd a plane aw
      else if at_is_afbc a then packed_byte_stride nd aw (bpp_afbc info ! plane)
      else if at_is_block_linear a then block_linear_byte_stride nd info plane aw aw0
      else linear_byte_stride nd H info usage stride_specified flag plane w aw bs0)"

section \<open>Pixel stride, body and header sizes\<close>

definition calc_pixel_stride :: "bool \<Rightarrow> alloc_type_t \<Rightarrow> format_info_t \<Rightarrow> u64 \<Rightarrow> u32 \<Rightarrow> i32 res" where
  "calc_pixel_stride nd a info usage bs =
     (if \<not> at_is_afbc a \<and> \<not> at_is_afrc a \<and> \<not> at_is_block_linear a \<and> has_cpu_usage usage then
        bind_res (c_div (bs * 8) (of_nat (bpp info ! 0))) (\<lambda>ps.
        bind_res (c_assert nd ((bs * 8) mod of_nat (bpp info ! 0) = 0)) (\<lambda>_. Inr ps))
      else Inr 0)"

definition afbc_sb_bytes :: "format_info_t \<Rightarrow> alloc_type_t \<Rightarrow> nat \<Rightarrow> i32" where
  "afbc_sb_bytes info a plane =
     (let sb = get_afbc_sb_size a plane
      in GRALLOC_ALIGN_int
           (sdiv32 (of_nat (bpp_afbc info ! plane) * ucast (rect_width sb) * ucast (rect_height sb)) 8)
           128)"

definition sb_count :: "u32 \<Rightarrow> u32 \<Rightarrow> u32" where
  "sb_count aw ah = (aw * ah) div AFBC_PIXELS_PER_BLOCK"

definition afbc_body_size :: "format_info_t \<Rightarrow> alloc_type_t \<Rightarrow> nat \<Rightarrow> u32 \<Rightarrow> i32" where
  "afbc_body_size info a plane sb_num =
     (let b1 = sb_num * afbc_sb_bytes info a plane;
          b2 = (if 1 < npln info \<and> plane < 2 then afbc_buffer_align (is_tiled a) b1 else b1)
      in if is_frontbuffer_safe a then b2 + afbc_buffer_align (is_tiled a) b2 else b2)"

definition afrc_body_size :: "alloc_type_t \<Rightarrow> nat \<Rightarrow> u32 \<Rightarrow> u32 \<Rightarrow> i32 res" where
  "afrc_body_size a plane aw ah =
     bind_res (c_div aw (clump_width (at_afrc a) ! plane)) (\<lambda>s_coding_units.
     bind_res (c_div ah (clump_height (at_afrc a) ! plane)) (\<lambda>t_coding_units.
     Inr (s_coding_units * t_coding_units * coding_unit_bytes a plane)))"

definition block_linear_body_size :: "format_info_t \<Rightarrow> nat \<Rightarrow> u32 \<Rightarrow> u32 \<Rightarrow> i32 res" where
  "block_linear_body_size info plane bs ah0 =
     bind_res (if 0 < plane then c_div 16 (of_nat (vsub info)) else Inr 16) (\<lambda>block_height.
     Inr (bs * block_height * (ah0 div 16)))"

definition plane_body_size ::
  "alloc_type_t \<Rightarrow> format_info_t \<Rightarrow> nat \<Rightarrow> plane_info_t \<Rightarrow> u32 \<Rightarrow> i32 res" where
  "plane_body_size a info plane pl ah0 =
     (if at_is_afbc a then
        Inr (afbc_body_size info a plane (sb_count (alloc_width pl) (alloc_height pl)))
      else if at_is_afrc a then afrc_body_size a plane (alloc_width pl) (alloc_height pl)
      else if at_is_block_linear a then block_linear_body_size info plane (byte_stride pl) ah0
      else Inr (byte_stride pl * alloc_height pl))"

definition plane_header_size :: "alloc_type_t \<Rightarrow> u32 \<Rightarrow> i32" where
  "plane_header_size a sb_num =
     (if at_is_afbc a
      then afbc_buffer_align (is_tiled a) (sb_num * AFBC_HEADER_BUFFER_BYTES_PER_BLOCKENTRY)
      else 0)"

text \<open>Only AFRC aligns the running total before a plane is placed.\<close>

definition plane_start :: "alloc_type_t \<Rightarrow> nat \<Rightarrow> u64 \<Rightarrow> u64 res" where
  "plane_start a plane sz =
     (if at_is_afrc a then
        (if plane_alignment a plane = 0 then Inl Division_by_zero
         else Inr (GRALLOC_ALIGN sz (ucast (plane_alignment a plane))))
      else Inr sz)"

section \<open>The loop over the planes\<close>

record alloc_state =
  as_layout :: plane_layout
  as_total :: u64
  as_pixel_stride :: i32

definition calc_plane ::
  "bool \<Rightarrow> hal_env \<Rightarrow> i32 \<Rightarrow> i32 \<Rightarrow> alloc_type_t \<Rightarrow> format_info_t \<Rightarrow> u64 \<Rightarrow> bool \<Rightarrow> u64 \<Rightarrow> nat \<Rightarrow>
   alloc_state \<Rightarrow> alloc_state res" where
  "calc_plane nd H w h a info usage stride_specified flag plane s =
     bind_res (get_pixel_w_h w h info a plane (has_cpu_usage usage)) (\<lambda>(aw, ah).
       let first = as_layout s ! 0;
           aw0 = (if plane = 0 then aw else alloc_width first);
           ah0 = (if plane = 0 then ah else alloc_height first)
       in bind_res (plane_byte_stride nd H a info usage stride_specified flag plane w aw aw0
                      (byte_stride first)) (\<lambda>bs.
          bind_res (if plane = 0 then calc_pixel_stride nd a info usage bs
                    else Inr (as_pixel_stride s)) (\<lambda>ps.
          bind_res (plane_start a plane (as_total s)) (\<lambda>start.
            let pl = \<lparr>plane_offset = (if 0 < plane then ucast start
                                       else plane_offset (as_layout s ! plane)),
                      byte_stride = bs, alloc_width = aw, alloc_height = ah\<rparr>
            in bind_res (plane_body_size a info plane pl ah0) (\<lambda>body.
                 Inr \<lparr>as_layout = (as_layout s)[plane := pl],
                      as_total = start + scast (body + plane_header_size a (sb_count aw ah)),
                      as_pixel_stride = ps\<rparr>)))))"

primrec calc_planes ::
  "bool \<Rightarrow> hal_env \<Rightarrow> i32 \<Rightarrow> i32 \<Rightarrow> alloc_type_t \<Rightarrow> format_info_t \<Rightarrow> u64 \<Rightarrow> bool \<Rightarrow> u64 \<Rightarrow> nat list \<Rightarrow>
   alloc_state \<Rightarrow> alloc_state res" where
  "calc_planes nd H w h a info usage stride_specified flag [] s = Inr s"
| "calc_planes nd H w h a info usage stride_specified flag (p # ps) s =
     bind_res (calc_plane nd H w h a info usage stride_specified flag p s)
       (calc_planes nd H w h a info usage stride_specified flag ps)"

definition calc_allocation_size ::
  "bool \<Rightarrow> hal_env \<Rightarrow> i32 \<Rightarrow> i32 \<Rightarrow> alloc_type_t \<Rightarrow> format_info_t \<Rightarrow> u64 \<Rightarrow> bool \<Rightarrow> u64 \<Rightarrow>
   plane_layout \<Rightarrow> i32 \<Rightarrow> alloc_state res" where
  "calc_allocation_size nd H w h a info usage stride_specified flag layout ps =
     calc_planes nd H w h a info usage stride_specified flag [0..<npln info]
       \<lparr>as_layout = layout[0 := (layout ! 0)\<lparr>plane_offset := 0\<rparr>], as_total = 0,
        as_pixel_stride = ps\<rparr>"

section \<open>Placement of the planes\<close>

text \<open>The bytes a plane takes: its body and, for AFBC, its header buffer.\<close>

definition plane_bytes :: "alloc_type_t \<Rightarrow> format_info_t \<Rightarrow> plane_layout \<Rightarrow> nat \<Rightarrow> nat" where
  "plane_bytes a info layout p =
     (case plane_body_size a info p (layout ! p) (alloc_height (layout ! 0)) of
        Inl _ \<Rightarrow> 0
      | Inr body \<Rightarrow>
          unat (body + plane_header_size a
                  (sb_count (alloc_width (layout ! p)) (alloc_height (layout ! p)))))"

text \<open>
  Planes \<open>0..<n\<close> follow one another without overlap and \<open>end_of\<close> is the end of the last one.
\<close>

definition planes_placed ::
  "alloc_type_t \<Rightarrow> format_info_t \<Rightarrow> plane_layout \<Rightarrow> nat \<Rightarrow> nat \<Rightarrow> bool" where
  "planes_placed a info layout n end_of \<longleftrightarrow>
     (\<forall>p < n. unat (plane_offset (layout ! p)) + plane_bytes a info layout p \<le>
        (if Suc p < n then unat (plane_offset (layout ! Suc p)) else end_of)) \<and>
     (0 < n \<longrightarrow> plane_offset (layout ! 0) = 0 \<and>
        unat (plane_offset (layout ! (n - 1))) + plane_bytes a info layout (n - 1) = end_of)"

lemma calc_planes_append:
  "calc_planes nd H w h a info usage sp flag (ps @ qs) s =
     bind_res (calc_planes nd H w h a info usage sp flag ps s)
       (calc_planes nd H w h a info usage sp flag qs)"
proof (induction ps arbitrary: s)
  case (Cons p ps)
  show ?case
    by (cases "calc_plane nd H w h a info usage sp flag p s") (simp_all add: Cons.IH)
qed simp

text \<open>What one iteration does to the state.\<close>

lemma calc_plane_Inr:
  assumes "calc_plane nd H w h a info usage sp flag p s = Inr s'"
  obtains pl start body where
    "get_pixel_w_h w h info a p (has_cpu_usage usage) = Inr (alloc_width pl, alloc_height pl)"
    "plane_byte_stride nd H a info usage sp flag p w (alloc_width pl)
       (if p = 0 then alloc_width pl else alloc_width (as_layout s ! 0))
       (byte_stride (as_layout s ! 0)) = Inr (byte_stride pl)"
    "plane_start a p (as_total s) = Inr start"
    "plane_body_size a info p pl (if p = 0 then alloc_height pl else alloc_height (as_layout s ! 0)) =
       Inr body"
    "plane_offset pl = (if 0 < p then ucast start else plane_offset (as_layout s ! p))"
    "as_layout s' = (as_layout s)[p := pl]"
    "as_total s' = start +
       scast (body + plane_header_size a (sb_count (alloc_width pl) (alloc_height pl)))"
proof -
  obtain aw ah bs ps start body where
    1: "get_pixel_w_h w h info a p (has_cpu_usage usage) = Inr (aw, ah)" and
    2: "plane_byte_stride nd H a info usage sp flag p w aw
       (if p = 0 then aw else alloc_width (as_layout s ! 0)) (byte_stride (as_layout s ! 0)) = Inr bs" and
    3: "plane_start a p (as_total s) = Inr start" and
    4: "plane_body_size a info p \<lparr>plane_offset = (if 0 < p then ucast start
                else plane_offset (as_layout s ! p)),
              byte_stride = bs, alloc_width = aw, alloc_height = ah\<rparr>
         (if p = 0 then ah else alloc_height (as_layout s ! 0)) = Inr body" and
    5: "s' = \<lparr>as_layout = (as_layout s)[p := \<lparr>plane_offset = (if 0 < p then ucast start
                else plane_offset (as_layout s ! p)),
              byte_stride = bs, alloc_width = aw, alloc_height = ah\<rparr>],
          as_total = start + scast (body + plane_header_size a (sb_count aw ah)),
          as_pixel_stride = ps\<rparr>"
    using assms unfolding calc_plane_def Let_def by (auto split: prod.splits)
  let ?pl = "\<lparr>plane_offset = (if 0 < p then ucast start else plane_offset (as_layout s ! p)),
      byte_stride = bs, alloc_width = aw, alloc_height = ah\<rparr>"
  show ?thesis
    using that [of ?pl start body, unfolded plane_info_t.simps, OF 1 2 3 4] by (simp add: 5)
qed

lemma unat_ucast_up:
  fixes x :: "'a::len word"
  assumes "LENGTH('a) \<le> LENGTH('b::len)"
  shows "unat (ucast x :: 'b word) = unat x"
proof -
  have "unat x < 2 ^ LENGTH('b)"
    using unsigned_less [of x, where 'a = nat] assms
    by (meson less_le_trans one_le_numeral power_increasing)
  then show ?thesis
    by (simp add: unsigned_ucast_eq take_bit_nat_eq_self)
qed

lemma unat_scast_small:
  assumes "unat (b :: i32) < 2 ^ 31"
  shows "unat (scast b :: u64) = unat b"
proof -
  have "(scast b :: u64) = word_of_int (int (unat b))"
    using assms by (simp only: scast_eq sint_small)
  moreover have "unat b < 2 ^ 64"
    using assms by simp
  ultimately show ?thesis
    by (simp add: unat_ucast_up)
qed

lemma plane_start_bounds:
  assumes "plane_start a p t = Inr start" and "unat t < 2 ^ 40"
  shows "unat t \<le> unat start" and "unat start < unat t + 2 ^ 32" and "t = 0 \<Longrightarrow> unat start = 0"
proof -
  have "unat t \<le> unat start \<and> unat start < unat t + 2 ^ 32 \<and> (t = 0 \<longrightarrow> unat start = 0)"
  proof (cases "at_is_afrc a")
    case True
    define b :: u64 where "b = ucast (plane_alignment a p)"
    have nz: "plane_alignment a p \<noteq> 0" and start: "start = GRALLOC_ALIGN t b"
      using assms(1) True by (auto simp: plane_start_def b_def split: if_splits)
    have ub: "unat b = unat (plane_alignment a p)"
      unfolding b_def by (rule unat_ucast_up) simp
    have b: "0 < unat b" "unat b < 2 ^ 32" "b \<noteq> 0"
      using nz unsigned_less [of "plane_alignment a p", where 'a = nat] unat_gt_0 [of b]
      unfolding ub unat_gt_0 by simp_all
    have "unat start = align_up (unat t) (unat b)"
      unfolding start using b assms(2) by (intro unat_GRALLOC_ALIGN) simp_all
    then show ?thesis
      using align_up_ge [of "unat b" "unat t"] align_up_less [of "unat b" "unat t"] b
      by simp
  next
    case False
    then show ?thesis
      using assms(1) by (simp add: plane_start_def)
  qed
  then show "unat t \<le> unat start" and "unat start < unat t + 2 ^ 32" and
    "t = 0 \<Longrightarrow> unat start = 0"
    by simp_all
qed

lemma calc_planes_length:
  "calc_planes nd H w h a info usage sp flag ps s = Inr s' \<Longrightarrow>
     length (as_layout s') = length (as_layout s)"
proof (induction ps arbitrary: s)
  case (Cons p ps)
  then obtain s1 where s1: "calc_plane nd H w h a info usage sp flag p s = Inr s1"
    and rest: "calc_planes nd H w h a info usage sp flag ps s1 = Inr s'" by auto
  from s1 have "length (as_layout s1) = length (as_layout s)"
    by (elim calc_plane_Inr) simp
  with Cons.IH [OF rest] show ?case by simp
qed simp

lemma calc_planes_frame:
  "calc_planes nd H w h a info usage sp flag ps s = Inr s' \<Longrightarrow> q \<notin> set ps \<Longrightarrow>
     as_layout s' ! q = as_layout s ! q"
proof (induction ps arbitrary: s)
  case (Cons p ps)
  then obtain s1 where s1: "calc_plane nd H w h a info usage sp flag p s = Inr s1"
    and rest: "calc_planes nd H w h a info usage sp flag ps s1 = Inr s'" by auto
  from s1 Cons.prems(2) have "as_layout s1 ! q = as_layout s ! q"
    by (elim calc_plane_Inr) simp
  with Cons.IH [OF rest] Cons.prems(2) show ?case by simp
qed simp

lemma plane_bytes_update:
  "q \<noteq> p \<Longrightarrow> p \<noteq> 0 \<Longrightarrow> plane_bytes a info (layout[p := pl]) q = plane_bytes a info layout q"
  by (simp add: plane_bytes_def split: sum.splits)

lemma planes_placed_Suc:
  assumes "planes_placed a info layout n end_of"
    and n: "n < length layout"
    and pl: "unat (plane_offset pl) = start" "end_of \<le> start" "n = 0 \<Longrightarrow> plane_offset pl = 0"
    and bytes: "start + plane_bytes a info (layout[n := pl]) n = end_of'"
  shows "planes_placed a info (layout[n := pl]) (Suc n) end_of'"
proof (cases n)
  case 0
  then show ?thesis
    using pl bytes n by (simp add: planes_placed_def)
next
  case (Suc m)
  have old: "unat (plane_offset (layout ! p)) + plane_bytes a info layout p \<le>
        (if Suc p < n then unat (plane_offset (layout ! Suc p)) else end_of)" if "p < n" for p
    using assms(1) that by (simp add: planes_placed_def)
  show ?thesis
    unfolding planes_placed_def
  proof (intro conjI allI impI)
    fix p assume p: "p < Suc n"
    show "unat (plane_offset (layout[n := pl] ! p)) + plane_bytes a info (layout[n := pl]) p
        \<le> (if Suc p < Suc n then unat (plane_offset (layout[n := pl] ! Suc p)) else end_of')"
    proof (cases "p = n")
      case True
      with n bytes pl show ?thesis by simp
    next
      case False
      with p have "p < n" by simp
      then show ?thesis
        using old [of p] False n Suc pl by (auto simp: plane_bytes_update nth_list_update)
    qed
  qed (use assms Suc in \<open>auto simp: planes_placed_def\<close>)
qed

text \<open>One plane more: where it starts, and that the sums do not wrap.\<close>

lemma calc_plane_step:
  assumes step: "calc_plane nd H w h a info usage sp flag n s1 = Inr s" and len: "n < length (as_layout s1)" and "n < 8"
    and tot1: "unat (as_total s1) \<le> n * 2 ^ 33" and b31: "plane_bytes a info (as_layout s) n < 2 ^ 31"
  obtains pl and start :: u64 where "as_layout s = (as_layout s1)[n := pl]"
    and "plane_offset pl = (if 0 < n then ucast start else plane_offset (as_layout s1 ! n))"
    and "unat (as_total s1) \<le> unat start" "unat start < unat (as_total s1) + 2 ^ 32"
    and "as_total s1 = 0 \<Longrightarrow> n = 0 \<Longrightarrow> unat start = 0"
    and "unat (as_total s) = unat start + plane_bytes a info (as_layout s) n"
proof -
  obtain pl start body where
    start: "plane_start a n (as_total s1) = Inr start" and
    body: "plane_body_size a info n pl
        (if n = 0 then alloc_height pl else alloc_height (as_layout s1 ! 0)) = Inr body" and
    off: "plane_offset pl = (if 0 < n then ucast start else plane_offset (as_layout s1 ! n))" and
    lay: "as_layout s = (as_layout s1)[n := pl]" and
    tot: "as_total s = start +
       scast (body + plane_header_size a (sb_count (alloc_width pl) (alloc_height pl)))"
    by (rule calc_plane_Inr [OF step])
  have bytes: "plane_bytes a info (as_layout s) n =
      unat (body + plane_header_size a (sb_count (alloc_width pl) (alloc_height pl)))"
    using body len by (cases n) (simp_all add: plane_bytes_def lay)
  have "n * 2 ^ 33 < (2 ^ 40 :: nat)"
    using assms(3) by simp
  then have st: "unat (as_total s1) \<le> unat start" "unat start < unat (as_total s1) + 2 ^ 32"
    using plane_start_bounds [OF start] tot1 by linarith+
  have "unat start + plane_bytes a info (as_layout s) n < 2 ^ 64"
    using st tot1 b31 assms(3) by simp
  then have "unat (as_total s) = unat start + plane_bytes a info (as_layout s) n"
    using b31 unfolding tot bytes by (simp add: unat_add_lem [THEN iffD1] unat_scast_small)
  then show thesis
    using that [of pl start] lay off st plane_start_bounds(3) [OF start] by simp
qed

lemma calc_planes_placed_strong:
  assumes "calc_planes nd H w h a info usage sp flag [0..<n] s0 = Inr s"
    and "n \<le> length (as_layout s0)" "n \<le> 8" "as_total s0 = 0" "plane_offset (as_layout s0 ! 0) = 0"
    and "\<forall>p < n. plane_bytes a info (as_layout s) p < 2 ^ 31"
  shows "unat (as_total s) \<le> n * 2 ^ 33 \<and>
    (unat (as_total s) < 2 ^ 32 \<longrightarrow> planes_placed a info (as_layout s) n (unat (as_total s)))"
  using assms
proof (induction n arbitrary: s)
  case 0
  then show ?case by (simp add: planes_placed_def)
next
  case (Suc n)
  obtain s1 where s1: "calc_planes nd H w h a info usage sp flag [0..<n] s0 = Inr s1"
    and step: "calc_plane nd H w h a info usage sp flag n s1 = Inr s"
    using Suc.prems(1) by (auto simp: calc_planes_append)
  have len: "n < length (as_layout s1)"
    using calc_planes_length [OF s1] Suc.prems(2) by simp
  have n8: "n < 8" and b31: "plane_bytes a info (as_layout s) n < 2 ^ 31"
    using Suc.prems(3,6) by simp_all
  obtain pl' where lay': "as_layout s = (as_layout s1)[n := pl']"
    by (rule calc_plane_Inr [OF step])
  have "plane_bytes a info (as_layout s1) p = plane_bytes a info (as_layout s) p" if "p < n" for p
    using that by (simp add: lay' plane_bytes_update)
  then have IH: "unat (as_total s1) \<le> n * 2 ^ 33"
    "unat (as_total s1) < 2 ^ 32 \<Longrightarrow> planes_placed a info (as_layout s1) n (unat (as_total s1))"
    using Suc.IH [OF s1] Suc.prems by auto
  obtain pl and start :: u64 where lay: "as_layout s = (as_layout s1)[n := pl]"
    and off: "plane_offset pl = (if 0 < n then ucast start else plane_offset (as_layout s1 ! n))"
    and st: "unat (as_total s1) \<le> unat start" "unat start < unat (as_total s1) + 2 ^ 32"
    and zero: "as_total s1 = 0 \<Longrightarrow> n = 0 \<Longrightarrow> unat start = 0"
    and sum: "unat (as_total s) = unat start + plane_bytes a info (as_layout s) n"
    by (rule calc_plane_step [OF step len n8 IH(1) b31]) blast
  have "planes_placed a info (as_layout s) (Suc n) (unat (as_total s))" if small: "unat (as_total s) < 2 ^ 32"
  proof -
    have first: "plane_offset pl = 0 \<and> unat start = 0" if "n = 0"
      using s1 that Suc.prems(4,5) off zero by simp
    have "unat (plane_offset pl) = unat start"
      using first off small sum by (cases "n = 0") (simp_all add: unsigned_ucast_eq take_bit_nat_eq_self)
    then show ?thesis
      using planes_placed_Suc [OF IH(2) len _ st(1)] first sum small st unfolding lay by simp
  qed
  then show ?case
    using sum st IH(1) b31 by simp
qed

lemma calc_allocation_size_placed:
  assumes "calc_allocation_size nd H w h a info usage sp flag layout ps = Inr s"
    and "length layout = 3" and "1 \<le> npln info" "npln info \<le> 3"
    and "\<forall>p < npln info. plane_bytes a info (as_layout s) p < 2 ^ 31"
    and "unat (as_total s) < 2 ^ 32"
  shows "planes_placed a info (as_layout s) (npln info) (unat (as_total s))"
  using calc_planes_placed_strong [OF assms(1) [unfolded calc_allocation_size_def]] assms(2-) by simp

section \<open>Strides of uncompressed planes\<close>

text \<open>Numeric bounds of the rows, and the rows whose lines are whole bytes.\<close>

definition row_small :: "format_info_t \<Rightarrow> bool" where
  "row_small f \<longleftrightarrow>
     list_all (\<lambda>b. b \<le> 64) (bpp f) \<and> list_all (\<lambda>b. b \<le> 64) (bpp_afbc f) \<and>
     align_w_cpu f \<le> 16 \<and> tile_size f \<in> {1, 2} \<and> align_w f \<in> {1, 2, 4} \<and>
     (npln f = 2 \<or> npln f = 3 \<longrightarrow> bpp f ! 0 \<le> 16 \<and> bpp f ! 1 \<le> 32 \<and> bpp f ! 2 \<le> 8)"

definition whole_byte_lines :: "format_info_t \<Rightarrow> bool" where
  "whole_byte_lines f \<longleftrightarrow>
     list_all (\<lambda>b. 8 dvd b) (bpp f) \<or>
     (npln f = 1 \<and> 8 dvd bpp f ! 0 * align_w f \<and> align_w_cpu f = align_w f \<and> tile_size f = 1)"

lemma row_small_groups:
  "list_all row_small (formats_rgb H)" "list_all row_small (formats_yuv420 H)"
  "list_all row_small (formats_yuv422_444 H)" "list_all row_small (formats_yuv_10bit H)"
  "list_all row_small (formats_raw H)" "list_all row_small (formats_depth H)"
  by (simp_all add: formats_defs row_small_def)

lemma formats_row_small: "f \<in> set (formats H) \<Longrightarrow> row_small f"
  using row_small_groups [of H] by (auto simp: formats_def list_all_iff)

definition packed_10bit :: "hal_env \<Rightarrow> u32 \<Rightarrow> bool" where
  "packed_10bit H b \<longleftrightarrow> b = fmt_value H FMT_NV15 \<or> b = fmt_value H FMT_NV30"

lemma whole_byte_groups:
  "list_all (\<lambda>f. packed_10bit H (fi_id f) \<or> whole_byte_lines f) (formats_rgb H)"
  "list_all (\<lambda>f. packed_10bit H (fi_id f) \<or> whole_byte_lines f) (formats_yuv420 H)"
  "list_all (\<lambda>f. packed_10bit H (fi_id f) \<or> whole_byte_lines f) (formats_yuv422_444 H)"
  "list_all (\<lambda>f. packed_10bit H (fi_id f) \<or> whole_byte_lines f) (formats_yuv_10bit H)"
  "list_all (\<lambda>f. packed_10bit H (fi_id f) \<or> whole_byte_lines f) (formats_raw H)"
  "list_all (\<lambda>f. packed_10bit H (fi_id f) \<or> whole_byte_lines f) (formats_depth H)"
  by (simp_all add: formats_defs whole_byte_lines_def packed_10bit_def)

lemma formats_whole_bytes:
  "f \<in> set (formats H) \<Longrightarrow> \<not> packed_10bit H (fi_id f) \<Longrightarrow> whole_byte_lines f"
  using whole_byte_groups [of H] by (auto simp: formats_def list_all_iff)

lemma row_small_nth:
  assumes "row_small f" and "row_wf f" and "p < 3"
  shows "bpp f ! p \<le> 64" "bpp_afbc f ! p \<le> 64"
  using assms by (auto simp: row_small_def row_wf_def list_all_length)

lemma packed_byte_stride_eq:
  assumes "8 dvd unat aw * b" and "unat aw \<le> 2 ^ 15" "b \<le> 64"
  obtains bs where "packed_byte_stride nd aw b = Inr bs" and "unat bs = unat aw * b div 8"
proof -
  have "unat aw * b \<le> 2 ^ 15 * 64"
    using assms(2,3) by (intro mult_le_mono) simp_all
  then have m: "unat (aw * of_nat b) = unat aw * b"
    using assms(3) by (simp add: unat_word_ariths(2) unat_of_nat_small)
  then have "(aw * of_nat b) mod 8 = 0"
    using assms(1) by (simp add: word_unat_eq_iff unat_mod)
  then show ?thesis
    using that m by (simp add: packed_byte_stride_def unat_div)
qed

lemma linear_cpu_align_eq:
  assumes "row_small info" "row_wf info" "p < 3"
    and "has_cpu_usage usage \<Longrightarrow> nd \<or> 8 dvd bpp info ! p * align_w_cpu info"
  obtains c where "linear_cpu_align nd H info p usage = Inr c" and "unat c \<le> 128"
    and "has_cpu_usage usage \<Longrightarrow> fi_id info \<noteq> fmt_value H FMT_BGR_888 \<Longrightarrow>
      unat c = bpp info ! p * align_w_cpu info div 8"
proof (cases "has_cpu_usage usage \<and> fi_id info \<noteq> fmt_value H FMT_BGR_888")
  case True
  define k where "k = bpp info ! p * align_w_cpu info"
  have "k \<le> 64 * 16"
    unfolding k_def using row_small_nth [OF assms(1-3)] assms(1)
    by (intro mult_le_mono) (simp_all add: row_small_def)
  then have k: "k div 8 \<le> 128"
    by simp
  then have u: "unat (of_nat (k div 8) :: u32) = k div 8"
    by (intro unat_of_nat_small) simp
  have "nd \<or> k mod 8 = 0"
    using assms(4) True by (auto simp: k_def dvd_eq_mod_eq_0)
  then have "linear_cpu_align nd H info p usage = Inr (of_nat (k div 8))"
    using True by (auto simp: linear_cpu_align_def k_def)
  with k u show ?thesis
    by (intro that [of "of_nat (k div 8)"]) (simp_all only: k_def)
next
  case False
  then show ?thesis
    by (intro that [of 0]) (auto simp: linear_cpu_align_def)
qed

lemma lcm32_bounds:
  assumes "unat a \<le> 128" "unat b \<le> 128"
  shows "unat (lcm32 a b) \<le> 128 * 128"
    and "a \<noteq> 0 \<Longrightarrow> unat a dvd unat (lcm32 a b)" and "b \<noteq> 0 \<Longrightarrow> unat b dvd unat (lcm32 a b)"
    and "a \<noteq> 0 \<Longrightarrow> lcm32 a b \<noteq> 0"
proof -
  have le: "unat a * unat b \<le> 128 * 128"
    using assms by (rule mult_le_mono)
  have lcm: "unat (lcm32 a b) = lcm (unat a) (unat b)" if "a \<noteq> 0" "b \<noteq> 0"
    using that le by (intro unat_lcm32) simp_all
  have zero: "unat (lcm32 a b) = max (unat a) (unat b)" if "a = 0 \<or> b = 0"
    using that assms by (auto simp: lcm32_def unat_max2)
  show "unat (lcm32 a b) \<le> 128 * 128"
  proof (cases "a = 0 \<or> b = 0")
    case False
    then have "lcm (unat a) (unat b) \<le> unat a * unat b"
      by (intro dvd_imp_le) (auto simp: unat_gt_0)
    with False lcm le show ?thesis by simp
  qed (use zero assms in auto)
  show "a \<noteq> 0 \<Longrightarrow> unat a dvd unat (lcm32 a b)"
    using lcm zero by (cases "b = 0") auto
  show "b \<noteq> 0 \<Longrightarrow> unat b dvd unat (lcm32 a b)"
    using lcm zero by (cases "a = 0") auto
  show "lcm32 a b \<noteq> 0" if "a \<noteq> 0"
  proof -
    have "0 < unat (lcm32 a b)"
      using that lcm zero by (cases "b = 0") (auto simp: unat_gt_0 less_max_iff_disj intro!: lcm_pos_nat)
    then show ?thesis by (simp add: unat_gt_0)
  qed
qed

lemma align_stride_eq:
  assumes "tile_size info \<in> {1, 2}" and "unat bs \<le> 2 ^ 20" and "unat sa \<le> 2 ^ 14"
  obtains bs' where "align_stride info sa bs = Inr bs'" and "unat bs \<le> unat bs'"
    and "unat bs' < unat bs + 2 ^ 14 + 1"
    and "tile_size info = 1 \<and> sa \<noteq> 0 \<longrightarrow> unat bs' = align_up (unat bs) (unat sa)"
    and "sa = 0 \<longrightarrow> bs' = bs"
proof (cases "sa = 0")
  case True
  with that [of bs] show ?thesis by (simp add: align_stride_def)
next
  case False
  define t where "t = tile_size info"
  have t: "t \<in> {1, 2}" "unat (of_nat t :: u32) = t" "(of_nat t :: u32) \<noteq> 0"
    using assms(1) by (auto simp: t_def)
  have mult: "unat (bs * of_nat t) = unat bs * t"
    using t assms(2) by (auto simp: unat_word_ariths(2))
  have sa: "0 < unat sa"
    using False by (simp add: unat_gt_0)
  define r where "r = align_up (unat bs * t) (unat sa)"
  have r: "unat (GRALLOC_ALIGN (bs * of_nat t) sa) = r"
    unfolding r_def using False assms t mult
    by (subst unat_GRALLOC_ALIGN) auto
  have bounds: "unat bs * t \<le> r" "r < unat bs * t + 2 ^ 14"
    unfolding r_def using align_up_ge [OF sa, of "unat bs * t"]
      align_up_less [OF sa, of "unat bs * t"] assms(3) by linarith+
  show ?thesis
  proof (rule that)
    show "align_stride info sa bs = Inr (GRALLOC_ALIGN (bs * of_nat t) sa div of_nat t)"
      using False t(3) by (simp add: align_stride_def t_def)
    have "unat (GRALLOC_ALIGN (bs * of_nat t) sa div of_nat t) = r div t"
      using r t by (simp add: unat_div)
    moreover have "unat bs \<le> r div t" "r div t < unat bs + 2 ^ 14 + 1"
      using bounds t(1) by auto
    ultimately show "unat bs \<le> unat (GRALLOC_ALIGN (bs * of_nat t) sa div of_nat t)"
      "unat (GRALLOC_ALIGN (bs * of_nat t) sa div of_nat t) < unat bs + 2 ^ 14 + 1"
      by simp_all
  next
    show "tile_size info = 1 \<and> sa \<noteq> 0 \<longrightarrow>
        unat (GRALLOC_ALIGN (bs * of_nat t) sa div of_nat t) = align_up (unat bs) (unat sa)"
      using r by (auto simp: t_def r_def)
  qed (use False in simp)
qed

definition yv12_shared :: "hal_env \<Rightarrow> format_info_t \<Rightarrow> u64 \<Rightarrow> bool" where
  "yv12_shared H info usage \<longleftrightarrow>
     fi_id info = fmt_value H FMT_YV12 \<and> has_hw_usage usage \<and> has_cpu_usage usage"

lemma linear_hw_align_bounds: "unat (linear_hw_align H info usage sp flag) \<le> 128"
  by (simp add: linear_hw_align_def)

lemma nv30_step:
  assumes "unat bs \<le> 2 ^ 25"
  shows "unat bs \<le> unat (if c then GRALLOC_ALIGN bs (64 :: u32) else bs)"
    and "unat (if c then GRALLOC_ALIGN bs (64 :: u32) else bs) \<le> unat bs + 512"
    and "m \<in> {64, 128} \<Longrightarrow> m dvd unat bs \<Longrightarrow> m dvd unat (if c then GRALLOC_ALIGN bs (64 :: u32) else bs)"
proof -
  have e: "unat (GRALLOC_ALIGN bs (64 :: u32)) = align_up (unat bs) 64"
    "align_up (unat bs) 64 < unat bs + 512"
    using align_step [of 64 bs] assms by simp_all
  show "unat bs \<le> unat (if c then GRALLOC_ALIGN bs (64 :: u32) else bs)"
    "unat (if c then GRALLOC_ALIGN bs (64 :: u32) else bs) \<le> unat bs + 512"
    using e align_up_ge [of 64 "unat bs"] by auto
  assume m: "m \<in> {64, 128}" "m dvd unat bs"
  then have "64 dvd unat bs"
    using dvd_trans [of 64 128 "unat bs"] by auto
  then have "align_up (unat bs) 64 = unat bs"
    by (intro align_up_eq_self) simp_all
  then show "m dvd unat (if c then GRALLOC_ALIGN bs (64 :: u32) else bs)"
    using e(1) m(2) by simp
qed

text \<open>
  The steps of the byte stride of an uncompressed plane that is not YV12 shared with hardware: the packed line, the
  alignments, and the aligned stride.
\<close>

lemma linear_stride_steps:
  assumes row: "info \<in> set (formats H)" and p: "p < npln info"
    and aw: "unat aw \<le> 2 ^ 14" "8 dvd unat aw * bpp info ! p"
    and nd: "has_cpu_usage usage \<Longrightarrow> nd \<or> 8 dvd bpp info ! p * align_w_cpu info"
  obtains bs1 c bs2 where "packed_byte_stride nd aw (bpp info ! p) = Inr bs1" and "linear_cpu_align nd H info p usage = Inr c"
    and "align_stride info (lcm32 (linear_hw_align H info usage sp 0) c) bs1 = Inr bs2"
    and "8 * unat bs1 = unat aw * bpp info ! p" "unat bs1 \<le> 2 ^ 17"
    and "unat bs1 \<le> unat bs2" "unat bs2 < unat bs1 + 2 ^ 14 + 1"
    and "linear_hw_align H info usage sp 0 \<noteq> 0 \<and> tile_size info = 1 \<longrightarrow>
      unat (linear_hw_align H info usage sp 0) dvd unat bs2"
proof -
  note wf = formats_row_wf [OF row] and sm = formats_row_small [OF row]
  have p3: "p < 3"
    using p wf by (simp add: row_wf_def)
  note nth = row_small_nth [OF sm wf p3]
  have "unat aw \<le> 2 ^ 15"
    using aw(1) by simp
  then obtain bs1 where bs1: "packed_byte_stride nd aw (bpp info ! p) = Inr bs1" "unat bs1 = unat aw * bpp info ! p div 8"
    by (rule packed_byte_stride_eq [OF aw(2) _ nth(1)])
  have "unat aw * bpp info ! p \<le> 2 ^ 14 * 64"
    using aw(1) nth(1) by (rule mult_le_mono)
  then have bs1_le: "unat bs1 \<le> 2 ^ 17" "8 * unat bs1 = unat aw * bpp info ! p"
    using bs1(2) aw(2) by simp_all
  obtain c where c: "linear_cpu_align nd H info p usage = Inr c" "unat c \<le> 128"
    using linear_cpu_align_eq [OF sm wf p3 nd] by blast
  let ?hw = "linear_hw_align H info usage sp 0"
  have hw: "unat ?hw \<le> 128"
    by (simp add: linear_hw_align_bounds)
  note sa = lcm32_bounds [OF hw c(2)]
  have tile: "tile_size info \<in> {1, 2}"
    using sm by (simp only: row_small_def)
  have bounds: "unat bs1 \<le> 2 ^ 20" "unat (lcm32 ?hw c) \<le> 2 ^ 14"
    using bs1_le(1) sa(1) by simp_all
  obtain bs2 where bs2: "align_stride info (lcm32 ?hw c) bs1 = Inr bs2" "unat bs1 \<le> unat bs2"
    "unat bs2 < unat bs1 + 2 ^ 14 + 1"
    "tile_size info = 1 \<and> lcm32 ?hw c \<noteq> 0 \<longrightarrow> unat bs2 = align_up (unat bs1) (unat (lcm32 ?hw c))"
    by (rule align_stride_eq [OF tile bounds])
  have "unat ?hw dvd unat bs2" if "?hw \<noteq> 0" "tile_size info = 1"
  proof -
    have "unat bs2 = align_up (unat bs1) (unat (lcm32 ?hw c))"
      using bs2(4) sa(4) that by metis
    then show ?thesis
      using sa(2) that by (metis align_up_dvd dvd_trans)
  qed
  then show thesis
    using that [OF bs1(1) c(1) bs2(1) bs1_le(2,1) bs2(2,3)] by blast
qed

lemma linear_byte_stride_plain:
  assumes row: "info \<in> set (formats H)" and p: "p < npln info"
    and aw: "unat aw \<le> 2 ^ 14" "8 dvd unat aw * bpp info ! p"
    and nd: "has_cpu_usage usage \<Longrightarrow> nd \<or> 8 dvd bpp info ! p * align_w_cpu info"
    and "\<not> yv12_shared H info usage"
  obtains bs where "linear_byte_stride nd H info usage sp 0 p w aw bs0 = Inr bs"
    and "unat aw * bpp info ! p \<le> 8 * unat bs"
    and "8 * unat bs \<le> unat aw * bpp info ! p + 8 * (2 ^ 14 + 513)"
    and "linear_hw_align H info usage sp 0 \<noteq> 0 \<and> tile_size info = 1 \<longrightarrow>
      unat (linear_hw_align H info usage sp 0) dvd unat bs"
proof -
  let ?hw = "linear_hw_align H info usage sp 0"
  obtain bs1 c bs2 where run: "packed_byte_stride nd aw (bpp info ! p) = Inr bs1" "linear_cpu_align nd H info p usage = Inr c"
      "align_stride info (lcm32 ?hw c) bs1 = Inr bs2"
    and bs1: "8 * unat bs1 = unat aw * bpp info ! p" "unat bs1 \<le> 2 ^ 17"
    and bs2: "unat bs1 \<le> unat bs2" "unat bs2 < unat bs1 + 2 ^ 14 + 1"
    and dvd: "?hw \<noteq> 0 \<and> tile_size info = 1 \<longrightarrow> unat ?hw dvd unat bs2"
    by (rule linear_stride_steps [OF row p aw nd, where sp = sp])
  let ?c = "fi_id info = fmt_value H FMT_NV30"
  define bs where "bs = (if ?c then GRALLOC_ALIGN bs2 64 else bs2)"
  have "unat bs2 \<le> 2 ^ 25"
    using bs2(2) bs1(2) by simp
  note last = nv30_step [OF this, where c = ?c, folded bs_def]
  have no_yv12: "(fi_id info = fmt_value H FMT_YV12 \<and> has_hw_usage usage \<and> has_cpu_usage usage) = False"
    using assms(6) by (simp add: yv12_shared_def)
  show ?thesis
  proof (rule that [of bs])
    show "linear_byte_stride nd H info usage sp 0 p w aw bs0 = Inr bs"
      unfolding linear_byte_stride_def Let_def run(1,2) bind_res_simps run(3) no_yv12 by (simp add: bs_def)
    show "unat aw * bpp info ! p \<le> 8 * unat bs"
      using last(1) bs2(1) bs1(1) by linarith
    show "8 * unat bs \<le> unat aw * bpp info ! p + 8 * (2 ^ 14 + 513)"
      using last(2) bs2(2) bs1(1) by simp
    have "unat ?hw = 1 \<or> unat ?hw \<in> {64, 128}" if "?hw \<noteq> 0"
      using that by (auto simp: linear_hw_align_def split: if_splits)
    then show "?hw \<noteq> 0 \<and> tile_size info = 1 \<longrightarrow> unat ?hw dvd unat bs"
      using last(3) dvd by auto
  qed
qed

text \<open>YV12 shared between CPU and hardware: chroma lines are half luma lines and stay aligned.\<close>

lemma yv12_row:
  assumes "hal_documented H" and "info \<in> set (formats H)" and "fi_id info = fmt_value H FMT_YV12"
  shows "bpp info = [8, 8, 8]" "align_w_cpu info = 16" "npln info = 3" "is_yuv info"
    "tile_size info = 1" "hsub info = 2" "align_w info = 2"
  using assms(2,3) by (auto simp: formats_defs fmt_value_inj [OF assms(1)])

lemma lcm32_128_16: "lcm32 128 16 = 128"
  by (simp add: lcm32_def gcd32_def gcd_loop.simps)

lemma yv12_stride_align:
  assumes "hal_documented H" and "info \<in> set (formats H)" and "yv12_shared H info usage" and "p < 3"
  shows "linear_cpu_align nd H info p usage = Inr 16" and "linear_hw_align H info usage sp 0 = 128"
proof -
  have id: "fi_id info = fmt_value H FMT_YV12" and u: "has_hw_usage usage" "has_cpu_usage usage"
    using assms(3) by (simp_all add: yv12_shared_def)
  note r = yv12_row [OF assms(1,2) id]
  have "bpp info ! p = 8"
    using assms(4) by (auto simp: r less_Suc_eq numeral_3_eq_3)
  then show "linear_cpu_align nd H info p usage = Inr 16"
    using u by (simp add: linear_cpu_align_def r id fmt_value_inj [OF assms(1)])
  show "linear_hw_align H info usage sp 0 = 128"
    using u by (simp add: linear_hw_align_def r id is_base_format_used_by_rk_video_def
        fmt_value_inj [OF assms(1)])
qed

lemma dvd_256_halves: "256 dvd (n :: nat) \<Longrightarrow> 128 dvd n div 2 \<and> n div 2 * 2 = n"
  by (auto elim!: dvdE)

lemma update_yv12_chroma:
  assumes "256 dvd unat bs0" and "unat bs0 \<le> 2 ^ 18"
  shows "update_yv12_stride nd (Suc q) bs0 128 = Inr (bs0 div 2)"
proof -
  have u: "unat (bs0 div 2) = unat bs0 div 2"
    by (simp add: unat_div)
  have d: "128 dvd unat (bs0 div 2)"
    using dvd_256_halves [OF assms(1)] by (simp add: u)
  have "unat (GRALLOC_ALIGN (bs0 div 2) 128) = unat (bs0 div 2)"
    using d assms(2) by (subst unat_GRALLOC_ALIGN) (simp_all add: u)
  then have a: "bs0 div 2 = GRALLOC_ALIGN (bs0 div 2) 128"
    by (simp add: word_unat_eq_iff)
  have "16 dvd unat (bs0 div 2)"
    using d by (rule dvd_trans [rotated]) simp
  then have "unat (bs0 div 2) mod 2 ^ 4 = 0"
    by (simp add: dvd_eq_mod_eq_0)
  then have "unat (take_bit 4 (bs0 div 2)) = 0"
    by (simp only: unsigned_take_bit_eq) (simp only: take_bit_eq_mod)
  then have "bs0 div 2 AND mask 4 = 0"
    by (simp only: unat_eq_0 take_bit_eq_mask)
  then have m: "bs0 div 2 AND 15 = 0"
    by (simp add: mask_eq_exp_minus_1)
  show ?thesis
    using m by (simp add: update_yv12_stride_def Let_def a [symmetric])
qed

lemma linear_byte_stride_yv12:
  assumes H: "hal_documented H" and row: "info \<in> set (formats H)"
    and y: "yv12_shared H info usage" and aw: "unat aw \<le> 2 ^ 14" and p: "p < 3"
    and p1: "0 < p \<Longrightarrow> 256 dvd unat bs0 \<and> unat bs0 \<le> 2 ^ 18"
  obtains bs where "linear_byte_stride nd H info usage sp 0 p w aw bs0 = Inr bs"
    and "p = 0 \<longrightarrow> unat aw \<le> unat bs \<and> 256 dvd unat bs \<and> unat bs \<le> unat aw + 1024"
    and "0 < p \<longrightarrow> unat bs = unat bs0 div 2"
proof -
  have id: "fi_id info = fmt_value H FMT_YV12"
    and cond: "(fi_id info = fmt_value H FMT_YV12 \<and> has_hw_usage usage \<and> has_cpu_usage usage) = True"
    using y by (simp_all add: yv12_shared_def)
  note r = yv12_row [OF H row id] and sa = yv12_stride_align [OF H row y p]
  have b8: "bpp info ! p = 8"
    using p by (auto simp: r less_Suc_eq numeral_3_eq_3)
  have "8 dvd unat aw * 8" "unat aw \<le> 2 ^ 15" "(8 :: nat) \<le> 64"
    using aw by simp_all
  then obtain bs1 where bs1: "packed_byte_stride nd aw 8 = Inr bs1" "unat bs1 = unat aw * 8 div 8"
    by (rule packed_byte_stride_eq)
  have "unat bs1 \<le> 2 ^ 20" "unat (128 :: u32) \<le> 2 ^ 14" "tile_size info \<in> {1, 2}"
    using bs1(2) aw by (simp_all add: r)
  then obtain bs2 where bs2: "align_stride info 128 bs1 = Inr bs2"
      "tile_size info = 1 \<and> (128 :: u32) \<noteq> 0 \<longrightarrow> unat bs2 = align_up (unat bs1) (unat (128 :: u32))"
    using align_stride_eq [of info bs1 128] by blast
  have bs2_eq: "unat bs2 = align_up (unat aw) 128"
    using bs2(2) bs1(2) by (simp add: r)
  have bs2_le: "unat aw \<le> unat bs2" "unat bs2 < unat aw + 128"
    unfolding bs2_eq by (simp_all add: align_up_ge align_up_less)
  define luma where "luma = GRALLOC_ALIGN bs2 256"
  have luma: "unat luma = align_up (unat bs2) 256" "align_up (unat bs2) 256 < unat bs2 + 512"
    using align_step [of 256 bs2] bs2_le aw by (simp_all add: luma_def)
  have not_nv30: "fi_id info \<noteq> fmt_value H FMT_NV30"
    by (simp add: id fmt_value_inj [OF H])
  have run: "linear_byte_stride nd H info usage sp 0 p w aw bs0 =
      update_yv12_stride nd p (if p = 0 then bs2 else bs0) 128"
    unfolding linear_byte_stride_def Let_def b8 bs1(1) sa bind_res_simps lcm32_128_16 bs2(1) cond
    using not_nv30 by (cases "update_yv12_stride nd p (if p = 0 then bs2 else bs0) 128") simp_all
  show ?thesis
  proof (cases p)
    case 0
    have "update_yv12_stride nd 0 bs2 128 = Inr luma"
      by (simp add: update_yv12_stride_def luma_def)
    moreover have "unat aw \<le> unat luma" "256 dvd unat luma" "unat luma \<le> unat aw + 1024"
      using luma bs2_le align_up_ge [of 256 "unat bs2"] by (simp_all add: luma(1))
    ultimately show ?thesis
      using that [of luma] run 0 by simp
  next
    case (Suc q)
    then show ?thesis
      using that [of "bs0 div 2"] run update_yv12_chroma [of bs0 nd q] p1
      by (simp add: unat_div)
  qed
qed

section \<open>Uncompressed allocations succeed and cover the picture\<close>

lemma spec_plane_bounds:
  assumes "row_wf info" and "alloc_type_wf info a" and "p < npln info"
  shows "spec_plane_w info a p cpu w < w + 640" and "spec_plane_h info a p cpu h < h + 256"
proof -
  note sub = row_subsampling [OF assms(1,3)] and unit = align_unit_bounds [OF assms, of cpu]
  have "plane_samples p s n \<le> n" for s n
    by (simp add: plane_samples_def)
  then have 1: "plane_samples p (hsub info) (align_up w (align_w info)) < w + 128"
    "plane_samples p (vsub info) (align_up h (align_h info)) < h + 128"
    using align_up_less [of "align_w info" w] align_up_less [of "align_h info" h] sub
    by (meson le_less_trans less_le_trans add_left_mono)+
  show "spec_plane_w info a p cpu w < w + 640"
    unfolding spec_plane_w_def
    using 1(1) align_up_less [of "align_unit_w info a p cpu"
        "plane_samples p (hsub info) (align_up w (align_w info))"] unit(1) by linarith
  show "spec_plane_h info a p cpu h < h + 256"
    unfolding spec_plane_h_def
    using 1(2) align_up_less [of "align_unit_h info a p cpu"
        "plane_samples p (vsub info) (align_up h (align_h info))"] unit(2) by linarith
qed

definition uncompressed :: "alloc_type_t \<Rightarrow> bool" where
  "uncompressed a \<longleftrightarrow> primary_type a = UNCOMPRESSED"

lemma uncompressed_simps [simp]:
  "uncompressed a \<Longrightarrow> \<not> at_is_afbc a" "uncompressed a \<Longrightarrow> \<not> at_is_afrc a"
  "uncompressed a \<Longrightarrow> \<not> at_is_block_linear a"
  by (simp_all add: uncompressed_def at_is_afbc_def at_is_afrc_def at_is_block_linear_def)

lemma align_unit_w_uncompressed:
  assumes "uncompressed a" and "row_small info"
  shows "align_unit_w info a p cpu =
    max (max 1 (if cpu then align_w_cpu info else 1)) (tile_size info)"
proof -
  have "unat (of_nat (align_w_cpu info) :: u32) = align_w_cpu info"
    "unat (of_nat (tile_size info) :: u32) = tile_size info"
    using assms(2) by (auto simp: row_small_def unat_of_nat_small)
  moreover have "align_w_cpu info \<le> 16" "tile_size info \<le> 2"
    using assms(2) by (auto simp: row_small_def)
  ultimately show ?thesis
    using assms(1) by (simp add: align_unit_w_def pixel_align_def unat_max3)
qed

lemma whole_byte_plane:
  assumes "uncompressed a" and "row_small info" and "row_wf info" and "whole_byte_lines info"
    and "p < npln info"
  shows "8 dvd spec_plane_w info a p cpu w * bpp info ! p"
proof (cases "list_all (\<lambda>b. 8 dvd b) (bpp info)")
  case True
  then have "8 dvd bpp info ! p"
    using assms(3,5) by (auto simp: list_all_length row_wf_def)
  then show ?thesis by (rule dvd_mult)
next
  case False
  then have one: "npln info = 1" "8 dvd bpp info ! 0 * align_w info" "align_w_cpu info = align_w info"
    "tile_size info = 1"
    using assms(4) by (auto simp: whole_byte_lines_def)
  have p: "p = 0"
    using assms(5) one(1) by simp
  have pos: "1 \<le> align_w info"
    using row_subsampling(5) [OF assms(3,5)] by simp
  have "align_w info dvd spec_plane_w info a p cpu w"
    using pos one by (cases cpu)
      (simp_all add: p spec_plane_w_def plane_samples_def align_unit_w_uncompressed [OF assms(1,2)])
  then have "bpp info ! 0 * align_w info dvd bpp info ! 0 * spec_plane_w info a p cpu w"
    by (intro mult_dvd_mono) simp_all
  with one(2) show ?thesis
    using dvd_trans by (metis mult.commute p)
qed

definition linear_plane_ok ::
  "hal_env \<Rightarrow> format_info_t \<Rightarrow> alloc_type_t \<Rightarrow> u64 \<Rightarrow> nat \<Rightarrow> nat \<Rightarrow> nat \<Rightarrow> plane_info_t \<Rightarrow> bool" where
  "linear_plane_ok H info a usage w h p pl \<longleftrightarrow>
     unat (alloc_width pl) = spec_plane_w info a p (has_cpu_usage usage) w \<and>
     unat (alloc_height pl) = spec_plane_h info a p (has_cpu_usage usage) h \<and>
     unat (alloc_width pl) * bpp info ! p \<le> 8 * unat (byte_stride pl) \<and>
     unat (byte_stride pl) \<le> 2 ^ 16 + 2 ^ 15 \<and>
     (yv12_shared H info usage \<and> p = 0 \<longrightarrow> 256 dvd unat (byte_stride pl))"

lemma yv12_chroma_width:
  assumes "hal_documented H" "info \<in> set (formats H)" "yv12_shared H info usage" "uncompressed a"
    and "256 dvd n" and "spec_plane_w info a 0 True w \<le> n" and "0 < p"
  shows "spec_plane_w info a p True w \<le> n div 2"
proof -
  note r = yv12_row [OF assms(1,2)]
  have id: "fi_id info = fmt_value H FMT_YV12"
    using assms(3) by (simp add: yv12_shared_def)
  have u: "align_unit_w info a q True = 16" for q
    using align_unit_w_uncompressed [OF assms(4) formats_row_small [OF assms(2)]]
    by (simp add: r [OF id])
  have "align_up w 2 \<le> spec_plane_w info a 0 True w"
    by (simp add: spec_plane_w_def plane_samples_def r [OF id] u align_up_ge)
  with assms(6) have "align_up w 2 div 2 \<le> n div 2"
    by (intro div_le_mono) linarith
  moreover have "16 dvd n div 2"
    using dvd_256_halves [OF assms(5)] dvd_trans [of 16 128 "n div 2"] by simp
  ultimately show ?thesis
    using assms(7) by (simp add: spec_plane_w_def plane_samples_def r [OF id] u align_up_least)
qed

lemma linear_stride_exists:
  assumes H: "hal_documented H" and row: "info \<in> set (formats H)" and a: "uncompressed a"
    and wf: "alloc_type_wf info a" and p: "p < npln info"
    and whole: "\<not> packed_10bit H (fi_id info)"
    and aw: "unat aw = spec_plane_w info a p (has_cpu_usage usage) w" and w: "w \<le> 8192"
    and first: "0 < p \<Longrightarrow> linear_plane_ok H info a usage w h 0 pl0"
  obtains bs where
    "linear_byte_stride True H info usage sp 0 p iw aw (byte_stride pl0) = Inr bs"
    and "unat aw * bpp info ! p \<le> 8 * unat bs" and "unat bs \<le> 2 ^ 16 + 2 ^ 15"
    and "yv12_shared H info usage \<and> p = 0 \<longrightarrow> 256 dvd unat bs"
proof -
  note rwf = formats_row_wf [OF row] and rsm = formats_row_small [OF row]
  have p3: "p < 3"
    using p rwf by (simp add: row_wf_def)
  have awb: "unat aw < 8832"
    using spec_plane_bounds(1) [OF rwf wf p, of "has_cpu_usage usage" w] aw w by simp
  then have aw14: "unat aw \<le> 2 ^ 14" by simp
  show ?thesis
  proof (cases "yv12_shared H info usage")
    case False
    have "8 dvd unat aw * bpp info ! p"
      unfolding aw by (rule whole_byte_plane [OF a rsm rwf formats_whole_bytes [OF row whole] p])
    then obtain bs where bs: "linear_byte_stride True H info usage sp 0 p iw aw (byte_stride pl0) = Inr bs"
      "unat aw * bpp info ! p \<le> 8 * unat bs"
      "8 * unat bs \<le> unat aw * bpp info ! p + 8 * (2 ^ 14 + 513)"
      using linear_byte_stride_plain [OF row p aw14 _ _ False, of True] by blast
    have "unat aw * bpp info ! p \<le> 8832 * 64"
      using awb row_small_nth(1) [OF rsm rwf p3] by (intro mult_le_mono) simp_all
    with bs(3) have "unat bs \<le> 2 ^ 16 + 2 ^ 15"
      by simp
    with bs False show ?thesis
      by (intro that [of bs]) simp_all
  next
    case True
    note r = yv12_row [OF H row]
    have id: "fi_id info = fmt_value H FMT_YV12" and cpu: "has_cpu_usage usage"
      using True by (simp_all add: yv12_shared_def)
    have b8: "bpp info ! p = 8"
      using p3 by (auto simp: r [OF id] less_Suc_eq numeral_3_eq_3)
    have bs0: "256 dvd unat (byte_stride pl0) \<and> unat (byte_stride pl0) \<le> 2 ^ 18" if "0 < p"
      using first [OF that] True by (simp add: linear_plane_ok_def)
    obtain bs where bs: "linear_byte_stride True H info usage sp 0 p iw aw (byte_stride pl0) = Inr bs"
      "p = 0 \<longrightarrow> unat aw \<le> unat bs \<and> 256 dvd unat bs \<and> unat bs \<le> unat aw + 1024"
      "0 < p \<longrightarrow> unat bs = unat (byte_stride pl0) div 2"
      by (rule linear_byte_stride_yv12 [OF H row True aw14 p3 bs0])
    have chroma: "unat aw \<le> unat bs \<and> unat bs \<le> 2 ^ 16 + 2 ^ 15" if "0 < p"
    proof -
      have f: "spec_plane_w info a 0 True w \<le> unat (byte_stride pl0)"
        "unat (byte_stride pl0) \<le> 2 ^ 16 + 2 ^ 15"
        using first [OF that] cpu by (auto simp: linear_plane_ok_def r [OF id])
      then show ?thesis
        using yv12_chroma_width [OF H row True a _ f(1) that] bs0 [OF that] bs(3) that aw cpu
        by simp
    qed
    show ?thesis
      by (rule that [OF bs(1)]) (use bs(2) chroma b8 awb in \<open>cases p; simp\<close>)+
  qed
qed

lemma calc_plane_linear:
  assumes H: "hal_documented H" and row: "info \<in> set (formats H)" and a: "uncompressed a"
    and wf: "alloc_type_wf info a" and p: "p < npln info"
    and whole: "\<not> packed_10bit H (fi_id info)" and lin: "linear info"
    and w: "unat iw \<le> 8192" and h: "unat ih \<le> 8192"
    and first: "0 < p \<Longrightarrow> linear_plane_ok H info a usage (unat iw) (unat ih) 0 (as_layout s ! 0)"
  obtains s' pl where "calc_plane True H iw ih a info usage sp 0 p s = Inr s'"
    and "as_layout s' = (as_layout s)[p := pl]"
    and "linear_plane_ok H info a usage (unat iw) (unat ih) p pl"
    and "as_total s' = as_total s + scast (byte_stride pl * alloc_height pl)"
proof -
  note rwf = formats_row_wf [OF row] and rsm = formats_row_small [OF row]
  obtain aw ah where wh: "get_pixel_w_h iw ih info a p (has_cpu_usage usage) = Inr (aw, ah)"
    "unat aw = spec_plane_w info a p (has_cpu_usage usage) (unat iw)"
    "unat ah = spec_plane_h info a p (has_cpu_usage usage) (unat ih)"
    by (rule get_pixel_w_h_eq [OF rwf wf p, of iw ih "has_cpu_usage usage"]) (use w h in simp_all)
  obtain bs where bs:
    "linear_byte_stride True H info usage sp 0 p iw aw (byte_stride (as_layout s ! 0)) = Inr bs"
    "unat aw * bpp info ! p \<le> 8 * unat bs" "unat bs \<le> 2 ^ 16 + 2 ^ 15"
    "yv12_shared H info usage \<and> p = 0 \<longrightarrow> 256 dvd unat bs"
    by (rule linear_stride_exists [OF H row a wf p whole wh(2) w first])
  have bpp0: "0 < bpp info ! 0" "bpp info ! 0 \<le> 64"
    using formats_row_layouts_wf [OF row] lin row_small_nth(1) [OF rsm rwf, of 0]
    by (simp_all add: row_layouts_wf_def)
  then have "unat (of_nat (bpp info ! 0) :: u32) = bpp info ! 0"
    by (simp add: unat_of_nat_small)
  then have nz: "(of_nat (bpp info ! 0) :: u32) \<noteq> 0"
    using bpp0(1) by (auto simp flip: unat_eq_zero)
  obtain ps where ps: "(if p = 0 then calc_pixel_stride True a info usage bs
      else Inr (as_pixel_stride s)) = Inr ps"
    using nz a by (cases "p = 0"; cases "has_cpu_usage usage") (simp_all add: calc_pixel_stride_def)
  define pl where "pl = \<lparr>plane_offset = (if 0 < p then ucast (as_total s)
      else plane_offset (as_layout s ! p)), byte_stride = bs, alloc_width = aw, alloc_height = ah\<rparr>"
  show ?thesis
  proof (rule that)
    show "calc_plane True H iw ih a info usage sp 0 p s =
      Inr \<lparr>as_layout = (as_layout s)[p := pl], as_total = as_total s + scast (bs * ah),
           as_pixel_stride = ps\<rparr>"
      unfolding calc_plane_def wh(1) bind_res_simps prod.case Let_def plane_byte_stride_def
      using a by (simp add: bs(1) ps plane_start_def plane_body_size_def plane_header_size_def pl_def)
    show "linear_plane_ok H info a usage (unat iw) (unat ih) p pl"
      using wh bs by (simp add: linear_plane_ok_def pl_def)
  qed (simp_all add: pl_def)
qed

lemma plane_bytes_linear:
  assumes "uncompressed a" and "linear_plane_ok H info a usage w h p (layout ! p)"
    and "row_wf info" "alloc_type_wf info a" "p < npln info" "h \<le> 8192"
  shows "plane_bytes a info layout p =
      unat (byte_stride (layout ! p)) * unat (alloc_height (layout ! p))"
    and "plane_bytes a info layout p < 2 ^ 30"
proof -
  have "unat (alloc_height (layout ! p)) \<le> 8448"
    using assms(2,6) spec_plane_bounds(2) [OF assms(3,4,5), of "has_cpu_usage usage" h]
    by (simp add: linear_plane_ok_def)
  then have le: "unat (byte_stride (layout ! p)) * unat (alloc_height (layout ! p)) \<le>
      (2 ^ 16 + 2 ^ 15) * 8448"
    using assms(2) by (intro mult_le_mono) (simp_all add: linear_plane_ok_def)
  then have "unat (byte_stride (layout ! p) * alloc_height (layout ! p)) =
      unat (byte_stride (layout ! p)) * unat (alloc_height (layout ! p))"
    by (intro unat_mult_lem [THEN iffD1]) simp
  then show "plane_bytes a info layout p =
      unat (byte_stride (layout ! p)) * unat (alloc_height (layout ! p))"
    using assms(1) by (simp add: plane_bytes_def plane_body_size_def plane_header_size_def)
  with le show "plane_bytes a info layout p < 2 ^ 30"
    by simp
qed

lemma calc_planes_linear:
  assumes H: "hal_documented H" and row: "info \<in> set (formats H)" and a: "uncompressed a"
    and wf: "alloc_type_wf info a" and n: "n \<le> npln info"
    and whole: "\<not> packed_10bit H (fi_id info)" and lin: "linear info"
    and w: "unat iw \<le> 8192" and h: "unat ih \<le> 8192"
    and s0: "length (as_layout s0) = 3" "as_total s0 = 0"
  shows "\<exists>s. calc_planes True H iw ih a info usage sp 0 [0..<n] s0 = Inr s \<and>
    (\<forall>p < n. linear_plane_ok H info a usage (unat iw) (unat ih) p (as_layout s ! p)) \<and>
    unat (as_total s) \<le> n * 2 ^ 30"
  using n
proof (induction n)
  case 0
  then show ?case by (simp add: s0)
next
  case (Suc n)
  note rwf = formats_row_wf [OF row]
  obtain s where s: "calc_planes True H iw ih a info usage sp 0 [0..<n] s0 = Inr s"
    and ok: "\<forall>p < n. linear_plane_ok H info a usage (unat iw) (unat ih) p (as_layout s ! p)"
    and tot: "unat (as_total s) \<le> n * 2 ^ 30"
    using Suc by auto
  have pn: "n < npln info" and n3: "n < 3"
    using Suc.prems rwf by (simp_all add: row_wf_def)
  have len: "length (as_layout s) = 3"
    using calc_planes_length [OF s] s0 by simp
  have first: "0 < n \<Longrightarrow> linear_plane_ok H info a usage (unat iw) (unat ih) 0 (as_layout s ! 0)"
    using ok by simp
  obtain s' pl where s': "calc_plane True H iw ih a info usage sp 0 n s = Inr s'"
    and lay: "as_layout s' = (as_layout s)[n := pl]"
    and pl: "linear_plane_ok H info a usage (unat iw) (unat ih) n pl"
    and tot': "as_total s' = as_total s + scast (byte_stride pl * alloc_height pl)"
    by (rule calc_plane_linear [OF H row a wf pn whole lin w h first])
  have nth: "as_layout s' ! n = pl"
    using len n3 by (simp add: lay)
  have b: "unat (byte_stride pl * alloc_height pl) < 2 ^ 30"
    using plane_bytes_linear(2) [OF a _ rwf wf pn h, of H usage "unat iw" "as_layout s'"] pl nth a
    by (simp add: plane_bytes_def plane_body_size_def plane_header_size_def)
  then have "unat (scast (byte_stride pl * alloc_height pl) :: u64) < 2 ^ 30"
    by (simp add: unat_scast_small)
  then have "unat (as_total s') \<le> Suc n * 2 ^ 30"
    unfolding tot' unat_word_ariths(1) using tot
    by (intro order_trans [OF mod_less_eq_dividend]) simp
  moreover have "\<forall>p < Suc n. linear_plane_ok H info a usage (unat iw) (unat ih) p (as_layout s' ! p)"
    using ok pl nth by (auto simp: lay less_Suc_eq nth_list_update)
  ultimately show ?case
    using s s' by (simp add: calc_planes_append)
qed

lemma uncompressed_allocation_ok:
  assumes H: "hal_documented H" and row: "info \<in> set (formats H)" and a: "uncompressed a"
    and wf: "alloc_type_wf info a" and whole: "\<not> packed_10bit H (fi_id info)" and lin: "linear info"
    and w: "unat iw \<le> 8192" and h: "unat ih \<le> 8192" and "length layout = 3"
  obtains s where "calc_allocation_size True H iw ih a info usage sp 0 layout ps = Inr s"
    and "planes_placed a info (as_layout s) (npln info) (unat (as_total s))"
    and "\<forall>p < npln info. linear_plane_ok H info a usage (unat iw) (unat ih) p (as_layout s ! p) \<and>
      plane_bytes a info (as_layout s) p =
        unat (byte_stride (as_layout s ! p)) * unat (alloc_height (as_layout s ! p))"
    and "\<forall>p < npln info. plane_bytes a info (as_layout s) p < 2 ^ 31"
    and "unat (as_total s) < 2 ^ 32"
proof -
  note rwf = formats_row_wf [OF row]
  have n: "1 \<le> npln info" "npln info \<le> 3"
    using rwf by (simp_all add: row_wf_def)
  obtain s where s: "calc_allocation_size True H iw ih a info usage sp 0 layout ps = Inr s"
    and ok: "\<forall>p < npln info. linear_plane_ok H info a usage (unat iw) (unat ih) p (as_layout s ! p)"
    and tot: "unat (as_total s) \<le> npln info * 2 ^ 30"
    using calc_planes_linear [OF H row a wf order_refl whole lin w h, of
        "\<lparr>as_layout = layout[0 := (layout ! 0)\<lparr>plane_offset := 0\<rparr>], as_total = 0,
          as_pixel_stride = ps\<rparr>" usage sp] assms(9)
    by (auto simp: calc_allocation_size_def)
  have "npln info * 2 ^ 30 \<le> 3 * (2 :: nat) ^ 30"
    using n(2) by (intro mult_right_mono) simp_all
  with tot have small: "unat (as_total s) < 2 ^ 32"
    by simp
  have bytes: "plane_bytes a info (as_layout s) p =
        unat (byte_stride (as_layout s ! p)) * unat (alloc_height (as_layout s ! p))"
    "plane_bytes a info (as_layout s) p < 2 ^ 31" if "p < npln info" for p
    using plane_bytes_linear [OF a _ rwf wf that h, of H usage "unat iw" "as_layout s"] ok that by simp_all
  have "planes_placed a info (as_layout s) (npln info) (unat (as_total s))"
    by (rule calc_allocation_size_placed [OF s assms(9) n _ small]) (use bytes(2) in blast)
  with s ok bytes small show ?thesis
    by (intro that [of s]) blast+
qed

section \<open>AFBC planes are whole superblocks with room for their headers\<close>

lemma afbc_rows_groups:
  "list_all (\<lambda>f. afbc f \<longrightarrow> tile_size f = 1) (formats_rgb H)"
  "list_all (\<lambda>f. afbc f \<longrightarrow> tile_size f = 1) (formats_yuv420 H)"
  "list_all (\<lambda>f. afbc f \<longrightarrow> tile_size f = 1) (formats_yuv422_444 H)"
  "list_all (\<lambda>f. afbc f \<longrightarrow> tile_size f = 1) (formats_yuv_10bit H)"
  "list_all (\<lambda>f. afbc f \<longrightarrow> tile_size f = 1) (formats_raw H)"
  "list_all (\<lambda>f. afbc f \<longrightarrow> tile_size f = 1) (formats_depth H)"
  by (simp_all add: formats_defs)

lemma afbc_tile_size_one: "f \<in> set (formats H) \<Longrightarrow> afbc f \<Longrightarrow> tile_size f = 1"
  using afbc_rows_groups [of H] by (auto simp: formats_def list_all_iff)

definition sb_width :: "alloc_type_t \<Rightarrow> nat \<Rightarrow> nat" where
  "sb_width a p = unat (rect_width (get_afbc_sb_size a p))"

definition sb_height :: "alloc_type_t \<Rightarrow> nat \<Rightarrow> nat" where
  "sb_height a p = unat (rect_height (get_afbc_sb_size a p))"

lemma sb_area: "at_is_afbc a \<Longrightarrow> sb_width a p * sb_height a p = 256"
  by (cases "primary_type a")
    (simp_all add: sb_width_def sb_height_def get_afbc_sb_size_def get_afbc_sb_size_base_def at_is_afbc_def)

lemma afbc_unit_dvd:
  assumes "at_is_afbc a" and "tile_size info = 1"
  shows "sb_width a p dvd align_unit_w info a p False"
    and "sb_height a p dvd align_unit_h info a p False"
  using assms
  by (cases "primary_type a"; simp add: align_unit_w_def align_unit_h_def pixel_align_def
      afbc_pixel_align_def Let_def afbc_tile_size_def sb_width_def sb_height_def get_afbc_sb_size_def
      get_afbc_sb_size_base_def at_is_afbc_def max2_def max3_def sless32_def)+

lemma sdiv32_nat:
  assumes "sint a = int m" and "sint b = int n"
  shows "sdiv32 a b = of_nat (m div n)"
proof -
  have "sdiv_int (int m) (int n) = int (m div n)"
    by (cases "m = 0"; cases "n = 0") (simp_all add: sdiv_int_def zdiv_int)
  then show ?thesis
    by (simp add: sdiv32_def assms)
qed

lemma GRALLOC_ALIGN_int_eq:
  assumes "unat v \<le> 2 ^ 30" and "0 < b" "b \<le> 2 ^ 13"
  shows "unat (GRALLOC_ALIGN_int v (of_nat b)) = align_up (unat v) b"
proof -
  have b: "unat (of_nat b :: i32) = b"
    using assms by (intro unat_of_nat_small) simp
  have s: "unat (v + of_nat b - 1) = unat v + b - 1"
  proof -
    have "v + of_nat b - 1 = (of_nat (unat v + b - 1) :: i32)"
      using assms(2) by (simp add: of_nat_diff)
    moreover have "unat v + b - 1 < 2 ^ 32"
      using assms by simp
    ultimately show ?thesis
      by (simp only: unat_of_nat_small)
  qed
  have le: "unat v + b - 1 \<le> 2 ^ 30 + 2 ^ 13"
    using assms by simp
  define q where "q = (unat v + b - 1) div b"
  have qb: "q * b \<le> unat v + b - 1"
    unfolding q_def by (rule div_times_less_eq_dividend)
  have "sint (v + of_nat b - 1) = int (unat v + b - 1)"
    using sint_small [of "v + of_nat b - 1"] s le by simp
  moreover have "sint (of_nat b :: i32) = int b"
    using sint_small [of "of_nat b"] b assms(3) by simp
  ultimately have "sdiv32 (v + of_nat b - 1) (of_nat b) = of_nat q"
    unfolding q_def by (rule sdiv32_nat)
  then have e: "GRALLOC_ALIGN_int v (of_nat b) = of_nat (q * b)"
    by (simp add: GRALLOC_ALIGN_int_def)
  have "q * b < 2 ^ 32"
    using qb le by simp
  then have "unat (of_nat (q * b) :: u32) = q * b"
    by (rule unat_of_nat_small)
  then show ?thesis
    unfolding e by (simp only: align_up_def q_def)
qed

definition afbc_alignment :: "bool \<Rightarrow> nat" where
  "afbc_alignment tiled = (if tiled then 4096 else 1024)"

lemma unat_afbc_buffer_align:
  "unat v \<le> 2 ^ 30 \<Longrightarrow> unat (afbc_buffer_align tiled v) = align_up (unat v) (afbc_alignment tiled)"
  using GRALLOC_ALIGN_int_eq [of v 4096] GRALLOC_ALIGN_int_eq [of v 1024]
  by (simp add: afbc_buffer_align_def afbc_alignment_def)

lemma sb_count_eq:
  assumes "unat aw * unat ah < 2 ^ 31"
  shows "unat (sb_count aw ah) = unat aw * unat ah div 256"
    and "afbc_n_headers aw ah = sb_count aw ah"
proof -
  have m: "unat (aw * ah) = unat aw * unat ah"
    using assms by (intro unat_mult_lem [THEN iffD1]) simp
  then show 1: "unat (sb_count aw ah) = unat aw * unat ah div 256"
    by (simp add: sb_count_def AFBC_PIXELS_PER_BLOCK_def unat_div)
  have "sint (aw * ah) = int (unat aw * unat ah)"
    using sint_small [of "aw * ah"] m assms by simp
  then have "afbc_n_headers aw ah = of_nat (unat aw * unat ah div 256)"
    unfolding afbc_n_headers_def AFBC_PIXELS_PER_BLOCK_def by (rule sdiv32_nat) simp
  with 1 show "afbc_n_headers aw ah = sb_count aw ah"
    by (metis of_nat_unat ucast_id)
qed

lemma afbc_plane:
  assumes row: "info \<in> set (formats H)" and wf: "alloc_type_wf info a" and p: "p < npln info"
    and a: "at_is_afbc a" "afbc info"
    and w: "unat iw \<le> 8192" and h: "unat ih \<le> 8192"
  obtains aw ah n where "get_pixel_w_h iw ih info a p False = Inr (aw, ah)"
    and "sb_width a p dvd unat aw" and "sb_height a p dvd unat ah"
    and "unat aw * unat ah = 256 * n" and "unat (sb_count aw ah) = n"
    and "unat (afbc_n_headers aw ah) = n"
    and "unat (plane_header_size a (sb_count aw ah)) = align_up (16 * n) (afbc_alignment (is_tiled a))"
proof -
  note rwf = formats_row_wf [OF row]
  obtain aw ah where wh: "get_pixel_w_h iw ih info a p False = Inr (aw, ah)"
    "unat aw = spec_plane_w info a p False (unat iw)"
    "unat ah = spec_plane_h info a p False (unat ih)"
    by (rule get_pixel_w_h_eq [OF rwf wf p, of iw ih False]) (use w h in simp_all)
  note unit = afbc_unit_dvd [OF a(1) afbc_tile_size_one [OF row a(2)], of p]
  have dvd: "sb_width a p dvd unat aw" "sb_height a p dvd unat ah"
    unfolding wh spec_plane_w_def spec_plane_h_def
    using unit dvd_trans [OF _ align_up_dvd] by blast+
  then have "256 dvd unat aw * unat ah"
    using mult_dvd_mono [OF dvd] by (simp add: sb_area [OF a(1)])
  then obtain n where n: "unat aw * unat ah = 256 * n" ..
  have "unat aw * unat ah \<le> 8832 * 8448"
    using wh(2,3) w h spec_plane_bounds(1) [OF rwf wf p, of False "unat iw"]
      spec_plane_bounds(2) [OF rwf wf p, of False "unat ih"] by (intro mult_le_mono) simp_all
  then have small: "unat aw * unat ah < 2 ^ 31" "n \<le> 2 ^ 20"
    using n by simp_all
  note cnt = sb_count_eq [OF small(1)]
  have c: "unat (sb_count aw ah) = n"
    using cnt(1) n by simp
  have "unat (sb_count aw ah * 16) = 16 * n"
    using c small(2) by (simp add: unat_word_ariths(2))
  then have "unat (plane_header_size a (sb_count aw ah)) = align_up (16 * n) (afbc_alignment (is_tiled a))"
    using a(1) small(2) unat_afbc_buffer_align [of "sb_count aw ah * 16" "is_tiled a"]
    by (simp add: plane_header_size_def AFBC_HEADER_BUFFER_BYTES_PER_BLOCKENTRY_def)
  with wh(1) dvd n c cnt(2) show ?thesis
    by (intro that [of aw ah n]) simp_all
qed

section \<open>Strides that Rockchip clients ask for\<close>

lemma clear_low_bits: "x AND NOT (mask n) = push_bit n (drop_bit n x)" for x :: "'a::len word"
  by (rule bit_word_eqI) (auto simp: bit_simps)

lemma odd_multiple_of_256:
  fixes v :: u32
  assumes "unat v \<le> 2 ^ 30"
  defines "r \<equiv> ((v + 255) AND NOT 255) OR 256"
  shows "unat r mod 512 = 256" and "unat v \<le> unat r" and "unat r < unat v + 512"
proof -
  define d where "d = drop_bit 8 (v + 255)"
  have v: "unat (v + 255) = unat v + 255"
    using assms(1) by (subst unat_add_lem [THEN iffD1]) simp_all
  have d: "unat d = (unat v + 255) div 256"
    by (simp add: d_def drop_bit_eq_div unat_div v)
  have "mask 8 = (255 :: u32)"
    by (simp add: mask_eq_exp_minus_1)
  then have "(v + 255) AND NOT 255 = push_bit 8 d"
    using clear_low_bits [of "v + 255" 8] by (simp only: d_def)
  moreover have "(256 :: u32) = push_bit 8 1"
    by simp
  ultimately have r: "r = push_bit 8 (d OR 1)"
    unfolding r_def by (simp only: push_bit_or)
  have e: "unat (d OR 1) = unat d + (if even (unat d) then 1 else 0)"
  proof -
    have "d OR 1 = d + of_bool (even d)"
      by (rule or_one_eq)
    moreover have "even d \<longleftrightarrow> even (unat d)"
      using bit_0 [of d] bit_0 [of "unat d"] by (simp add: bit_unsigned_iff del: bit_0)
    moreover have "unat d + 1 < 2 ^ 32"
      using d assms(1) by simp
    ultimately show ?thesis
      by (auto simp: unat_word_ariths(1))
  qed
  have "unat r = 256 * unat (d OR 1)"
    using e d assms(1) by (simp add: r push_bit_eq_mult unat_word_ariths(2))
  then show "unat r mod 512 = 256" and "unat v \<le> unat r" and "unat r < unat v + 512"
    using e d by (auto elim!: evenE oddE)
qed

end
