(* ===== verification/Alloc_Layout.thy ===== *)
theory Alloc_Layout
  imports Alloc_Size
begin

text \<open>
  What \<open>calc_allocation_size\<close> guarantees: planes that never overlap, uncompressed buffers that
  succeed and cover the picture, AFBC header buffers that hold their headers, YV12 strides; and
  the cases in which a stride falls short.
\<close>

section \<open>Plane layouts\<close>

text \<open>C1: Whenever \<open>calc_allocation_size\<close> returns, for whatever layout, and no plane needs 2 GiB
  or the whole buffer 4 GiB, the planes lie one after another without overlap, plane 0 at offset
  0, and the reported size is exactly the end of the last plane.\<close>

theorem planes_never_overlap:
  assumes "calc_allocation_size nd H w h a info usage sp flag layout ps = Inr s"
    and "length layout = 3" and "1 \<le> npln info" "npln info \<le> 3"
    and "\<forall>p < npln info. plane_bytes a info (as_layout s) p < 2 ^ 31"
    and "unat (as_total s) < 2 ^ 32"
  shows "planes_placed a info (as_layout s) (npln info) (unat (as_total s))"
  by (rule calc_allocation_size_placed [OF assms])

text \<open>The sample input of the witnesses: a 640 by 480 NV12 buffer for texturing.\<close>

definition sample_nv12 :: format_info_t where
  "sample_nv12 = formats_yuv420 hal_sample ! 3"

definition sample_linear :: alloc_type_t where
  "sample_linear = \<lparr>primary_type = UNCOMPRESSED, is_multi_plane = True, is_tiled = False,
     is_padded = False, is_frontbuffer_safe = False, at_afrc = no_afrc\<rparr>"

lemma sample_nv12_fields:
  "fi_id sample_nv12 = 0x100" "npln sample_nv12 = 2" "linear sample_nv12" "bpp sample_nv12 = [8, 16, 0]"
  "hsub sample_nv12 = 2" "vsub sample_nv12 = 2" "sample_nv12 \<in> set (formats hal_sample)"
  by (simp_all add: sample_nv12_def formats_yuv420_def formats_def fmt_value_def)

lemma sample_linear_ok:
  "uncompressed sample_linear" "alloc_type_wf sample_nv12 sample_linear"
  "\<not> packed_10bit hal_sample (fi_id sample_nv12)"
  by (simp_all add: sample_linear_def uncompressed_def alloc_type_wf_def at_is_afbc_def at_is_afrc_def
      packed_10bit_def sample_nv12_fields fmt_value_def)

lemma sample_run:
  obtains s where "calc_allocation_size True hal_sample 640 480 sample_linear sample_nv12
      GRALLOC_USAGE_HW_TEXTURE False 0 no_layout 0 = Inr s"
    and "\<forall>p < npln sample_nv12. plane_bytes sample_linear sample_nv12 (as_layout s) p < 2 ^ 31"
    and "unat (as_total s) < 2 ^ 32"
proof -
  have "unat (640 :: i32) \<le> 8192" "unat (480 :: i32) \<le> 8192" "length no_layout = 3"
    by (simp_all add: no_layout_def max_planes_def)
  note ok = uncompressed_allocation_ok [OF hal_documented_sample sample_nv12_fields(7)
      sample_linear_ok(1,2,3) sample_nv12_fields(3) this, of GRALLOC_USAGE_HW_TEXTURE False 0]
  show ?thesis
    by (rule ok) (rule that; assumption)
qed

theorem planes_never_overlap_witness:
  "\<exists>s. calc_allocation_size True hal_sample 640 480 sample_linear sample_nv12
      GRALLOC_USAGE_HW_TEXTURE False 0 no_layout 0 = Inr s \<and>
     planes_placed sample_linear sample_nv12 (as_layout s) 2 (unat (as_total s))"
proof -
  obtain s where s: "calc_allocation_size True hal_sample 640 480 sample_linear sample_nv12
      GRALLOC_USAGE_HW_TEXTURE False 0 no_layout 0 = Inr s"
    "\<forall>p < npln sample_nv12. plane_bytes sample_linear sample_nv12 (as_layout s) p < 2 ^ 31"
    "unat (as_total s) < 2 ^ 32"
    by (rule sample_run)
  have "length no_layout = 3"
    by (simp add: no_layout_def max_planes_def)
  then have "planes_placed sample_linear sample_nv12 (as_layout s) (npln sample_nv12) (unat (as_total s))"
    by (intro planes_never_overlap [OF s(1) _ _ _ s(2,3)]) (simp_all add: sample_nv12_fields)
  with s(1) show ?thesis
    by (auto simp: sample_nv12_fields)
qed




definition sample_afbc :: alloc_type_t where
  "sample_afbc = \<lparr>primary_type = AFBC, is_multi_plane = False, is_tiled = True,
     is_padded = False, is_frontbuffer_safe = False, at_afrc = no_afrc\<rparr>"


text \<open>The stride that \<open>RK_GRALLOC_USAGE_STRIDE_ALIGN_256_ODD_TIMES\<close> asks for is an odd
  multiple of 256, at least the width and less than 512 above it.\<close>

theorem stride_256_odd_times:
  assumes "unat w \<le> 2 ^ 30"
  shows "unat (rk_pixel_stride w RK_GRALLOC_USAGE_STRIDE_ALIGN_256_ODD_TIMES) mod 512 = 256 \<and>
    unat w \<le> unat (rk_pixel_stride w RK_GRALLOC_USAGE_STRIDE_ALIGN_256_ODD_TIMES) \<and>
    unat (rk_pixel_stride w RK_GRALLOC_USAGE_STRIDE_ALIGN_256_ODD_TIMES) < unat w + 512"
proof -
  have "rk_pixel_stride w RK_GRALLOC_USAGE_STRIDE_ALIGN_256_ODD_TIMES =
      ((w + 255) AND NOT 255) OR 256"
    unfolding rk_pixel_stride_def by (simp add: usage_values)
  then show ?thesis
    using odd_multiple_of_256 [OF assms] by simp
qed

theorem stride_256_odd_times_witness:
  "unat (rk_pixel_stride 1920 RK_GRALLOC_USAGE_STRIDE_ALIGN_256_ODD_TIMES) mod 512 = 256"
  using stride_256_odd_times [of 1920] by simp

text \<open>YV12 shared between CPU and hardware keeps the layout Android mandates: whatever the
  width, the chroma stride is exactly half the luma stride, both are multiples of 128, and
  the assertions of \<open>update_yv12_stride\<close> hold in a debug build too.\<close>

theorem yv12_shared_strides:
  assumes "hal_documented H" and "info \<in> set (formats H)" and "yv12_shared H info usage"
    and "unat aw \<le> 2 ^ 14" and "unat cw \<le> 2 ^ 14" and "p \<in> {1, 2}"
  shows "\<exists>luma chroma.
    linear_byte_stride nd H info usage sp 0 0 w aw bs0 = Inr luma \<and>
    linear_byte_stride nd H info usage sp 0 p w cw luma = Inr chroma \<and>
    unat aw \<le> unat luma \<and> unat luma = 2 * unat chroma \<and> 128 dvd unat chroma"
proof -
  obtain luma where luma: "linear_byte_stride nd H info usage sp 0 0 w aw bs0 = Inr luma"
    "unat aw \<le> unat luma" "256 dvd unat luma" "unat luma \<le> unat aw + 1024"
    using linear_byte_stride_yv12 [OF assms(1-4), of 0 bs0 nd sp w] by auto
  have "256 dvd unat luma \<and> unat luma \<le> 2 ^ 18" and p3: "p < 3" and p: "0 < p"
    using luma assms(4,6) by auto
  then obtain chroma where "linear_byte_stride nd H info usage sp 0 p w cw luma = Inr chroma"
    "unat chroma = unat luma div 2"
    using linear_byte_stride_yv12 [OF assms(1-3,5), of p luma nd sp w] by auto
  with luma dvd_256_halves [of "unat luma"] show ?thesis by fastforce
qed

definition sample_yv12 :: format_info_t where
  "sample_yv12 = formats_yuv420 hal_sample ! 5"

theorem yv12_shared_strides_witness:
  "\<exists>luma chroma.
    linear_byte_stride False hal_sample sample_yv12
      (GRALLOC_USAGE_HW_TEXTURE OR GRALLOC_USAGE_SW_READ_OFTEN) False 0 0 100 112 0 = Inr luma \<and>
    linear_byte_stride False hal_sample sample_yv12
      (GRALLOC_USAGE_HW_TEXTURE OR GRALLOC_USAGE_SW_READ_OFTEN) False 0 1 100 64 luma = Inr chroma \<and>
    unat luma = 2 * unat chroma"
proof -
  have "sample_yv12 \<in> set (formats hal_sample)" "fi_id sample_yv12 = fmt_value hal_sample FMT_YV12"
    by (simp_all add: sample_yv12_def formats_yuv420_def formats_def)
  moreover have "has_hw_usage (GRALLOC_USAGE_HW_TEXTURE OR GRALLOC_USAGE_SW_READ_OFTEN)"
    "has_cpu_usage (GRALLOC_USAGE_HW_TEXTURE OR GRALLOC_USAGE_SW_READ_OFTEN)"
    by (simp_all add: has_hw_usage_def has_cpu_usage_def test_flag_def usage_values)
  ultimately show ?thesis
    using yv12_shared_strides [OF hal_documented_sample, of sample_yv12
        "GRALLOC_USAGE_HW_TEXTURE OR GRALLOC_USAGE_SW_READ_OFTEN" 112 64 1 False False 100 0]
    by (auto simp: yv12_shared_def)
qed

section \<open>Strides that fall short\<close>

lemma nv15_row:
  assumes "hal_documented H" and "info \<in> set (formats H)" and "fi_id info = fmt_value H FMT_NV15"
  shows "bpp info = [10, 20, 0]" "align_w_cpu info = 1" "is_yuv info" "tile_size info = 1"
  using assms(2,3) by (auto simp: formats_defs fmt_value_inj [OF assms(1)])

text \<open>NV15 packs 10-bit samples, so a line of 410 luma samples is 512.5 bytes. A release build
  rounds that down before it aligns and hands out 512 bytes, a debug build stops in the assertion.\<close>

theorem nv15_line_short:
  assumes "hal_documented H" and "info \<in> set (formats H)" and "fi_id info = fmt_value H FMT_NV15"
    and "has_hw_usage usage" and "\<not> has_cpu_usage usage"
  shows "linear_byte_stride True H info usage False 0 0 410 410 bs0 = Inr 512 \<and>
    8 * 512 < 410 * bpp info ! 0 \<and>
    linear_byte_stride False H info usage False 0 0 410 410 bs0 = Inl Assertion_failed"
proof -
  note r = nv15_row [OF assms(1-3)]
  have "packed_byte_stride True 410 10 = Inr 512" "packed_byte_stride False 410 10 = Inl Assertion_failed"
    by (simp_all add: packed_byte_stride_def c_assert_def)
  moreover have "lcm32 128 0 = 128" "align_stride info 128 512 = Inr 512"
    by (simp_all add: lcm32_def max2_def sless32_def align_stride_def r GRALLOC_ALIGN_def)
  ultimately show ?thesis
    using assms(4,5)
    by (simp add: linear_byte_stride_def linear_cpu_align_def linear_hw_align_def r assms(3)
        Let_def fmt_value_inj [OF assms(1)])
qed

theorem nv15_line_short_witness:
  "linear_byte_stride True hal_sample (formats_yuv_10bit hal_sample ! 3) GRALLOC_USAGE_HW_TEXTURE
     False 0 0 410 410 0 = Inr 512"
proof -
  have "formats_yuv_10bit hal_sample ! 3 \<in> set (formats hal_sample)"
    "fi_id (formats_yuv_10bit hal_sample ! 3) = fmt_value hal_sample FMT_NV15"
    by (simp_all add: formats_yuv_10bit_def formats_def)
  moreover have "has_hw_usage GRALLOC_USAGE_HW_TEXTURE" "\<not> has_cpu_usage GRALLOC_USAGE_HW_TEXTURE"
    by (simp_all add: has_hw_usage_def has_cpu_usage_def test_flag_def usage_values)
  ultimately show ?thesis
    using nv15_line_short [OF hal_documented_sample] by blast
qed

text \<open>BGR_888 shared between CPU and hardware is aligned to 64 bytes only, so 100 pixels take 320
  bytes a line, while the pixel stride reported to the CPU is 106, that is 318 bytes; the
  assertion that should catch this fires in a debug build.\<close>

theorem bgr888_pixel_stride_wrong:
  assumes "hal_documented H" and "info \<in> set (formats H)" and "fi_id info = fmt_value H FMT_BGR_888"
    and "has_hw_usage usage" and "has_cpu_usage usage" and "uncompressed a"
  shows "linear_byte_stride True H info usage False 0 0 100 100 bs0 = Inr 320 \<and>
    calc_pixel_stride True a info usage 320 = Inr 106 \<and>
    calc_pixel_stride False a info usage 320 = Inl Assertion_failed"
proof -
  have r: "bpp info = [24, 0, 0]" "\<not> is_yuv info" "tile_size info = 1"
    using assms(2,3) by (auto simp: formats_defs fmt_value_inj [OF assms(1)])
  have "packed_byte_stride True 100 24 = Inr 300"
    by (simp add: packed_byte_stride_def)
  moreover have "lcm32 64 0 = 64" "align_stride info 64 300 = Inr 320"
    by (simp_all add: lcm32_def max2_def sless32_def align_stride_def r GRALLOC_ALIGN_def)
  ultimately have "linear_byte_stride True H info usage False 0 0 100 100 bs0 = Inr 320"
    using assms(4,5)
    by (simp add: linear_byte_stride_def linear_cpu_align_def linear_hw_align_def r assms(3)
        Let_def fmt_value_inj [OF assms(1)] is_base_format_used_by_rk_video_def)
  then show ?thesis
    using assms(5,6) by (simp add: calc_pixel_stride_def r c_assert_def)
qed

theorem bgr888_pixel_stride_wrong_witness:
  "calc_pixel_stride True sample_linear (formats_rgb hal_sample ! 2)
     (GRALLOC_USAGE_HW_TEXTURE OR GRALLOC_USAGE_SW_READ_OFTEN) 320 = Inr 106"
proof -
  have "formats_rgb hal_sample ! 2 \<in> set (formats hal_sample)"
    "fi_id (formats_rgb hal_sample ! 2) = fmt_value hal_sample FMT_BGR_888"
    by (simp_all add: formats_rgb_def formats_def)
  moreover have "has_hw_usage (GRALLOC_USAGE_HW_TEXTURE OR GRALLOC_USAGE_SW_READ_OFTEN)"
    "has_cpu_usage (GRALLOC_USAGE_HW_TEXTURE OR GRALLOC_USAGE_SW_READ_OFTEN)"
    by (simp_all add: has_hw_usage_def has_cpu_usage_def test_flag_def usage_values)
  ultimately show ?thesis
    using bgr888_pixel_stride_wrong [OF hal_documented_sample _ _ _ _ sample_linear_ok(1)] by blast
qed

text \<open>Two stride-alignment flags at once select no branch of the switch, and an NV12 buffer is
  then given byte stride 0 instead of an error.\<close>

theorem nv12_two_alignments_no_stride:
  "nv12_byte_stride info 0 w (RK_GRALLOC_USAGE_STRIDE_ALIGN_16 OR RK_GRALLOC_USAGE_STRIDE_ALIGN_64) = Inr 0"
  by (simp add: nv12_byte_stride_def rk_pixel_stride_def usage_values)

end
