(* ===== verification/Alloc_Derive.thy ===== *)
theory Alloc_Derive
  imports Rk_Select Alloc_Layout
begin

text \<open>
  The parameters of an allocation, from src/src/core/buffer_descriptor.h and
  src/src/core/buffer_allocation.cpp: the request with the values computed for it, the check of
  the selected format, the enlargement for Rockchip video, and
  \<open>mali_gralloc_derive_format_and_size\<close>, which composes the selection of the format with
  the computation of the size.
\<close>

section \<open>The descriptor\<close>

text \<open>The character array \<open>name\<close> is a string; the remaining fields have the types of the code.\<close>

record buffer_descriptor_t =
  d_signature :: u32
  d_width :: u32
  d_height :: u32
  d_producer_usage :: u64
  d_consumer_usage :: u64
  d_hal_format :: u64
  d_layer_count :: u32
  d_name :: string
  d_reserved_size :: u64
  d_size :: u64
  d_pixel_stride :: i32
  d_alloc_format :: internal_format_t
  d_plane_info :: plane_layout
  d_flags :: u32

definition EINVAL :: i32 where "EINVAL = 22"

section \<open>The selected format against the request\<close>

definition validate_format :: "hal_env \<Rightarrow> format_info_t \<Rightarrow> alloc_type_t \<Rightarrow> buffer_descriptor_t \<Rightarrow> bool" where
  "validate_format H info a d =
     ((if at_is_afbc a then
         afbc info \<and> \<not> (npln info = 1 \<and> is_multi_plane a \<or> 1 < npln info \<and> \<not> is_multi_plane a)
       else if at_is_afrc a then afrc info
       else if at_is_block_linear a then block_linear info
       else linear info) \<and>
      \<not> (fi_id info = fmt_value H FMT_BLOB \<and> d_height d \<noteq> 1))"

section \<open>More memory for Rockchip video\<close>

text \<open>
  The product \<open>2.5 * pixel_stride * alloc_height\<close> is computed in \<open>double\<close>. The first factor
  is exact; the product is rounded to 53 significant bits, ties to even, and truncated by the
  conversion to \<open>size_t\<close>. The model counts in halves. (A product of \<open>2 ^ 64\<close> or more
  has no defined conversion in C++; here it wraps around.)
\<close>

fun bit_size :: "nat \<Rightarrow> nat" where
  "bit_size n = (if n = 0 then 0 else Suc (bit_size (n div 2)))"

declare bit_size.simps [simp del]

definition round_to_double :: "nat \<Rightarrow> nat" where
  "round_to_double n =
     (let e = bit_size n - 53; q = n div 2 ^ e; r = n mod 2 ^ e
      in (if 2 ^ e < 2 * r \<or> (2 ^ e = 2 * r \<and> odd q) then q + 1 else q) * 2 ^ e)"

definition rk_video_size :: "hal_env \<Rightarrow> u32 \<Rightarrow> u32 \<Rightarrow> u32 \<Rightarrow> u32 \<Rightarrow> u64 option" where
  "rk_video_size H base_format pixel_stride stride height =
     (if base_format = fmt_value H FMT_NV12 then Some (ucast (2 * pixel_stride * height))
      else if base_format = fmt_value H FMT_NV16 then
        Some (of_nat (round_to_double (5 * unat pixel_stride * unat height) div 2))
      else if base_format = fmt_value H FMT_NV15 then Some (ucast (2 * stride * height))
      else if base_format = fmt_value H FMT_NV24 then Some (ucast (3 * stride * height))
      else None)"

definition adjust_rk_video_buffer_size ::
  "hal_env \<Rightarrow> buffer_descriptor_t \<Rightarrow> format_info_t \<Rightarrow> buffer_descriptor_t res" where
  "adjust_rk_video_buffer_size H d info =
     (let p0 = d_plane_info d ! 0
      in bind_res (c_div (byte_stride p0 * 8) (of_nat (bpp info ! 0))) (\<lambda>pixel_stride.
           case rk_video_size H (get_base (d_alloc_format d)) pixel_stride (byte_stride p0)
                  (alloc_height p0) of
             None \<Rightarrow> Inr d
           | Some needed \<Rightarrow> Inr (if d_size d < needed then d\<lparr>d_size := needed\<rparr> else d)))"

text \<open>
  The block around it. The stride that was asked for is compared with the computed one only to
  log a warning, but the division happens.
\<close>

definition adjust_for_rk_video ::
  "hal_env \<Rightarrow> buffer_descriptor_t \<Rightarrow> format_info_t \<Rightarrow> u64 \<Rightarrow> buffer_descriptor_t res" where
  "adjust_for_rk_video H d info usage =
     (let base_format = get_base (d_alloc_format d);
          stride_specified = (usage AND RK_GRALLOC_USAGE_SPECIFY_STRIDE \<noteq> 0)
      in if is_base_format_used_by_rk_video H base_format \<and> stride_specified then
           bind_res (c_div (byte_stride (d_plane_info d ! 0) * 8)
               (of_nat (if is_afbc (d_alloc_format d) then bpp_afbc info ! 0 else bpp info ! 0)))
             (\<lambda>_. adjust_rk_video_buffer_size H d info)
         else if is_base_format_used_by_rk_video H base_format \<and> is_stride_alignment_specified usage then
           adjust_rk_video_buffer_size H d info
         else Inr d)"

section \<open>Several layers\<close>

definition size_all_layers :: "buffer_descriptor_t \<Rightarrow> buffer_descriptor_t" where
  "size_all_layers d =
     (if 1 < d_layer_count d then
        (let one = (if is_afbc (d_alloc_format d) then
                      (if get_afbc_tiled_headers (d_alloc_format d) then GRALLOC_ALIGN (d_size d) 4096
                       else GRALLOC_ALIGN (d_size d) 128)
                    else d_size d)
         in d\<lparr>d_size := one * ucast (d_layer_count d)\<rparr>)
      else d)"

section \<open>Format and size of a request\<close>

text \<open>
  The result is the return value (0 or \<open>-EINVAL\<close>) with the descriptor and the state of the
  selection as they are when the function returns.
\<close>

definition mali_gralloc_derive_format_and_size ::
  "build_config \<Rightarrow> 'p property_service \<Rightarrow> hal_env \<Rightarrow> ip_capability list \<Rightarrow> buffer_descriptor_t \<Rightarrow>
   'p rk_state \<Rightarrow> (i32 \<times> buffer_descriptor_t \<times> 'p rk_state) res" where
  "mali_gralloc_derive_format_and_size cfg P H E d st =
     (let usage = d_producer_usage d OR d_consumer_usage d
      in bind_res (mali_gralloc_select_format cfg P H E (d_flags d) (d_hal_format d) usage
                     (d_width d * d_height d) st) (\<lambda>(f, st').
         let d1 = d\<lparr>d_alloc_format := f\<rparr>
         in if is_undefined f then Inr (- EINVAL, d1, st')
            else case get_base_info H f of
              None \<Rightarrow> Inr (- EINVAL, d1, st')
            | Some info \<Rightarrow>
                (case get_alloc_type H f usage of
                   None \<Rightarrow> Inr (- EINVAL, d1, st')
                 | Some a \<Rightarrow>
                     if \<not> validate_format H info a d1 then Inr (- EINVAL, d1, st')
                     else
                       let (w, h) = mali_gralloc_adjust_dimensions H f usage (d_width d) (d_height d)
                       in bind_res (calc_allocation_size (cfg_ndebug cfg) H w h a info usage
                                      (usage AND RK_GRALLOC_USAGE_SPECIFY_STRIDE \<noteq> 0)
                                      (get_usage_flag_for_stride_alignment usage)
                                      (d_plane_info d) (d_pixel_stride d)) (\<lambda>s.
                          bind_res (adjust_for_rk_video H
                              (d1\<lparr>d_pixel_stride := as_pixel_stride s, d_size := as_total s,
                                  d_plane_info := as_layout s\<rparr>) info usage) (\<lambda>d2.
                          Inr (0, size_all_layers d2, st'))))))"

section \<open>The memory that video needs\<close>

lemma bit_size_bound: "n < 2 ^ k \<Longrightarrow> bit_size n \<le> k"
proof (induction n arbitrary: k rule: bit_size.induct)
  case (1 n)
  show ?case
  proof (cases "n = 0")
    case False
    then obtain j where k: "k = Suc j"
      using "1.prems" by (cases k) auto
    then have "bit_size (n div 2) \<le> j"
      using "1.IH" [OF False, of j] "1.prems" by (simp add: less_mult_imp_div_less mult.commute)
    then show ?thesis
      by (subst bit_size.simps) (simp add: k)
  qed (simp add: bit_size.simps)
qed

lemma round_to_double_exact: "n < 2 ^ 53 \<Longrightarrow> round_to_double n = n"
  using bit_size_bound [of n 53] by (simp add: round_to_double_def)

text \<open>The bytes that the video codecs need for a plane, in unbounded arithmetic.\<close>

definition video_bytes :: "hal_env \<Rightarrow> u32 \<Rightarrow> nat \<Rightarrow> nat \<Rightarrow> nat \<Rightarrow> nat" where
  "video_bytes H base_format bits stride height =
     (if base_format = fmt_value H FMT_NV12 then 2 * (8 * stride div bits) * height
      else if base_format = fmt_value H FMT_NV16 then 5 * (8 * stride div bits) * height div 2
      else if base_format = fmt_value H FMT_NV15 then 2 * stride * height
      else if base_format = fmt_value H FMT_NV24 then 3 * stride * height
      else 0)"

lemma unat_ucast_prod:
  assumes "c * unat x * unat y < 2 ^ 32" and "0 < c" and "0 < unat y"
  shows "unat (ucast (of_nat c * x * y :: u32) :: u64) = c * unat x * unat y"
proof -
  have c: "c * unat x < 2 ^ 32"
    using assms(1,3) by (metis One_nat_def Suc_leI le_less_trans mult.right_neutral mult_le_mono2)
  have "of_nat c * x * y = (of_nat (c * unat x * unat y) :: u32)"
    by simp
  then have "unat (of_nat c * x * y :: u32) = c * unat x * unat y"
    using assms(1) by (simp only: unat_of_nat_small)
  then show ?thesis
    by (simp add: unat_ucast_up)
qed

lemma rk_video_size_eq:
  assumes "rk_video_size H b ps bs h = Some v" and "unat ps = 8 * unat bs div bits"
    and "3 * unat ps * unat h < 2 ^ 32" and "3 * unat bs * unat h < 2 ^ 32"
  shows "unat v = video_bytes H b bits (unat bs) (unat h)"
proof -
  have "5 * unat ps * unat h \<le> 2 * (3 * unat ps * unat h)"
    by simp
  with assms(3) have e: "5 * unat ps * unat h < 2 ^ 33"
    by simp
  then have "5 * unat ps * unat h div 2 < 2 ^ 33"
    using div_le_dividend [of "5 * unat ps * unat h" 2] by simp
  then have "5 * unat ps * unat h div 2 < 2 ^ LENGTH(64)"
    by simp
  moreover have "round_to_double (5 * unat ps * unat h) = 5 * unat ps * unat h"
    using e by (intro round_to_double_exact) simp
  ultimately have q: "unat (of_nat (round_to_double (5 * unat ps * unat h) div 2) :: u64) =
      5 * unat ps * unat h div 2"
    by (simp only: unat_of_nat mod_less)
  have "c * unat x * unat h < 2 ^ 32" if "3 * unat x * unat h < 2 ^ 32" "c \<le> 3" for c and x :: u32
    using that(1) le_less_trans [OF mult_le_mono1 [OF that(2), of "unat x * unat h"]]
    by (simp only: mult.assoc)
  then have p: "unat (ucast (of_nat c * x * h :: u32) :: u64) = c * unat x * unat h"
    if "3 * unat x * unat h < 2 ^ 32" "c \<le> 3" "0 < c" for c and x :: u32
    using unat_ucast_prod [of c x h] that by (cases "unat h = 0") (auto simp: unat_eq_0)
  have r: "unat (ucast (2 * ps * h) :: u64) = 2 * unat ps * unat h"
    "unat (ucast (2 * bs * h) :: u64) = 2 * unat bs * unat h"
    "unat (ucast (3 * bs * h) :: u64) = 3 * unat bs * unat h"
    using p [OF assms(3), of 2] p [OF assms(4), of 2] p [OF assms(4), of 3] by simp_all
  show ?thesis
    using assms(1) unfolding rk_video_size_def video_bytes_def assms(2) [symmetric]
    by (auto simp only: r q option.inject option.distinct split: if_splits)
qed

lemma adjust_rk_video_ok:
  assumes bs: "unat (byte_stride (d_plane_info d ! 0)) \<le> 2 ^ 17"
    and h: "unat (alloc_height (d_plane_info d ! 0)) \<le> 2 ^ 13 + 2 ^ 9"
    and bpp: "8 \<le> bpp info ! 0" "bpp info ! 0 \<le> 64"
  obtains v where "adjust_rk_video_buffer_size H d info = Inr (d\<lparr>d_size := v\<rparr>)"
    and "unat v = max (unat (d_size d)) (video_bytes H (get_base (d_alloc_format d)) (bpp info ! 0)
           (unat (byte_stride (d_plane_info d ! 0))) (unat (alloc_height (d_plane_info d ! 0))))"
proof -
  let ?bs = "byte_stride (d_plane_info d ! 0)" and ?h = "alloc_height (d_plane_info d ! 0)"
  let ?ps = "?bs * 8 div of_nat (bpp info ! 0)"
  have b: "unat (of_nat (bpp info ! 0) :: u32) = bpp info ! 0"
    using bpp by (intro unat_of_nat_small) simp
  then have nz: "(of_nat (bpp info ! 0) :: u32) \<noteq> 0"
    using bpp by (metis not_numeral_le_zero unat_0)
  have "unat (?bs * 8) = 8 * unat ?bs"
    using bs by (simp add: unat_word_ariths(2))
  then have ps: "unat ?ps = 8 * unat ?bs div bpp info ! 0"
    by (simp add: unat_div b)
  have "8 * unat ?bs div bpp info ! 0 \<le> 8 * unat ?bs div 8"
    using bpp(1) by (intro div_le_mono2) simp_all
  then have psb: "unat ?ps \<le> 2 ^ 17"
    using ps bs by simp
  have small: "3 * unat x * unat ?h < 2 ^ 32" if "unat x \<le> 2 ^ 17" for x :: u32
  proof -
    have "unat x * unat ?h \<le> 2 ^ 17 * (2 ^ 13 + 2 ^ 9)"
      using that h by (intro mult_le_mono) simp_all
    then show ?thesis
      by (simp add: mult.assoc)
  qed
  show ?thesis
  proof (cases "rk_video_size H (get_base (d_alloc_format d)) ?ps ?bs ?h")
    case None
    then have "video_bytes H (get_base (d_alloc_format d)) (bpp info ! 0) (unat ?bs) (unat ?h) = 0"
      by (simp add: rk_video_size_def video_bytes_def split: if_splits)
    with None nz show ?thesis
      by (intro that [of "d_size d"]) (simp_all add: adjust_rk_video_buffer_size_def Let_def)
  next
    case (Some v)
    have "unat v = video_bytes H (get_base (d_alloc_format d)) (bpp info ! 0) (unat ?bs) (unat ?h)"
      by (rule rk_video_size_eq [OF Some ps small [OF psb] small [OF bs]])
    with Some nz show ?thesis
      by (intro that [of "if d_size d < v then v else d_size d"])
        (auto simp: adjust_rk_video_buffer_size_def Let_def word_less_nat_alt)
  qed
qed

section \<open>The height of the allocation\<close>

lemma rk_adjust_height_bounds:
  assumes "unat h \<le> 2 ^ 12"
  shows "unat h \<le> unat (rk_adjust_height usage h)" "unat (rk_adjust_height usage h) \<le> 2 ^ 12"
proof -
  have "unat h \<le> unat (GRALLOC_ALIGN_int h (of_nat b)) \<and> unat (GRALLOC_ALIGN_int h (of_nat b)) \<le> 2 ^ 12"
    if "b dvd 2 ^ 12" "0 < b" "b \<le> 64" for b
    using assms that GRALLOC_ALIGN_int_eq [of h b] align_up_ge [of b "unat h"]
      align_up_least [of b "2 ^ 12" "unat h"] by simp
  from this [of 8] this [of 16] this [of 64] assms
  show "unat h \<le> unat (rk_adjust_height usage h)" "unat (rk_adjust_height usage h) \<le> 2 ^ 12"
    by (simp_all add: rk_adjust_height_def Let_def)
qed

lemma adjust_dimensions_bounds:
  assumes "mali_gralloc_adjust_dimensions H f usage w h = (w', h')" and "\<not> is_afbc f"
    and "unat h \<le> 2 ^ 12"
  shows "w' = w" "unat h \<le> unat h'" "unat h' \<le> 2 ^ 13"
proof -
  note b = rk_adjust_height_bounds [OF assms(3), of usage]
  have "unat (rk_adjust_height usage h * 2) = unat (rk_adjust_height usage h) * 2"
    using b(2) by (simp add: unat_word_ariths(2))
  then show "w' = w" "unat h \<le> unat h'" "unat h' \<le> 2 ^ 13"
    using assms(1,2) b by (auto simp: mali_gralloc_adjust_dimensions_def Let_def split: if_splits)
qed

lemma linear_bpp_groups:
  "list_all (\<lambda>f. linear f \<longrightarrow> 8 \<le> bpp f ! 0) (formats_rgb H)"
  "list_all (\<lambda>f. linear f \<longrightarrow> 8 \<le> bpp f ! 0) (formats_yuv420 H)"
  "list_all (\<lambda>f. linear f \<longrightarrow> 8 \<le> bpp f ! 0) (formats_yuv422_444 H)"
  "list_all (\<lambda>f. linear f \<longrightarrow> 8 \<le> bpp f ! 0) (formats_yuv_10bit H)"
  "list_all (\<lambda>f. linear f \<longrightarrow> 8 \<le> bpp f ! 0) (formats_raw H)"
  "list_all (\<lambda>f. linear f \<longrightarrow> 8 \<le> bpp f ! 0) (formats_depth H)"
  by (simp_all add: formats_defs)

lemma linear_bpp: "info \<in> set (formats H) \<Longrightarrow> linear info \<Longrightarrow> 8 \<le> bpp info ! 0"
  using linear_bpp_groups [of H] by (auto simp: formats_def list_all_iff)

lemma bits_nonzero:
  assumes "8 \<le> b" "b \<le> 64"
  shows "(of_nat b :: u32) \<noteq> 0"
proof -
  have "unat (of_nat b :: u32) = b"
    using assms(2) by (intro unat_of_nat_small) simp
  then show ?thesis
    using assms(1) by (metis not_numeral_le_zero unat_0)
qed

lemma video_bytes_le:
  assumes "8 \<le> bits"
  shows "video_bytes H b bits s h \<le> 5 * (s * h)"
proof -
  have "8 * s div bits \<le> s"
    using div_le_mono2 [of 8 bits "8 * s"] assms by simp
  then have "8 * s div bits * h \<le> s * h"
    by (rule mult_le_mono1)
  then show ?thesis
    unfolding video_bytes_def mult.assoc by (simp, linarith)
qed

lemma adjust_for_rk_video_linear:
  assumes "\<not> is_afbc (d_alloc_format d)" and "8 \<le> bpp info ! 0" "bpp info ! 0 \<le> 64"
    and "unat (byte_stride (d_plane_info d ! 0)) \<le> 2 ^ 17"
    and "unat (alloc_height (d_plane_info d ! 0)) \<le> 2 ^ 13 + 2 ^ 9"
  obtains v where "adjust_for_rk_video H d info usage = Inr (d\<lparr>d_size := v\<rparr>)"
    and "unat (d_size d) \<le> unat v" and "unat v \<le> max (unat (d_size d)) (2 ^ 34)"
proof -
  obtain v where v: "adjust_rk_video_buffer_size H d info = Inr (d\<lparr>d_size := v\<rparr>)"
    "unat v = max (unat (d_size d)) (video_bytes H (get_base (d_alloc_format d)) (bpp info ! 0)
           (unat (byte_stride (d_plane_info d ! 0))) (unat (alloc_height (d_plane_info d ! 0))))"
    by (rule adjust_rk_video_ok [OF assms(4,5,2,3)])
  have "video_bytes H (get_base (d_alloc_format d)) (bpp info ! 0)
      (unat (byte_stride (d_plane_info d ! 0))) (unat (alloc_height (d_plane_info d ! 0))) \<le> 2 ^ 34"
    by (rule order_trans [OF video_bytes_le [OF assms(2)]]) (use mult_le_mono [OF assms(4,5)] in simp)
  moreover have "(of_nat (bpp info ! 0) :: u32) \<noteq> 0"
    using assms(2,3) by (rule bits_nonzero)
  ultimately show ?thesis
    using v assms(1)
    by (cases "is_base_format_used_by_rk_video H (get_base (d_alloc_format d)) \<and>
          (usage AND RK_GRALLOC_USAGE_SPECIFY_STRIDE \<noteq> 0 \<or> is_stride_alignment_specified usage)")
      (auto intro: that [of v] that [of "d_size d"] simp: adjust_for_rk_video_def Let_def)
qed

lemma validate_format_update [simp]:
  "validate_format H info a (d\<lparr>d_alloc_format := f\<rparr>) = validate_format H info a d"
  unfolding validate_format_def by simp

text \<open>The size of the layers.\<close>

lemma size_all_layers_linear:
  assumes "\<not> is_afbc (d_alloc_format d)" and "unat (d_size d) \<le> 2 ^ 34"
    and "unat (d_layer_count d) \<le> 2 ^ 16"
  shows "unat (d_size (size_all_layers d)) = unat (d_size d) * max 1 (unat (d_layer_count d))"
    and "size_all_layers d = d\<lparr>d_size := d_size (size_all_layers d)\<rparr>"
proof -
  have "unat (d_size d) * unat (d_layer_count d) \<le> 2 ^ 34 * 2 ^ 16"
    using assms(2,3) by (rule mult_le_mono)
  then have "unat (d_size d * ucast (d_layer_count d)) = unat (d_size d) * unat (d_layer_count d)"
    by (simp add: unat_word_ariths(2) unat_ucast_up)
  then show "unat (d_size (size_all_layers d)) = unat (d_size d) * max 1 (unat (d_layer_count d))"
    using assms(1) by (auto simp: size_all_layers_def word_less_nat_alt)
  show "size_all_layers d = d\<lparr>d_size := d_size (size_all_layers d)\<rparr>"
    by (simp add: size_all_layers_def Let_def)
qed

text \<open>A plane covers its share of the picture, and each of its lines fits the stride.\<close>

definition plane_covers :: "format_info_t \<Rightarrow> nat \<Rightarrow> nat \<Rightarrow> nat \<Rightarrow> plane_info_t \<Rightarrow> bool" where
  "plane_covers info w h p pl \<longleftrightarrow>
     w \<le> unat (alloc_width pl) * (if 0 < p then hsub info else 1) \<and>
     h \<le> unat (alloc_height pl) * (if 0 < p then vsub info else 1) \<and>
     unat (alloc_width pl) * bpp info ! p \<le> 8 * unat (byte_stride pl)"

lemma linear_plane_covers:
  assumes "linear_plane_ok H info a usage w h p pl" and "row_wf info" "alloc_type_wf info a" "p < npln info" and "h0 \<le> h"
  shows "plane_covers info w h0 p pl"
proof -
  have "unat (alloc_width pl) = spec_plane_w info a p (has_cpu_usage usage) w"
    "unat (alloc_height pl) = spec_plane_h info a p (has_cpu_usage usage) h"
    "unat (alloc_width pl) * bpp info ! p \<le> 8 * unat (byte_stride pl)"
    using assms(1) unfolding linear_plane_ok_def by blast+
  then show ?thesis
    using spec_plane_w_covers [OF assms(2-4), of w "has_cpu_usage usage"]
      order_trans [OF assms(5) spec_plane_h_covers [OF assms(2-4), of h "has_cpu_usage usage"]]
    by (simp only: plane_covers_def)
qed

text \<open>The layout of one layer: it exists, its planes are placed, and its first plane is small enough for the enlargement.\<close>

lemma layer_layout:
  assumes "hal_documented H" and row: "info \<in> set (formats H)" and "uncompressed a" and wf: "alloc_type_wf info a"
    and "\<not> packed_10bit H (fi_id info)" and "linear info" and "unat w \<le> 8192" and h: "unat h \<le> 8192" and "length layout = 3"
  obtains s where "calc_allocation_size True H w h a info usage sp 0 layout ps = Inr s"
    and "planes_placed a info (as_layout s) (npln info) (unat (as_total s))"
    and "\<And>p. p < npln info \<Longrightarrow> linear_plane_ok H info a usage (unat w) (unat h) p (as_layout s ! p)"
    and "unat (as_total s) < 2 ^ 32"
    and "unat (byte_stride (as_layout s ! 0)) \<le> 2 ^ 17" "unat (alloc_height (as_layout s ! 0)) \<le> 2 ^ 13 + 2 ^ 9"
proof -
  obtain s where s: "calc_allocation_size True H w h a info usage sp 0 layout ps = Inr s"
    and placed: "planes_placed a info (as_layout s) (npln info) (unat (as_total s))"
    and ok: "\<forall>p < npln info. linear_plane_ok H info a usage (unat w) (unat h) p (as_layout s ! p)"
    and small: "unat (as_total s) < 2 ^ 32"
    by (rule uncompressed_allocation_ok [OF assms, of usage sp ps]) blast
  have "0 < npln info"
    using formats_row_wf [OF row] by (simp add: row_wf_def)
  then show thesis
    using s placed ok small h
      spec_plane_bounds(2) [OF formats_row_wf [OF row] wf \<open>0 < npln info\<close>, of "has_cpu_usage usage" "unat h"]
    by (intro that [of s]) (fastforce simp: linear_plane_ok_def)+
qed

text \<open>From the size of one layer to the size of all: the enlargement for video, and the product with the number of layers.\<close>

lemma layers_sized:
  assumes row: "info \<in> set (formats H)" and lin: "linear info" and afbc: "\<not> is_afbc (d_alloc_format d)"
    and "unat (byte_stride (d_plane_info d ! 0)) \<le> 2 ^ 17" "unat (alloc_height (d_plane_info d ! 0)) \<le> 2 ^ 13 + 2 ^ 9"
    and "unat (d_size d) < 2 ^ 32" "unat (d_layer_count d) \<le> 2 ^ 16"
  obtains v n where "adjust_for_rk_video H d info usage = Inr (d\<lparr>d_size := v\<rparr>)" and "unat (d_size d) \<le> unat v"
    and "size_all_layers (d\<lparr>d_size := v\<rparr>) = d\<lparr>d_size := n\<rparr>" and "unat n = unat v * max 1 (unat (d_layer_count d))"
proof -
  obtain v where v: "adjust_for_rk_video H d info usage = Inr (d\<lparr>d_size := v\<rparr>)"
    "unat (d_size d) \<le> unat v" "unat v \<le> max (unat (d_size d)) (2 ^ 34)"
    using row_small_nth(1) [OF formats_row_small [OF row] formats_row_wf [OF row], of 0]
    by (rule adjust_for_rk_video_linear [OF afbc linear_bpp [OF row lin] _ assms(4,5)]) simp
  have "unat v \<le> 2 ^ 34"
    using v(3) assms(6) by simp
  then show thesis
    using v size_all_layers_linear [of "d\<lparr>d_size := v\<rparr>"] afbc assms(7)
    by (intro that [of v "d_size (size_all_layers (d\<lparr>d_size := v\<rparr>))"]) simp_all
qed

lemma derived_layers_ok:
  assumes "hal_documented H" and "cfg_ndebug cfg"
    and sel: "mali_gralloc_select_format cfg P H E (d_flags d) (d_hal_format d)
      (d_producer_usage d OR d_consumer_usage d) (d_width d * d_height d) st = Inr (f, st1)"
    and "\<not> is_undefined f" and "\<not> is_afbc f"
    and info: "get_base_info H f = Some info"
    and a: "get_alloc_type H f (d_producer_usage d OR d_consumer_usage d) = Some a"
    and "uncompressed a" and valid: "validate_format H info a d"
    and "\<not> packed_10bit H (fi_id info)"
    and "\<not> is_stride_alignment_specified (d_producer_usage d OR d_consumer_usage d)"
    and "unat (d_width d) \<le> 2 ^ 13" "unat (d_height d) \<le> 2 ^ 12" "unat (d_layer_count d) \<le> 2 ^ 16"
    and "length (d_plane_info d) = 3"
  shows "\<exists>d' layer. mali_gralloc_derive_format_and_size cfg P H E d st = Inr (0, d', st1) \<and>
    d_alloc_format d' = f \<and> unat (d_size d') = layer * max 1 (unat (d_layer_count d)) \<and>
    (\<exists>used \<le> layer. planes_placed a info (d_plane_info d') (npln info) used) \<and>
    (\<forall>p < npln info. plane_covers info (unat (d_width d)) (unat (d_height d)) p (d_plane_info d' ! p))"
proof -
  let ?usage = "d_producer_usage d OR d_consumer_usage d"
  obtain w h where wh: "mali_gralloc_adjust_dimensions H f ?usage (d_width d) (d_height d) = (w, h)"
    by fastforce
  have dims: "w = d_width d" "unat (d_height d) \<le> unat h" "unat h \<le> 2 ^ 13"
    using adjust_dimensions_bounds [OF wh \<open>\<not> is_afbc f\<close> \<open>unat (d_height d) \<le> 2 ^ 12\<close>] by simp_all
  have row: "info \<in> set (formats H)"
    using get_format_info_SomeD [OF info [unfolded get_base_info_def]] by simp
  note wf = get_alloc_type_wf [OF a info]
  have lin: "linear info"
    using valid uncompressed_simps [OF \<open>uncompressed a\<close>] by (simp add: validate_format_def)
  have flag: "get_usage_flag_for_stride_alignment ?usage = 0"
    using \<open>\<not> is_stride_alignment_specified ?usage\<close> by (simp add: is_stride_alignment_specified_def)
  have "unat w \<le> 8192" "unat h \<le> 8192"
    using dims \<open>unat (d_width d) \<le> 2 ^ 13\<close> by simp_all
  note alloc = layer_layout [OF \<open>hal_documented H\<close> row \<open>uncompressed a\<close> wf \<open>\<not> packed_10bit H (fi_id info)\<close> lin
      this \<open>length (d_plane_info d) = 3\<close>]
  obtain s where s: "calc_allocation_size True H w h a info ?usage
        (?usage AND RK_GRALLOC_USAGE_SPECIFY_STRIDE \<noteq> 0) 0 (d_plane_info d) (d_pixel_stride d) = Inr s"
    and placed: "planes_placed a info (as_layout s) (npln info) (unat (as_total s))"
    and ok: "\<And>p. p < npln info \<Longrightarrow> linear_plane_ok H info a ?usage (unat w) (unat h) p (as_layout s ! p)"
    and small: "unat (as_total s) < 2 ^ 32"
    and first: "unat (byte_stride (as_layout s ! 0)) \<le> 2 ^ 17" "unat (alloc_height (as_layout s ! 0)) \<le> 2 ^ 13 + 2 ^ 9"
    by (rule alloc) blast
  let ?d1 = "d\<lparr>d_alloc_format := f, d_pixel_stride := as_pixel_stride s, d_size := as_total s, d_plane_info := as_layout s\<rparr>"
  obtain v n where v: "adjust_for_rk_video H ?d1 info ?usage = Inr (?d1\<lparr>d_size := v\<rparr>)" "unat (as_total s) \<le> unat v"
    and n: "size_all_layers (?d1\<lparr>d_size := v\<rparr>) = ?d1\<lparr>d_size := n\<rparr>" "unat n = unat v * max 1 (unat (d_layer_count d))"
    using layers_sized [OF row lin, of ?d1 ?usage] \<open>\<not> is_afbc f\<close> first small \<open>unat (d_layer_count d) \<le> 2 ^ 16\<close> by auto
  have run: "mali_gralloc_derive_format_and_size cfg P H E d st = Inr (0, ?d1\<lparr>d_size := n\<rparr>, st1)"
    using sel \<open>\<not> is_undefined f\<close> info a valid wh s v(1) n(1) \<open>cfg_ndebug cfg\<close>
    by (simp add: mali_gralloc_derive_format_and_size_def Let_def flag)
  have "plane_covers info (unat (d_width d)) (unat (d_height d)) p (as_layout s ! p)" if "p < npln info" for p
    using linear_plane_covers [OF ok [OF that] formats_row_wf [OF row] wf that dims(2)] dims(1) by simp
  then show ?thesis
    using run placed v(2) n(2) by (intro exI [of _ "?d1\<lparr>d_size := n\<rparr>"] exI [of _ "unat v"]) auto
qed


lemma size_all_layers_frame:
  "size_all_layers d = d\<lparr>d_size := d_size (size_all_layers d)\<rparr>"
  by (simp add: size_all_layers_def Let_def)

lemma adjust_rk_video_frame:
  "adjust_rk_video_buffer_size H d info = Inr d' \<Longrightarrow> d' = d\<lparr>d_size := d_size d'\<rparr>"
  by (auto simp: adjust_rk_video_buffer_size_def Let_def split: option.splits if_splits)

lemma adjust_for_rk_video_frame:
  "adjust_for_rk_video H d info usage = Inr d' \<Longrightarrow> d' = d\<lparr>d_size := d_size d'\<rparr>"
  by (auto simp: adjust_for_rk_video_def Let_def dest: adjust_rk_video_frame split: if_splits)

text \<open>The ways in which the derivation returns.\<close>

lemma derive_cases:
  assumes "mali_gralloc_derive_format_and_size cfg P H E d st = Inr (r, d', st')"
  obtains
    (rejected) f where "mali_gralloc_select_format cfg P H E (d_flags d) (d_hal_format d)
        (d_producer_usage d OR d_consumer_usage d) (d_width d * d_height d) st = Inr (f, st')"
      and "r = - EINVAL" and "d' = d\<lparr>d_alloc_format := f\<rparr>"
      and "\<not> (\<not> is_undefined f \<and> (\<exists>info a. get_base_info H f = Some info \<and>
        get_alloc_type H f (d_producer_usage d OR d_consumer_usage d) = Some a \<and> validate_format H info a d))"
  | (derived) f info a w h s d1 where "mali_gralloc_select_format cfg P H E (d_flags d) (d_hal_format d)
        (d_producer_usage d OR d_consumer_usage d) (d_width d * d_height d) st = Inr (f, st')"
      and "r = 0" and "\<not> is_undefined f" and "get_base_info H f = Some info"
      and "get_alloc_type H f (d_producer_usage d OR d_consumer_usage d) = Some a"
      and "validate_format H info a d"
      and "mali_gralloc_adjust_dimensions H f (d_producer_usage d OR d_consumer_usage d) (d_width d) (d_height d) = (w, h)"
      and "calc_allocation_size (cfg_ndebug cfg) H w h a info (d_producer_usage d OR d_consumer_usage d)
        ((d_producer_usage d OR d_consumer_usage d) AND RK_GRALLOC_USAGE_SPECIFY_STRIDE \<noteq> 0)
        (get_usage_flag_for_stride_alignment (d_producer_usage d OR d_consumer_usage d))
        (d_plane_info d) (d_pixel_stride d) = Inr s"
      and "adjust_for_rk_video H (d\<lparr>d_alloc_format := f, d_pixel_stride := as_pixel_stride s,
        d_size := as_total s, d_plane_info := as_layout s\<rparr>) info (d_producer_usage d OR d_consumer_usage d) = Inr d1"
      and "d' = size_all_layers d1"
proof -
  let ?usage = "d_producer_usage d OR d_consumer_usage d"
  obtain f st1 where sel: "mali_gralloc_select_format cfg P H E (d_flags d) (d_hal_format d)
      ?usage (d_width d * d_height d) st = Inr (f, st1)"
    using assms by (auto simp: mali_gralloc_derive_format_and_size_def Let_def)
  let ?good = "\<not> is_undefined f \<and> (\<exists>info a. get_base_info H f = Some info \<and>
    get_alloc_type H f ?usage = Some a \<and> validate_format H info a d)"
  show ?thesis
  proof (cases ?good)
    case False
    then have "r = - EINVAL" "d' = d\<lparr>d_alloc_format := f\<rparr>" "st' = st1"
      using assms sel by (auto simp: mali_gralloc_derive_format_and_size_def Let_def
          split: if_splits option.splits)
    with sel False show ?thesis
      by (intro rejected) simp_all
  next
    case True
    then obtain info a where good: "\<not> is_undefined f" "get_base_info H f = Some info"
      "get_alloc_type H f ?usage = Some a" "validate_format H info a d"
      by blast
    obtain w h where wh: "mali_gralloc_adjust_dimensions H f ?usage (d_width d) (d_height d) = (w, h)"
      by fastforce
    obtain s d1 where "calc_allocation_size (cfg_ndebug cfg) H w h a info ?usage
        (?usage AND RK_GRALLOC_USAGE_SPECIFY_STRIDE \<noteq> 0) (get_usage_flag_for_stride_alignment ?usage)
        (d_plane_info d) (d_pixel_stride d) = Inr s"
      "adjust_for_rk_video H (d\<lparr>d_alloc_format := f, d_pixel_stride := as_pixel_stride s,
        d_size := as_total s, d_plane_info := as_layout s\<rparr>) info ?usage = Inr d1"
      "r = 0" "d' = size_all_layers d1" "st' = st1"
      using assms sel good wh by (auto simp: mali_gralloc_derive_format_and_size_def Let_def)
    with sel good wh show ?thesis
      by (intro derived) simp_all
  qed
qed

text \<open>C29: the derivation returns 0 or \<open>-EINVAL\<close>, and 0 exactly if the selected format is defined,
  has a row and an allocation type, and passes the validation. The request itself is never changed; after
  an error only the selected format is stored.\<close>

theorem derive_outcome:
  assumes "mali_gralloc_derive_format_and_size cfg P H E d st = Inr (r, d', st')"
  shows "d' = d\<lparr>d_alloc_format := d_alloc_format d', d_pixel_stride := d_pixel_stride d',
      d_size := d_size d', d_plane_info := d_plane_info d'\<rparr> \<and>
    (if \<not> is_undefined (d_alloc_format d') \<and> (\<exists>info a. get_base_info H (d_alloc_format d') = Some info \<and>
        get_alloc_type H (d_alloc_format d') (d_producer_usage d OR d_consumer_usage d) = Some a \<and>
        validate_format H info a d)
     then r = 0
     else r = - EINVAL \<and> d' = d\<lparr>d_alloc_format := d_alloc_format d'\<rparr>)"
  using assms
proof (cases rule: derive_cases)
  case (rejected f)
  then show ?thesis
    by auto
next
  case (derived f info a w h s d1)
  obtain x where d1: "d1 = (d\<lparr>d_alloc_format := f, d_pixel_stride := as_pixel_stride s,
      d_size := as_total s, d_plane_info := as_layout s\<rparr>)\<lparr>d_size := x\<rparr>"
    using adjust_for_rk_video_frame [OF derived(9)] by blast
  obtain y where d': "d' = d1\<lparr>d_size := y\<rparr>"
    using size_all_layers_frame [of d1] derived(10) by blast
  show ?thesis
    unfolding d' d1 using derived(2-6) by auto
qed

lemma packed_video_row:
  assumes "hal_documented H" and "info \<in> set (formats H)"
    and "fi_id info = fmt_value H FMT_YUV420_8BIT_I \<or> fi_id info = fmt_value H FMT_YUV420_10BIT_I"
  shows "bpp info ! 0 = 0"
  using assms(2,3) by (auto simp: formats_defs fmt_value_inj [OF assms(1)])

text \<open>A request whose selected base format is one of the two packed compressed video formats, and that
  asks for a particular stride or stride alignment, is never answered: the computation of the
  video size divides by the number of bits per pixel of the uncompressed format, which is 0.\<close>

theorem packed_video_stride_divides:
  assumes "mali_gralloc_select_format cfg P H E (d_flags d) (d_hal_format d)
      (d_producer_usage d OR d_consumer_usage d) (d_width d * d_height d) st = Inr (f, st1)"
    and "get_base f = fmt_value H FMT_YUV420_8BIT_I \<or> get_base f = fmt_value H FMT_YUV420_10BIT_I"
    and "hal_documented H"
    and "(d_producer_usage d OR d_consumer_usage d) AND RK_GRALLOC_USAGE_SPECIFY_STRIDE \<noteq> 0 \<or>
      is_stride_alignment_specified (d_producer_usage d OR d_consumer_usage d)"
  shows "mali_gralloc_derive_format_and_size cfg P H E d st \<noteq> Inr (0, d', st')"
proof
  assume "mali_gralloc_derive_format_and_size cfg P H E d st = Inr (0, d', st')"
  then show False
  proof (cases rule: derive_cases)
    case (derived g info a w h s d1)
    have g: "g = f"
      using derived(1) assms(1) by simp
    have "bpp info ! 0 = 0"
      using derived(4) assms(2,3) get_format_info_SomeD [of H "get_base f" info]
      by (auto intro: packed_video_row simp: g get_base_info_def)
    with derived(9) assms(2,4) show False
      by (auto simp: g adjust_for_rk_video_def adjust_rk_video_buffer_size_def
          is_base_format_used_by_rk_video_def Let_def split: if_splits)
  qed (simp add: EINVAL_def)
qed

text \<open>Sample requests: two layers of RGBA_8888 that the CPU writes, and a video buffer.\<close>

definition rk_build :: build_config where
  "rk_build = \<lparr>cfg_fb_disable_afbc = False, cfg_force_bgra = False, cfg_rk_manner = True,
     cfg_private_formats = True, cfg_ndebug = True\<rparr>"

definition sample_request :: "u64 \<Rightarrow> u64 \<Rightarrow> u32 \<Rightarrow> buffer_descriptor_t" where
  "sample_request format usage layers =
     \<lparr>d_signature = 0, d_width = 640, d_height = 480, d_producer_usage = usage, d_consumer_usage = usage,
      d_hal_format = format, d_layer_count = layers, d_name = '''', d_reserved_size = 0, d_size = 0,
      d_pixel_stride = 0, d_alloc_format = from_private 0, d_plane_info = no_layout, d_flags = 0\<rparr>"

lemma sample_cpu_select:
  assumes "get_internal_format hal_sample (ucast v) \<in> {0, ucast v}"
    and "rk_map_req_format hal_sample (ucast v) GRALLOC_USAGE_SW_WRITE_OFTEN = ucast v"
  shows "mali_gralloc_select_format rk_build map_properties hal_sample [] fl v GRALLOC_USAGE_SW_WRITE_OFTEN b rk_fresh =
     Inr (from_private (ucast v), rk_fresh\<lparr>s_platform := RK3588\<rparr>)"
proof -
  have i: "rk_internal_format hal_sample (ucast v) GRALLOC_USAGE_SW_WRITE_OFTEN = ucast v"
    using assms by (auto simp: rk_internal_format_def Let_def)
  have "GRALLOC_USAGE_SW_WRITE_OFTEN AND GRALLOC_USAGE_HW_FB \<noteq> GRALLOC_USAGE_HW_FB"
    "\<not> client_usage_allows_afbc GRALLOC_USAGE_SW_WRITE_OFTEN"
    "GRALLOC_USAGE_SW_WRITE_OFTEN AND MALI_GRALLOC_USAGE_NO_AFBC = 0"
    by (simp_all add: usage_values client_usage_allows_afbc_def)
  then show ?thesis
    by (simp add: mali_gralloc_select_format_def rk_gralloc_select_format_def rk_client_layer_def
        rk_fresh_platform rk_fresh_no_props Let_def rk_build_def i)
qed

lemma sample_internal_formats:
  "get_internal_format hal_sample 1 = 1" "get_internal_format hal_sample 6 = 0"
  "rk_map_req_format hal_sample 1 u = 1" "rk_map_req_format hal_sample 6 u = 6"
  by (simp_all add: get_internal_format_def hal_to_internal_format_def fmt_value_def
      get_format_info_None_iff table_formats_def PIXEL_FORMAT_R8_def rk_map_req_format_def)

definition video_usage :: u64 where
  "video_usage = GRALLOC_USAGE_HW_TEXTURE OR RK_GRALLOC_USAGE_SPECIFY_STRIDE"

lemma sample_video_select:
  obtains f st1 where "mali_gralloc_select_format rk_build map_properties hal_sample [] 0 0x1A video_usage b rk_fresh =
      Inr (f, st1)"
    and "get_base f = fmt_value hal_sample FMT_YUV420_8BIT_I" "is_afbc f"
proof -
  have m: "rk_map_req_format hal_sample 0x1A video_usage = fmt_value hal_sample FMT_YUV420_8BIT_I"
    by (simp add: rk_map_req_format_def)
  have v: "fmt_value hal_sample FMT_YUV420_8BIT_I = 0x10C"
    by (simp add: fmt_value_def)
  have i: "rk_internal_format hal_sample 0x1A video_usage = 0x10C"
    by (simp add: rk_internal_format_def Let_def m v)
  have "video_usage AND GRALLOC_USAGE_HW_FB \<noteq> GRALLOC_USAGE_HW_FB"
    "client_usage_allows_afbc video_usage" "video_usage AND MALI_GRALLOC_USAGE_NO_AFBC = 0"
    by (simp_all add: usage_values client_usage_allows_afbc_def video_usage_def)
  moreover have "client_format_allows_afbc hal_sample 0x10C"
    by (simp add: client_format_allows_afbc_def fmt_value_def)
  moreover have "get_fb_size map_properties (rk_fresh\<lparr>s_platform := RK3588\<rparr>) = (0, rk_fresh\<lparr>s_platform := RK3588\<rparr>)"
    by (simp add: get_fb_size_def map_properties_def rk_fresh_def PROP_NAME_OF_FB_SIZE_def atoi_def
        is_c_space_def digit_value_def)
  then have "should_sf_client_layer_use_afbc_format_by_size map_properties hal_sample 0x10C b
      (rk_fresh\<lparr>s_platform := RK3588\<rparr>) = (True, rk_fresh\<lparr>s_platform := RK3588\<rparr>)"
    by (simp add: should_sf_client_layer_use_afbc_format_by_size_def fmt_value_def)
  ultimately have
    s: "mali_gralloc_select_format rk_build map_properties hal_sample [] 0 0x1A video_usage b rk_fresh =
      Inr (from_private (0x10C OR MALI_GRALLOC_INTFMT_AFBC_BASIC), rk_fresh\<lparr>s_platform := RK3588\<rparr>)"
    by (simp add: mali_gralloc_select_format_def rk_gralloc_select_format_def rk_client_layer_def
        rk_fresh_platform rk_fresh_no_props rk_build_def i)
  show ?thesis
  proof (rule that [OF s])
    show "get_base (from_private (0x10C OR MALI_GRALLOC_INTFMT_AFBC_BASIC)) = fmt_value hal_sample FMT_YUV420_8BIT_I"
      by code_simp
    show "is_afbc (from_private (0x10C OR MALI_GRALLOC_INTFMT_AFBC_BASIC))"
      by code_simp
  qed
qed

theorem packed_video_stride_divides_witness:
  "\<exists>f st1. mali_gralloc_select_format rk_build map_properties hal_sample [] 0 0x1A video_usage (640 * 480) rk_fresh =
      Inr (f, st1) \<and> is_afbc f \<and>
    (\<forall>d' st'. mali_gralloc_derive_format_and_size rk_build map_properties hal_sample []
      (sample_request 0x1A video_usage 1) rk_fresh \<noteq> Inr (0, d', st'))"
proof -
  obtain f st1 where f: "mali_gralloc_select_format rk_build map_properties hal_sample [] 0 0x1A video_usage (640 * 480) rk_fresh =
      Inr (f, st1)" "get_base f = fmt_value hal_sample FMT_YUV420_8BIT_I" "is_afbc f"
    by (rule sample_video_select)
  moreover have "video_usage AND RK_GRALLOC_USAGE_SPECIFY_STRIDE \<noteq> 0"
    by (simp add: video_usage_def usage_values)
  ultimately have "mali_gralloc_derive_format_and_size rk_build map_properties hal_sample []
      (sample_request 0x1A video_usage 1) rk_fresh \<noteq> Inr (0, d', st')" for d' st'
    by (intro packed_video_stride_divides [OF _ _ hal_documented_sample, of _ _ _ _ _ f st1])
      (simp_all add: sample_request_def)
  with f(1,3) show ?thesis by blast
qed

text \<open>The row and the allocation type of the first request.\<close>

lemma sample_rgba_row:
  obtains info where "get_base_info hal_sample (from_private 1) = Some info" and "fi_id info = 1"
proof -
  have "formats_rgb hal_sample ! 3 \<in> set (formats hal_sample)" "fi_id (formats_rgb hal_sample ! 3) = 1"
    by (simp_all add: formats_rgb_def formats_def fmt_value_def)
  moreover have "get_base (from_private 1) = 1"
    by code_simp
  ultimately show ?thesis
    by (intro that [of "formats_rgb hal_sample ! 3"])
      (simp_all add: get_base_info_def get_format_info_iff [OF hal_documented_sample])
qed

lemma sample_request_derivable:
  obtains info a where "get_base_info hal_sample (from_private 1) = Some info"
    and "get_alloc_type hal_sample (from_private 1) GRALLOC_USAGE_SW_WRITE_OFTEN = Some a"
    and "uncompressed a" and "validate_format hal_sample info a (sample_request 1 GRALLOC_USAGE_SW_WRITE_OFTEN 2)"
    and "\<not> packed_10bit hal_sample (fi_id info)"
proof -
  obtain info where info: "get_base_info hal_sample (from_private 1) = Some info" and id: "fi_id info = 1"
    by (rule sample_rgba_row)
  have "\<not> is_afbc (from_private 1)" "\<not> is_afrc (from_private 1)" "\<not> is_block_linear (from_private 1)"
    by code_simp+
  then obtain a where a: "get_alloc_type hal_sample (from_private 1) GRALLOC_USAGE_SW_WRITE_OFTEN = Some a" "uncompressed a"
    using info by (simp add: get_alloc_type_def uncompressed_def)
  have row: "info \<in> set (formats hal_sample)"
    using get_format_info_SomeD info by (auto simp: get_base_info_def)
  have "linear info"
    using row id by (auto simp: formats_defs fmt_value_def)
  then have "validate_format hal_sample info a (sample_request 1 GRALLOC_USAGE_SW_WRITE_OFTEN 2)"
    using uncompressed_simps [OF a(2)] id by (simp add: validate_format_def sample_request_def fmt_value_def)
  with info a show ?thesis
    by (rule that) (simp add: packed_10bit_def id fmt_value_def)
qed

lemma sample_request_simple:
  "cfg_ndebug rk_build" "\<not> is_undefined (from_private 1)" "\<not> is_afbc (from_private 1)"
  "\<not> is_stride_alignment_specified GRALLOC_USAGE_SW_WRITE_OFTEN" "length no_layout = 3"
  "mali_gralloc_select_format rk_build map_properties hal_sample [] fl 1 GRALLOC_USAGE_SW_WRITE_OFTEN
      307200 rk_fresh = Inr (from_private 1, rk_fresh\<lparr>s_platform := RK3588\<rparr>)"
proof -
  show "\<not> is_undefined (from_private 1)" "\<not> is_afbc (from_private 1)"
    by code_simp+
qed (use sample_cpu_select [of 1] in \<open>simp_all add: rk_build_def is_stride_alignment_specified_def no_layout_def
    max_planes_def get_usage_flag_for_stride_alignment_def usage_values sample_internal_formats\<close>)


text \<open>Requests that differ from the first sample at most in fields the derivation does not decide by.\<close>

definition sample_like :: "buffer_descriptor_t \<Rightarrow> bool" where
  "sample_like d \<longleftrightarrow> d_width d = 640 \<and> d_height d = 480 \<and> d_producer_usage d = GRALLOC_USAGE_SW_WRITE_OFTEN \<and>
     d_consumer_usage d = GRALLOC_USAGE_SW_WRITE_OFTEN \<and> d_hal_format d = 1 \<and> unat (d_layer_count d) \<le> 2 ^ 16 \<and>
     length (d_plane_info d) = 3"

lemma sample_like_request [simp]:
  "sample_like ((sample_request 1 GRALLOC_USAGE_SW_WRITE_OFTEN 2)\<lparr>d_reserved_size := r\<rparr>)"
  "sample_like (sample_request 1 GRALLOC_USAGE_SW_WRITE_OFTEN 2)"
  using sample_request_simple(5) by (simp_all add: sample_like_def sample_request_def)

lemma sample_like_derived:
  assumes "sample_like d"
  obtains d' where "mali_gralloc_derive_format_and_size rk_build map_properties hal_sample [] d rk_fresh =
      Inr (0, d', rk_fresh\<lparr>s_platform := RK3588\<rparr>)"
    and "d_alloc_format d' = from_private 1"
proof -
  obtain info a where s: "get_base_info hal_sample (from_private 1) = Some info"
    "get_alloc_type hal_sample (from_private 1) GRALLOC_USAGE_SW_WRITE_OFTEN = Some a" "uncompressed a"
    "validate_format hal_sample info a (sample_request 1 GRALLOC_USAGE_SW_WRITE_OFTEN 2)" "\<not> packed_10bit hal_sample (fi_id info)"
    by (rule sample_request_derivable)
  then have "validate_format hal_sample info a d"
    using assms by (simp add: validate_format_def sample_like_def sample_request_def)
  then show ?thesis
    using derived_layers_ok [OF hal_documented_sample, of rk_build map_properties "[]" d rk_fresh "from_private 1" _ info a]
      s sample_request_simple that assms by (simp add: sample_like_def) blast
qed

theorem derive_outcome_witness:
  "\<exists>d' st'. mali_gralloc_derive_format_and_size rk_build map_properties hal_sample []
      (sample_request 6 GRALLOC_USAGE_SW_WRITE_OFTEN 2) rk_fresh = Inr (- EINVAL, d', st') \<and>
    d_width d' = 640 \<and> d_size d' = 0"
proof -
  let ?d = "sample_request 6 GRALLOC_USAGE_SW_WRITE_OFTEN 2"
  have b: "get_base (from_private 6) = 6"
    by code_simp
  have none: "get_base_info hal_sample (from_private 6) = None"
    unfolding get_base_info_def b by (simp add: get_format_info_None_iff table_formats_def fmt_value_def
        PIXEL_FORMAT_R8_def)
  have "mali_gralloc_select_format rk_build map_properties hal_sample [] 0 6 GRALLOC_USAGE_SW_WRITE_OFTEN 307200 rk_fresh =
      Inr (from_private 6, rk_fresh\<lparr>s_platform := RK3588\<rparr>)"
    using sample_cpu_select [of 6] by (simp add: sample_internal_formats)
  then obtain d' st' where run: "mali_gralloc_derive_format_and_size rk_build map_properties hal_sample [] ?d rk_fresh =
      Inr (- EINVAL, d', st')"
    using none by (auto simp: mali_gralloc_derive_format_and_size_def Let_def sample_request_def)
  have "- EINVAL \<noteq> 0"
    by (simp add: EINVAL_def)
  then have "d' = ?d\<lparr>d_alloc_format := d_alloc_format d'\<rparr>"
    using conjunct2 [OF derive_outcome [OF run]] by (simp split: if_splits)
  then obtain f where "d' = ?d\<lparr>d_alloc_format := f\<rparr>"
    by blast
  with run show ?thesis
    by (auto simp: sample_request_def)
qed

end
