(* ===== verification/Platform.thy ===== *)
theory Platform
  imports Gralloc_Prelude
begin

text \<open>
  The operating system and the libraries that buffers are made with: memory mappings, file
  descriptors, native handles (libcutils) and the heaps of libdmabufheap. None of it is part of
  the repository, so it is a parameter: a record of the calls on a state \<open>'s\<close>. What the code
  relies on is stated in \<open>os_documented\<close>, in terms of the open descriptors and the mappings of
  a state. A small simulation of these calls serves the examples.
\<close>

section \<open>The calls\<close>

text \<open>
  Pointers are 64-bit numbers and \<open>nullptr\<close> is 0. \<open>os_mmap\<close> maps a number of bytes of a
  descriptor, readable, writable and shared; it answers an error number or the address.
  \<open>os_new_handle\<close> is the memory of \<open>native_handle_create\<close>: the address, and the words that stand
  there behind the part that the code fills in.
\<close>

type_synonym ptr = u64

definition nullptr :: ptr where "nullptr = 0"

definition MAP_FAILED :: ptr where "MAP_FAILED = - 1"

datatype SyncType = kSyncNone | kSyncRead | kSyncWrite | kSyncReadWrite

record uninitialized =
  junk_lock_count :: i32
  junk_cpu_write :: i32
  junk_import_pid :: i32
  junk_base :: ptr
  junk_attr_base :: ptr

record 's os =
  os_getpid :: "'s \<Rightarrow> i32"
  os_mmap :: "'s \<Rightarrow> u64 \<Rightarrow> i32 \<Rightarrow> (i32 + ptr) \<times> 's"
  os_munmap :: "'s \<Rightarrow> ptr \<Rightarrow> u64 \<Rightarrow> bool \<times> 's"
  os_dup :: "'s \<Rightarrow> i32 \<Rightarrow> i32 \<times> 's"
  os_close :: "'s \<Rightarrow> i32 \<Rightarrow> 's"
  os_new_handle :: "'s \<Rightarrow> (ptr \<times> uninitialized) option \<times> 's"
  os_delete_handle :: "'s \<Rightarrow> 's"
  os_memfd_create :: "'s \<Rightarrow> string \<Rightarrow> i32 \<times> 's"
  os_ftruncate :: "'s \<Rightarrow> i32 \<Rightarrow> u64 \<Rightarrow> i32 \<times> 's"
  os_seal :: "'s \<Rightarrow> i32 \<Rightarrow> i32 \<times> 's"
  heap_alloc :: "'s \<Rightarrow> string \<Rightarrow> u64 \<Rightarrow> i32 \<times> 's"
  heap_sync_start :: "'s \<Rightarrow> u32 \<Rightarrow> SyncType \<Rightarrow> i32 \<times> 's"
  heap_sync_end :: "'s \<Rightarrow> u32 \<Rightarrow> SyncType \<Rightarrow> i32 \<times> 's"
  os_words :: "'s \<Rightarrow> ptr \<Rightarrow> u32 list"
  os_set_words :: "'s \<Rightarrow> ptr \<Rightarrow> u32 list \<Rightarrow> 's"

section \<open>Documented behaviour\<close>

text \<open>
  \<open>fds\<close> and \<open>maps\<close> observe the open descriptors and the mappings (address and length) of a
  state. A call that creates a descriptor answers -1 and changes nothing, or answers a new one;
  a failed \<open>mmap\<close> changes nothing; an existing mapping can be unmapped; the other calls do not open, close, map or unmap anything.
\<close>

definition opens_fd :: "('s \<Rightarrow> i32 set) \<Rightarrow> ('s \<Rightarrow> (ptr \<times> u64) set) \<Rightarrow> 's \<Rightarrow> i32 \<times> 's \<Rightarrow> bool" where
  "opens_fd fds maps s r \<longleftrightarrow>
     maps (snd r) = maps s \<and>
     (if sint (fst r) < 0 then fst r = - 1 \<and> fds (snd r) = fds s
      else fst r \<notin> fds s \<and> fds (snd r) = insert (fst r) (fds s))"

definition keeps_resources :: "('s \<Rightarrow> i32 set) \<Rightarrow> ('s \<Rightarrow> (ptr \<times> u64) set) \<Rightarrow> 's \<Rightarrow> 's \<Rightarrow> bool" where
  "keeps_resources fds maps s s' \<longleftrightarrow> fds s' = fds s \<and> maps s' = maps s"

definition os_documented :: "'s os \<Rightarrow> ('s \<Rightarrow> i32 set) \<Rightarrow> ('s \<Rightarrow> (ptr \<times> u64) set) \<Rightarrow> bool" where
  "os_documented Sys fds maps \<longleftrightarrow>
     (\<forall>s fd. opens_fd fds maps s (os_dup Sys s fd)) \<and>
     (\<forall>s name. opens_fd fds maps s (os_memfd_create Sys s name)) \<and>
     (\<forall>s name n. opens_fd fds maps s (heap_alloc Sys s name n)) \<and>
     (\<forall>s fd. fds (os_close Sys s fd) = fds s - {fd} \<and> maps (os_close Sys s fd) = maps s) \<and>
     (\<forall>s n fd. case os_mmap Sys s n fd of
        (Inl e, s') \<Rightarrow> keeps_resources fds maps s s'
      | (Inr a, s') \<Rightarrow> a \<noteq> nullptr \<and> a \<noteq> MAP_FAILED \<and> a \<notin> fst ` maps s \<and>
          fds s' = fds s \<and> maps s' = insert (a, n) (maps s)) \<and>
     (\<forall>s a n. case os_munmap Sys s a n of
        (ok, s') \<Rightarrow> ((a, n) \<in> maps s \<longrightarrow> ok) \<and> fds s' = fds s \<and>
          maps s' = (if ok then maps s - {(a, n)} else maps s)) \<and>
     (\<forall>s. keeps_resources fds maps s (snd (os_new_handle Sys s))) \<and>
     (\<forall>s. keeps_resources fds maps s (os_delete_handle Sys s)) \<and>
     (\<forall>s fd n. keeps_resources fds maps s (snd (os_ftruncate Sys s fd n))) \<and>
     (\<forall>s fd. keeps_resources fds maps s (snd (os_seal Sys s fd))) \<and>
     (\<forall>s fd t. keeps_resources fds maps s (snd (heap_sync_start Sys s fd t))) \<and>
     (\<forall>s fd t. keeps_resources fds maps s (snd (heap_sync_end Sys s fd t))) \<and>
     (\<forall>s a ws. keeps_resources fds maps s (os_set_words Sys s a ws))"

named_theorems os_facts \<open>what the documented calls do to descriptors and mappings\<close>

lemma os_documentedD:
  assumes "os_documented Sys fds maps"
  shows "opens_fd fds maps s (os_dup Sys s fd)"
    and "opens_fd fds maps s (os_memfd_create Sys s name)"
    and "opens_fd fds maps s (heap_alloc Sys s name n)"
    and "fds (os_close Sys s fd) = fds s - {fd} \<and> maps (os_close Sys s fd) = maps s"
    and "case os_mmap Sys s n fd of
        (Inl e, s') \<Rightarrow> keeps_resources fds maps s s'
      | (Inr a, s') \<Rightarrow> a \<noteq> nullptr \<and> a \<noteq> MAP_FAILED \<and> a \<notin> fst ` maps s \<and>
          fds s' = fds s \<and> maps s' = insert (a, n) (maps s)"
    and "case os_munmap Sys s a n of
        (ok, s') \<Rightarrow> ((a, n) \<in> maps s \<longrightarrow> ok) \<and> fds s' = fds s \<and>
          maps s' = (if ok then maps s - {(a, n)} else maps s)"
    and "keeps_resources fds maps s (snd (os_new_handle Sys s))"
    and "keeps_resources fds maps s (os_delete_handle Sys s)"
    and "keeps_resources fds maps s (snd (os_ftruncate Sys s fd n))"
    and "keeps_resources fds maps s (snd (os_seal Sys s fd))"
    and "keeps_resources fds maps s (snd (heap_sync_start Sys s ufd t))"
    and "keeps_resources fds maps s (snd (heap_sync_end Sys s ufd t))"
    and "keeps_resources fds maps s (os_set_words Sys s a ws)"
  using assms unfolding os_documented_def by ((elim conjE)?, (erule allE)+, assumption | simp)+

lemma opens_fd_cases:
  assumes "opens_fd fds maps s (r, s')"
  shows "maps s' = maps s" and "r = - 1 \<Longrightarrow> fds s' = fds s"
    and "sint r < 0 \<Longrightarrow> r = - 1"
    and "r \<noteq> - 1 \<Longrightarrow> r \<notin> fds s" and "r \<noteq> - 1 \<Longrightarrow> fds s' = insert r (fds s)"
  using assms by (auto simp: opens_fd_def split: if_splits)

lemma os_mmap_failed:
  assumes "os_documented Sys fds maps" and "os_mmap Sys s n fd = (Inl e, s')"
  shows "fds s' = fds s" "maps s' = maps s"
  using os_documentedD(5) [OF assms(1), of s n fd] assms(2) by (simp_all add: keeps_resources_def)

lemma os_mmap_done:
  assumes "os_documented Sys fds maps" and "os_mmap Sys s n fd = (Inr a, s')"
  shows "a \<noteq> nullptr" "a \<noteq> MAP_FAILED" "a \<notin> fst ` maps s" "fds s' = fds s" "maps s' = insert (a, n) (maps s)"
  using os_documentedD(5) [OF assms(1), of s n fd] assms(2) by simp_all

lemma os_munmap_effect [os_facts]:
  assumes "os_documented Sys fds maps"
  shows "fds (snd (os_munmap Sys s a n)) = fds s" "maps (snd (os_munmap Sys s a n)) = maps s - {(a, n)}"
  using os_documentedD(6) [OF assms, where s = s and a = a and n = n] by (auto split: prod.splits if_splits)

lemma os_keeps [os_facts]:
  assumes "os_documented Sys fds maps"
  shows "fds (os_close Sys s fd) = fds s - {fd}" "maps (os_close Sys s fd) = maps s"
    "fds (snd (os_new_handle Sys s)) = fds s" "maps (snd (os_new_handle Sys s)) = maps s"
    "fds (os_delete_handle Sys s) = fds s" "maps (os_delete_handle Sys s) = maps s"
    "fds (snd (os_ftruncate Sys s fd n)) = fds s" "maps (snd (os_ftruncate Sys s fd n)) = maps s"
    "fds (snd (os_seal Sys s fd)) = fds s" "maps (snd (os_seal Sys s fd)) = maps s"
    "fds (snd (heap_sync_start Sys s ufd t)) = fds s" "maps (snd (heap_sync_start Sys s ufd t)) = maps s"
    "fds (snd (heap_sync_end Sys s ufd t)) = fds s" "maps (snd (heap_sync_end Sys s ufd t)) = maps s"
    "fds (os_set_words Sys s a ws) = fds s" "maps (os_set_words Sys s a ws) = maps s"
  using os_documentedD(4,7-) [OF assms] by (simp_all add: keeps_resources_def)

section \<open>A simulation\<close>

text \<open>
  Descriptors and addresses are handed out in order until the limit of the state is reached.
\<close>

record sim =
  sim_next :: nat
  sim_limit :: nat
  sim_fds :: "i32 set"
  sim_maps :: "(ptr \<times> u64) set"
  sim_words :: "ptr \<Rightarrow> u32 list"
  sim_pid :: i32

definition sim_start :: sim where
  "sim_start = \<lparr>sim_next = 3, sim_limit = 1000, sim_fds = {}, sim_maps = {}, sim_words = (\<lambda>_. []), sim_pid = 42\<rparr>"

definition sim_open :: "'a sim_scheme \<Rightarrow> i32 \<times> 'a sim_scheme" where
  "sim_open s =
     (let fd = of_nat (sim_next s)
      in if sim_next s < min (sim_limit s) (2 ^ 31 :: nat) \<and> fd \<notin> sim_fds s
         then (fd, s\<lparr>sim_next := Suc (sim_next s), sim_fds := insert fd (sim_fds s)\<rparr>)
         else (- 1, s))"

definition sim_mmap :: "'a sim_scheme \<Rightarrow> u64 \<Rightarrow> (i32 + ptr) \<times> 'a sim_scheme" where
  "sim_mmap s n =
     (let a = of_nat (4096 * sim_next s)
      in if sim_next s < sim_limit s \<and> a \<noteq> nullptr \<and> a \<noteq> MAP_FAILED \<and> a \<notin> fst ` sim_maps s
         then (Inr a, s\<lparr>sim_next := Suc (sim_next s), sim_maps := insert (a, n) (sim_maps s)\<rparr>)
         else (Inl 12, s))"

definition sim_junk :: uninitialized where
  "sim_junk = \<lparr>junk_lock_count = 7, junk_cpu_write = 1, junk_import_pid = 0, junk_base = 8, junk_attr_base = 8\<rparr>"

definition sim_os :: "'a sim_scheme os" where
  "sim_os =
     \<lparr>os_getpid = sim_pid,
      os_mmap = (\<lambda>s n fd. sim_mmap s n),
      os_munmap = (\<lambda>s a n. ((a, n) \<in> sim_maps s, s\<lparr>sim_maps := sim_maps s - {(a, n)}\<rparr>)),
      os_dup = (\<lambda>s fd. sim_open s),
      os_close = (\<lambda>s fd. s\<lparr>sim_fds := sim_fds s - {fd}\<rparr>),
      os_new_handle = (\<lambda>s. (Some (of_nat (8 * sim_next s), sim_junk), s\<lparr>sim_next := Suc (sim_next s)\<rparr>)),
      os_delete_handle = (\<lambda>s. s),
      os_memfd_create = (\<lambda>s name. sim_open s),
      os_ftruncate = (\<lambda>s fd n. (0, s)),
      os_seal = (\<lambda>s fd. (0, s)),
      heap_alloc = (\<lambda>s name n. sim_open s),
      heap_sync_start = (\<lambda>s fd t. (0, s)),
      heap_sync_end = (\<lambda>s fd t. (0, s)),
      os_words = sim_words,
      os_set_words = (\<lambda>s a ws. s\<lparr>sim_words := (sim_words s)(a := ws)\<rparr>)\<rparr>"

lemma sim_documented: "os_documented sim_os sim_fds sim_maps"
proof -
  have o: "opens_fd sim_fds sim_maps s (sim_open s)" for s
  proof -
    have "0 \<le> sint (of_nat n :: i32)" if "n < 2 ^ 31" for n
      using that by (simp add: signed_of_nat signed_take_bit_int_eq_self)
    then show ?thesis
      by (auto simp: opens_fd_def sim_open_def Let_def not_le [symmetric])
  qed
  have m: "case sim_mmap s n of (Inl e, s') \<Rightarrow> keeps_resources sim_fds sim_maps s s'
      | (Inr a, s') \<Rightarrow> a \<noteq> nullptr \<and> a \<noteq> MAP_FAILED \<and> a \<notin> fst ` sim_maps s \<and>
          sim_fds s' = sim_fds s \<and> sim_maps s' = insert (a, n) (sim_maps s)" for s n
    by (simp add: sim_mmap_def Let_def keeps_resources_def)
  show ?thesis
    unfolding os_documented_def sim_os_def by (simp add: o m keeps_resources_def)
qed

end
