(* ===== verification/Buffer_Handle.thy ===== *)
theory Buffer_Handle
  imports Alloc_Derive Platform
begin

text \<open>
  Buffer handles (src/src/core/buffer.h and the constructor in src/src/core/buffer_access.cpp): the
  private handle that travels between processes, the imported handle of a process, the checked
  casts, and the cloning of the descriptors on import.
\<close>

section \<open>The two handles\<close>

datatype handle_type = raw | imported

text \<open>The order of the enumeration, which \<open>handle_cast\<close> compares.\<close>

primrec handle_type_value :: "handle_type \<Rightarrow> int" where
  "handle_type_value raw = 0"
| "handle_type_value imported = 1"

text \<open>
  The first three fields are those of \<open>native_handle\<close>. The fields \<open>base\<close> and \<open>offset\<close> of the
  private handle, which exist for other users of the layout only, are left out.
\<close>

record private_handle_t =
  version :: i32
  numFds :: i32
  numInts :: i32
  share_fd :: i32
  share_attr_fd :: i32
  magic :: i32
  h_width :: i32
  h_height :: i32
  req_format :: i32
  producer_usage :: u64
  consumer_usage :: u64
  stride :: i32
  alloc_format :: internal_format_t
  plane_info :: plane_layout
  h_size :: i32
  layer_count :: i32
  backing_store_id :: u64
  attr_size :: u64
  reserved_region_size :: u64
  h_type :: handle_type

record imported_handle = private_handle_t +
  lock_count :: i32
  cpu_write :: i32
  import_pid :: i32
  h_base :: ptr
  attr_base :: ptr

text \<open>
  On LP64 \<open>sizeof(native_handle)\<close> is 12 and \<open>sizeof(private_handle_t)\<close> is 176, so that
  \<open>PRIVATE_HANDLE_NUM_INTS\<close> is \<open>(176 - 12) / 4 - 2\<close>.
\<close>

definition sizeof_native_handle :: i32 where "sizeof_native_handle = 12"

definition sizeof_private_handle :: i32 where "sizeof_private_handle = 176"

definition PRIVATE_HANDLE_NUM_FDS :: i32 where "PRIVATE_HANDLE_NUM_FDS = 2"

definition PRIVATE_HANDLE_NUM_INTS :: i32 where
  "PRIVATE_HANDLE_NUM_INTS = (sizeof_private_handle - sizeof_native_handle) div 4 - PRIVATE_HANDLE_NUM_FDS"

definition sMagic :: i32 where "sMagic = 0x3141592"

lemmas handle_constants = sizeof_native_handle_def sizeof_private_handle_def PRIVATE_HANDLE_NUM_FDS_def
  PRIVATE_HANDLE_NUM_INTS_def sMagic_def

definition h_is_multi_plane :: "'a private_handle_t_scheme \<Rightarrow> bool" where
  "h_is_multi_plane h \<longleftrightarrow> alloc_width (plane_info h ! 1) \<noteq> 0"

section \<open>Checked casts\<close>

definition validate_handle :: "'a private_handle_t_scheme option \<Rightarrow> i32" where
  "validate_handle handle =
     (case handle of
        None \<Rightarrow> - EINVAL
      | Some h \<Rightarrow>
          if version h \<noteq> sizeof_native_handle \<or>
             (numFds h \<noteq> PRIVATE_HANDLE_NUM_FDS \<and> numFds h \<noteq> PRIVATE_HANDLE_NUM_FDS - 1) \<or>
             (numInts h \<noteq> PRIVATE_HANDLE_NUM_INTS \<and>
              numInts h \<noteq> (sizeof_private_handle - sizeof_native_handle) div 4 - numFds h) \<or>
             magic h \<noteq> sMagic
          then - EINVAL else 0)"

definition dynamicCast :: "'a private_handle_t_scheme option \<Rightarrow> 'a private_handle_t_scheme option" where
  "dynamicCast h = (if validate_handle h = 0 then h else None)"

definition handle_cast ::
  "handle_type \<Rightarrow> 'a private_handle_t_scheme option \<Rightarrow> 'a private_handle_t_scheme option" where
  "handle_cast T x =
     (case x of
        None \<Rightarrow> None
      | Some h \<Rightarrow>
          if version h \<noteq> sizeof_native_handle then None
          else if numFds h \<noteq> PRIVATE_HANDLE_NUM_FDS then None
          else if numInts h \<noteq> PRIVATE_HANDLE_NUM_INTS then None
          else if magic h \<noteq> sMagic then None
          else if handle_type_value (h_type h) < handle_type_value T then None
          else Some h)"

section \<open>Making handles\<close>

text \<open>
  The constructor of \<open>private_handle_t\<close> in memory of \<open>native_handle_create\<close>. The
  descriptor is closed by its owner if there is no memory.
\<close>

definition make_private_handle ::
  "'s os \<Rightarrow> 's \<Rightarrow> i32 \<Rightarrow> u64 \<Rightarrow> u64 \<Rightarrow> i32 \<Rightarrow> i32 \<Rightarrow> internal_format_t \<Rightarrow> i32 \<Rightarrow> i32 \<Rightarrow> i32 \<Rightarrow>
   plane_layout \<Rightarrow> i32 \<Rightarrow> private_handle_t option \<times> 's" where
  "make_private_handle Sys s sz consumer producer shared_fd required_format allocated_format width height
     layers planes line =
     (case os_new_handle Sys s of
        (None, s1) \<Rightarrow> (None, os_close Sys s1 shared_fd)
      | (Some _, s1) \<Rightarrow>
          (Some \<lparr>version = sizeof_native_handle, numFds = PRIVATE_HANDLE_NUM_FDS,
             numInts = PRIVATE_HANDLE_NUM_INTS, share_fd = shared_fd, share_attr_fd = - 1, magic = sMagic,
             h_width = width, h_height = height, req_format = required_format,
             producer_usage = producer, consumer_usage = consumer, stride = line,
             alloc_format = allocated_format, plane_info = planes, h_size = sz, layer_count = layers,
             backing_store_id = 0, attr_size = 0, reserved_region_size = 0, h_type = raw\<rparr>, s1))"

text \<open>\<open>native_handle_deleter\<close>: closes the first \<open>numFds\<close> descriptors and frees the memory.\<close>

definition native_handle_deleter :: "'s os \<Rightarrow> i32 list \<Rightarrow> 's \<Rightarrow> 's" where
  "native_handle_deleter Sys fds s = os_delete_handle Sys (fold (\<lambda>fd s. os_close Sys s fd) fds s)"

text \<open>
  The loop that clones the descriptors. \<open>done\<close> are those cloned so far, which is what
  \<open>numFds\<close> counts, so that an early return closes exactly these.
\<close>

primrec clone_fds :: "'s os \<Rightarrow> i32 list \<Rightarrow> i32 list \<Rightarrow> 's \<Rightarrow> i32 list option \<times> 's" where
  "clone_fds Sys [] cloned s = (Some cloned, s)"
| "clone_fds Sys (fd # fds) cloned s =
     (case os_dup Sys s fd of
        (r, s1) \<Rightarrow>
          if r = - 1 then (None, native_handle_deleter Sys cloned s1)
          else clone_fds Sys fds (cloned @ [r]) s1)"

text \<open>
  The shared portion is copied word by word. The fields of the imported part are not
  initialised: they are what the memory holds. (By the layout rules of LP64 compilers \<open>lock_count\<close>
  lies in the last copied word, which is padding of the private handle and just as arbitrary.)
\<close>

definition imported_copy ::
  "'a private_handle_t_scheme \<Rightarrow> i32 list \<Rightarrow> uninitialized \<Rightarrow> imported_handle" where
  "imported_copy h fds junk =
     private_handle_t.extend
       (private_handle_t.truncate h\<lparr>version := sizeof_native_handle, numFds := PRIVATE_HANDLE_NUM_FDS,
          numInts := PRIVATE_HANDLE_NUM_INTS, share_fd := fds ! 0, share_attr_fd := fds ! 1,
          h_type := imported\<rparr>)
       (imported_handle.fields (junk_lock_count junk) (junk_cpu_write junk) (junk_import_pid junk)
          (junk_base junk) (junk_attr_base junk))"

definition make_imported_handle ::
  "'s os \<Rightarrow> 'a private_handle_t_scheme \<Rightarrow> 's \<Rightarrow> (ptr \<times> imported_handle) option \<times> 's" where
  "make_imported_handle Sys raw_handle s =
     (case os_new_handle Sys s of
        (None, s1) \<Rightarrow> (None, s1)
      | (Some (p, junk), s1) \<Rightarrow>
          (case clone_fds Sys [share_fd raw_handle, share_attr_fd raw_handle] [] s1 of
             (None, s2) \<Rightarrow> (None, s2)
           | (Some fds, s2) \<Rightarrow> (Some (p, imported_copy raw_handle fds junk), s2)))"

section \<open>What a cast accepts\<close>

lemma handle_cast_eq_Some:
  "handle_cast T x = Some h \<longleftrightarrow>
     x = Some h \<and> version h = sizeof_native_handle \<and> numFds h = PRIVATE_HANDLE_NUM_FDS \<and>
     numInts h = PRIVATE_HANDLE_NUM_INTS \<and> magic h = sMagic \<and> (T = imported \<longrightarrow> h_type h = imported)"
  by (cases T; cases "h_type h") (auto simp: handle_cast_def split: option.splits)

lemma handle_cast_None [simp]: "handle_cast T None = None"
  by (simp add: handle_cast_def)

lemma dynamicCast_of_cast: "handle_cast T x = Some h \<Longrightarrow> dynamicCast x = Some h"
  by (auto simp: handle_cast_eq_Some dynamicCast_def validate_handle_def)

text \<open>The shared fields: everything but the descriptors and the type.\<close>

definition same_buffer :: "'a private_handle_t_scheme \<Rightarrow> 'b private_handle_t_scheme \<Rightarrow> bool" where
  "same_buffer g h \<longleftrightarrow>
     private_handle_t.truncate g\<lparr>share_fd := 0, share_attr_fd := 0, h_type := raw\<rparr> =
     private_handle_t.truncate h\<lparr>share_fd := 0, share_attr_fd := 0, h_type := raw\<rparr>"

lemma imported_copy_fields [simp]:
  "share_fd (imported_copy h fds junk) = fds ! 0" "share_attr_fd (imported_copy h fds junk) = fds ! 1"
  "version (imported_copy h fds junk) = sizeof_native_handle"
  "numFds (imported_copy h fds junk) = PRIVATE_HANDLE_NUM_FDS"
  "numInts (imported_copy h fds junk) = PRIVATE_HANDLE_NUM_INTS"
  "magic (imported_copy h fds junk) = magic h" "h_type (imported_copy h fds junk) = imported"
  "attr_size (imported_copy h fds junk) = attr_size h" "h_size (imported_copy h fds junk) = h_size h"
  "h_width (imported_copy h fds junk) = h_width h" "h_height (imported_copy h fds junk) = h_height h"
  "alloc_format (imported_copy h fds junk) = alloc_format h"
  "plane_info (imported_copy h fds junk) = plane_info h"
  "lock_count (imported_copy h fds junk) = junk_lock_count junk"
  by (simp_all add: imported_copy_def private_handle_t.defs imported_handle.defs)

lemma imported_copy_same:
  assumes "handle_cast T (Some h) = Some h"
  shows "same_buffer (imported_copy h fds junk) h"
  using assms by (simp add: handle_cast_eq_Some same_buffer_def imported_copy_def private_handle_t.defs
      imported_handle.defs)

text \<open>A private handle passes the checked cast to a private handle and not the cast to an imported
  one; its imported copy passes both and describes the same buffer.\<close>

theorem handle_casts:
  assumes "make_private_handle Sys s sz consumer producer fd format afmt w h layers planes line = (Some g, s')"
    and "make_imported_handle Sys g s' = (Some (p, i), s'')"
  shows "handle_cast raw (Some g) = Some g \<and> handle_cast imported (Some g) = None \<and>
    handle_cast raw (Some i) = Some i \<and> handle_cast imported (Some i) = Some i \<and>
    dynamicCast (Some g) = Some g \<and> same_buffer i g"
proof -
  have g: "handle_cast raw (Some g) = Some g" "h_type g = raw"
    using assms(1) by (auto simp: make_private_handle_def handle_cast_eq_Some split: prod.splits option.splits)
  obtain fds junk where i: "i = imported_copy g fds junk"
    using assms(2) by (auto simp: make_imported_handle_def split: prod.splits option.splits)
  have "handle_cast imported (Some g) = None"
    using g(2) by (simp add: handle_cast_def)
  moreover have "handle_cast T (Some i) = Some i" for T
    using g(1) by (simp add: handle_cast_eq_Some i)
  ultimately show ?thesis
    using g imported_copy_same [OF g(1)] dynamicCast_of_cast [OF g(1)] by (simp add: i)
qed

section \<open>Descriptors of the clone\<close>

lemma close_all_effect [os_facts]:
  assumes "os_documented Sys fds maps"
  shows "fds (native_handle_deleter Sys xs s) = fds s - set xs" "maps (native_handle_deleter Sys xs s) = maps s"
proof -
  have "fds (fold (\<lambda>fd s. os_close Sys s fd) xs s) = fds s - set xs \<and>
      maps (fold (\<lambda>fd s. os_close Sys s fd) xs s) = maps s" for s
    by (induction xs arbitrary: s) (auto simp: os_keeps [OF assms])
  then show "fds (native_handle_deleter Sys xs s) = fds s - set xs" "maps (native_handle_deleter Sys xs s) = maps s"
    by (simp_all add: native_handle_deleter_def os_keeps [OF assms])
qed

lemma clone_fds_effect:
  assumes "os_documented Sys fds maps" and "clone_fds Sys old cloned s = (r, s')"
    and "distinct cloned" and "set cloned \<subseteq> fds s"
  shows "maps s' = maps s \<and>
    (case r of None \<Rightarrow> fds s' = fds s - set cloned
     | Some new \<Rightarrow> \<exists>more. new = cloned @ more \<and> distinct new \<and> length more = length old \<and>
         set more \<inter> fds s = {} \<and> fds s' = fds s \<union> set more)"
  using assms(2-)
proof (induction old arbitrary: cloned s)
  case Nil
  then show ?case by auto
next
  case (Cons fd old)
  obtain x s1 where dup: "os_dup Sys s fd = (x, s1)"
    by fastforce
  note eff = opens_fd_cases [of fds maps s x s1, OF os_documentedD(1) [OF assms(1), of s fd, unfolded dup]]
  show ?case
  proof (cases "x = - 1")
    case True
    then have "r = None" "s' = native_handle_deleter Sys cloned s1"
      using Cons.prems(1) dup by auto
    with eff(1,2) True show ?thesis
      by (simp add: close_all_effect [OF assms(1)])
  next
    case False
    then have run: "clone_fds Sys old (cloned @ [x]) s1 = (r, s')"
      using Cons.prems(1) dup by simp
    have "distinct (cloned @ [x])" "set (cloned @ [x]) \<subseteq> fds s1"
      using Cons.prems(2,3) eff(4,5) False by auto
    note IH = Cons.IH [OF run this]
    show ?thesis
    proof (cases r)
      case None
      then show ?thesis
        using IH eff(1,4,5) False Cons.prems(3) by auto
    next
      case (Some new)
      then obtain more where "new = cloned @ x # more" "distinct new" "length more = length old"
        "set more \<inter> fds s1 = {}" "fds s' = fds s1 \<union> set more" "maps s' = maps s1"
        using IH by auto
      then show ?thesis
        using eff(1,4,5) False Some by (auto intro!: exI [of _ "x # more"])
    qed
  qed
qed

text \<open>Cloning a handle for import leaks no descriptor. If it fails, at whatever point, every descriptor that
  was cloned before is closed again; if it succeeds, exactly the two descriptors of the new handle
  have been opened, and they are distinct and new.\<close>

theorem import_clones_balanced:
  assumes "os_documented Sys fds maps" and "make_imported_handle Sys h s = (r, s')"
  shows "maps s' = maps s \<and>
    (case r of None \<Rightarrow> fds s' = fds s
     | Some (p, i) \<Rightarrow> fds s' = fds s \<union> {share_fd i, share_attr_fd i} \<and> share_fd i \<noteq> share_attr_fd i \<and>
         share_fd i \<notin> fds s \<and> share_attr_fd i \<notin> fds s)"
proof -
  obtain c s1 where new: "os_new_handle Sys s = (c, s1)"
    by fastforce
  have keep: "fds s1 = fds s" "maps s1 = maps s"
    using os_keeps(3,4) [OF assms(1), of s] new by simp_all
  obtain q s2 where clone: "clone_fds Sys [share_fd h, share_attr_fd h] [] s1 = (q, s2)"
    by fastforce
  have eff: "maps s2 = maps s1 \<and>
    (case q of None \<Rightarrow> fds s2 = fds s1 - set []
     | Some new \<Rightarrow> \<exists>more. new = [] @ more \<and> distinct new \<and> length more = length [share_fd h, share_attr_fd h] \<and>
         set more \<inter> fds s1 = {} \<and> fds s2 = fds s1 \<union> set more)"
    by (rule clone_fds_effect [OF assms(1) clone]) simp_all
  show ?thesis
  proof (cases "c = None \<or> q = None")
    case True
    then show ?thesis
      using assms(2) new clone eff keep
      by (auto simp: make_imported_handle_def split: option.splits prod.splits)
  next
    case False
    then obtain p junk new where c: "c = Some (p, junk)" "q = Some new"
      by auto
    with eff have "distinct new" "length new = 2" "set new \<inter> fds s1 = {}" "fds s2 = fds s1 \<union> set new"
      by auto
    moreover obtain a b where "new = [a, b]"
      using \<open>length new = 2\<close> by (auto simp: length_Suc_conv numeral_2_eq_2)
    ultimately show ?thesis
      using assms(2) new clone eff keep c
      by (auto simp: make_imported_handle_def)
  qed
qed

text \<open>The witnesses: a simulated system with room for both descriptors and one without.\<close>

definition sample_planes :: plane_layout where
  "sample_planes = [\<lparr>plane_offset = 0, byte_stride = 2560, alloc_width = 640, alloc_height = 480\<rparr>, no_plane, no_plane]"

definition sample_handle :: private_handle_t where
  "sample_handle = the (fst (make_private_handle sim_os sim_start 1228800 0 0 9 1 (from_private 1) 640 480 1 sample_planes 640))"

theorem handle_casts_witness:
  "handle_cast imported (Some sample_handle) = None \<and>
   (case make_imported_handle sim_os sample_handle sim_start of
      (None, s) \<Rightarrow> False | (Some (p, i), s) \<Rightarrow> handle_cast imported (Some i) = Some i)"
proof -
  obtain s' where g: "make_private_handle sim_os sim_start 1228800 0 0 9 1 (from_private 1) 640 480 1 sample_planes 640 =
      (Some sample_handle, s')"
    by (simp add: sample_handle_def make_private_handle_def sim_os_def)
  obtain p i s'' where i: "make_imported_handle sim_os sample_handle sim_start = (Some (p, i), s'')"
    by (simp add: make_imported_handle_def sim_os_def sim_open_def sim_start_def Let_def)
  obtain p' i' s3 where i': "make_imported_handle sim_os sample_handle s' = (Some (p', i'), s3)"
    using g by (auto simp: make_private_handle_def make_imported_handle_def sim_os_def sim_open_def sim_start_def Let_def)
  from handle_casts [OF g i'] have "handle_cast imported (Some sample_handle) = None" "magic sample_handle = sMagic"
    by (simp_all add: handle_cast_eq_Some)
  moreover from i obtain fds junk where "i = imported_copy sample_handle fds junk"
    by (auto simp: make_imported_handle_def split: prod.splits option.splits)
  ultimately show ?thesis
    using i by (simp add: handle_cast_eq_Some)
qed

theorem import_clones_balanced_witness:
  "fst (make_imported_handle sim_os sample_handle (sim_start\<lparr>sim_limit := 5\<rparr>)) = None \<and>
   sim_fds (snd (make_imported_handle sim_os sample_handle (sim_start\<lparr>sim_limit := 5\<rparr>))) = {}"
proof -
  let ?s = "sim_start\<lparr>sim_limit := 5\<rparr>"
  obtain s' where r: "make_imported_handle sim_os sample_handle ?s = (None, s')"
    by (simp add: make_imported_handle_def sim_os_def sim_open_def sim_start_def Let_def)
  have "sim_fds s' = sim_fds ?s"
    using import_clones_balanced [OF sim_documented r] by simp
  with r show ?thesis
    by (simp add: sim_start_def)
qed

end
