(* ===== verification/Drm_Utils.thy ===== *)
theory Drm_Utils
  imports Buffer_Handle
begin

text \<open>
  The description of a buffer for the display pipeline (src/src/core/drm_utils.cpp and
  src/src/mali_fourcc.h): the DRM fourcc of its base format and the 64-bit DRM modifier of its
  compression. A format code is the constructor named after its macro; its value is that of the
  external header drm_fourcc.h where the header has it, and the fallback of mali_fourcc.h otherwise.
\<close>

section \<open>Format codes\<close>

datatype drm_format =
    DRM_INVALID | DRM_R8 | DRM_R16 | DRM_RGB565 | DRM_BGR565 | DRM_RGB888 | DRM_BGR888
  | DRM_ARGB8888 | DRM_ABGR8888 | DRM_XBGR8888 | DRM_ABGR2101010 | DRM_ABGR16161616F
  | DRM_AXBXGXRX106106106106 | DRM_YVU420 | DRM_YUV420 | DRM_NV12 | DRM_NV15 | DRM_NV30
  | DRM_NV16 | DRM_NV24 | DRM_NV21 | DRM_Y0L2 | DRM_Y210 | DRM_P010 | DRM_P210 | DRM_Y410
  | DRM_YUV444 | DRM_Q410 | DRM_Q401 | DRM_YUYV | DRM_YUV420_8BIT | DRM_YUV420_10BIT

text \<open>
  The header: which macros it defines, and \<open>fourcc_code\<close>, with which mali_fourcc.h spells its own.
\<close>

record drm_header =
  hdr_value :: "drm_format \<Rightarrow> u32 option"
  hdr_fourcc_code :: "char \<Rightarrow> char \<Rightarrow> char \<Rightarrow> char \<Rightarrow> u32"

definition mali_fourcc :: "drm_header \<Rightarrow> drm_format \<Rightarrow> u32 option" where
  "mali_fourcc hdr f =
     (case f of
        DRM_INVALID \<Rightarrow> Some 0
      | DRM_P010 \<Rightarrow> Some (hdr_fourcc_code hdr CHR ''P'' CHR ''0'' CHR ''1'' CHR ''0'')
      | DRM_Y0L2 \<Rightarrow> Some (hdr_fourcc_code hdr CHR ''Y'' CHR ''0'' CHR ''L'' CHR ''2'')
      | DRM_P210 \<Rightarrow> Some (hdr_fourcc_code hdr CHR ''P'' CHR ''2'' CHR ''1'' CHR ''0'')
      | DRM_Y210 \<Rightarrow> Some (hdr_fourcc_code hdr CHR ''Y'' CHR ''2'' CHR ''1'' CHR ''0'')
      | DRM_Y410 \<Rightarrow> Some (hdr_fourcc_code hdr CHR ''Y'' CHR ''4'' CHR ''1'' CHR ''0'')
      | DRM_YUV420_8BIT \<Rightarrow> Some (hdr_fourcc_code hdr CHR ''Y'' CHR ''U'' CHR ''0'' CHR ''8'')
      | DRM_YUV420_10BIT \<Rightarrow> Some (hdr_fourcc_code hdr CHR ''Y'' CHR ''U'' CHR ''1'' CHR ''0'')
      | DRM_ABGR16161616F \<Rightarrow> Some (hdr_fourcc_code hdr CHR ''A'' CHR ''B'' CHR ''4'' CHR ''H'')
      | DRM_AXBXGXRX106106106106 \<Rightarrow> Some (hdr_fourcc_code hdr CHR ''A'' CHR ''B'' CHR ''1'' CHR ''0'')
      | DRM_R16 \<Rightarrow> Some (hdr_fourcc_code hdr CHR ''R'' CHR ''1'' CHR ''6'' CHR '' '')
      | DRM_Q410 \<Rightarrow> Some (hdr_fourcc_code hdr CHR ''Q'' CHR ''4'' CHR ''1'' CHR ''0'')
      | DRM_Q401 \<Rightarrow> Some (hdr_fourcc_code hdr CHR ''Q'' CHR ''4'' CHR ''0'' CHR ''1'')
      | DRM_NV15 \<Rightarrow> Some (hdr_fourcc_code hdr CHR ''N'' CHR ''V'' CHR ''1'' CHR ''5'')
      | _ \<Rightarrow> None)"

text \<open>A macro that neither header defines does not compile; the model then uses 0.\<close>

definition drm_value :: "drm_header \<Rightarrow> drm_format \<Rightarrow> u32" where
  "drm_value hdr f =
     (case hdr_value hdr f of
        Some v \<Rightarrow> v
      | None \<Rightarrow> (case mali_fourcc hdr f of Some v \<Rightarrow> v | None \<Rightarrow> 0))"

text \<open>What is documented of the codes: they are distinct, and the invalid code is 0.\<close>

definition drm_documented :: "drm_header \<Rightarrow> bool" where
  "drm_documented hdr \<longleftrightarrow> inj (drm_value hdr) \<and> drm_value hdr DRM_INVALID = 0"

section \<open>Modifier fields\<close>

definition DRM_FORMAT_MOD_GENERIC_16_16_TILE :: u64 where
  "DRM_FORMAT_MOD_GENERIC_16_16_TILE = push_bit 56 0x04 OR (2 AND 0x00ffffffffffffff)"

definition DRM_FORMAT_MOD_VENDOR_ARM :: u64 where "DRM_FORMAT_MOD_VENDOR_ARM = 0x08"

definition fourcc_mod_code :: "u64 \<Rightarrow> u64 \<Rightarrow> u64" where
  "fourcc_mod_code vendor val = push_bit 56 vendor OR (val AND 0x00ffffffffffffff)"

definition DRM_FORMAT_MOD_ARM_AFBC :: "u64 \<Rightarrow> u64" where
  "DRM_FORMAT_MOD_ARM_AFBC afbc_mode = fourcc_mod_code DRM_FORMAT_MOD_VENDOR_ARM afbc_mode"

definition AFBC_FORMAT_MOD_BLOCK_SIZE_16x16 :: u64 where "AFBC_FORMAT_MOD_BLOCK_SIZE_16x16 = 1"
definition AFBC_FORMAT_MOD_BLOCK_SIZE_32x8 :: u64 where "AFBC_FORMAT_MOD_BLOCK_SIZE_32x8 = 2"
definition AFBC_FORMAT_MOD_BLOCK_SIZE_64x4 :: u64 where "AFBC_FORMAT_MOD_BLOCK_SIZE_64x4 = 3"
definition AFBC_FORMAT_MOD_BLOCK_SIZE_32x8_64x4 :: u64 where "AFBC_FORMAT_MOD_BLOCK_SIZE_32x8_64x4 = 4"
definition AFBC_FORMAT_MOD_BLOCK_SIZE_MASK :: u64 where "AFBC_FORMAT_MOD_BLOCK_SIZE_MASK = 0xf"
definition AFBC_FORMAT_MOD_YTR :: u64 where "AFBC_FORMAT_MOD_YTR = push_bit 4 1"
definition AFBC_FORMAT_MOD_SPLIT :: u64 where "AFBC_FORMAT_MOD_SPLIT = push_bit 5 1"
definition AFBC_FORMAT_MOD_SPARSE :: u64 where "AFBC_FORMAT_MOD_SPARSE = push_bit 6 1"
definition AFBC_FORMAT_MOD_TILED :: u64 where "AFBC_FORMAT_MOD_TILED = push_bit 8 1"
definition AFBC_FORMAT_MOD_SC :: u64 where "AFBC_FORMAT_MOD_SC = push_bit 9 1"
definition AFBC_FORMAT_MOD_DB :: u64 where "AFBC_FORMAT_MOD_DB = push_bit 10 1"
definition AFBC_FORMAT_MOD_BCH :: u64 where "AFBC_FORMAT_MOD_BCH = push_bit 11 1"
definition AFBC_FORMAT_MOD_USM :: u64 where "AFBC_FORMAT_MOD_USM = push_bit 12 1"

definition DRM_FORMAT_MOD_ARM_CODE :: "u64 \<Rightarrow> u64 \<Rightarrow> u64" where
  "DRM_FORMAT_MOD_ARM_CODE type val =
     fourcc_mod_code DRM_FORMAT_MOD_VENDOR_ARM (push_bit 52 type OR (val AND 0x000fffffffffffff))"

definition DRM_FORMAT_MOD_ARM_TYPE_AFRC :: u64 where "DRM_FORMAT_MOD_ARM_TYPE_AFRC = 2"

definition DRM_FORMAT_MOD_ARM_AFRC :: "u64 \<Rightarrow> u64" where
  "DRM_FORMAT_MOD_ARM_AFRC afrc_mode = DRM_FORMAT_MOD_ARM_CODE DRM_FORMAT_MOD_ARM_TYPE_AFRC afrc_mode"

definition AFRC_FORMAT_MOD_LAYOUT_SCAN :: u64 where "AFRC_FORMAT_MOD_LAYOUT_SCAN = push_bit 8 1"
definition AFRC_FORMAT_MOD_CU_SIZE_MASK :: u64 where "AFRC_FORMAT_MOD_CU_SIZE_MASK = 0xf"
definition AFRC_FORMAT_MOD_CU_SIZE_16 :: u64 where "AFRC_FORMAT_MOD_CU_SIZE_16 = 1"
definition AFRC_FORMAT_MOD_CU_SIZE_24 :: u64 where "AFRC_FORMAT_MOD_CU_SIZE_24 = 2"
definition AFRC_FORMAT_MOD_CU_SIZE_32 :: u64 where "AFRC_FORMAT_MOD_CU_SIZE_32 = 3"

definition AFRC_FORMAT_MOD_CU_SIZE_P0 :: "u64 \<Rightarrow> u64" where
  "AFRC_FORMAT_MOD_CU_SIZE_P0 cu = cu"

definition AFRC_FORMAT_MOD_CU_SIZE_P12 :: "u64 \<Rightarrow> u64" where
  "AFRC_FORMAT_MOD_CU_SIZE_P12 cu = push_bit 4 cu"

section \<open>The format table\<close>

datatype format_colormodel = rgb | yuv

definition drm_rows :: "(mali_gralloc_pixel_format \<times> drm_format \<times> format_colormodel) list" where
  "drm_rows =
     [(FMT_RAW16, DRM_R16, rgb),
      (FMT_RGBA_8888, DRM_ABGR8888, rgb),
      (FMT_BGRA_8888, DRM_ARGB8888, rgb),
      (FMT_RGB_565, DRM_RGB565, rgb),
      (FMT_RGBX_8888, DRM_XBGR8888, rgb),
      (FMT_RGB_888, DRM_BGR888, rgb),
      (FMT_BGR_888, DRM_RGB888, rgb),
      (FMT_RGBA_1010102, DRM_ABGR2101010, rgb),
      (FMT_RGBA_16161616, DRM_ABGR16161616F, rgb),
      (FMT_RGBA_10101010, DRM_AXBXGXRX106106106106, rgb),
      (FMT_YV12, DRM_YVU420, yuv),
      (FMT_YU12, DRM_YUV420, yuv),
      (FMT_NV12, DRM_NV12, yuv),
      (FMT_NV15, DRM_NV15, yuv),
      (FMT_NV30, DRM_NV30, yuv),
      (FMT_NV16, DRM_NV16, yuv),
      (FMT_NV24, DRM_NV24, yuv),
      (FMT_NV21, DRM_NV21, yuv),
      (FMT_Y0L2, DRM_Y0L2, yuv),
      (FMT_Y210, DRM_Y210, yuv),
      (FMT_P010, DRM_P010, yuv),
      (FMT_P210, DRM_P210, yuv),
      (FMT_Y410, DRM_Y410, yuv),
      (FMT_YUV444, DRM_YUV444, yuv),
      (FMT_Q410, DRM_Q410, yuv),
      (FMT_Q401, DRM_Q401, yuv),
      (FMT_YUV422_8BIT, DRM_YUYV, yuv),
      (FMT_YUV420_8BIT_I, DRM_YUV420_8BIT, yuv),
      (FMT_YUV420_10BIT_I, DRM_YUV420_10BIT, yuv),
      (FMT_R8, DRM_R8, rgb),
      (FMT_STENCIL_8, DRM_R8, rgb),
      (FMT_DEPTH_16, DRM_RGB565, rgb),
      (FMT_DEPTH_24, DRM_BGR888, rgb),
      (FMT_DEPTH_24_STENCIL_8, DRM_BGR888, rgb),
      (FMT_DEPTH_32F, DRM_ABGR8888, rgb),
      (FMT_DEPTH_32F_STENCIL_8, DRM_ABGR8888, rgb)]"

text \<open>The key of the last row is a constant of the platform, not an internal format.\<close>

definition drm_table :: "hal_env \<Rightarrow> (u32 \<times> drm_format \<times> format_colormodel) list" where
  "drm_table H = map (\<lambda>(f, row). (fmt_value H f, row)) drm_rows @ [(H HAL_YCBCR_P010, DRM_P010, yuv)]"

definition drm_find :: "hal_env \<Rightarrow> u32 \<Rightarrow> (drm_format \<times> format_colormodel) option" where
  "drm_find H base = map_of (drm_table H) base"

definition drm_fourcc_from_handle ::
  "hal_env \<Rightarrow> drm_header \<Rightarrow> 'a private_handle_t_scheme \<Rightarrow> u32" where
  "drm_fourcc_from_handle H hdr hnd =
     (let base_format = get_base (alloc_format hnd)
      in case drm_find H base_format of
           None \<Rightarrow> drm_value hdr DRM_INVALID
         | Some (fourcc, _) \<Rightarrow>
             if is_afbc (alloc_format hnd) \<and> base_format = fmt_value H FMT_RGB_565
             then drm_value hdr DRM_BGR565
             else drm_value hdr fourcc)"

section \<open>Modifiers\<close>

text \<open>The three cases of each switch over a coding size; a fourth value adds nothing.\<close>

definition afrc_cu_size :: "u32 \<Rightarrow> u64" where
  "afrc_cu_size sz =
     (if sz = MALI_GRALLOC_INTFMT_AFRC_CODING_UNIT_BYTES_32 then AFRC_FORMAT_MOD_CU_SIZE_32
      else if sz = MALI_GRALLOC_INTFMT_AFRC_CODING_UNIT_BYTES_24 then AFRC_FORMAT_MOD_CU_SIZE_24
      else if sz = MALI_GRALLOC_INTFMT_AFRC_CODING_UNIT_BYTES_16 then AFRC_FORMAT_MOD_CU_SIZE_16
      else 0)"

definition get_afrc_modifier_tags :: "hal_env \<Rightarrow> 'a private_handle_t_scheme \<Rightarrow> u64" where
  "get_afrc_modifier_tags H hnd =
     (let f = alloc_format hnd
      in if \<not> is_afrc f then 0
         else case drm_find H (get_base f) of
           None \<Rightarrow> 0
         | Some (_, colormodel) \<Rightarrow>
             let scan = (if \<not> get_afrc_rot_layout f then AFRC_FORMAT_MOD_LAYOUT_SCAN else 0);
                 sizes =
                   (if colormodel = yuv \<and> h_is_multi_plane hnd
                    then AFRC_FORMAT_MOD_CU_SIZE_P0 (afrc_cu_size (get_afrc_luma_coding_size f)) OR
                         AFRC_FORMAT_MOD_CU_SIZE_P12 (afrc_cu_size (get_afrc_chroma_coding_size f))
                    else AFRC_FORMAT_MOD_CU_SIZE_P0 (afrc_cu_size (get_afrc_rgba_coding_size f)))
             in DRM_FORMAT_MOD_ARM_AFRC (scan OR sizes))"

definition mod_if :: "bool \<Rightarrow> u64 \<Rightarrow> u64" where
  "mod_if b flag = (if b then flag else 0)"

definition afbc_solid_color :: "hal_env \<Rightarrow> internal_format_t \<Rightarrow> bool" where
  "afbc_solid_color H f =
     (case get_base_info H f of None \<Rightarrow> False | Some info \<Rightarrow> \<not> is_yuv info \<and> bpp_afbc info ! 0 \<le> 64)"

definition afbc_block_size :: "'a private_handle_t_scheme \<Rightarrow> u64" where
  "afbc_block_size hnd =
     (if get_afbc_32x8 (alloc_format hnd)
      then (if h_is_multi_plane hnd then AFBC_FORMAT_MOD_BLOCK_SIZE_32x8_64x4 else AFBC_FORMAT_MOD_BLOCK_SIZE_32x8)
      else if get_afbc_64x4 (alloc_format hnd) then AFBC_FORMAT_MOD_BLOCK_SIZE_64x4
      else AFBC_FORMAT_MOD_BLOCK_SIZE_16x16)"

definition get_afbc_modifier_tags :: "hal_env \<Rightarrow> 'a private_handle_t_scheme \<Rightarrow> u64" where
  "get_afbc_modifier_tags H hnd =
     (let f = alloc_format hnd
      in if \<not> is_afbc f then 0
         else DRM_FORMAT_MOD_ARM_AFBC
           (mod_if (get_afbc_block_split f) AFBC_FORMAT_MOD_SPLIT OR
            mod_if (get_afbc_tiled_headers f) AFBC_FORMAT_MOD_TILED OR
            mod_if (get_afbc_tiled_headers f \<and> afbc_solid_color H f) AFBC_FORMAT_MOD_SC OR
            mod_if (get_afbc_double_body f) AFBC_FORMAT_MOD_DB OR
            mod_if (get_afbc_bch f) AFBC_FORMAT_MOD_BCH OR
            mod_if (get_afbc_yuv_transform f) AFBC_FORMAT_MOD_YTR OR
            mod_if (get_afbc_sparse f) AFBC_FORMAT_MOD_SPARSE OR
            mod_if (get_afbc_usm f) AFBC_FORMAT_MOD_USM OR
            afbc_block_size hnd))"

definition drm_modifier_from_handle :: "hal_env \<Rightarrow> 'a private_handle_t_scheme \<Rightarrow> u64" where
  "drm_modifier_from_handle H hnd =
     (if is_afbc (alloc_format hnd) then get_afbc_modifier_tags H hnd
      else if is_afrc (alloc_format hnd) then get_afrc_modifier_tags H hnd
      else if is_block_linear (alloc_format hnd) then DRM_FORMAT_MOD_GENERIC_16_16_TILE
      else 0)"

section \<open>The fields of an AFBC modifier\<close>

lemmas afbc_mod_flags = AFBC_FORMAT_MOD_YTR_def AFBC_FORMAT_MOD_SPLIT_def AFBC_FORMAT_MOD_SPARSE_def
  AFBC_FORMAT_MOD_TILED_def AFBC_FORMAT_MOD_SC_def AFBC_FORMAT_MOD_DB_def AFBC_FORMAT_MOD_BCH_def AFBC_FORMAT_MOD_USM_def

lemmas afbc_block_sizes = AFBC_FORMAT_MOD_BLOCK_SIZE_16x16_def AFBC_FORMAT_MOD_BLOCK_SIZE_32x8_def
  AFBC_FORMAT_MOD_BLOCK_SIZE_64x4_def AFBC_FORMAT_MOD_BLOCK_SIZE_32x8_64x4_def

lemma bit_mod_if [simp]: "bit (mod_if b (push_bit k 1)) n \<longleftrightarrow> b \<and> k < 64 \<and> n = k"
  by (auto simp: mod_if_def bit_exp_iff push_bit_of_1)

lemma afbc_block_size_small: "afbc_block_size hnd \<le> 4"
  by (simp add: afbc_block_size_def afbc_block_sizes)

lemma small_bits:
  assumes "x \<le> (15 :: u64)" and "4 \<le> n"
  shows "\<not> bit x n"
proof -
  have "unat x < 2 ^ 4"
    using assms(1) by (simp add: word_le_nat_alt)
  then have "unat x < 2 ^ n"
    using assms(2) by (meson less_le_trans one_le_numeral power_increasing)
  then have "\<not> bit (unat x) n"
    by (simp add: bit_iff_odd)
  then show ?thesis
    by (simp add: bit_unsigned_iff)
qed

lemma mask_56:
  "bit (0x00ffffffffffffff :: u64) n \<longleftrightarrow> n < 56" "bit (0x00ffffffffffffff :: int) n \<longleftrightarrow> n < 56"
proof -
  have "(0x00ffffffffffffff :: u64) = mask 56" "(0x00ffffffffffffff :: int) = mask 56"
    by (simp_all add: mask_eq_exp_minus_1)
  then show "bit (0x00ffffffffffffff :: u64) n \<longleftrightarrow> n < 56" "bit (0x00ffffffffffffff :: int) n \<longleftrightarrow> n < 56"
    by (simp_all only: bit_mask_iff) auto
qed

lemma bit_afbc_modifier:
  assumes "is_afbc (alloc_format hnd)"
  shows "bit (drm_modifier_from_handle H hnd) n \<longleftrightarrow>
    n = 59 \<or> n < 4 \<and> bit (afbc_block_size hnd) n \<or>
    n = 4 \<and> get_afbc_yuv_transform (alloc_format hnd) \<or> n = 5 \<and> get_afbc_block_split (alloc_format hnd) \<or>
    n = 6 \<and> get_afbc_sparse (alloc_format hnd) \<or> n = 8 \<and> get_afbc_tiled_headers (alloc_format hnd) \<or>
    n = 9 \<and> get_afbc_tiled_headers (alloc_format hnd) \<and> afbc_solid_color H (alloc_format hnd) \<or>
    n = 10 \<and> get_afbc_double_body (alloc_format hnd) \<or> n = 11 \<and> get_afbc_bch (alloc_format hnd) \<or>
    n = 12 \<and> get_afbc_usm (alloc_format hnd)"
proof -
  have "afbc_block_size hnd \<le> 15"
    using afbc_block_size_small [of hnd] by (rule order_trans) simp
  then have blk: "n < 4" if "bit (afbc_block_size hnd) n"
    using small_bits [of "afbc_block_size hnd" n] that by (meson not_le)
  have v: "bit (push_bit 56 DRM_FORMAT_MOD_VENDOR_ARM) n \<longleftrightarrow> n = 59"
  proof -
    have "push_bit 56 DRM_FORMAT_MOD_VENDOR_ARM = (push_bit 59 1 :: u64)"
      by (simp add: DRM_FORMAT_MOD_VENDOR_ARM_def)
    then show ?thesis
      by (simp only: push_bit_of_1 bit_exp_iff) auto
  qed
  show ?thesis
    using assms
    by (simp add: drm_modifier_from_handle_def get_afbc_modifier_tags_def Let_def DRM_FORMAT_MOD_ARM_AFBC_def
        fourcc_mod_code_def bit_or_iff bit_and_iff v mask_56 afbc_mod_flags del: push_bit_of_1) (auto dest: blk)
qed


text \<open>Which bit stands for which feature.\<close>

definition afbc_feature_bits :: "hal_env \<Rightarrow> internal_format_t \<Rightarrow> (nat \<times> bool) list" where
  "afbc_feature_bits H f =
     [(4, get_afbc_yuv_transform f), (5, get_afbc_block_split f), (6, get_afbc_sparse f),
      (8, get_afbc_tiled_headers f), (9, get_afbc_tiled_headers f \<and> afbc_solid_color H f),
      (10, get_afbc_double_body f), (11, get_afbc_bch f), (12, get_afbc_usm f)]"

text \<open>C33: the DRM modifier of an AFBC buffer says exactly how it is compressed: the vendor is Arm, the
  low four bits are the superblock size, each feature of the format has its own bit, the solid-colour bit
  accompanies tiled headers of RGB formats of at most 64 bits, and no other bit is set.\<close>

theorem afbc_modifier_fields:
  assumes "is_afbc (alloc_format hnd)"
  shows "drop_bit 56 (drm_modifier_from_handle H hnd) = DRM_FORMAT_MOD_VENDOR_ARM \<and>
    drm_modifier_from_handle H hnd AND AFBC_FORMAT_MOD_BLOCK_SIZE_MASK = afbc_block_size hnd \<and>
    {n. 4 \<le> n \<and> n < 56 \<and> bit (drm_modifier_from_handle H hnd) n} =
      {n. (n, True) \<in> set (afbc_feature_bits H (alloc_format hnd))}"
proof (intro conjI)
  note bits = bit_afbc_modifier [OF assms, of H]
  have small: "afbc_block_size hnd \<le> 15"
    using afbc_block_size_small [of hnd] by (rule order_trans) simp
  show "drop_bit 56 (drm_modifier_from_handle H hnd) = DRM_FORMAT_MOD_VENDOR_ARM"
  proof (rule bit_word_eqI)
    fix n
    have arm: "DRM_FORMAT_MOD_VENDOR_ARM = push_bit 3 1"
      by (simp add: DRM_FORMAT_MOD_VENDOR_ARM_def)
    have "bit DRM_FORMAT_MOD_VENDOR_ARM n \<longleftrightarrow> n = 3"
      unfolding arm by (simp only: push_bit_of_1 bit_exp_iff) auto
    then show "bit (drop_bit 56 (drm_modifier_from_handle H hnd)) n = bit DRM_FORMAT_MOD_VENDOR_ARM n"
      by (simp add: bit_drop_bit_eq bits)
  qed
  show "drm_modifier_from_handle H hnd AND AFBC_FORMAT_MOD_BLOCK_SIZE_MASK = afbc_block_size hnd"
  proof (rule bit_word_eqI)
    fix n
    have four: "AFBC_FORMAT_MOD_BLOCK_SIZE_MASK = mask 4"
      by (simp add: AFBC_FORMAT_MOD_BLOCK_SIZE_MASK_def mask_eq_exp_minus_1)
    have "bit AFBC_FORMAT_MOD_BLOCK_SIZE_MASK n \<longleftrightarrow> n < 4"
      unfolding four by (simp only: bit_mask_iff) auto
    then show "bit (drm_modifier_from_handle H hnd AND AFBC_FORMAT_MOD_BLOCK_SIZE_MASK) n = bit (afbc_block_size hnd) n"
      using small_bits [OF small, of n] by (auto simp: bit_and_iff bits not_less [symmetric])
  qed
  show "{n. 4 \<le> n \<and> n < 56 \<and> bit (drm_modifier_from_handle H hnd) n} =
      {n. (n, True) \<in> set (afbc_feature_bits H (alloc_format hnd))}"
  proof (rule Collect_cong)
    fix n :: nat
    consider "n < 4" | "n = 4" | "n = 5" | "n = 6" | "n = 7" | "n = 8" | "n = 9" | "n = 10" | "n = 11" | "n = 12" | "12 < n"
      by linarith
    then show "4 \<le> n \<and> n < 56 \<and> bit (drm_modifier_from_handle H hnd) n \<longleftrightarrow>
        (n, True) \<in> set (afbc_feature_bits H (alloc_format hnd))"
      by cases (simp_all add: bits afbc_feature_bits_def)
  qed
qed


definition sample_afbc :: private_handle_t where
  "sample_afbc = sample_handle\<lparr>alloc_format := set_afbc_sparse True (set_modifier MALI_GRALLOC_INTFMT_AFBC_BASIC True
     (alloc_format sample_handle))\<rparr>"

theorem afbc_modifier_fields_witness:
  "drop_bit 56 (drm_modifier_from_handle hal_sample sample_afbc) = DRM_FORMAT_MOD_VENDOR_ARM"
proof -
  have "is_afbc (alloc_format sample_afbc)"
    by (simp add: sample_afbc_def accessor_defs)
  from afbc_modifier_fields [OF this, of hal_sample] show ?thesis
    by (rule conjunct1)
qed

section \<open>Fourccs\<close>

lemma map_of_rows_inj:
  assumes "inj g" and "(f, r) \<in> set rows" and "distinct (map fst rows)"
  shows "map_of (map (\<lambda>(f, r). (g f, r)) rows) (g f) = Some r"
proof -
  have "distinct (map fst (map (\<lambda>(f, r). (g f, r)) rows))"
    using assms(1,3) by (auto simp: distinct_map inj_on_def split_def)
  moreover have "(g f, r) \<in> set (map (\<lambda>(f, r). (g f, r)) rows)"
    using assms(2) by force
  ultimately show ?thesis
    by simp
qed

lemma map_of_rows_None:
  "inj g \<Longrightarrow> f \<notin> fst ` set rows \<Longrightarrow> map_of (map (\<lambda>(f, r). (g f, r)) rows) (g f) = None"
  by (auto simp: map_of_eq_None_iff inj_eq image_iff split: prod.splits)

text \<open>The row of an internal format. (P010 of the platform is not an internal format.)\<close>

lemma drm_find_internal:
  assumes "hal_documented H" and "H HAL_YCBCR_P010 \<noteq> fmt_value H f"
  shows "drm_find H (fmt_value H f) = map_of drm_rows f"
proof -
  have inj: "inj (fmt_value H)"
    by (rule injI) (simp add: fmt_value_inj [OF assms(1)])
  have d: "distinct (map fst drm_rows)"
    by (simp add: drm_rows_def)
  have "map_of (map (\<lambda>(f, row). (fmt_value H f, row)) drm_rows) (fmt_value H f) = map_of drm_rows f"
  proof (cases "map_of drm_rows f")
    case None
    then have "f \<notin> fst ` set drm_rows"
      using map_of_eq_None_iff [of drm_rows f] by blast
    then show ?thesis
      using map_of_rows_None [OF inj, of f drm_rows] None by simp
  next
    case (Some r)
    then show ?thesis
      using map_of_rows_inj [OF inj map_of_SomeD [OF Some] d] by simp
  qed
  then show ?thesis
    using assms(2) by (simp add: drm_find_def drm_table_def map_add_def split: option.split)
qed

text \<open>The formats without a code, and those that borrow the code of a colour format.\<close>

definition no_fourcc :: "mali_gralloc_pixel_format list" where
  "no_fourcc = [FMT_UNDEFINED, FMT_RAW12, FMT_RAW10, FMT_RAW_OPAQUE, FMT_BLOB, FMT_Y8, FMT_Y16]"

definition borrowed_fourcc :: "mali_gralloc_pixel_format list" where
  "borrowed_fourcc = [FMT_STENCIL_8, FMT_DEPTH_16, FMT_DEPTH_24, FMT_DEPTH_24_STENCIL_8, FMT_DEPTH_32F, FMT_DEPTH_32F_STENCIL_8]"

lemma drm_rows_None: "map_of drm_rows f = None \<longleftrightarrow> f \<in> set no_fourcc"
  by (cases f) (simp_all add: drm_rows_def no_fourcc_def)

lemma drm_rows_not_invalid: "map_of drm_rows f = Some (d, c) \<Longrightarrow> d \<noteq> DRM_INVALID \<and> d \<noteq> DRM_BGR565"
  by (cases f) (auto simp: drm_rows_def)

lemma drm_rows_colour_inj:
  assumes "map_of drm_rows f = Some (d, c)" "map_of drm_rows g = Some (d, c')"
    "f \<notin> set borrowed_fourcc" "g \<notin> set borrowed_fourcc"
  shows "f = g"
proof -
  have "distinct (map (fst \<circ> snd) (filter (\<lambda>(f, _). f \<notin> set borrowed_fourcc) drm_rows))"
    by (simp add: drm_rows_def borrowed_fourcc_def)
  then have "inj_on (fst \<circ> snd) (set (filter (\<lambda>(f, _). f \<notin> set borrowed_fourcc) drm_rows))"
    by (simp add: distinct_map)
  from inj_onD [OF this, of "(f, d, c)" "(g, d, c')"] show ?thesis
    using assms by (simp add: map_of_SomeD)
qed


text \<open>A header that has none of the macros of mali_fourcc.h, with the usual packing of the four characters.\<close>

definition sample_fourcc :: "char \<Rightarrow> char \<Rightarrow> char \<Rightarrow> char \<Rightarrow> u32" where
  "sample_fourcc a b c d =
     of_char a OR push_bit 8 (of_char b) OR push_bit 16 (of_char c) OR push_bit 24 (of_char d)"

definition sample_codes :: "(drm_format \<times> string) list" where
  "sample_codes =
     [(DRM_R8, ''R8  ''), (DRM_RGB565, ''RG16''), (DRM_BGR565, ''BG16''), (DRM_RGB888, ''RG24''),
      (DRM_BGR888, ''BG24''), (DRM_ARGB8888, ''AR24''), (DRM_ABGR8888, ''AB24''), (DRM_XBGR8888, ''XB24''),
      (DRM_ABGR2101010, ''AB30''), (DRM_YVU420, ''YV12''), (DRM_YUV420, ''YU12''), (DRM_NV12, ''NV12''),
      (DRM_NV30, ''NV30''), (DRM_NV16, ''NV16''), (DRM_NV24, ''NV24''), (DRM_NV21, ''NV21''),
      (DRM_YUV444, ''YU24''), (DRM_YUYV, ''YUYV'')]"

definition sample_header :: drm_header where
  "sample_header =
     \<lparr>hdr_value = (\<lambda>f. case map_of sample_codes f of Some [a, b, c, d] \<Rightarrow> Some (sample_fourcc a b c d) | _ \<Rightarrow> None),
      hdr_fourcc_code = sample_fourcc\<rparr>"

definition all_drm_formats :: "drm_format list" where
  "all_drm_formats =
     [DRM_INVALID, DRM_R8, DRM_R16, DRM_RGB565, DRM_BGR565, DRM_RGB888, DRM_BGR888,
      DRM_ARGB8888, DRM_ABGR8888, DRM_XBGR8888, DRM_ABGR2101010, DRM_ABGR16161616F,
      DRM_AXBXGXRX106106106106, DRM_YVU420, DRM_YUV420, DRM_NV12, DRM_NV15, DRM_NV30,
      DRM_NV16, DRM_NV24, DRM_NV21, DRM_Y0L2, DRM_Y210, DRM_P010, DRM_P210, DRM_Y410,
      DRM_YUV444, DRM_Q410, DRM_Q401, DRM_YUYV, DRM_YUV420_8BIT, DRM_YUV420_10BIT]"

lemma sample_header_values:
  "distinct (map (drm_value sample_header) all_drm_formats)" "drm_value sample_header DRM_INVALID = 0"
  by code_simp+

lemma sample_header_documented: "drm_documented sample_header"
proof -
  have "f \<in> set all_drm_formats" for f
    by (cases f) (simp_all add: all_drm_formats_def)
  then have "UNIV = set all_drm_formats"
    by auto
  then show ?thesis
    using sample_header_values by (simp add: drm_documented_def distinct_map)
qed


end
