(* ===== verification/Dma_Heaps.thy ===== *)
theory Dma_Heaps
  imports Buffer_Handle
begin

text \<open>
  The allocator of graphics memory (src/src/allocator/dma_buf_heaps/dma_buf_heaps.cpp): the choice of the
  heap, allocation, the cache maintenance around CPU accesses, and mapping; and the shared memory of
  the metadata (src/src/allocator/shared_memory/shared_memory.cpp). The heaps themselves are calls of
  \<open>Platform\<close>.
\<close>

section \<open>Heaps\<close>

datatype dma_buf_heap = system | system_uncached | physically_contiguous | protected_memory
  | system_dma32 | system_uncached_dma32

text \<open>The names of the two upstream heaps come from libdmabufheap.\<close>

record heap_names =
  kDmabufSystemHeapName :: string
  kDmabufSystemUncachedHeapName :: string

definition get_dma_buf_heap_name :: "heap_names \<Rightarrow> dma_buf_heap \<Rightarrow> string" where
  "get_dma_buf_heap_name N heap =
     (case heap of
        system \<Rightarrow> kDmabufSystemHeapName N
      | system_uncached \<Rightarrow> kDmabufSystemUncachedHeapName N
      | physically_contiguous \<Rightarrow> ''cma''
      | protected_memory \<Rightarrow> ''secure''
      | system_dma32 \<Rightarrow> ''system-dma32''
      | system_uncached_dma32 \<Rightarrow> ''system-uncached-dma32'')"

definition is_platform_rk356x :: "'p property_service \<Rightarrow> 'p rk_state \<Rightarrow> (bool \<times> 'p rk_state) res" where
  "is_platform_rk356x P st = bind_res (get_rk_board_platform P st) (\<lambda>(p, st'). Inr (RK356X = p, st'))"

definition is_platform_rk3588 :: "'p property_service \<Rightarrow> 'p rk_state \<Rightarrow> (bool \<times> 'p rk_state) res" where
  "is_platform_rk3588 P st = bind_res (get_rk_board_platform P st) (\<lambda>(p, st'). Inr (RK3588 = p, st'))"

definition is_alloc_all_buffers_from_cma_heap_required_via_prop ::
  "'p property_service \<Rightarrow> 'p rk_state \<Rightarrow> bool" where
  "is_alloc_all_buffers_from_cma_heap_required_via_prop P st \<longleftrightarrow>
     ps_get P (rk_props st) ''vendor.gralloc.alloc_all_buf_from_cma_heap'' ''0'' = ''1''"

definition does_hal_format_need_buffer_within_4G :: "hal_env \<Rightarrow> u64 \<Rightarrow> bool" where
  "does_hal_format_need_buffer_within_4G H hal_format \<longleftrightarrow> scast (H HAL_YV12) = hal_format"

definition heap_of_usage :: "u64 \<Rightarrow> dma_buf_heap" where
  "heap_of_usage usage =
     (let read_often = (usage AND GRALLOC_USAGE_SW_READ_MASK = GRALLOC_USAGE_SW_READ_OFTEN)
      in if usage AND RK_GRALLOC_USAGE_PHY_CONTIG_BUFFER \<noteq> 0 then physically_contiguous
         else if usage AND RK_GRALLOC_USAGE_WITHIN_4G \<noteq> 0 then
           (if read_often then system_dma32 else system_uncached_dma32)
         else if read_often then system
         else system_uncached)"

definition pick_dma_buf_heap ::
  "'p property_service \<Rightarrow> hal_env \<Rightarrow> u64 \<Rightarrow> u64 \<Rightarrow> 'p rk_state \<Rightarrow> (dma_buf_heap \<times> 'p rk_state) res" where
  "pick_dma_buf_heap P H usage hal_format st =
     (if is_alloc_all_buffers_from_cma_heap_required_via_prop P st then Inr (physically_contiguous, st)
      else if usage AND GRALLOC_USAGE_PROTECTED \<noteq> 0 then Inr (protected_memory, st)
      else
        bind_res (is_platform_rk356x P st) (\<lambda>(is_356x, st1).
        bind_res (if is_356x then Inr (True, st1) else is_platform_rk3588 P st1) (\<lambda>(is_either, st2).
          let usage1 =
            (if is_either then
               (if does_usage_have_flag usage GRALLOC_USAGE_HW_VIDEO_ENCODER
                then usage OR RK_GRALLOC_USAGE_WITHIN_4G
                else if does_hal_format_need_buffer_within_4G H hal_format
                then usage OR RK_GRALLOC_USAGE_WITHIN_4G
                else usage)
             else usage)
          in Inr (heap_of_usage usage1, st2))))"

section \<open>Allocation\<close>

text \<open>
  \<open>make_private_handle\<close> takes an \<open>int\<close> for the size and for the format, which are 64 bits wide
  in the descriptor.
\<close>

definition allocator_allocate ::
  "'s os \<Rightarrow> 'p property_service \<Rightarrow> hal_env \<Rightarrow> heap_names \<Rightarrow> buffer_descriptor_t \<Rightarrow> 'p rk_state \<Rightarrow> 's \<Rightarrow>
   (private_handle_t option \<times> 'p rk_state \<times> 's) res" where
  "allocator_allocate Sys P H N d st s =
     bind_res (pick_dma_buf_heap P H (d_consumer_usage d OR d_producer_usage d) (d_hal_format d) st) (\<lambda>(heap, st1).
       case heap_alloc Sys s (get_dma_buf_heap_name N heap) (d_size d) of
         (fd, s1) \<Rightarrow>
           if sint fd < 0 then Inr (None, st1, s1)
           else
             (case make_private_handle Sys s1 (ucast (d_size d)) (d_consumer_usage d) (d_producer_usage d) fd
                     (ucast (d_hal_format d)) (d_alloc_format d) (d_width d) (d_height d) (d_layer_count d)
                     (d_plane_info d) (d_pixel_stride d) of
                (h, s2) \<Rightarrow> Inr (h, st1, s2)))"

section \<open>Cache maintenance\<close>

definition make_sync_type :: "bool \<Rightarrow> bool \<Rightarrow> SyncType" where
  "make_sync_type read write =
     (if read \<and> write then kSyncReadWrite
      else if read then kSyncRead
      else if write then kSyncWrite
      else kSyncNone)"

definition allocator_sync_start ::
  "'s os \<Rightarrow> 'a private_handle_t_scheme \<Rightarrow> bool \<Rightarrow> bool \<Rightarrow> 's \<Rightarrow> i32 \<times> 's" where
  "allocator_sync_start Sys h read write s = heap_sync_start Sys s (share_fd h) (make_sync_type read write)"

definition allocator_sync_end ::
  "'s os \<Rightarrow> 'a private_handle_t_scheme \<Rightarrow> bool \<Rightarrow> bool \<Rightarrow> 's \<Rightarrow> i32 \<times> 's" where
  "allocator_sync_end Sys h read write s = heap_sync_end Sys s (share_fd h) (make_sync_type read write)"

section \<open>Mapping\<close>

text \<open>The length of the mapping is the \<open>int\<close> size of the handle converted to \<open>size_t\<close>.\<close>

definition allocator_map :: "'s os \<Rightarrow> imported_handle \<Rightarrow> 's \<Rightarrow> i32 \<times> imported_handle \<times> 's" where
  "allocator_map Sys h s =
     (case os_mmap Sys s (scast (h_size h)) (share_fd h) of
        (Inl errno, s1) \<Rightarrow> (- errno, h, s1)
      | (Inr mapping, s1) \<Rightarrow> (0, h\<lparr>h_base := mapping\<rparr>, s1))"

definition allocator_unmap :: "'s os \<Rightarrow> imported_handle \<Rightarrow> 's \<Rightarrow> imported_handle \<times> 's" where
  "allocator_unmap Sys h s =
     (case os_munmap Sys s (h_base h) (scast (h_size h)) of
        (_, s1) \<Rightarrow> (h\<lparr>h_base := nullptr, cpu_write := 0, lock_count := 0\<rparr>, s1))"

section \<open>Shared memory\<close>

text \<open>The result is a descriptor or -1; a descriptor that cannot be sized or sealed is closed.\<close>

definition gralloc_shared_memory_allocate :: "'s os \<Rightarrow> string \<Rightarrow> u64 \<Rightarrow> 's \<Rightarrow> i32 \<times> 's" where
  "gralloc_shared_memory_allocate Sys name sz s =
     (case os_memfd_create Sys s name of
        (fd, s1) \<Rightarrow>
          if sint fd < 0 then (fd, s1)
          else
            (case (if 0 < sint sz then os_ftruncate Sys s1 fd sz else (0, s1)) of
               (r, s2) \<Rightarrow>
                 if sint r < 0 then (- 1, os_close Sys s2 fd)
                 else
                   (case os_seal Sys s2 fd of
                      (q, s3) \<Rightarrow> if sint q < 0 then (- 1, os_close Sys s3 fd) else (fd, s3))))"

section \<open>Where a buffer is placed\<close>

definition below_4G :: "dma_buf_heap \<Rightarrow> bool" where
  "below_4G heap \<longleftrightarrow> heap \<in> {physically_contiguous, system_dma32, system_uncached_dma32}"

definition cached_heap :: "dma_buf_heap \<Rightarrow> bool" where
  "cached_heap heap \<longleftrightarrow> heap \<in> {system, system_dma32}"

lemma heap_of_usage_facts:
  "heap_of_usage u \<noteq> protected_memory"
  "u AND RK_GRALLOC_USAGE_WITHIN_4G \<noteq> 0 \<Longrightarrow> below_4G (heap_of_usage u)"
  "cached_heap (heap_of_usage u) \<Longrightarrow> u AND GRALLOC_USAGE_SW_READ_MASK = GRALLOC_USAGE_SW_READ_OFTEN"
  by (auto simp: heap_of_usage_def Let_def below_4G_def cached_heap_def split: if_splits)

lemma or_within_4G:
  "(u OR RK_GRALLOC_USAGE_WITHIN_4G) AND RK_GRALLOC_USAGE_WITHIN_4G \<noteq> 0"
  "(u OR RK_GRALLOC_USAGE_WITHIN_4G) AND GRALLOC_USAGE_SW_READ_MASK = u AND GRALLOC_USAGE_SW_READ_MASK"
  by (simp_all add: usage_values bit.conj_disj_distrib2)

text \<open>The outcomes of the choice once the two early returns are behind.\<close>

lemma pick_heap_cases:
  assumes "pick_dma_buf_heap P H usage hal_format st = Inr (heap, st')"
    and "\<not> is_alloc_all_buffers_from_cma_heap_required_via_prop P st"
    and "usage AND GRALLOC_USAGE_PROTECTED = 0"
  obtains u where "heap = heap_of_usage u" and "u = usage \<or> u = usage OR RK_GRALLOC_USAGE_WITHIN_4G"
    and "s_platform st' \<in> {RK356X, RK3588} \<Longrightarrow>
      does_usage_have_flag usage GRALLOC_USAGE_HW_VIDEO_ENCODER \<or> does_hal_format_need_buffer_within_4G H hal_format \<Longrightarrow>
      u = usage OR RK_GRALLOC_USAGE_WITHIN_4G"
proof -
  obtain p st1 where p: "get_rk_board_platform P st = Inr (p, st1)"
    using assms by (auto simp: pick_dma_buf_heap_def is_platform_rk356x_def)
  have again: "get_rk_board_platform P st1 = Inr (p, st1)" "s_platform st1 = p"
    using p by (auto simp: get_rk_board_platform_def Let_def split: if_splits)
  then show ?thesis
    using assms p that
    by (auto simp: pick_dma_buf_heap_def is_platform_rk356x_def is_platform_rk3588_def Let_def split: if_splits)
qed

text \<open>Unless a property forces all buffers into the contiguous heap, protected buffers and only they
  come from the secure heap; on RK356X and RK3588 buffers of the video encoder and YV12 buffers come from
  a heap below 4G; and a cached heap is chosen only for buffers that the CPU reads often.\<close>

theorem heap_placement:
  assumes "pick_dma_buf_heap P H usage hal_format st = Inr (heap, st')"
    and "\<not> is_alloc_all_buffers_from_cma_heap_required_via_prop P st"
  shows "(heap = protected_memory \<longleftrightarrow> usage AND GRALLOC_USAGE_PROTECTED \<noteq> 0) \<and>
    (usage AND GRALLOC_USAGE_PROTECTED = 0 \<and> s_platform st' \<in> {RK356X, RK3588} \<and>
      (does_usage_have_flag usage GRALLOC_USAGE_HW_VIDEO_ENCODER \<or>
       does_hal_format_need_buffer_within_4G H hal_format) \<longrightarrow> below_4G heap) \<and>
    (cached_heap heap \<longrightarrow> usage AND GRALLOC_USAGE_SW_READ_MASK = GRALLOC_USAGE_SW_READ_OFTEN)"
proof (cases "usage AND GRALLOC_USAGE_PROTECTED = 0")
  case False
  then have "heap = protected_memory"
    using assms by (simp add: pick_dma_buf_heap_def)
  with False show ?thesis
    by (simp add: cached_heap_def)
next
  case True
  show ?thesis
  proof (rule pick_heap_cases [OF assms True])
    fix u
    assume u: "heap = heap_of_usage u" "u = usage \<or> u = usage OR RK_GRALLOC_USAGE_WITHIN_4G"
      "s_platform st' \<in> {RK356X, RK3588} \<Longrightarrow>
        does_usage_have_flag usage GRALLOC_USAGE_HW_VIDEO_ENCODER \<or> does_hal_format_need_buffer_within_4G H hal_format \<Longrightarrow>
        u = usage OR RK_GRALLOC_USAGE_WITHIN_4G"
    have "cached_heap heap \<Longrightarrow> usage AND GRALLOC_USAGE_SW_READ_MASK = GRALLOC_USAGE_SW_READ_OFTEN"
      using heap_of_usage_facts(3) [of u] u(1,2) or_within_4G(2) [of usage] by auto
    moreover have "below_4G heap" if "u = usage OR RK_GRALLOC_USAGE_WITHIN_4G"
      using heap_of_usage_facts(2) [of u] or_within_4G(1) [of usage] u(1) that by simp
    ultimately show ?thesis
      using u heap_of_usage_facts(1) [of u] True by (intro conjI impI) simp_all
  qed
qed

theorem heap_placement_witness:
  "pick_dma_buf_heap map_properties hal_sample GRALLOC_USAGE_HW_VIDEO_ENCODER 1 rk_fresh =
     Inr (system_uncached_dma32, rk_fresh\<lparr>s_platform := RK3588\<rparr>) \<and> below_4G system_uncached_dma32"
proof -
  have cma: "\<not> is_alloc_all_buffers_from_cma_heap_required_via_prop map_properties rk_fresh"
    by (simp add: is_alloc_all_buffers_from_cma_heap_required_via_prop_def map_properties_def rk_fresh_def)
  have u: "GRALLOC_USAGE_HW_VIDEO_ENCODER AND GRALLOC_USAGE_PROTECTED = 0"
    "does_usage_have_flag GRALLOC_USAGE_HW_VIDEO_ENCODER GRALLOC_USAGE_HW_VIDEO_ENCODER"
    by (simp_all add: usage_values does_usage_have_flag_def)
  have again: "get_rk_board_platform map_properties (rk_fresh\<lparr>s_platform := RK3588\<rparr>) =
      Inr (RK3588, rk_fresh\<lparr>s_platform := RK3588\<rparr>)"
    by (simp add: get_rk_board_platform_def)
  have run: "pick_dma_buf_heap map_properties hal_sample GRALLOC_USAGE_HW_VIDEO_ENCODER 1 rk_fresh =
      Inr (system_uncached_dma32, rk_fresh\<lparr>s_platform := RK3588\<rparr>)"
    using cma u by (simp add: pick_dma_buf_heap_def is_platform_rk356x_def is_platform_rk3588_def rk_fresh_platform
        again heap_of_usage_def Let_def) (simp add: usage_values)
  have "s_platform (rk_fresh\<lparr>s_platform := RK3588\<rparr>) \<in> {RK356X, RK3588}"
    by simp
  with heap_placement [OF run cma] u run show ?thesis
    by blast
qed

section \<open>What an allocation holds\<close>

lemma allocator_allocate_effect:
  assumes "os_documented Sys fds maps" and "allocator_allocate Sys P H N d st s = Inr (r, st', s')"
  shows "maps s' = maps s \<and>
    (case r of None \<Rightarrow> fds s' = fds s
     | Some h \<Rightarrow> fds s' = insert (share_fd h) (fds s) \<and> share_fd h \<notin> fds s \<and>
         handle_cast raw (Some h) = Some h \<and> h_type h = raw \<and> share_attr_fd h = - 1 \<and>
         h_size h = ucast (d_size d) \<and> plane_info h = d_plane_info d \<and> alloc_format h = d_alloc_format d \<and>
         h_width h = d_width d \<and> h_height h = d_height d \<and> layer_count h = d_layer_count d \<and>
         producer_usage h OR consumer_usage h = d_producer_usage d OR d_consumer_usage d)"
proof -
  obtain heap st1 where pick: "pick_dma_buf_heap P H (d_consumer_usage d OR d_producer_usage d) (d_hal_format d) st =
      Inr (heap, st1)"
    using assms(2) by (auto simp: allocator_allocate_def)
  obtain fd s1 where alloc: "heap_alloc Sys s (get_dma_buf_heap_name N heap) (d_size d) = (fd, s1)"
    by fastforce
  note eff = opens_fd_cases [of fds maps s fd s1,
      OF os_documentedD(3) [OF assms(1), of s "get_dma_buf_heap_name N heap" "d_size d", unfolded alloc]]
  show ?thesis
  proof (cases "sint fd < 0")
    case True
    then show ?thesis
      using assms(2) pick alloc eff by (auto simp: allocator_allocate_def)
  next
    case False
    then have fd: "fd \<noteq> - 1"
      by auto
    obtain c s2 where new: "os_new_handle Sys s1 = (c, s2)"
      by fastforce
    have keep: "fds s2 = fds s1" "maps s2 = maps s1"
      using os_keeps(3,4) [OF assms(1), of s1] new by simp_all
    show ?thesis
    proof (cases c)
      case None
      then have "r = None" "s' = os_close Sys s2 fd"
        using assms(2) pick alloc False new by (auto simp: allocator_allocate_def make_private_handle_def)
      then show ?thesis
        using os_keeps(1,2) [OF assms(1), of s2 fd] keep eff fd by auto
    next
      case (Some q)
      then show ?thesis
        using assms(2) pick alloc False new keep eff fd
        by (auto simp: allocator_allocate_def make_private_handle_def handle_cast_eq_Some or.commute)
    qed
  qed
qed

text \<open>A successful allocation opens exactly one descriptor, which the handle owns, and the handle
  describes the request, with the size cut to 32 bits; a failed one opens nothing.\<close>

theorem allocation_handle:
  assumes "os_documented Sys fds maps" and "allocator_allocate Sys P H N d st s = Inr (r, st', s')"
  shows "maps s' = maps s \<and>
    (case r of None \<Rightarrow> fds s' = fds s
     | Some h \<Rightarrow> fds s' = insert (share_fd h) (fds s) \<and> share_fd h \<notin> fds s \<and>
         handle_cast raw (Some h) = Some h \<and> h_type h = raw \<and> share_attr_fd h = - 1 \<and>
         h_size h = ucast (d_size d) \<and> plane_info h = d_plane_info d \<and> alloc_format h = d_alloc_format d \<and>
         h_width h = d_width d \<and> h_height h = d_height d \<and> layer_count h = d_layer_count d \<and>
         producer_usage h OR consumer_usage h = d_producer_usage d OR d_consumer_usage d)"
  by (rule allocator_allocate_effect [OF assms])

lemma shared_memory_effect:
  assumes "os_documented Sys fds maps" and "gralloc_shared_memory_allocate Sys name sz s = (fd, s')"
  shows "maps s' = maps s" and "sint fd < 0 \<Longrightarrow> fds s' = fds s"
    and "\<not> sint fd < 0 \<Longrightarrow> fd \<notin> fds s \<and> fds s' = insert fd (fds s)"
proof -
  obtain m s1 where m: "os_memfd_create Sys s name = (m, s1)"
    by fastforce
  note eff = opens_fd_cases [of fds maps s m s1, OF os_documentedD(2) [OF assms(1), of s name, unfolded m]]
  obtain r s2 where t: "(if 0 < sint sz then os_ftruncate Sys s1 m sz else (0, s1)) = (r, s2)"
    by fastforce
  have k2: "fds s2 = fds s1" "maps s2 = maps s1"
    using t os_keeps(7,8) [OF assms(1), of s1 m sz] by (auto split: if_splits)
  obtain q s3 where q: "os_seal Sys s2 m = (q, s3)"
    by fastforce
  have k3: "fds s3 = fds s2" "maps s3 = maps s2"
    using q os_keeps(9,10) [OF assms(1), of s2 m] by simp_all
  have m1: "m \<noteq> - 1" if "\<not> sint m < 0"
    using that by auto
  have run: "(fd, s') = (if sint m < 0 then (m, s1) else if sint r < 0 then (- 1, os_close Sys s2 m)
      else if sint q < 0 then (- 1, os_close Sys s3 m) else (m, s3))"
    using assms(2) by (simp add: gralloc_shared_memory_allocate_def m t q del: if_split cong: if_cong)
  consider "sint m < 0" "fd = m" "s' = s1" | "\<not> sint m < 0" "fd = - 1" "s' = os_close Sys s2 m"
    | "\<not> sint m < 0" "fd = - 1" "s' = os_close Sys s3 m" | "\<not> sint m < 0" "fd = m" "s' = s3"
    using run by (auto split: if_splits)
  then have "maps s' = maps s \<and> (if sint fd < 0 then fds s' = fds s else fd \<notin> fds s \<and> fds s' = insert fd (fds s))"
    using k2 k3 eff m1 os_keeps(1,2) [OF assms(1)] by cases simp_all
  then show "maps s' = maps s" and "sint fd < 0 \<Longrightarrow> fds s' = fds s"
    and "\<not> sint fd < 0 \<Longrightarrow> fd \<notin> fds s \<and> fds s' = insert fd (fds s)"
    by (simp_all split: if_splits)
qed

definition sample_names :: heap_names where
  "sample_names = \<lparr>kDmabufSystemHeapName = ''system'', kDmabufSystemUncachedHeapName = ''system-uncached''\<rparr>"

theorem allocation_handle_witness:
  "\<exists>h st' s'. allocator_allocate sim_os map_properties hal_sample sample_names
      (sample_request 1 GRALLOC_USAGE_PROTECTED 1) rk_fresh sim_start = Inr (Some h, st', s') \<and>
    sim_fds s' = {share_fd h} \<and> h_width h = 640"
proof -
  let ?d = "sample_request 1 GRALLOC_USAGE_PROTECTED 1"
  have "\<not> is_alloc_all_buffers_from_cma_heap_required_via_prop map_properties rk_fresh"
    by (simp add: is_alloc_all_buffers_from_cma_heap_required_via_prop_def map_properties_def rk_fresh_def)
  moreover have "GRALLOC_USAGE_PROTECTED \<noteq> 0"
    by (simp add: usage_values)
  ultimately have pick: "pick_dma_buf_heap map_properties hal_sample
      (d_consumer_usage ?d OR d_producer_usage ?d) (d_hal_format ?d) rk_fresh = Inr (protected_memory, rk_fresh)"
    by (simp add: pick_dma_buf_heap_def sample_request_def)
  have "heap_alloc sim_os sim_start n k = (3, sim_start\<lparr>sim_next := 4, sim_fds := {3}\<rparr>)" for n k
    by (simp add: sim_os_def sim_open_def sim_start_def Let_def)
  then obtain h s' where run: "allocator_allocate sim_os map_properties hal_sample sample_names ?d rk_fresh sim_start =
      Inr (Some h, rk_fresh, s')"
    by (simp add: allocator_allocate_def pick make_private_handle_def) (simp add: sim_os_def)
  show ?thesis
    using allocation_handle [OF sim_documented run] run by (auto simp: sim_start_def sample_request_def)
qed

end
