(* ===== verification/Alloc_Buffer.thy ===== *)
theory Alloc_Buffer
  imports Dma_Heaps
begin

text \<open>
  Allocation of one buffer, from src/src/core/buffer_allocation.cpp: the identifiers of buffers, and
  \<open>mali_gralloc_buffer_allocate\<close>, which derives the format and the size, allocates the memory and
  initialises the AFBC headers.
\<close>

section \<open>State of the library\<close>

text \<open>The cached platform values, and the counter inside \<open>getUniqueId\<close>.\<close>

record 'p gralloc_state =
  g_rk :: "'p rk_state"
  g_counter :: u32

definition getUniqueId :: "'s os \<Rightarrow> 's \<Rightarrow> 'p gralloc_state \<Rightarrow> u64 \<times> 'p gralloc_state" where
  "getUniqueId Sys s g =
     (push_bit 32 (scast (os_getpid Sys s)) OR ucast (g_counter g), g\<lparr>g_counter := g_counter g + 1\<rparr>)"

section \<open>AFBC headers\<close>

text \<open>
  The loop over the planes. Memory is a list of 32-bit words, as in \<open>init_afbc\<close>; the offsets of AFBC planes are
  multiples of four.
\<close>

fun init_afbc_planes ::
  "hal_env \<Rightarrow> internal_format_t \<Rightarrow> bool \<Rightarrow> plane_layout \<Rightarrow> bool \<Rightarrow> u32 list \<Rightarrow> u32 list" where
  "init_afbc_planes H f multi [] first ws = ws"
| "init_afbc_planes H f multi (p # ps) first ws =
     (if first \<or> byte_stride p \<noteq> 0 then
        init_afbc_planes H f multi ps False
          (init_afbc H f multi (alloc_width p) (alloc_height p) (unat (plane_offset p) div 4) ws)
      else ws)"

text \<open>
  Mapping the new buffer, initialising it between the calls for cache maintenance, and unmapping. When
  the mapping fails the headers stay as they are.
\<close>

definition init_afbc_buffer ::
  "'s os \<Rightarrow> hal_env \<Rightarrow> private_handle_t \<Rightarrow> internal_format_t \<Rightarrow> plane_layout \<Rightarrow> 's \<Rightarrow> 's" where
  "init_afbc_buffer Sys H h f planes s =
     (case os_mmap Sys s (scast (h_size h)) (share_fd h) of
        (Inl _, s1) \<Rightarrow> s1
      | (Inr mapping, s1) \<Rightarrow>
          let s2 = snd (allocator_sync_start Sys h True True s1);
              ws = init_afbc_planes H f (h_is_multi_plane h) planes True (os_words Sys s2 mapping);
              s3 = os_set_words Sys s2 mapping ws;
              s4 = snd (allocator_sync_end Sys h True True s3)
          in snd (os_munmap Sys s4 mapping (scast (h_size h))))"

section \<open>Allocation\<close>

definition mali_gralloc_buffer_allocate ::
  "build_config \<Rightarrow> 's os \<Rightarrow> 'p property_service \<Rightarrow> hal_env \<Rightarrow> ip_capability list \<Rightarrow> heap_names \<Rightarrow>
   buffer_descriptor_t \<Rightarrow> 'p gralloc_state \<Rightarrow> 's \<Rightarrow>
   (private_handle_t option \<times> buffer_descriptor_t \<times> 'p gralloc_state \<times> 's) res" where
  "mali_gralloc_buffer_allocate cfg Sys P H E N d g s =
     (let usage = d_consumer_usage d OR d_producer_usage d
      in bind_res (mali_gralloc_derive_format_and_size cfg P H E d (g_rk g)) (\<lambda>(err, d1, rk1).
           if err \<noteq> 0 then Inr (None, d1, g\<lparr>g_rk := rk1\<rparr>, s)
           else
             bind_res (allocator_allocate Sys P H N d1 rk1 s) (\<lambda>(handle, rk2, s1).
               let g1 = g\<lparr>g_rk := rk2\<rparr>
               in case handle of
                    None \<Rightarrow> Inr (None, d1, g1, s1)
                  | Some h \<Rightarrow>
                      let (ident, g2) = getUniqueId Sys s1 g1;
                          h1 = h\<lparr>backing_store_id := ident\<rparr>;
                          s2 = (if usage AND GRALLOC_USAGE_PROTECTED = 0 \<and> is_afbc (d_alloc_format d1)
                                then init_afbc_buffer Sys H h1 (d_alloc_format d1) (d_plane_info d1) s1
                                else s1)
                      in Inr (Some h1, d1, g2, s2))))"

section \<open>Identifiers\<close>

lemma getUniqueId_parts:
  assumes "getUniqueId Sys s g = (i, g')"
  shows "drop_bit 32 i = ucast (os_getpid Sys s)" and "ucast i = g_counter g"
    and "g_counter g' = g_counter g + 1"
proof -
  have i: "i = push_bit 32 (scast (os_getpid Sys s)) OR ucast (g_counter g)"
    and g': "g' = g\<lparr>g_counter := g_counter g + 1\<rparr>"
    using assms by (simp_all add: getUniqueId_def)
  have bits: "bit (x :: 32 word) n \<Longrightarrow> n < 31 \<or> n = 31" for x n
    using bit_imp_le_length [of x n] by auto
  show "drop_bit 32 i = ucast (os_getpid Sys s)"
  proof (rule bit_word_eqI)
    fix n :: nat
    consider "n < 31" | "n = 31" | "31 < n"
      by linarith
    then show "bit (drop_bit 32 i) n = bit (ucast (os_getpid Sys s) :: u64) n"
      using bits [of "os_getpid Sys s" n] bits [of "g_counter g" "32 + n"]
      by cases (auto simp: i bit_simps)
  qed
  show "ucast i = g_counter g"
    unfolding i by (rule bit_word_eqI) (auto simp: bit_simps)
  show "g_counter g' = g_counter g + 1"
    by (simp add: g')
qed

text \<open>The identifiers that successive calls return.\<close>

primrec unique_ids :: "'s os \<Rightarrow> 's \<Rightarrow> nat \<Rightarrow> 'p gralloc_state \<Rightarrow> u64 list" where
  "unique_ids Sys s 0 g = []"
| "unique_ids Sys s (Suc n) g = (case getUniqueId Sys s g of (i, g') \<Rightarrow> i # unique_ids Sys s n g')"

lemma unique_ids_low: "map (ucast :: u64 \<Rightarrow> u32) (unique_ids Sys s n g) = map (\<lambda>k. g_counter g + of_nat k) [0..<n]"
proof (induction n arbitrary: g)
  case (Suc n)
  obtain i g' where i: "getUniqueId Sys s g = (i, g')"
    by fastforce
  note parts = getUniqueId_parts [OF i]
  have "map (ucast :: u64 \<Rightarrow> u32) (unique_ids Sys s (Suc n) g) =
      (g_counter g + of_nat 0) # map (\<lambda>k. g_counter g + of_nat (Suc k)) [0..<n]"
    by (simp add: i parts Suc.IH algebra_simps)
  also have "\<dots> = map (\<lambda>k. g_counter g + of_nat k) (0 # map Suc [0..<n])"
    by (simp add: comp_def)
  finally show ?case
    by (simp add: map_Suc_upt upt_conv_Cons del: upt_Suc)
qed simp

text \<open>The first \<open>2 ^ 32\<close> buffers that a process allocates have distinct identifiers, and all of
  them carry the process id in their upper half.\<close>

theorem backing_ids_distinct:
  assumes "n \<le> 2 ^ 32"
  shows "distinct (unique_ids Sys s n g) \<and>
    (\<forall>i \<in> set (unique_ids Sys s n g). drop_bit 32 i = ucast (os_getpid Sys s))"
proof -
  have "inj_on (\<lambda>k. g_counter g + of_nat k :: u32) {0..<n}"
  proof (rule inj_onI)
    fix j k
    assume "j \<in> {0..<n}" "k \<in> {0..<n}" and eq: "g_counter g + of_nat j = g_counter g + (of_nat k :: u32)"
    with assms have "j < 2 ^ 32" "k < 2 ^ 32"
      by auto
    then have "unat (of_nat j :: u32) = j" "unat (of_nat k :: u32) = k"
      by (simp_all only: unat_of_nat_small)
    moreover have "(of_nat j :: u32) = of_nat k"
      using eq by (simp only: add_left_cancel)
    ultimately show "j = k"
      by metis
  qed
  then have "distinct (map (ucast :: u64 \<Rightarrow> u32) (unique_ids Sys s n g))"
    unfolding unique_ids_low by (simp add: distinct_map)
  moreover have "\<forall>i \<in> set (unique_ids Sys s n g). drop_bit 32 i = ucast (os_getpid Sys s)"
    by (induction n arbitrary: g) (auto dest: getUniqueId_parts(1) [OF sym] split: prod.splits)
  ultimately show ?thesis
    by (simp add: distinct_map)
qed

theorem backing_ids_distinct_witness:
  "unique_ids sim_os sim_start 3 \<lparr>g_rk = rk_fresh, g_counter = 0xFFFFFFFF\<rparr> = [0x2AFFFFFFFF, 0x2A00000000, 0x2A00000001] \<and>
   distinct (unique_ids sim_os sim_start 3 \<lparr>g_rk = rk_fresh, g_counter = 0xFFFFFFFF\<rparr>)"
proof -
  have "distinct (unique_ids sim_os sim_start 3 \<lparr>g_rk = rk_fresh, g_counter = 0xFFFFFFFF\<rparr>)"
    using backing_ids_distinct [of 3 sim_os sim_start "\<lparr>g_rk = rk_fresh, g_counter = 0xFFFFFFFF\<rparr>"] by simp
  then show ?thesis
    by (simp add: numeral_3_eq_3 getUniqueId_def sim_os_def sim_start_def)
qed

section \<open>Memory behind the headers\<close>

definition plane_headers_end :: "plane_info_t \<Rightarrow> nat" where
  "plane_headers_end p = unat (plane_offset p) div 4 + 4 * unat (afbc_n_headers (alloc_width p) (alloc_height p))"

text \<open>The initialisation writes headers of the planes only: whatever lies behind the headers of every
  plane, which includes all layers of a layered buffer but the first, keeps its contents.\<close>

theorem init_planes_frame:
  assumes "\<forall>p \<in> set planes. plane_headers_end p \<le> bound" and "bound \<le> length ws"
  shows "length (init_afbc_planes H f multi planes first ws) = length ws \<and>
    drop bound (init_afbc_planes H f multi planes first ws) = drop bound ws"
  using assms
proof (induction H f multi planes first ws rule: init_afbc_planes.induct)
  case (2 H f multi p ps first ws)
  let ?ws = "init_afbc H f multi (alloc_width p) (alloc_height p) (unat (plane_offset p) div 4) ws"
  have "unat (plane_offset p) div 4 + 4 * unat (afbc_n_headers (alloc_width p) (alloc_height p)) \<le> bound"
    using "2.prems"(1) by (simp add: plane_headers_end_def)
  moreover from this "2.prems"(2)
  have eq: "?ws = take (unat (plane_offset p) div 4) ws @
      concat (replicate (unat (afbc_n_headers (alloc_width p) (alloc_height p)))
        (afbc_header H f multi (afbc_body_offset (get_afbc_tiled_headers f)
          (afbc_n_headers (alloc_width p) (alloc_height p))))) @
      drop (unat (plane_offset p) div 4 + 4 * unat (afbc_n_headers (alloc_width p) (alloc_height p))) ws"
    by (intro init_afbc_eq) simp
  moreover have "length (concat (replicate n (afbc_header H f multi off))) = 4 * n" for n off
    by (induction n) simp_all
  ultimately have "length ?ws = length ws" "drop bound ?ws = drop bound ws"
    using "2.prems"(2) by simp_all
  then show ?case
    using "2.IH" "2.prems" by simp
qed simp

theorem init_planes_frame_witness:
  "drop 64 (init_afbc_planes hal_sample (from_private 1) False
     [\<lparr>plane_offset = 0, byte_stride = 64, alloc_width = 64, alloc_height = 64\<rparr>] True (replicate 100 7)) = replicate 36 7"
proof -
  let ?p = "\<lparr>plane_offset = 0, byte_stride = 64, alloc_width = 64, alloc_height = 64\<rparr> :: plane_info_t"
  have "plane_headers_end ?p = 64"
    by code_simp
  then have "\<forall>p \<in> set [?p]. plane_headers_end p \<le> 64"
    by simp
  moreover have "64 \<le> length (replicate 100 (7 :: u32))"
    by simp
  ultimately show ?thesis
    using init_planes_frame [of "[?p]" 64 "replicate 100 7" hal_sample "from_private 1" False True] by simp
qed

section \<open>Outcome of an allocation\<close>

lemma init_afbc_buffer_effect:
  assumes "os_documented Sys fds maps"
  shows "fds (init_afbc_buffer Sys H h f planes s) = fds s \<and> maps (init_afbc_buffer Sys H h f planes s) = maps s"
proof (cases "os_mmap Sys s (scast (h_size h)) (share_fd h)")
  case (Pair r s1)
  show ?thesis
  proof (cases r)
    case (Inl e)
    then show ?thesis
      using os_mmap_failed [OF assms, of s _ _ e s1] Pair by (simp add: init_afbc_buffer_def)
  next
    case (Inr a)
    note eff = os_mmap_done [OF assms Pair [unfolded Inr]]
    then have "(a, scast (h_size h)) \<notin> maps s"
      by (auto simp: image_iff)
    then show ?thesis
      using eff Pair Inr by (simp add: init_afbc_buffer_def Let_def allocator_sync_start_def
          allocator_sync_end_def os_keeps [OF assms] os_munmap_effect [OF assms])
  qed
qed

lemma buffer_allocate_effect:
  assumes "os_documented Sys fds maps"
    and "mali_gralloc_buffer_allocate cfg Sys P H E N d g s = Inr (r, d', g', s')"
  shows "maps s' = maps s \<and> (\<exists>err rk1. mali_gralloc_derive_format_and_size cfg P H E d (g_rk g) = Inr (err, d', rk1) \<and>
    (case r of None \<Rightarrow> fds s' = fds s
     | Some h \<Rightarrow> err = 0 \<and> fds s' = insert (share_fd h) (fds s) \<and> share_fd h \<notin> fds s \<and>
         handle_cast raw (Some h) = Some h \<and> h_type h = raw \<and> share_attr_fd h = - 1 \<and>
         h_size h = ucast (d_size d') \<and> plane_info h = d_plane_info d' \<and> alloc_format h = d_alloc_format d' \<and>
         h_width h = d_width d' \<and> h_height h = d_height d' \<and> layer_count h = d_layer_count d'))"
proof -
  obtain err d1 rk1 where der: "mali_gralloc_derive_format_and_size cfg P H E d (g_rk g) = Inr (err, d1, rk1)"
    using assms(2) by (auto simp: mali_gralloc_buffer_allocate_def Let_def)
  show ?thesis
  proof (cases "err = 0")
    case False
    then show ?thesis
      using assms(2) der by (simp add: mali_gralloc_buffer_allocate_def Let_def)
  next
    case True
    obtain q rk2 s1 where alloc: "allocator_allocate Sys P H N d1 rk1 s = Inr (q, rk2, s1)"
      using assms(2) der True by (auto simp: mali_gralloc_buffer_allocate_def Let_def)
    note eff = allocator_allocate_effect [OF assms(1) alloc]
    show ?thesis
    proof (cases q)
      case None
      then show ?thesis
        using assms(2) der True alloc eff by (simp add: mali_gralloc_buffer_allocate_def Let_def)
    next
      case (Some h)
      obtain i g2 where i: "getUniqueId Sys s1 (g\<lparr>g_rk := rk2\<rparr>) = (i, g2)"
        by fastforce
      have r: "r = Some (h\<lparr>backing_store_id := i\<rparr>)" "d' = d1"
        and s': "s' = s1 \<or> s' = init_afbc_buffer Sys H (h\<lparr>backing_store_id := i\<rparr>) (d_alloc_format d1) (d_plane_info d1) s1"
        using assms(2) der True alloc Some i by (auto simp: mali_gralloc_buffer_allocate_def Let_def)
      have "fds s' = fds s1 \<and> maps s' = maps s1"
        using s' init_afbc_buffer_effect [OF assms(1)] by metis
      then show ?thesis
        using eff der True Some r by (simp add: handle_cast_eq_Some)
    qed
  qed
qed

text \<open>A request that can be allocated, in any state of the simulation that has nothing open yet.\<close>

lemma sample_buffer_run:
  fixes s :: "'a sim_scheme"
  assumes "sample_like d" and "sim_next s = 3" and "sim_limit s = 1000" and "sim_fds s = {}"
  obtains h d' g' s' where "mali_gralloc_buffer_allocate rk_build sim_os map_properties hal_sample [] sample_names
      d \<lparr>g_rk = rk_fresh, g_counter = 0\<rparr> s = Inr (Some h, d', g', s')"
    and "share_fd h = 3" and "sim_next s' = 5" and "sim_limit s' = 1000" and "sim_fds s' = {3}" and "sim_maps s' = sim_maps s"
proof -
  let ?rk = "rk_fresh\<lparr>s_platform := RK3588\<rparr>"
  obtain d' where der: "mali_gralloc_derive_format_and_size rk_build map_properties hal_sample [] d rk_fresh = Inr (0, d', ?rk)"
    "d_alloc_format d' = from_private 1"
    by (rule sample_like_derived [OF assms(1)])
  have "\<not> is_alloc_all_buffers_from_cma_heap_required_via_prop map_properties ?rk"
    by (simp add: is_alloc_all_buffers_from_cma_heap_required_via_prop_def map_properties_def rk_fresh_def)
  moreover have "get_rk_board_platform map_properties ?rk = Inr (RK3588, ?rk)"
    by (simp add: get_rk_board_platform_def)
  ultimately have "\<exists>heap. pick_dma_buf_heap map_properties hal_sample (d_consumer_usage d' OR d_producer_usage d')
      (d_hal_format d') ?rk = Inr (heap, ?rk)"
    by (cases "(d_consumer_usage d' OR d_producer_usage d') AND GRALLOC_USAGE_PROTECTED = 0")
      (simp_all add: pick_dma_buf_heap_def is_platform_rk356x_def is_platform_rk3588_def Let_def)
  then obtain heap where pick: "pick_dma_buf_heap map_properties hal_sample (d_consumer_usage d' OR d_producer_usage d')
      (d_hal_format d') ?rk = Inr (heap, ?rk)"
    by blast
  have "heap_alloc sim_os s n k = (3, s\<lparr>sim_next := 4, sim_fds := {3}\<rparr>)" for n k
    using assms by (simp add: sim_os_def sim_open_def Let_def)
  then obtain h s1 where alloc: "allocator_allocate sim_os map_properties hal_sample sample_names d' ?rk s =
      Inr (Some h, ?rk, s1)"
    "share_fd h = 3" "sim_next s1 = 5" "sim_limit s1 = 1000" "sim_fds s1 = {3}" "sim_maps s1 = sim_maps s"
    using assms by (simp add: allocator_allocate_def pick make_private_handle_def) (simp add: sim_os_def)
  have "\<not> is_afbc (from_private 1)"
    by code_simp
  then obtain i g2 where "mali_gralloc_buffer_allocate rk_build sim_os map_properties hal_sample [] sample_names
      d \<lparr>g_rk = rk_fresh, g_counter = 0\<rparr> s = Inr (Some (h\<lparr>backing_store_id := i\<rparr>), d', g2, s1)"
    using der alloc by (auto simp: mali_gralloc_buffer_allocate_def getUniqueId_def)
  then show thesis
    by (rule that) (use alloc in simp_all)
qed

text \<open>An allocation leaves no mapping behind. If it fails, whatever the step, no descriptor stays open; if it succeeds, the
  handle owns the one new descriptor and describes exactly the derived format, layout and size.\<close>

theorem buffer_allocation:
  assumes "os_documented Sys fds maps"
    and "mali_gralloc_buffer_allocate cfg Sys P H E N d g s = Inr (r, d', g', s')"
  shows "maps s' = maps s \<and> (\<exists>err rk1. mali_gralloc_derive_format_and_size cfg P H E d (g_rk g) = Inr (err, d', rk1) \<and>
    (case r of None \<Rightarrow> fds s' = fds s
     | Some h \<Rightarrow> err = 0 \<and> fds s' = insert (share_fd h) (fds s) \<and> share_fd h \<notin> fds s \<and>
         handle_cast raw (Some h) = Some h \<and> h_type h = raw \<and> share_attr_fd h = - 1 \<and>
         h_size h = ucast (d_size d') \<and> plane_info h = d_plane_info d' \<and> alloc_format h = d_alloc_format d' \<and>
         h_width h = d_width d' \<and> h_height h = d_height d' \<and> layer_count h = d_layer_count d'))"
  by (rule buffer_allocate_effect [OF assms])

theorem buffer_allocation_witness:
  "\<exists>h d' g' s'. mali_gralloc_buffer_allocate rk_build sim_os map_properties hal_sample [] sample_names
      (sample_request 1 GRALLOC_USAGE_SW_WRITE_OFTEN 2) \<lparr>g_rk = rk_fresh, g_counter = 0\<rparr> sim_start = Inr (Some h, d', g', s') \<and>
    sim_fds s' = {share_fd h} \<and> sim_maps s' = {}"
proof -
  obtain h d' g' s' where run: "mali_gralloc_buffer_allocate rk_build sim_os map_properties hal_sample [] sample_names
      (sample_request 1 GRALLOC_USAGE_SW_WRITE_OFTEN 2) \<lparr>g_rk = rk_fresh, g_counter = 0\<rparr> sim_start = Inr (Some h, d', g', s')"
    by (rule sample_buffer_run [OF sample_like_request(2), of sim_start]) (simp_all add: sim_start_def)
  show ?thesis
    using buffer_allocation [OF sim_documented run] run by (auto simp: sim_start_def)
qed

end
