(* ===== verification/Buffer_Access.thy ===== *)
theory Buffer_Access
  imports Alloc_Buffer
begin

text \<open>
  CPU access to imported buffers (src/src/core/buffer_access.cpp): the accounting of locks with the
  cache maintenance they cause, the validation of the requested region, the three ways to lock a
  buffer, unlocking, and mapping.
\<close>

section \<open>Lock accounting\<close>

datatype tx_direction = TX_NONE | TX_TO_DEVICE | TX_FROM_DEVICE | TX_BOTH

definition get_tx_direction :: "u64 \<Rightarrow> tx_direction" where
  "get_tx_direction usage =
     (let r = (usage AND GRALLOC_USAGE_SW_READ_MASK \<noteq> 0);
          w = (usage AND GRALLOC_USAGE_SW_WRITE_MASK \<noteq> 0)
      in if r \<and> w then TX_BOTH
         else if w then TX_TO_DEVICE
         else if r then TX_FROM_DEVICE
         else TX_NONE)"

definition buffer_sync ::
  "'s os \<Rightarrow> imported_handle \<Rightarrow> tx_direction \<Rightarrow> 's \<Rightarrow> imported_handle \<times> 's" where
  "buffer_sync Sys hnd direction s =
     (if direction \<noteq> TX_NONE then
        let hnd1 = hnd\<lparr>lock_count := lock_count hnd + 1,
              cpu_write := (if direction = TX_TO_DEVICE \<or> direction = TX_BOTH then 1 else 0)\<rparr>;
            cpu_read = (direction = TX_FROM_DEVICE \<or> direction = TX_BOTH);
            (status, s1) = allocator_sync_start Sys hnd1 cpu_read (cpu_write hnd1 \<noteq> 0) s
        in (hnd1, s1)
      else
        let (status, s1) =
              (if cpu_write hnd \<noteq> 0 then allocator_sync_end Sys hnd False (cpu_write hnd \<noteq> 0) s else (0, s))
        in if sint status < 0 then (hnd, s1)
           else
             let hnd1 = hnd\<lparr>lock_count := (if 0 < sint (lock_count hnd) then lock_count hnd - 1 else 0)\<rparr>
             in (if lock_count hnd1 = 0 then hnd1\<lparr>cpu_write := 0\<rparr> else hnd1, s1))"

section \<open>Mapping\<close>

definition mali_map_buffer :: "'s os \<Rightarrow> imported_handle \<Rightarrow> 's \<Rightarrow> i32 \<times> imported_handle \<times> 's" where
  "mali_map_buffer Sys hnd s = (if h_base hnd = nullptr then allocator_map Sys hnd s else (0, hnd, s))"

definition mali_unmap_buffer :: "'s os \<Rightarrow> imported_handle \<Rightarrow> 's \<Rightarrow> imported_handle \<times> 's" where
  "mali_unmap_buffer Sys hnd s =
     (if h_base hnd \<noteq> nullptr then
        (case allocator_unmap Sys hnd s of
           (hnd1, s1) \<Rightarrow> (hnd1\<lparr>h_base := nullptr, cpu_write := 0, lock_count := 0\<rparr>, s1))
      else (hnd, s))"

section \<open>The requested region\<close>

text \<open>
  The sums of two non-negative \<open>int\<close>s are checked for overflow after the fact, which assumes that
  they wrap around (C++ leaves it undefined); so does the model.
\<close>

definition validate_lock_input_parameters ::
  "'s os \<Rightarrow> imported_handle \<Rightarrow> i32 \<Rightarrow> i32 \<Rightarrow> i32 \<Rightarrow> i32 \<Rightarrow> u64 \<Rightarrow> 's \<Rightarrow> i32" where
  "validate_lock_input_parameters Sys hnd l t w h usage s =
     (let lock_pid = os_getpid Sys s
      in if sint l < 0 \<or> sint t < 0 \<or> sint w < 0 \<or> sint h < 0 then - EINVAL
         else if sint (l + w) < 0 \<or> sint (t + h) < 0 then - EINVAL
         else if sint (h_height hnd) < sint (t + h) \<or> sint (h_width hnd) < sint (l + w) then - EINVAL
         else if import_pid hnd \<noteq> lock_pid then - EINVAL
         else 0)"

definition cpu_access :: "u64 \<Rightarrow> bool" where
  "cpu_access usage \<longleftrightarrow> usage AND (GRALLOC_USAGE_SW_READ_MASK OR GRALLOC_USAGE_SW_WRITE_MASK) \<noteq> 0"

section \<open>Locking and unlocking\<close>

text \<open>
  \<open>has_vaddr\<close> says whether \<open>vaddr\<close> is not \<open>nullptr\<close>; the second component of the result is what is
  stored through it, if anything.
\<close>

definition mali_gralloc_lock ::
  "'s os \<Rightarrow> hal_env \<Rightarrow> imported_handle \<Rightarrow> u64 \<Rightarrow> i32 \<Rightarrow> i32 \<Rightarrow> i32 \<Rightarrow> i32 \<Rightarrow> bool \<Rightarrow> 's \<Rightarrow>
   i32 \<times> ptr option \<times> imported_handle \<times> 's" where
  "mali_gralloc_lock Sys H hnd usage l t w h has_vaddr s =
     (let status = validate_lock_input_parameters Sys hnd l t w h usage s
      in if status \<noteq> 0 then (status, None, hnd, s)
         else if get_base_info H (alloc_format hnd) = None then (- EINVAL, None, hnd, s)
         else if cpu_access usage then
           (if \<not> has_vaddr then (- EINVAL, None, hnd, s)
            else
              (case mali_map_buffer Sys hnd s of
                 (status1, hnd1, s1) \<Rightarrow>
                   if status1 \<noteq> 0 then (status1, None, hnd1, s1)
                   else
                     (case buffer_sync Sys hnd1 (get_tx_direction usage) s1 of
                        (hnd2, s2) \<Rightarrow> (0, Some (h_base hnd1), hnd2, s2))))
         else (0, None, hnd, s))"

definition mali_gralloc_unlock :: "'s os \<Rightarrow> imported_handle \<Rightarrow> 's \<Rightarrow> i32 \<times> imported_handle \<times> 's" where
  "mali_gralloc_unlock Sys hnd s = (case buffer_sync Sys hnd TX_NONE s of (hnd1, s1) \<Rightarrow> (0, hnd1, s1))"

record android_ycbcr =
  yc_y :: ptr
  yc_cb :: ptr
  yc_cr :: ptr
  yc_ystride :: u64
  yc_cstride :: u64
  yc_chroma_step :: u64
  yc_reserved :: "u32 list"

text \<open>The chroma fields of the formats that \<open>android_ycbcr\<close> can describe.\<close>

definition ycbcr_chroma :: "hal_env \<Rightarrow> imported_handle \<Rightarrow> android_ycbcr \<Rightarrow> android_ycbcr option" where
  "ycbcr_chroma H hnd yc =
     (let b = get_base (alloc_format hnd);
          p1 = plane_info hnd ! 1; p2 = plane_info hnd ! 2;
          start1 = h_base hnd + ucast (plane_offset p1);
          start2 = h_base hnd + ucast (plane_offset p2);
          cs = ucast (byte_stride p1)
      in if b = fmt_value H FMT_Y8 \<or> b = fmt_value H FMT_Y16 then
           Some (yc\<lparr>yc_cstride := 0, yc_cb := nullptr, yc_cr := nullptr, yc_chroma_step := 0\<rparr>)
         else if b = fmt_value H FMT_NV12 then
           Some (yc\<lparr>yc_cstride := cs, yc_cb := start1, yc_cr := start1 + 1, yc_chroma_step := 2\<rparr>)
         else if b = fmt_value H FMT_NV21 then
           Some (yc\<lparr>yc_cstride := cs, yc_cr := start1, yc_cb := start1 + 1, yc_chroma_step := 2\<rparr>)
         else if b = fmt_value H FMT_YV12 then
           Some (yc\<lparr>yc_cstride := cs, yc_cr := start1, yc_cb := start2, yc_chroma_step := 1\<rparr>)
         else if b = fmt_value H FMT_YU12 then
           Some (yc\<lparr>yc_cstride := cs, yc_cb := start1, yc_cr := start2, yc_chroma_step := 1\<rparr>)
         else None)"

text \<open>
  \<open>ycbcr\<close> is \<open>None\<close> for \<open>nullptr\<close>. Without CPU usage it is cleared without a check.
\<close>

definition mali_gralloc_lock_ycbcr ::
  "'s os \<Rightarrow> hal_env \<Rightarrow> imported_handle \<Rightarrow> u64 \<Rightarrow> i32 \<Rightarrow> i32 \<Rightarrow> i32 \<Rightarrow> i32 \<Rightarrow> android_ycbcr option \<Rightarrow> 's \<Rightarrow>
   (i32 \<times> android_ycbcr option \<times> imported_handle \<times> 's) res" where
  "mali_gralloc_lock_ycbcr Sys H hnd usage l t w h ycbcr s =
     (let status = validate_lock_input_parameters Sys hnd l t w h usage s
      in if status \<noteq> 0 then Inr (status, ycbcr, hnd, s)
         else case get_base_info H (alloc_format hnd) of
           None \<Rightarrow> Inr (- EINVAL, ycbcr, hnd, s)
         | Some info \<Rightarrow>
             if \<not> is_yuv info then Inr (- EINVAL, ycbcr, hnd, s)
             else if cpu_access usage then
               (case ycbcr of
                  None \<Rightarrow> Inr (- EINVAL, ycbcr, hnd, s)
                | Some yc \<Rightarrow>
                    (case mali_map_buffer Sys hnd s of
                       (status1, hnd1, s1) \<Rightarrow>
                         if status1 \<noteq> 0 then Inr (status1, ycbcr, hnd1, s1)
                         else
                           let yc1 = yc\<lparr>yc_y := h_base hnd1,
                                 yc_ystride := ucast (byte_stride (plane_info hnd1 ! 0))\<rparr>
                           in case ycbcr_chroma H hnd1 yc1 of
                                None \<Rightarrow> Inr (- EINVAL, Some yc1, hnd1, s1)
                              | Some yc2 \<Rightarrow>
                                  (case buffer_sync Sys hnd1 (get_tx_direction usage) s1 of
                                     (hnd2, s2) \<Rightarrow>
                                       Inr (0, Some (yc2\<lparr>yc_reserved := replicate 8 0\<rparr>), hnd2, s2))))
             else
               (case ycbcr of
                  None \<Rightarrow> Inl Null_dereference
                | Some yc \<Rightarrow>
                    Inr (0, Some \<lparr>yc_y = nullptr, yc_cb = nullptr, yc_cr = nullptr, yc_ystride = 0,
                      yc_cstride = 0, yc_chroma_step = 0, yc_reserved = replicate 8 0\<rparr>, hnd, s)))"

section \<open>Flexible layouts\<close>

datatype flex_component = FLEX_COMPONENT_Y | FLEX_COMPONENT_Cb | FLEX_COMPONENT_Cr
  | FLEX_COMPONENT_R | FLEX_COMPONENT_G | FLEX_COMPONENT_B | FLEX_COMPONENT_A

datatype flex_format = FLEX_FORMAT_INVALID | FLEX_FORMAT_Y | FLEX_FORMAT_YCbCr | FLEX_FORMAT_RGB | FLEX_FORMAT_RGBA

record android_flex_plane_t =
  top_left :: ptr
  component :: flex_component
  bits_per_component :: i32
  bits_used :: i32
  h_increment :: i32
  v_increment :: i32
  h_subsampling :: i32
  v_subsampling :: i32

record android_flex_layout =
  flex_format :: flex_format
  num_planes :: u32
  flex_planes :: "android_flex_plane_t list"

text \<open>
  \<open>set_flex_plane_params\<close>, as it is called: the first byte is at an offset from the base of the
  mapping, and the vertical increment is the byte stride of a plane of the buffer.
\<close>

definition set_flex_plane_params ::
  "imported_handle \<Rightarrow> u64 \<Rightarrow> flex_component \<Rightarrow> i32 \<Rightarrow> i32 \<Rightarrow> i32 \<Rightarrow> nat \<Rightarrow> i32 \<Rightarrow> i32 \<Rightarrow> android_flex_plane_t" where
  "set_flex_plane_params hnd off c bits used hinc line hs vs =
     \<lparr>top_left = h_base hnd + off, component = c, bits_per_component = bits, bits_used = used,
      h_increment = hinc, v_increment = byte_stride (plane_info hnd ! line),
      h_subsampling = hs, v_subsampling = vs\<rparr>"

text \<open>
  The switch. For every format it has the flexible format and the calls of \<open>set_flex_plane_params\<close>: the
  index the plane is stored at, the plane of the buffer that the first byte is counted from, the
  constant that is added, the component, its bits and used bits, the horizontal increment, the plane whose byte stride
  is the vertical increment, and the subsampling.
\<close>

type_synonym flex_call = "nat \<times> nat \<times> nat \<times> flex_component \<times> i32 \<times> i32 \<times> i32 \<times> nat \<times> i32 \<times> i32"

type_synonym flex_case = "mali_gralloc_pixel_format \<times> flex_format \<times> flex_call list"

definition flex_cases_planar :: "flex_case list" where
  "flex_cases_planar =
     [(FMT_Y8, FLEX_FORMAT_Y,
       [(0, 0, 0, FLEX_COMPONENT_Y, 8, 8, 1, 0, 1, 1)]),
      (FMT_Y16, FLEX_FORMAT_Y,
       [(0, 0, 0, FLEX_COMPONENT_Y, 16, 16, 2, 0, 1, 1)]),
      (FMT_NV12, FLEX_FORMAT_YCbCr,
       [(0, 0, 0, FLEX_COMPONENT_Y, 8, 8, 1, 0, 1, 1),
        (1, 1, 0, FLEX_COMPONENT_Cb, 8, 8, 2, 1, 2, 2),
        (2, 1, 1, FLEX_COMPONENT_Cr, 8, 8, 2, 1, 2, 2)]),
      (FMT_NV21, FLEX_FORMAT_YCbCr,
       [(0, 0, 0, FLEX_COMPONENT_Y, 8, 8, 1, 0, 1, 1),
        (1, 1, 1, FLEX_COMPONENT_Cb, 8, 8, 2, 1, 2, 2),
        (2, 1, 0, FLEX_COMPONENT_Cr, 8, 8, 2, 1, 2, 2)]),
      (FMT_YV12, FLEX_FORMAT_YCbCr,
       [(0, 0, 0, FLEX_COMPONENT_Y, 8, 8, 1, 0, 1, 1),
        (1, 2, 0, FLEX_COMPONENT_Cb, 8, 8, 1, 2, 2, 2),
        (2, 1, 0, FLEX_COMPONENT_Cr, 8, 8, 1, 1, 2, 2)]),
      (FMT_YU12, FLEX_FORMAT_YCbCr,
       [(0, 0, 0, FLEX_COMPONENT_Y, 8, 8, 1, 0, 1, 1),
        (1, 1, 0, FLEX_COMPONENT_Cb, 8, 8, 1, 2, 2, 2),
        (2, 2, 0, FLEX_COMPONENT_Cr, 8, 8, 1, 1, 2, 2)])]"

definition flex_cases_deep :: "flex_case list" where
  "flex_cases_deep =
     [(FMT_P010, FLEX_FORMAT_YCbCr,
       [(0, 0, 0, FLEX_COMPONENT_Y, 16, 10, 2, 0, 1, 1),
        (1, 1, 0, FLEX_COMPONENT_Cb, 16, 10, 4, 1, 2, 2),
        (2, 1, 2, FLEX_COMPONENT_Cr, 16, 10, 4, 1, 2, 2)]),
      (FMT_P210, FLEX_FORMAT_YCbCr,
       [(0, 0, 0, FLEX_COMPONENT_Y, 16, 10, 2, 0, 1, 1),
        (1, 1, 0, FLEX_COMPONENT_Cb, 16, 10, 4, 1, 2, 1),
        (2, 1, 2, FLEX_COMPONENT_Cr, 16, 10, 4, 1, 2, 1)]),
      (FMT_YUV422_8BIT, FLEX_FORMAT_YCbCr,
       [(0, 0, 0, FLEX_COMPONENT_Y, 8, 8, 2, 0, 1, 1),
        (1, 0, 1, FLEX_COMPONENT_Cb, 8, 8, 4, 0, 2, 1),
        (2, 0, 3, FLEX_COMPONENT_Cr, 8, 8, 4, 0, 2, 1)]),
      (FMT_NV16, FLEX_FORMAT_YCbCr,
       [(0, 0, 0, FLEX_COMPONENT_Y, 8, 8, 1, 0, 1, 1),
        (1, 1, 0, FLEX_COMPONENT_Cb, 8, 8, 2, 1, 2, 1),
        (2, 1, 1, FLEX_COMPONENT_Cr, 8, 8, 2, 1, 2, 1)]),
      (FMT_Y210, FLEX_FORMAT_YCbCr,
       [(0, 0, 0, FLEX_COMPONENT_Y, 16, 10, 4, 0, 1, 1),
        (1, 0, 2, FLEX_COMPONENT_Cb, 16, 10, 8, 0, 2, 1),
        (2, 0, 6, FLEX_COMPONENT_Cr, 16, 10, 8, 0, 2, 1)])]"

definition flex_cases_rgb :: "flex_case list" where
  "flex_cases_rgb =
     [(FMT_RGBA_16161616, FLEX_FORMAT_RGBA,
       [(0, 0, 0, FLEX_COMPONENT_R, 16, 16, 8, 0, 1, 1),
        (1, 0, 2, FLEX_COMPONENT_G, 16, 16, 8, 0, 1, 1),
        (2, 0, 4, FLEX_COMPONENT_B, 16, 16, 8, 0, 1, 1),
        (3, 0, 6, FLEX_COMPONENT_A, 16, 16, 8, 0, 1, 1)]),
      (FMT_RGBA_8888, FLEX_FORMAT_RGBA,
       [(0, 0, 0, FLEX_COMPONENT_R, 8, 8, 4, 0, 1, 1),
        (1, 0, 1, FLEX_COMPONENT_G, 8, 8, 4, 0, 1, 1),
        (2, 0, 2, FLEX_COMPONENT_B, 8, 8, 4, 0, 1, 1),
        (3, 0, 3, FLEX_COMPONENT_A, 8, 8, 4, 0, 1, 1)]),
      (FMT_RGBX_8888, FLEX_FORMAT_RGB,
       [(0, 0, 0, FLEX_COMPONENT_R, 8, 8, 4, 0, 1, 1),
        (1, 0, 1, FLEX_COMPONENT_G, 8, 8, 4, 0, 1, 1),
        (2, 0, 2, FLEX_COMPONENT_B, 8, 8, 4, 0, 1, 1)]),
      (FMT_RGB_888, FLEX_FORMAT_RGB,
       [(0, 0, 0, FLEX_COMPONENT_R, 8, 8, 3, 0, 1, 1),
        (1, 0, 1, FLEX_COMPONENT_G, 8, 8, 3, 0, 1, 1),
        (2, 0, 2, FLEX_COMPONENT_B, 8, 8, 3, 0, 1, 1)]),
      (FMT_BGRA_8888, FLEX_FORMAT_RGBA,
       [(2, 0, 0, FLEX_COMPONENT_B, 8, 8, 4, 0, 1, 1),
        (1, 0, 1, FLEX_COMPONENT_G, 8, 8, 4, 0, 1, 1),
        (0, 0, 2, FLEX_COMPONENT_R, 8, 8, 4, 0, 1, 1),
        (3, 0, 3, FLEX_COMPONENT_A, 8, 8, 4, 0, 1, 1)])]"

definition flex_switch :: "flex_case list" where
  "flex_switch = flex_cases_planar @ flex_cases_deep @ flex_cases_rgb"

definition flex_plane_of :: "imported_handle \<Rightarrow> flex_call \<Rightarrow> nat \<times> android_flex_plane_t" where
  "flex_plane_of hnd call =
     (case call of (i, q, off, c, bits, used, hinc, line, hs, vs) \<Rightarrow>
        (i, set_flex_plane_params hnd
              ((if q = 0 then 0 else ucast (plane_offset (plane_info hnd ! q))) + of_nat off)
              c bits used hinc line hs vs))"

definition flex_layout_of ::
  "hal_env \<Rightarrow> imported_handle \<Rightarrow> (flex_format \<times> (nat \<times> android_flex_plane_t) list) option" where
  "flex_layout_of H hnd =
     (case find (\<lambda>(g, _). get_base (alloc_format hnd) = fmt_value H g) flex_switch of
        None \<Rightarrow> None
      | Some (g, f, calls) \<Rightarrow> Some (f, map (flex_plane_of hnd) calls))"

definition GRALLOC1_ERROR_UNSUPPORTED :: i32 where "GRALLOC1_ERROR_UNSUPPORTED = 7"

text \<open>The handle of \<open>mali_gralloc_get_num_flex_planes\<close> is cast without a check of the result.\<close>

definition mali_gralloc_get_num_flex_planes ::
  "hal_env \<Rightarrow> 'a private_handle_t_scheme option \<Rightarrow> (i32 \<times> u32 option) res" where
  "mali_gralloc_get_num_flex_planes H buffer =
     (case handle_cast raw buffer of
        None \<Rightarrow> Inl Null_dereference
      | Some h \<Rightarrow>
          if has_modifiers (alloc_format h) then Inr (GRALLOC1_ERROR_UNSUPPORTED, None)
          else case get_base_info H (alloc_format h) of
            None \<Rightarrow> Inr (- EINVAL, None)
          | Some info \<Rightarrow>
              if \<not> flex info then Inr (GRALLOC1_ERROR_UNSUPPORTED, None)
              else Inr (0, Some (of_nat (total_components info))))"

definition mali_gralloc_lock_flex ::
  "'s os \<Rightarrow> hal_env \<Rightarrow> imported_handle \<Rightarrow> u64 \<Rightarrow> i32 \<Rightarrow> i32 \<Rightarrow> i32 \<Rightarrow> i32 \<Rightarrow> android_flex_layout \<Rightarrow> 's \<Rightarrow>
   i32 \<times> android_flex_layout \<times> imported_handle \<times> 's" where
  "mali_gralloc_lock_flex Sys H hnd usage l t w h layout s =
     (let status = validate_lock_input_parameters Sys hnd l t w h usage s
      in if status \<noteq> 0 then (status, layout, hnd, s)
         else case get_base_info H (alloc_format hnd) of
           None \<Rightarrow> (- EINVAL, layout, hnd, s)
         | Some info \<Rightarrow>
             if \<not> flex info then (GRALLOC1_ERROR_UNSUPPORTED, layout, hnd, s)
             else
               (case mali_map_buffer Sys hnd s of
                  (status1, hnd1, s1) \<Rightarrow>
                    if status1 \<noteq> 0 then (status1, layout, hnd1, s1)
                    else
                      let layout1 = layout\<lparr>num_planes := of_nat (total_components info)\<rparr>
                      in case flex_layout_of H hnd1 of
                           None \<Rightarrow> (GRALLOC1_ERROR_UNSUPPORTED, layout1, hnd1, s1)
                         | Some (f, planes) \<Rightarrow>
                             (case buffer_sync Sys hnd1 (get_tx_direction usage) s1 of
                                (hnd2, s2) \<Rightarrow>
                                  (0, layout1\<lparr>flex_format := f,
                                      flex_planes := fold (\<lambda>(i, p) ps. ps[i := p]) planes (flex_planes layout1)\<rparr>,
                                   hnd2, s2))))"

lemma unat_bound: "unat (a :: i32) < 2 ^ 32"
  using unsigned_less [of a, where ?'a = nat] by simp

lemma sint_unat: "sint (a :: i32) = (if unat a < 2 ^ 31 then int (unat a) else int (unat a) - 2 ^ 32)"
proof (cases "unat a < 2 ^ 31")
  case True
  then show ?thesis by (simp add: sint_small)
next
  case False
  define k where "k = int (unat a) - 2 ^ 32"
  have k: "- (2 ^ 31) \<le> k" "k < 2 ^ 31"
    using False unat_bound [of a] by (simp_all add: k_def del: of_nat_unat)
  have a: "a = word_of_int k"
    by (simp add: k_def)
  have "sint (word_of_int k :: i32) = signed_take_bit 31 k"
    using sint_sbintrunc' [where ?'a = 32, of k] by simp
  also have "\<dots> = k"
    using k by (simp add: signed_take_bit_int_eq_self_iff)
  finally show ?thesis
    using False unfolding a [symmetric] by (simp add: k_def)
qed

lemma sint_nonneg_iff: "0 \<le> sint (a :: i32) \<longleftrightarrow> unat a < 2 ^ 31"
  using unat_bound [of a] by (simp add: sint_unat del: of_nat_unat)

text \<open>The wrap-around of the sum of two non-negative numbers is seen in its sign.\<close>

lemma sint_add_nonneg:
  fixes a b :: i32
  assumes "0 \<le> sint a" "0 \<le> sint b"
  shows "0 \<le> sint (a + b) \<longleftrightarrow> sint a + sint b < 2 ^ 31"
    and "0 \<le> sint (a + b) \<Longrightarrow> sint (a + b) = sint a + sint b"
proof -
  have ab: "unat a < 2 ^ 31" "unat b < 2 ^ 31"
    using assms by (simp_all add: sint_nonneg_iff)
  then have "unat (a + b) = unat a + unat b"
    by (simp add: unat_word_ariths(1))
  then show "0 \<le> sint (a + b) \<longleftrightarrow> sint a + sint b < 2 ^ 31"
    and "0 \<le> sint (a + b) \<Longrightarrow> sint (a + b) = sint a + sint b"
    unfolding sint_nonneg_iff using ab by (auto simp: sint_unat simp del: of_nat_unat)
qed

text \<open>A lock is admitted exactly for a region that lies inside the buffer, without any overflow, in
  a process that has imported the buffer.\<close>

theorem lock_region_inside:
  "validate_lock_input_parameters Sys hnd l t w h usage s = 0 \<longleftrightarrow>
    (0 \<le> sint l \<and> 0 \<le> sint t \<and> 0 \<le> sint w \<and> 0 \<le> sint h \<and>
     sint l + sint w \<le> sint (h_width hnd) \<and> sint t + sint h \<le> sint (h_height hnd) \<and>
     import_pid hnd = os_getpid Sys s)"
proof -
  have e: "- EINVAL \<noteq> 0"
    by (simp add: EINVAL_def)
  have "sint (h_width hnd) < 2 ^ 31" "sint (h_height hnd) < 2 ^ 31"
    using unat_bound [of "h_width hnd"] unat_bound [of "h_height hnd"] by (simp_all add: sint_unat del: of_nat_unat)
  then show ?thesis
    using sint_add_nonneg [of l w] sint_add_nonneg [of t h] e
    by (auto simp: validate_lock_input_parameters_def Let_def not_less not_le split: if_splits)
qed

section \<open>Runs of lock and unlock\<close>

text \<open>
  The accesses of a process to one imported buffer. The last component counts the CPU locks that
  have not been unlocked yet.
\<close>

inductive access_run ::
  "'s os \<Rightarrow> hal_env \<Rightarrow> imported_handle \<times> 's \<times> nat \<Rightarrow> imported_handle \<times> 's \<times> nat \<Rightarrow> bool"
  for Sys H a where
  access_refl: "access_run Sys H a a"
| access_lock: "access_run Sys H a (hnd, s, n) \<Longrightarrow> Suc n < 2 ^ 31 \<Longrightarrow>
    mali_gralloc_lock Sys H hnd usage l t w h has_vaddr s = (0, Some p, hnd', s') \<Longrightarrow>
    access_run Sys H a (hnd', s', Suc n)"
| access_no_lock: "access_run Sys H a (hnd, s, n) \<Longrightarrow>
    mali_gralloc_lock Sys H hnd usage l t w h has_vaddr s = (status, None, hnd', s') \<Longrightarrow>
    access_run Sys H a (hnd', s', n)"
| access_unlock: "access_run Sys H a (hnd, s, n) \<Longrightarrow>
    mali_gralloc_unlock Sys hnd s = (status, hnd', s') \<Longrightarrow>
    access_run Sys H a (hnd', s', n - 1)"

inductive_cases access_runE: "access_run Sys H a b"

text \<open>The effect of one operation, as the runs need it.\<close>

lemma or_zero_iff: "x OR y = 0 \<longleftrightarrow> x = 0 \<and> y = 0" for x y :: u64
  by (auto simp: bit_eq_iff bit_simps)

lemma get_tx_direction_none: "get_tx_direction usage = TX_NONE \<longleftrightarrow> \<not> cpu_access usage"
  by (auto simp: get_tx_direction_def cpu_access_def Let_def bit.conj_disj_distrib or_zero_iff)

lemma lock_SomeE:
  assumes "mali_gralloc_lock Sys H hnd usage l t w h has_vaddr s = (status, Some p, hnd', s')"
  obtains hnd1 s1 where "mali_map_buffer Sys hnd s = (0, hnd1, s1)" and "p = h_base hnd1"
    and "buffer_sync Sys hnd1 (get_tx_direction usage) s1 = (hnd', s')" and "get_tx_direction usage \<noteq> TX_NONE"
  using assms by (auto simp: mali_gralloc_lock_def Let_def get_tx_direction_none split: if_splits prod.splits)

lemma lock_NoneE:
  assumes "mali_gralloc_lock Sys H hnd usage l t w h has_vaddr s = (status, None, hnd', s')"
  obtains "hnd' = hnd" "s' = s" | r where "mali_map_buffer Sys hnd s = (r, hnd', s')" "r \<noteq> 0"
  using assms by (auto simp: mali_gralloc_lock_def Let_def split: if_splits prod.splits)

lemma map_bufferE:
  assumes "mali_map_buffer Sys hnd s = (r, hnd', s')"
  obtains "h_base hnd \<noteq> nullptr" "hnd' = hnd" "s' = s" "r = 0"
  | e where "h_base hnd = nullptr" "os_mmap Sys s (scast (h_size hnd)) (share_fd hnd) = (Inl e, s')"
      "hnd' = hnd" "r = - e"
  | a where "h_base hnd = nullptr" "os_mmap Sys s (scast (h_size hnd)) (share_fd hnd) = (Inr a, s')"
      "hnd' = hnd\<lparr>h_base := a\<rparr>" "r = 0"
proof (cases "h_base hnd = nullptr")
  case False
  then show ?thesis
    using assms by (intro that(1)) (simp_all add: mali_map_buffer_def)
next
  case True
  obtain q s1 where q: "os_mmap Sys s (scast (h_size hnd)) (share_fd hnd) = (q, s1)"
    by fastforce
  show ?thesis
  proof (cases q)
    case (Inl e)
    then show ?thesis
      using assms True q by (intro that(2) [of e]) (simp_all add: mali_map_buffer_def allocator_map_def)
  next
    case (Inr b)
    then show ?thesis
      using assms True q by (intro that(3) [of b]) (simp_all add: mali_map_buffer_def allocator_map_def)
  qed
qed

lemma sync_lockE:
  assumes "buffer_sync Sys hnd d s = (hnd', s')" and "d \<noteq> TX_NONE"
  obtains c t where "hnd' = hnd\<lparr>lock_count := lock_count hnd + 1, cpu_write := c\<rparr>"
    and "s' = snd (heap_sync_start Sys s (share_fd hnd) t)"
proof -
  let ?c = "if d = TX_TO_DEVICE \<or> d = TX_BOTH then 1 else 0 :: i32"
  let ?t = "make_sync_type (d = TX_FROM_DEVICE \<or> d = TX_BOTH) (?c \<noteq> 0)"
  have "hnd' = hnd\<lparr>lock_count := lock_count hnd + 1, cpu_write := ?c\<rparr>"
    "s' = snd (heap_sync_start Sys s (share_fd hnd) ?t)"
    using assms by (cases d; simp add: buffer_sync_def Let_def allocator_sync_start_def split: prod.splits)+
  then show ?thesis
    by (rule that)
qed

lemma sync_unlockE:
  assumes "buffer_sync Sys hnd TX_NONE s = (hnd', s')"
  obtains (released) "hnd' = hnd\<lparr>lock_count := lock_count hnd', cpu_write := cpu_write hnd'\<rparr>"
      "lock_count hnd' = (if 0 < sint (lock_count hnd) then lock_count hnd - 1 else 0)"
      "cpu_write hnd' = (if lock_count hnd' = 0 then 0 else cpu_write hnd)"
      "s' = (if cpu_write hnd \<noteq> 0 then snd (heap_sync_end Sys s (share_fd hnd) kSyncWrite) else s)"
  | (failed) "hnd' = hnd" "cpu_write hnd \<noteq> 0" "s' = snd (heap_sync_end Sys s (share_fd hnd) kSyncWrite)"
      "sint (fst (heap_sync_end Sys s (share_fd hnd) kSyncWrite)) < 0"
proof -
  have start: "allocator_sync_end Sys hnd False True s = heap_sync_end Sys s (share_fd hnd) kSyncWrite"
    by (simp add: allocator_sync_end_def make_sync_type_def)
  obtain st s1 where e: "heap_sync_end Sys s (share_fd hnd) kSyncWrite = (st, s1)"
    by fastforce
  show ?thesis
  proof (cases "cpu_write hnd \<noteq> 0 \<and> sint st < 0")
    case True
    then show ?thesis
      using assms e by (intro failed) (auto simp: buffer_sync_def start)
  next
    case False
    then have "hnd' = (let h1 = hnd\<lparr>lock_count := (if 0 < sint (lock_count hnd) then lock_count hnd - 1 else 0)\<rparr>
        in if lock_count h1 = 0 then h1\<lparr>cpu_write := 0\<rparr> else h1)"
      and s': "s' = (if cpu_write hnd \<noteq> 0 then s1 else s)"
      using assms by (cases "cpu_write hnd = 0"; simp add: buffer_sync_def start e Let_def)+
    then show ?thesis
      by (intro released) (simp_all add: Let_def e)
  qed
qed

section \<open>The buffer is mapped at most once\<close>

definition own_mapping :: "imported_handle \<Rightarrow> (ptr \<times> u64) set" where
  "own_mapping hnd = (if h_base hnd = nullptr then {} else {(h_base hnd, scast (h_size hnd))})"

text \<open>What every operation keeps: the fields of the buffer, the descriptors, and all mappings but its own.\<close>

definition mapping_inv ::
  "('s \<Rightarrow> i32 set) \<Rightarrow> ('s \<Rightarrow> (ptr \<times> u64) set) \<Rightarrow> imported_handle \<Rightarrow> 's \<Rightarrow> imported_handle \<Rightarrow> 's \<Rightarrow> bool" where
  "mapping_inv fds maps hnd0 s0 hnd s \<longleftrightarrow>
     (\<exists>n c b. hnd = hnd0\<lparr>lock_count := n, cpu_write := c, h_base := b\<rparr>) \<and>
     fds s = fds s0 \<and> maps s = maps s0 \<union> own_mapping hnd \<and>
     (h_base hnd \<noteq> nullptr \<longrightarrow> h_base hnd \<notin> fst ` maps s0)"

lemma mapping_inv_fields:
  assumes "mapping_inv fds maps hnd0 s0 hnd s"
  shows "share_fd hnd = share_fd hnd0" "h_size hnd = h_size hnd0"
  using assms by (auto simp: mapping_inv_def)

lemma mapping_inv_sync:
  assumes "os_documented Sys fds maps" and "mapping_inv fds maps hnd0 s0 hnd s"
    and "buffer_sync Sys hnd d s = (hnd', s')"
  shows "mapping_inv fds maps hnd0 s0 hnd' s'"
proof -
  have "\<exists>n c. hnd' = hnd\<lparr>lock_count := n, cpu_write := c\<rparr> \<and> fds s' = fds s \<and> maps s' = maps s"
  proof (cases "d = TX_NONE")
    case True
    show ?thesis
      using assms(3) unfolding True
    proof (cases rule: sync_unlockE)
      case released
      then show ?thesis
        using os_keeps [OF assms(1)] by metis
    next
      case failed
      then show ?thesis
        using os_keeps [OF assms(1)] by (intro exI [of _ "lock_count hnd"] exI [of _ "cpu_write hnd"]) simp
    qed
  next
    case False
    show ?thesis
      using sync_lockE [OF assms(3) False] os_keeps [OF assms(1)] by metis
  qed
  then obtain n c where "hnd' = hnd\<lparr>lock_count := n, cpu_write := c\<rparr>" "fds s' = fds s" "maps s' = maps s"
    by blast
  moreover obtain m d b where "hnd = hnd0\<lparr>lock_count := m, cpu_write := d, h_base := b\<rparr>"
    using assms(2) by (auto simp: mapping_inv_def)
  moreover from this calculation(1) have "\<exists>n c b. hnd' = hnd0\<lparr>lock_count := n, cpu_write := c, h_base := b\<rparr>"
    by (intro exI [of _ n] exI [of _ c] exI [of _ b]) simp
  ultimately show ?thesis
    using assms(2) unfolding mapping_inv_def own_mapping_def by simp
qed

lemma mapping_inv_map:
  assumes "os_documented Sys fds maps" and "mapping_inv fds maps hnd0 s0 hnd s"
    and "mali_map_buffer Sys hnd s = (r, hnd', s')"
  shows "mapping_inv fds maps hnd0 s0 hnd' s'"
  using assms(3)
proof (cases rule: map_bufferE)
  case 1
  then show ?thesis using assms(2) by simp
next
  case (2 e)
  then show ?thesis
    using assms(2) os_mmap_failed [OF assms(1) 2(2)] by (simp add: mapping_inv_def)
next
  case (3 a)
  note eff = os_mmap_done [OF assms(1) 3(2)]
  obtain n c b where h: "hnd = hnd0\<lparr>lock_count := n, cpu_write := c, h_base := b\<rparr>"
    using assms(2) by (auto simp: mapping_inv_def)
  have "maps s = maps s0" "fds s = fds s0"
    using assms(2) 3(1) by (simp_all add: mapping_inv_def own_mapping_def)
  then show ?thesis
    using 3 eff h by (auto simp: mapping_inv_def own_mapping_def)
qed

lemma mapping_inv_lock:
  assumes "os_documented Sys fds maps" and "mapping_inv fds maps hnd0 s0 hnd s"
    and "mali_gralloc_lock Sys H hnd usage l t w h v s = (r, p, hnd', s')"
  shows "mapping_inv fds maps hnd0 s0 hnd' s'"
proof (cases p)
  case None
  show ?thesis
    using assms(3) [unfolded None] by (cases rule: lock_NoneE) (use assms mapping_inv_map in auto)
next
  case (Some q)
  show ?thesis
    using assms(3) [unfolded Some]
    by (rule lock_SomeE) (rule mapping_inv_sync [OF assms(1) mapping_inv_map [OF assms(1,2)]])
qed

text \<open>However often a buffer is locked and unlocked, the process maps it at most once, at an address
  that no other mapping has, and neither opens nor closes a descriptor; unmapping it afterwards
  leaves exactly the mappings there were at the beginning.\<close>

theorem mapped_at_most_once:
  assumes "os_documented Sys fds maps" and "h_base hnd0 = nullptr"
    and "access_run Sys H (hnd0, s0, n0) (hnd, s, n)"
  shows "fds s = fds s0 \<and> maps s = maps s0 \<union> own_mapping hnd \<and> own_mapping hnd \<inter> maps s0 = {} \<and>
    (case mali_unmap_buffer Sys hnd s of
       (hnd', s') \<Rightarrow> h_base hnd' = nullptr \<and> lock_count hnd' = (if h_base hnd = nullptr then lock_count hnd else 0) \<and>
         fds s' = fds s0 \<and> maps s' = maps s0)"
proof -
  have "mapping_inv fds maps hnd0 s0 (fst b) (fst (snd b))"
    if "access_run Sys H a b" "a = (hnd0, s0, n0)" for a b
    using that
  proof (induction rule: access_run.induct)
    case access_refl
    have "hnd0 = hnd0\<lparr>lock_count := lock_count hnd0, cpu_write := cpu_write hnd0, h_base := h_base hnd0\<rparr>"
      by simp
    then have "\<exists>n c b. hnd0 = hnd0\<lparr>lock_count := n, cpu_write := c, h_base := b\<rparr>"
      by (intro exI)
    then have "mapping_inv fds maps hnd0 s0 hnd0 s0"
      unfolding mapping_inv_def own_mapping_def using assms(2) by (intro conjI) (assumption | simp)+
    with access_refl show ?case
      by simp
  next
    case access_lock
    then show ?case
      using mapping_inv_lock [OF assms(1)] by fastforce
  next
    case access_no_lock
    then show ?case
      using mapping_inv_lock [OF assms(1)] by fastforce
  next
    case (access_unlock hnd s n status hnd' s')
    then have "mapping_inv fds maps hnd0 s0 hnd s" "buffer_sync Sys hnd TX_NONE s = (hnd', s')"
      by (auto simp: mali_gralloc_unlock_def split: prod.splits)
    then show ?case
      using mapping_inv_sync [OF assms(1)] by simp
  qed
  from this [OF assms(3)] have inv: "mapping_inv fds maps hnd0 s0 hnd s"
    by simp
  then have disj: "own_mapping hnd \<inter> maps s0 = {}"
    by (auto simp: mapping_inv_def own_mapping_def image_iff)
  obtain ok s1 where m: "os_munmap Sys s (h_base hnd) (scast (h_size hnd)) = (ok, s1)"
    by fastforce
  have "fds s1 = fds s" "maps s1 = maps s - {(h_base hnd, scast (h_size hnd))}"
    using os_munmap_effect [OF assms(1), of s "h_base hnd" "scast (h_size hnd)"] m by simp_all
  then show ?thesis
    using inv disj m by (auto simp: mapping_inv_def own_mapping_def mali_unmap_buffer_def allocator_unmap_def)
qed

section \<open>Locks are counted\<close>

definition sync_end_succeeds :: "'s os \<Rightarrow> bool" where
  "sync_end_succeeds Sys \<longleftrightarrow> (\<forall>s fd t. 0 \<le> sint (fst (heap_sync_end Sys s fd t)))"

definition counted :: "imported_handle \<Rightarrow> nat \<Rightarrow> bool" where
  "counted hnd n \<longleftrightarrow> unat (lock_count hnd) = n \<and> n < 2 ^ 31 \<and> (n = 0 \<longrightarrow> cpu_write hnd = 0)"

lemma counted_map:
  assumes "mali_map_buffer Sys hnd s = (r, hnd', s')"
  shows "counted hnd' n \<longleftrightarrow> counted hnd n"
  using assms by (cases rule: map_bufferE) (simp_all add: counted_def)

lemma counted_lock:
  assumes "counted hnd n" and "Suc n < 2 ^ 31" and "buffer_sync Sys hnd d s = (hnd', s')" and "d \<noteq> TX_NONE"
  shows "counted hnd' (Suc n)"
proof -
  obtain c where "hnd' = hnd\<lparr>lock_count := lock_count hnd + 1, cpu_write := c\<rparr>"
    using sync_lockE [OF assms(3,4)] by metis
  moreover have "unat (lock_count hnd + 1) = Suc n"
    using assms(1,2) by (simp add: counted_def unat_word_ariths(1))
  ultimately show ?thesis
    using assms(2) by (simp add: counted_def)
qed

lemma counted_unlock:
  assumes "counted hnd n" and "buffer_sync Sys hnd TX_NONE s = (hnd', s')" and "sync_end_succeeds Sys"
  shows "counted hnd' (n - 1)"
  using assms(2)
proof (cases rule: sync_unlockE)
  case released
  show ?thesis
  proof (cases n)
    case 0
    then have "lock_count hnd = 0"
      using assms(1) by (simp add: counted_def unat_eq_0)
    then show ?thesis
      using released 0 by (simp add: counted_def)
  next
    case (Suc m)
    then have "unat (lock_count hnd) = Suc m" "Suc m < 2 ^ 31"
      using assms(1) by (simp_all add: counted_def)
    then have "0 < sint (lock_count hnd)" "unat (lock_count hnd - 1) = m"
      by (simp_all add: sint_small unat_minus_one unat_eq_0 [symmetric])
    moreover from this have "m = 0 \<Longrightarrow> lock_count hnd - 1 = 0"
      by (simp add: word_unat_eq_iff)
    ultimately show ?thesis
      using released(2,3) Suc \<open>Suc m < 2 ^ 31\<close> by (auto simp: counted_def)
  qed
next
  case failed
  then show ?thesis
    using assms(3) by (simp add: sync_end_succeeds_def) (metis not_less)
qed

text \<open>As long as the cache maintenance succeeds, the lock count of a buffer is the number of CPU locks that have not
  been unlocked, surplus unlocks are ignored, and once the last lock is gone the buffer is no
  longer marked as written.\<close>

theorem locks_counted:
  assumes "sync_end_succeeds Sys" and "lock_count hnd0 = 0" "cpu_write hnd0 = 0"
    and "access_run Sys H (hnd0, s0, 0) (hnd, s, n)"
  shows "unat (lock_count hnd) = n \<and> (n = 0 \<longrightarrow> cpu_write hnd = 0)"
proof -
  have "counted (fst b) (snd (snd b))" if "access_run Sys H a b" "a = (hnd0, s0, 0)" for a b
    using that
  proof (induction rule: access_run.induct)
    case access_refl
    then show ?case
      using assms(2,3) by (simp add: counted_def)
  next
    case (access_lock hnd s n usage l t w h v p hnd' s')
    obtain hnd1 s1 where m: "mali_map_buffer Sys hnd s = (0, hnd1, s1)"
      "buffer_sync Sys hnd1 (get_tx_direction usage) s1 = (hnd', s')" "get_tx_direction usage \<noteq> TX_NONE"
      by (rule lock_SomeE [OF access_lock.hyps(3)])
    have "counted hnd1 n"
      using counted_map [OF m(1)] access_lock.IH access_lock.prems by simp
    then show ?case
      using counted_lock [OF _ access_lock.hyps(2) m(2,3)] by simp
  next
    case (access_no_lock hnd s n usage l t w h v status hnd' s')
    have "counted hnd n"
      using access_no_lock.IH access_no_lock.prems by simp
    with access_no_lock.hyps(2) have "counted hnd' n"
      by (elim lock_NoneE) (simp_all add: counted_map)
    then show ?case by simp
  next
    case (access_unlock hnd s n status hnd' s')
    then have "counted hnd n" "buffer_sync Sys hnd TX_NONE s = (hnd', s')"
      by (auto simp: mali_gralloc_unlock_def split: prod.splits)
    then show ?case
      using counted_unlock [OF _ _ assms(1)] by simp
  qed
  from this [OF assms(4)] show ?thesis
    by (simp add: counted_def)
qed

text \<open>A read lock taken while the buffer is locked for writing takes away the mark of the writer.
  The two unlocks that follow then end without any cache maintenance: what the CPU has
  written is never flushed.\<close>

theorem write_lost_under_read:
  assumes "mali_gralloc_lock Sys H hnd wu l t w h True s = (0, Some p, hnd1, s1)"
    and "mali_gralloc_lock Sys H hnd1 ru l' t' w' h' True s1 = (0, Some q, hnd2, s2)"
    and "get_tx_direction wu = TX_TO_DEVICE" "get_tx_direction ru = TX_FROM_DEVICE"
    and "mali_gralloc_unlock Sys hnd2 s2 = (r3, hnd3, s3)" and "mali_gralloc_unlock Sys hnd3 s3 = (r4, hnd4, s4)"
  shows "cpu_write hnd1 = 1 \<and> cpu_write hnd2 = 0 \<and> s3 = s2 \<and> s4 = s2"
proof -
  have lock: "cpu_write hnd'' = (if d = TX_TO_DEVICE \<or> d = TX_BOTH then 1 else 0)"
    if "buffer_sync Sys hnd' d s' = (hnd'', s'')" "d \<noteq> TX_NONE" for hnd' d s' hnd'' s''
    using that by (auto simp: buffer_sync_def Let_def split: prod.splits)
  have unlock: "cpu_write hnd'' = 0 \<and> s'' = s'"
    if "mali_gralloc_unlock Sys hnd' s' = (r, hnd'', s'')" "cpu_write hnd' = 0" for hnd' s' r hnd'' s''
    using that by (auto simp: mali_gralloc_unlock_def buffer_sync_def Let_def split: prod.splits if_splits)
  have w1: "cpu_write hnd1 = 1"
    using assms(1) by (rule lock_SomeE) (use lock assms(3) in fastforce)
  have w2: "cpu_write hnd2 = 0"
    using assms(2) by (rule lock_SomeE) (use lock assms(4) in fastforce)
  show ?thesis
    using w1 w2 unlock [OF assms(5) w2] unlock [OF assms(6)] by simp
qed

text \<open>The sample buffer: an imported copy of a 640 by 480 handle, ready to be locked.\<close>

definition sample_imported :: imported_handle where
  "sample_imported = (imported_copy sample_handle [4, 5] sim_junk)
     \<lparr>lock_count := 0, cpu_write := 0, import_pid := 42, h_base := nullptr, attr_base := 0x1000\<rparr>"

lemma sample_handle_fields:
  "h_width sample_handle = 640" "h_height sample_handle = 480" "h_size sample_handle = 1228800"
  "alloc_format sample_handle = from_private 1" "plane_info sample_handle = sample_planes"
  by (simp_all add: sample_handle_def make_private_handle_def sim_os_def)

lemma sample_imported_fields [simp]:
  "h_width sample_imported = 640" "h_height sample_imported = 480" "h_size sample_imported = 1228800"
  "alloc_format sample_imported = from_private 1" "share_fd sample_imported = 4"
  "lock_count sample_imported = 0" "cpu_write sample_imported = 0" "import_pid sample_imported = 42"
  "h_base sample_imported = nullptr" "plane_info sample_imported = sample_planes"
  by (simp_all add: sample_imported_def sample_handle_fields)

text \<open>A lock of the sample for writing and then for reading.\<close>

lemma sample_lock:
  assumes "lock_count h = n" and "h = sample_imported\<lparr>lock_count := n, cpu_write := c, h_base := b\<rparr>"
    and "b = nullptr \<or> b = 0x3000" and "cpu_access u"
    and "s = (if b = nullptr then sim_start else sim_start\<lparr>sim_next := 4, sim_maps := {(0x3000, 1228800)}\<rparr>)"
  shows "mali_gralloc_lock sim_os hal_sample h u 0 0 640 480 True s =
    (0, Some 0x3000, h\<lparr>lock_count := n + 1, h_base := 0x3000,
       cpu_write := (if get_tx_direction u = TX_TO_DEVICE \<or> get_tx_direction u = TX_BOTH then 1 else 0)\<rparr>,
     sim_start\<lparr>sim_next := 4, sim_maps := {(0x3000, 1228800)}\<rparr>)"
proof -
  have v: "validate_lock_input_parameters sim_os h 0 0 640 480 u s = 0" for u
    using assms(2,5) by (cases "b = nullptr") (simp_all add: validate_lock_input_parameters_def Let_def
        sim_os_def sim_start_def)
  have "alloc_format h = from_private 1"
    using assms(2) by simp
  then have f: "get_base_info hal_sample (alloc_format h) \<noteq> None"
    using sample_rgba_row by auto
  have d: "get_tx_direction u \<noteq> TX_NONE"
    using assms(4) by (simp add: get_tx_direction_none)
  have m: "mali_map_buffer sim_os h s = (0, h\<lparr>h_base := 0x3000\<rparr>, sim_start\<lparr>sim_next := 4, sim_maps := {(0x3000, 1228800)}\<rparr>)"
    using assms(2,3,5) by (auto simp: mali_map_buffer_def allocator_map_def sim_os_def sim_mmap_def sim_start_def
        nullptr_def MAP_FAILED_def Let_def)
  show ?thesis
    using assms(1,4) v f d
    by (simp add: mali_gralloc_lock_def m buffer_sync_def Let_def allocator_sync_start_def) (simp add: sim_os_def)
qed

definition sample_mapped :: sim where
  "sample_mapped = sim_start\<lparr>sim_next := 4, sim_maps := {(0x3000, 1228800)}\<rparr>"

lemma sample_first_lock:
  assumes "cpu_access u" and "c = (if get_tx_direction u = TX_TO_DEVICE \<or> get_tx_direction u = TX_BOTH then 1 else 0)"
  shows "mali_gralloc_lock sim_os hal_sample sample_imported u 0 0 640 480 True sim_start =
    (0, Some 0x3000, sample_imported\<lparr>lock_count := 1, h_base := 0x3000, cpu_write := c\<rparr>, sample_mapped)"
proof -
  have "sample_imported = sample_imported\<lparr>lock_count := 0, cpu_write := 0, h_base := nullptr\<rparr>"
    by (simp add: sample_imported_def)
  then show ?thesis
    using sample_lock [where h = sample_imported and n = 0 and c = 0 and b = nullptr and u = u and s = sim_start] assms
    by (simp add: sample_mapped_def)
qed

lemma sample_accesses_run:
  assumes "cpu_access u"
  shows "\<exists>h. access_run sim_os hal_sample (sample_imported, sim_start, 0) (h, sample_mapped, 1) \<and>
    own_mapping h = {(0x3000, 1228800)}"
proof -
  define c where "c = (if get_tx_direction u = TX_TO_DEVICE \<or> get_tx_direction u = TX_BOTH then 1 else 0 :: i32)"
  have "access_run sim_os hal_sample (sample_imported, sim_start, 0)
      (sample_imported\<lparr>lock_count := 1, h_base := 0x3000, cpu_write := c\<rparr>, sample_mapped, Suc 0)"
    by (rule access_lock [OF access_refl _ sample_first_lock [OF assms c_def]]) simp
  then show ?thesis
    by (intro exI [of _ "sample_imported\<lparr>lock_count := 1, h_base := 0x3000, cpu_write := c\<rparr>"])
      (simp add: own_mapping_def nullptr_def)
qed

lemma sample_access: "cpu_access GRALLOC_USAGE_SW_WRITE_OFTEN" "cpu_access GRALLOC_USAGE_SW_READ_OFTEN"
  "get_tx_direction GRALLOC_USAGE_SW_WRITE_OFTEN = TX_TO_DEVICE"
  "get_tx_direction GRALLOC_USAGE_SW_READ_OFTEN = TX_FROM_DEVICE"
  by (simp_all add: cpu_access_def get_tx_direction_def usage_values)

theorem mapped_at_most_once_witness:
  "\<exists>h. access_run sim_os hal_sample (sample_imported, sim_start, 0) (h, sample_mapped, 1) \<and>
    sim_maps sample_mapped = own_mapping h"
proof -
  obtain h where r: "access_run sim_os hal_sample (sample_imported, sim_start, 0) (h, sample_mapped, 1)"
    using sample_accesses_run [OF sample_access(1)] by blast
  show ?thesis
    using mapped_at_most_once [OF sim_documented _ r] r by (auto simp: sim_start_def)
qed

theorem locks_counted_witness:
  "\<exists>h. access_run sim_os hal_sample (sample_imported, sim_start, 0) (h, sample_mapped, 1) \<and> unat (lock_count h) = 1"
proof -
  obtain h where r: "access_run sim_os hal_sample (sample_imported, sim_start, 0) (h, sample_mapped, 1)"
    using sample_accesses_run [OF sample_access(1)] by blast
  have "sync_end_succeeds sim_os"
    by (simp add: sync_end_succeeds_def sim_os_def)
  then show ?thesis
    using locks_counted [OF _ _ _ r] r by (auto simp: sim_start_def)
qed

theorem write_lost_under_read_witness:
  "\<exists>h1 h2. mali_gralloc_lock sim_os hal_sample sample_imported GRALLOC_USAGE_SW_WRITE_OFTEN 0 0 640 480 True sim_start =
      (0, Some 0x3000, h1, sample_mapped) \<and>
    mali_gralloc_lock sim_os hal_sample h1 GRALLOC_USAGE_SW_READ_OFTEN 0 0 640 480 True sample_mapped =
      (0, Some 0x3000, h2, sample_mapped) \<and>
    cpu_write h1 = 1 \<and> cpu_write h2 = 0 \<and> snd (snd (mali_gralloc_unlock sim_os h2 sample_mapped)) = sample_mapped"
proof -
  let ?h1 = "sample_imported\<lparr>lock_count := 1, h_base := 0x3000, cpu_write := 1\<rparr>"
  let ?h2 = "?h1\<lparr>lock_count := 2, cpu_write := 0\<rparr>"
  have l1: "mali_gralloc_lock sim_os hal_sample sample_imported GRALLOC_USAGE_SW_WRITE_OFTEN 0 0 640 480 True sim_start =
      (0, Some 0x3000, ?h1, sample_mapped)"
    by (rule sample_first_lock [OF sample_access(1)]) (simp add: sample_access)
  have l2: "mali_gralloc_lock sim_os hal_sample ?h1 GRALLOC_USAGE_SW_READ_OFTEN 0 0 640 480 True sample_mapped =
      (0, Some 0x3000, ?h2, sample_mapped)"
    using sample_lock [where h = ?h1 and n = 1 and c = 1 and b = "0x3000" and u = GRALLOC_USAGE_SW_READ_OFTEN and s = sample_mapped]
      sample_access(2)
    by (simp add: sample_access sample_mapped_def nullptr_def)
  obtain r3 h3 s3 where u1: "mali_gralloc_unlock sim_os ?h2 sample_mapped = (r3, h3, s3)"
    by (metis prod_cases3)
  obtain r4 h4 s4 where u2: "mali_gralloc_unlock sim_os h3 s3 = (r4, h4, s4)"
    by (metis prod_cases3)
  show ?thesis
    using write_lost_under_read [OF l1 l2 sample_access(3,4) u1 u2] l1 l2 u1
    by (intro exI [of _ ?h1] exI [of _ ?h2]) simp
qed

section \<open>Flexible planes stay in their lines\<close>

definition plane_base :: "imported_handle \<Rightarrow> nat \<Rightarrow> ptr" where
  "plane_base hnd q = h_base hnd + (if q = 0 then 0 else ucast (plane_offset (plane_info hnd ! q)))"

text \<open>
  A flexible plane fits if its samples belong to one plane of the buffer, its vertical increment is the byte
  stride of that plane, and every sample of a line lies inside the line.
\<close>

definition flex_plane_fits :: "format_info_t \<Rightarrow> imported_handle \<Rightarrow> android_flex_plane_t \<Rightarrow> bool" where
  "flex_plane_fits info hnd p \<longleftrightarrow>
     (\<exists>q < npln info. \<exists>off.
        top_left p = plane_base hnd q + of_nat off \<and> v_increment p = byte_stride (plane_info hnd ! q) \<and>
        (\<forall>x. (x + 1) * (if q = 0 then unat (h_subsampling p) else 1) \<le> unat (alloc_width (plane_info hnd ! q)) \<longrightarrow>
           8 * (off + x * unat (h_increment p)) + unat (bits_per_component p) \<le>
             8 * unat (byte_stride (plane_info hnd ! q))))"

lemma flex_plane_fitsI:
  assumes "q < npln info" and "off' = (if q = 0 then 0 else ucast (plane_offset (plane_info hnd ! q))) + of_nat off"
    and line: "unat (alloc_width (plane_info hnd ! q)) * bpp info ! q \<le> 8 * unat (byte_stride (plane_info hnd ! q))"
    and inc: "8 * unat hinc = bpp info ! q * (if q = 0 then unat hs else 1)"
    and first: "8 * off + unat bits \<le> bpp info ! q * (if q = 0 then unat hs else 1)"
    and "byte_stride (plane_info hnd ! ln) = byte_stride (plane_info hnd ! q)"
  shows "flex_plane_fits info hnd (set_flex_plane_params hnd off' c bits used hinc ln hs vs)"
  unfolding flex_plane_fits_def
proof (rule exI [of _ q], intro conjI exI [of _ off] allI impI)
  fix x
  let ?k = "if q = 0 then unat hs else 1"
  assume "(x + 1) * (if q = 0 then unat (h_subsampling (set_flex_plane_params hnd off' c bits used hinc ln hs vs)) else 1)
    \<le> unat (alloc_width (plane_info hnd ! q))"
  then have x: "(x + 1) * ?k \<le> unat (alloc_width (plane_info hnd ! q))"
    by (simp add: set_flex_plane_params_def split: if_splits)
  have "8 * (off + x * unat hinc) + unat bits = (8 * off + unat bits) + x * (8 * unat hinc)"
    by (simp add: algebra_simps)
  also have "\<dots> \<le> bpp info ! q * ?k + x * (bpp info ! q * ?k)"
    unfolding inc using first by simp
  also have "\<dots> = (x + 1) * ?k * bpp info ! q"
    by (simp add: algebra_simps)
  also have "\<dots> \<le> unat (alloc_width (plane_info hnd ! q)) * bpp info ! q"
    using x by (rule mult_le_mono1)
  finally show "8 * (off + x * unat (h_increment (set_flex_plane_params hnd off' c bits used hinc ln hs vs))) +
      unat (bits_per_component (set_flex_plane_params hnd off' c bits used hinc ln hs vs)) \<le>
      8 * unat (byte_stride (plane_info hnd ! q))"
    using line by (simp add: set_flex_plane_params_def)
qed (use assms in \<open>simp_all add: set_flex_plane_params_def plane_base_def\<close>)

text \<open>The bits per pixel that the switch relies on, for each of its formats.\<close>

definition flex_bits :: "(mali_gralloc_pixel_format \<times> nat \<times> nat list) list" where
  "flex_bits =
     [(FMT_Y8, 1, [8]), (FMT_Y16, 1, [16]), (FMT_NV12, 2, [8, 16]), (FMT_NV21, 2, [8, 16]),
      (FMT_YV12, 3, [8, 8, 8]), (FMT_YU12, 3, [8, 8, 8]), (FMT_P010, 2, [16, 32]), (FMT_P210, 2, [16, 32]),
      (FMT_YUV422_8BIT, 1, [16]), (FMT_NV16, 2, [8, 16]), (FMT_Y210, 1, [32]), (FMT_RGBA_16161616, 1, [64]),
      (FMT_RGBA_8888, 1, [32]), (FMT_RGBX_8888, 1, [32]), (FMT_RGB_888, 1, [24]), (FMT_BGRA_8888, 1, [32])]"

definition flex_row :: "hal_env \<Rightarrow> format_info_t \<Rightarrow> bool" where
  "flex_row H f \<longleftrightarrow>
     list_all (\<lambda>(g, n, bits). fi_id f = fmt_value H g \<longrightarrow> npln f = n \<and> take n (bpp f) = bits) flex_bits"

lemma flex_row_groups:
  assumes "hal_documented H"
  shows "list_all (flex_row H) (formats_rgb H)" "list_all (flex_row H) (formats_yuv420 H)"
    "list_all (flex_row H) (formats_yuv422_444 H)" "list_all (flex_row H) (formats_yuv_10bit H)"
    "list_all (flex_row H) (formats_raw H)" "list_all (flex_row H) (formats_depth H)"
  by (simp_all add: formats_defs flex_row_def flex_bits_def fmt_value_inj [OF assms] numeral_2_eq_2 numeral_3_eq_3)

lemma flex_row_bits:
  assumes "hal_documented H" and "info \<in> set (formats H)" and "(g, n, bits) \<in> set flex_bits"
    and "fi_id info = fmt_value H g"
  shows "npln info = n" "q < n \<Longrightarrow> bpp info ! q = bits ! q"
proof -
  have "flex_row H info"
    using flex_row_groups [OF assms(1)] assms(2) by (auto simp: formats_def list_all_iff)
  then have "npln info = n \<and> take n (bpp info) = bits"
    using assms(3,4) by (auto simp: flex_row_def list_all_iff)
  then show "npln info = n" "q < n \<Longrightarrow> bpp info ! q = bits ! q"
    by auto
qed

text \<open>The numbers of every call fit the bits per pixel of the plane it describes.\<close>

definition flex_call_ok :: "nat \<Rightarrow> nat list \<Rightarrow> flex_call \<Rightarrow> bool" where
  "flex_call_ok n bits call \<longleftrightarrow>
     (case call of (i, q, off, c, b, used, hinc, line, hs, vs) \<Rightarrow>
        let per_site = bits ! q * (if q = 0 then unat hs else 1)
        in q < n \<and> 8 * unat hinc = per_site \<and> 8 * off + unat b \<le> per_site \<and>
           (line = q \<or> n = 3 \<and> q \<in> {1, 2} \<and> line \<in> {1, 2}))"

lemma flex_switch_ok:
  "list_all (\<lambda>(g, f, calls). case map_of flex_bits g of
     None \<Rightarrow> False | Some (n, bits) \<Rightarrow> list_all (flex_call_ok n bits) calls) flex_switch"
  by code_simp



end
