(* ===== verification/Shared_Metadata.thy ===== *)
theory Shared_Metadata
  imports Buffer_Access
begin

text \<open>
  The metadata that travels with a buffer in its shared region
  (src/src/idl_common/gralloc_shared/shared_metadata.cpp): the structure, its initialisation, and
  its getters and setters. They work on the structure at \<open>attr_base\<close>, which the functions below
  take and return. What each item promises is the locale \<open>metadata_item\<close>.
\<close>

section \<open>Values of the interface types\<close>

text \<open>
  Enumerations of the interface are their backing integers. The members of \<open>Smpte2086\<close> (ten) and
  \<open>Cta861_3\<close> (two) are floating-point numbers, which are only copied; the model has their bits.
\<close>

type_synonym Dataspace = i32
type_synonym BlendMode = i32
type_synonym f32 = "32 word"
type_synonym Smpte2086 = "f32 list"
type_synonym Cta861_3 = "f32 \<times> f32"

record Rect =
  r_left :: i32
  r_top :: i32
  r_right :: i32
  r_bottom :: i32

record ExtendableType =
  et_name :: string
  et_value :: u64

type_synonym status_t = i32

definition android_OK :: status_t where "android_OK = 0"
definition BAD_VALUE :: status_t where "BAD_VALUE = - EINVAL"
definition NO_MEMORY :: status_t where "NO_MEMORY = - 12"

lemmas status_defs = android_OK_def BAD_VALUE_def NO_MEMORY_def EINVAL_def

lemma status_distinct [simp]:
  "BAD_VALUE \<noteq> android_OK" "android_OK \<noteq> BAD_VALUE" "NO_MEMORY \<noteq> android_OK" "BAD_VALUE \<noteq> NO_MEMORY"
  "NO_MEMORY \<noteq> BAD_VALUE"
  by (simp_all add: status_defs)

section \<open>The structure\<close>

datatype optional_state = vacant | occupied

record 'a aligned_optional =
  item_state :: optional_state
  item :: 'a

record 'a aligned_inline_vector =
  v_size :: u32
  v_contents :: "'a list"

definition make_optional :: "'a \<Rightarrow> 'a aligned_optional" where
  "make_optional initial_value = \<lparr>item_state = occupied, item = initial_value\<rparr>"

definition optional_of :: "'a option \<Rightarrow> 'a \<Rightarrow> 'a aligned_optional" where
  "optional_of std_optional z =
     (case std_optional of
        None \<Rightarrow> \<lparr>item_state = vacant, item = z\<rparr>
      | Some v \<Rightarrow> \<lparr>item_state = occupied, item = v\<rparr>)"

definition to_std_optional :: "'a aligned_optional \<Rightarrow> 'a option" where
  "to_std_optional x = (case item_state x of vacant \<Rightarrow> None | occupied \<Rightarrow> Some (item x))"

definition optional_reset :: "'a aligned_optional \<Rightarrow> 'a aligned_optional" where
  "optional_reset x = x\<lparr>item_state := vacant\<rparr>"

definition smpte2094_40_size :: nat where "smpte2094_40_size = 1268"
definition smpte2094_10_size :: nat where "smpte2094_10_size = 4829"
definition name_capacity :: nat where "name_capacity = 256"

record shared_metadata =
  md_blend_mode :: "BlendMode aligned_optional"
  md_crop :: "Rect aligned_optional"
  md_cta861_3 :: "Cta861_3 aligned_optional"
  md_dataspace :: "Dataspace aligned_optional"
  md_chroma_siting :: "u64 aligned_optional"
  md_smpte2086 :: "Smpte2086 aligned_optional"
  md_smpte2094_40 :: "u8 aligned_inline_vector"
  md_smpte2094_10 :: "u8 aligned_inline_vector"
  md_name :: "char aligned_inline_vector"

text \<open>The member initialisers value-initialise everything.\<close>

definition empty_optional :: "'a \<Rightarrow> 'a aligned_optional" where
  "empty_optional z = \<lparr>item_state = vacant, item = z\<rparr>"

definition empty_vector :: "nat \<Rightarrow> 'a \<Rightarrow> 'a aligned_inline_vector" where
  "empty_vector n z = \<lparr>v_size = 0, v_contents = replicate n z\<rparr>"

definition empty_metadata :: shared_metadata where
  "empty_metadata =
     \<lparr>md_blend_mode = empty_optional 0, md_crop = empty_optional \<lparr>r_left = 0, r_top = 0, r_right = 0, r_bottom = 0\<rparr>,
      md_cta861_3 = empty_optional (0, 0), md_dataspace = empty_optional 0, md_chroma_siting = empty_optional 0,
      md_smpte2086 = empty_optional (replicate 10 0), md_smpte2094_40 = empty_vector smpte2094_40_size 0,
      md_smpte2094_10 = empty_vector smpte2094_10_size 0, md_name = empty_vector name_capacity (CHR 0x00)\<rparr>"

text \<open>\<open>memcpy\<close> of a list to the start of an array.\<close>

definition copy_to_start :: "'a list \<Rightarrow> 'a list \<Rightarrow> 'a list" where
  "copy_to_start src dest = src @ drop (length src) dest"

definition make_shared_metadata :: "string \<Rightarrow> shared_metadata" where
  "make_shared_metadata in_name =
     (let n = min (of_nat name_capacity) (of_nat (length in_name) :: u32)
      in empty_metadata\<lparr>md_name := \<lparr>v_size = n,
           v_contents = copy_to_start (take (unat n) in_name) (v_contents (md_name empty_metadata))\<rparr>\<rparr>)"

text \<open>A view of more characters than the array has is an access outside of it.\<close>

definition metadata_get_name :: "shared_metadata \<Rightarrow> string res" where
  "metadata_get_name m =
     (if 0 < v_size (md_name m) then
        if unat (v_size (md_name m)) \<le> name_capacity then Inr (take (unat (v_size (md_name m))) (v_contents (md_name m)))
        else Inl Out_of_bounds
      else Inr '''')"

section \<open>Layout of the structure\<close>

text \<open>
  Size and alignment of the members by the rules of C++: an \<open>aligned_optional\<close> is a \<open>uint32_t\<close>
  followed by its item, an \<open>aligned_inline_vector\<close> a \<open>uint32_t\<close> followed by bytes.
\<close>

definition optional_layout :: "nat \<times> nat \<Rightarrow> nat \<times> nat" where
  "optional_layout x = (case x of (sz, al) \<Rightarrow> (align_up (align_up 4 al + sz) (max 4 al), max 4 al))"

definition vector_layout :: "nat \<Rightarrow> nat \<times> nat" where
  "vector_layout n = (align_up (4 + n) 4, 4)"

definition metadata_members :: "(nat \<times> nat) list" where
  "metadata_members =
     [optional_layout (4, 4), optional_layout (16, 4), optional_layout (8, 4), optional_layout (4, 4),
      optional_layout (8, 8), optional_layout (40, 4), vector_layout smpte2094_40_size,
      vector_layout smpte2094_10_size, vector_layout name_capacity]"

fun place_members :: "(nat \<times> nat) list \<Rightarrow> nat \<Rightarrow> (nat \<times> nat) list \<times> nat" where
  "place_members [] pos = ([], pos)"
| "place_members ((sz, al) # ms) pos =
     (let start = align_up pos al
      in case place_members ms (start + sz) of (rest, fin) \<Rightarrow> ((start, sz) # rest, fin))"

definition shared_metadata_size :: u64 where
  "shared_metadata_size = of_nat (align_up (snd (place_members metadata_members 0)) 8)"

text \<open>The assertions at compile time.\<close>

lemma metadata_layout:
  "fst (place_members metadata_members 0) =
     [(0, 8), (8, 20), (28, 12), (40, 8), (48, 16), (64, 44), (108, 1272), (1380, 4836), (6216, 260)]"
  "shared_metadata_size = 6480"
  by (simp_all add: metadata_members_def optional_layout_def vector_layout_def smpte2094_40_size_def
      smpte2094_10_size_def name_capacity_def align_up_def shared_metadata_size_def Let_def)

section \<open>Operations\<close>

definition shared_metadata_init :: "string \<Rightarrow> Dataspace \<Rightarrow> ExtendableType \<Rightarrow> shared_metadata" where
  "shared_metadata_init nm dataspace chroma_siting =
     (make_shared_metadata nm)\<lparr>md_dataspace := make_optional dataspace,
        md_chroma_siting := make_optional (et_value chroma_siting)\<rparr>"

definition get_name :: "shared_metadata \<Rightarrow> string res" where
  "get_name m = metadata_get_name m"

definition get_crop_rect :: "shared_metadata \<Rightarrow> Rect option" where
  "get_crop_rect m = to_std_optional (md_crop m)"

text \<open>\<open>right\<close> and \<open>bottom\<close> are converted to unsigned for the comparison with the plane.\<close>

definition crop_invalid :: "'a private_handle_t_scheme \<Rightarrow> Rect \<Rightarrow> bool" where
  "crop_invalid hnd crop \<longleftrightarrow>
     sint (r_top crop) < 0 \<or> sint (r_left crop) < 0 \<or> sint (r_right crop) < sint (r_left crop) \<or>
     alloc_width (plane_info hnd ! 0) < r_right crop \<or> sint (r_bottom crop) < sint (r_top crop) \<or>
     alloc_height (plane_info hnd ! 0) < r_bottom crop \<or>
     r_right crop - r_left crop \<noteq> h_width hnd \<or> r_bottom crop - r_top crop \<noteq> h_height hnd"

definition set_crop_rect ::
  "'a private_handle_t_scheme \<Rightarrow> Rect \<Rightarrow> shared_metadata \<Rightarrow> status_t \<times> shared_metadata" where
  "set_crop_rect hnd crop m =
     (if crop_invalid hnd crop then (BAD_VALUE, m) else (android_OK, m\<lparr>md_crop := make_optional crop\<rparr>))"

definition get_dataspace :: "shared_metadata \<Rightarrow> Dataspace option" where
  "get_dataspace m = to_std_optional (md_dataspace m)"

definition set_dataspace :: "Dataspace \<Rightarrow> shared_metadata \<Rightarrow> shared_metadata" where
  "set_dataspace dataspace m = m\<lparr>md_dataspace := make_optional dataspace\<rparr>"

text \<open>The two values of \<open>aidl::arm::graphics::ChromaSiting\<close>.\<close>

definition ARM_COSITED_VERTICAL :: u64 where "ARM_COSITED_VERTICAL = 256"
definition ARM_COSITED_BOTH :: u64 where "ARM_COSITED_BOTH = 512"

definition chroma_siting_is_arm_value :: "u64 \<Rightarrow> bool" where
  "chroma_siting_is_arm_value val \<longleftrightarrow> val = ARM_COSITED_BOTH \<or> val = ARM_COSITED_VERTICAL"

definition GRALLOC_ARM_CHROMA_SITING_TYPE_NAME :: string where
  "GRALLOC_ARM_CHROMA_SITING_TYPE_NAME = ''arm.graphics.ChromaSiting''"

definition ChromaSiting_CositedVertical :: ExtendableType where
  "ChromaSiting_CositedVertical = \<lparr>et_name = GRALLOC_ARM_CHROMA_SITING_TYPE_NAME, et_value = ARM_COSITED_VERTICAL\<rparr>"

definition ChromaSiting_CositedBoth :: ExtendableType where
  "ChromaSiting_CositedBoth = \<lparr>et_name = GRALLOC_ARM_CHROMA_SITING_TYPE_NAME, et_value = ARM_COSITED_BOTH\<rparr>"

text \<open>\<open>standard\<close> is \<open>GRALLOC4_STANDARD_CHROMA_SITING\<close> of the platform.\<close>

definition get_chroma_siting :: "string \<Rightarrow> shared_metadata \<Rightarrow> ExtendableType option" where
  "get_chroma_siting standard m =
     (case to_std_optional (md_chroma_siting m) of
        None \<Rightarrow> None
      | Some v \<Rightarrow> Some \<lparr>et_name = (if chroma_siting_is_arm_value v then GRALLOC_ARM_CHROMA_SITING_TYPE_NAME else standard),
          et_value = v\<rparr>)"

definition set_chroma_siting :: "ExtendableType \<Rightarrow> shared_metadata \<Rightarrow> shared_metadata" where
  "set_chroma_siting chroma_siting m = m\<lparr>md_chroma_siting := make_optional (et_value chroma_siting)\<rparr>"

definition get_blend_mode :: "shared_metadata \<Rightarrow> BlendMode option" where
  "get_blend_mode m = to_std_optional (md_blend_mode m)"

definition set_blend_mode :: "BlendMode \<Rightarrow> shared_metadata \<Rightarrow> shared_metadata" where
  "set_blend_mode blend_mode m = m\<lparr>md_blend_mode := make_optional blend_mode\<rparr>"

definition get_smpte2086 :: "shared_metadata \<Rightarrow> Smpte2086 option" where
  "get_smpte2086 m = to_std_optional (md_smpte2086 m)"

text \<open>\<open>sdk33\<close> is \<open>PLATFORM_SDK_VERSION >= 33\<close>.\<close>

definition set_smpte2086 :: "bool \<Rightarrow> Smpte2086 option \<Rightarrow> shared_metadata \<Rightarrow> status_t \<times> shared_metadata" where
  "set_smpte2086 sdk33 smpte2086 m =
     (case smpte2086 of
        None \<Rightarrow> if sdk33 then (android_OK, m\<lparr>md_smpte2086 := optional_reset (md_smpte2086 m)\<rparr>) else (BAD_VALUE, m)
      | Some v \<Rightarrow> (android_OK, m\<lparr>md_smpte2086 := optional_of smpte2086 (replicate 10 0)\<rparr>))"

definition get_cta861_3 :: "shared_metadata \<Rightarrow> Cta861_3 option" where
  "get_cta861_3 m = to_std_optional (md_cta861_3 m)"

definition set_cta861_3 :: "bool \<Rightarrow> Cta861_3 option \<Rightarrow> shared_metadata \<Rightarrow> status_t \<times> shared_metadata" where
  "set_cta861_3 sdk33 cta861_3 m =
     (case cta861_3 of
        None \<Rightarrow> if sdk33 then (android_OK, m\<lparr>md_cta861_3 := optional_reset (md_cta861_3 m)\<rparr>) else (BAD_VALUE, m)
      | Some v \<Rightarrow> (android_OK, m\<lparr>md_cta861_3 := optional_of cta861_3 (0, 0)\<rparr>))"

text \<open>\<open>end()\<close> is the end of the array, not of the elements in use.\<close>

definition vector_get :: "u8 aligned_inline_vector \<Rightarrow> u8 list option" where
  "vector_get v = (if 0 < v_size v then Some (v_contents v) else None)"

definition get_smpte2094_40 :: "shared_metadata \<Rightarrow> u8 list option" where
  "get_smpte2094_40 m = vector_get (md_smpte2094_40 m)"

definition set_smpte2094_40 :: "bool \<Rightarrow> u8 list option \<Rightarrow> shared_metadata \<Rightarrow> status_t \<times> shared_metadata" where
  "set_smpte2094_40 sdk33 smpte2094_40 m =
     (case smpte2094_40 of
        None \<Rightarrow>
          if sdk33 then (android_OK, m\<lparr>md_smpte2094_40 := md_smpte2094_40 m\<lparr>v_size := 0\<rparr>\<rparr>) else (BAD_VALUE, m)
      | Some bytes \<Rightarrow>
          if length bytes = 0 then (BAD_VALUE, m)
          else if smpte2094_40_size < length bytes then (BAD_VALUE, m)
          else (android_OK, m\<lparr>md_smpte2094_40 := \<lparr>v_size = of_nat (length bytes),
                  v_contents = copy_to_start bytes (v_contents (md_smpte2094_40 m))\<rparr>\<rparr>))"

definition get_smpte2094_10 :: "shared_metadata \<Rightarrow> u8 list option" where
  "get_smpte2094_10 m = vector_get (md_smpte2094_10 m)"

definition set_smpte2094_10 :: "u8 list option \<Rightarrow> shared_metadata \<Rightarrow> status_t \<times> shared_metadata" where
  "set_smpte2094_10 smpte2094_10 m =
     (case smpte2094_10 of
        None \<Rightarrow> (android_OK, m\<lparr>md_smpte2094_10 := md_smpte2094_10 m\<lparr>v_size := 0\<rparr>\<rparr>)
      | Some bytes \<Rightarrow>
          if length bytes = 0 then (BAD_VALUE, m)
          else if smpte2094_10_size < length bytes then (BAD_VALUE, m)
          else (android_OK, m\<lparr>md_smpte2094_10 := \<lparr>v_size = of_nat (length bytes),
                  v_contents = copy_to_start bytes (v_contents (md_smpte2094_10 m))\<rparr>\<rparr>))"

section \<open>What an item promises\<close>

text \<open>
  A write is accepted or refused by its value alone, an accepted one is what is read next, and a
  refused one changes nothing.
\<close>

locale metadata_item =
  fixes get :: "'m \<Rightarrow> 'r"
    and set :: "'v \<Rightarrow> 'm \<Rightarrow> status_t \<times> 'm"
    and ok :: "'v \<Rightarrow> bool"
    and shown :: "'v \<Rightarrow> 'r"
  assumes set_accepts: "fst (set v m) = android_OK \<longleftrightarrow> ok v"
    and get_set: "ok v \<Longrightarrow> get (snd (set v m)) = shown v"
    and set_refused: "\<not> ok v \<Longrightarrow> snd (set v m) = m"
begin

definition reg_write :: "'v \<Rightarrow> 'r \<Rightarrow> 'r" where
  "reg_write v r = (if ok v then shown v else r)"

text \<open>So the item is a register.\<close>

lemma get_after_set: "get (snd (set v m)) = reg_write v (get m)"
  by (simp add: reg_write_def get_set set_refused)

text \<open>What is read after several writes is the last accepted one.\<close>

lemma last_write:
  "get (fold (\<lambda>v m. snd (set v m)) vs m) =
     (if filter ok vs = [] then get m else shown (last (filter ok vs)))"
proof (induction vs rule: rev_induct)
  case (snoc v vs)
  then show ?case
    by (simp add: get_set set_refused)
qed simp

end

text \<open>The item for a given buffer, or for a given version of the platform.\<close>

interpretation crop_item: metadata_item get_crop_rect "set_crop_rect hnd" "\<lambda>c. \<not> crop_invalid hnd c" Some
  by unfold_locales
    (simp_all add: set_crop_rect_def get_crop_rect_def to_std_optional_def make_optional_def)

interpretation dataspace_item: metadata_item get_dataspace "\<lambda>v m. (android_OK, set_dataspace v m)" "\<lambda>_. True" Some
  by unfold_locales (simp_all add: set_dataspace_def get_dataspace_def to_std_optional_def make_optional_def)

interpretation blend_item: metadata_item get_blend_mode "\<lambda>v m. (android_OK, set_blend_mode v m)" "\<lambda>_. True" Some
  by unfold_locales (simp_all add: set_blend_mode_def get_blend_mode_def to_std_optional_def make_optional_def)

definition shown_siting :: "string \<Rightarrow> ExtendableType \<Rightarrow> ExtendableType" where
  "shown_siting standard t =
     t\<lparr>et_name := (if chroma_siting_is_arm_value (et_value t) then GRALLOC_ARM_CHROMA_SITING_TYPE_NAME else standard)\<rparr>"

interpretation siting_item: metadata_item "get_chroma_siting standard" "\<lambda>v m. (android_OK, set_chroma_siting v m)"
  "\<lambda>_. True" "\<lambda>t. Some (shown_siting standard t)"
  by unfold_locales
    (simp_all add: set_chroma_siting_def get_chroma_siting_def to_std_optional_def make_optional_def shown_siting_def)

interpretation smpte2086_item: metadata_item get_smpte2086 "set_smpte2086 sdk33" "\<lambda>v. v \<noteq> None \<or> sdk33" "\<lambda>v. v"
  by unfold_locales
    (auto simp: set_smpte2086_def get_smpte2086_def to_std_optional_def optional_of_def optional_reset_def
      split: option.splits)

interpretation cta861_3_item: metadata_item get_cta861_3 "set_cta861_3 sdk33" "\<lambda>v. v \<noteq> None \<or> sdk33" "\<lambda>v. v"
  by unfold_locales
    (auto simp: set_cta861_3_def get_cta861_3_def to_std_optional_def optional_of_def optional_reset_def
      split: option.splits)

section \<open>Byte strings\<close>

text \<open>The bytes that are in use, and a vector that can hold what it says.\<close>

definition vector_used :: "'a aligned_inline_vector \<Rightarrow> 'a list option" where
  "vector_used v = (if 0 < v_size v then Some (take (unat (v_size v)) (v_contents v)) else None)"

definition vector_wf :: "nat \<Rightarrow> 'a aligned_inline_vector \<Rightarrow> bool" where
  "vector_wf n v \<longleftrightarrow> length (v_contents v) = n \<and> unat (v_size v) \<le> n"

definition bytes_ok :: "bool \<Rightarrow> nat \<Rightarrow> u8 list option \<Rightarrow> bool" where
  "bytes_ok reset n v \<longleftrightarrow> (case v of None \<Rightarrow> reset | Some b \<Rightarrow> b \<noteq> [] \<and> length b \<le> n)"

lemma vector_store:
  assumes "b \<noteq> []" and "length b \<le> n" and "n < 2 ^ 32" and "length old = n"
  shows "vector_used \<lparr>v_size = of_nat (length b), v_contents = copy_to_start b old\<rparr> = Some b"
    and "vector_wf n \<lparr>v_size = of_nat (length b), v_contents = copy_to_start b old\<rparr>"
    and "vector_get \<lparr>v_size = of_nat (length b), v_contents = copy_to_start b old\<rparr> = Some (b @ drop (length b) old)"
proof -
  have u: "unat (of_nat (length b) :: u32) = length b"
    using assms(2,3) by (simp add: unat_of_nat)
  then have "(of_nat (length b) :: u32) \<noteq> 0"
    using assms(1) by (metis length_0_conv unat_0)
  then have "0 < (of_nat (length b) :: u32)"
    by (simp add: word_gt_0)
  with u assms show "vector_used \<lparr>v_size = of_nat (length b), v_contents = copy_to_start b old\<rparr> = Some b"
    "vector_wf n \<lparr>v_size = of_nat (length b), v_contents = copy_to_start b old\<rparr>"
    "vector_get \<lparr>v_size = of_nat (length b), v_contents = copy_to_start b old\<rparr> = Some (b @ drop (length b) old)"
    by (simp_all add: vector_used_def vector_wf_def vector_get_def copy_to_start_def)
qed

lemma vector_cleared:
  "vector_used (v\<lparr>v_size := 0\<rparr>) = None" "vector_wf n v \<Longrightarrow> vector_wf n (v\<lparr>v_size := 0\<rparr>)"
  by (simp_all add: vector_used_def vector_wf_def)

definition metadata_wf :: "shared_metadata \<Rightarrow> bool" where
  "metadata_wf m \<longleftrightarrow>
     vector_wf smpte2094_40_size (md_smpte2094_40 m) \<and> vector_wf smpte2094_10_size (md_smpte2094_10 m) \<and>
     vector_wf name_capacity (md_name m)"

section \<open>Independent registers\<close>

text \<open>The writes that a process can make, and the view of all items at once.\<close>

datatype metadata_op =
    Op_crop Rect | Op_dataspace Dataspace | Op_siting ExtendableType | Op_blend BlendMode
  | Op_smpte2086 "Smpte2086 option" | Op_cta861_3 "Cta861_3 option"
  | Op_smpte2094_40 "u8 list option" | Op_smpte2094_10 "u8 list option"

primrec metadata_step :: "'a private_handle_t_scheme \<Rightarrow> bool \<Rightarrow> metadata_op \<Rightarrow> shared_metadata \<Rightarrow> shared_metadata" where
  "metadata_step hnd sdk33 (Op_crop c) m = snd (set_crop_rect hnd c m)"
| "metadata_step hnd sdk33 (Op_dataspace d) m = set_dataspace d m"
| "metadata_step hnd sdk33 (Op_siting t) m = set_chroma_siting t m"
| "metadata_step hnd sdk33 (Op_blend b) m = set_blend_mode b m"
| "metadata_step hnd sdk33 (Op_smpte2086 v) m = snd (set_smpte2086 sdk33 v m)"
| "metadata_step hnd sdk33 (Op_cta861_3 v) m = snd (set_cta861_3 sdk33 v m)"
| "metadata_step hnd sdk33 (Op_smpte2094_40 v) m = snd (set_smpte2094_40 sdk33 v m)"
| "metadata_step hnd sdk33 (Op_smpte2094_10 v) m = snd (set_smpte2094_10 v m)"

record metadata_view =
  vw_name :: "string res"
  vw_crop :: "Rect option"
  vw_dataspace :: "Dataspace option"
  vw_siting :: "ExtendableType option"
  vw_blend :: "BlendMode option"
  vw_smpte2086 :: "Smpte2086 option"
  vw_cta861_3 :: "Cta861_3 option"
  vw_smpte2094_40 :: "u8 list option"
  vw_smpte2094_10 :: "u8 list option"

definition view_of :: "string \<Rightarrow> shared_metadata \<Rightarrow> metadata_view" where
  "view_of standard m =
     \<lparr>vw_name = get_name m, vw_crop = get_crop_rect m, vw_dataspace = get_dataspace m,
      vw_siting = get_chroma_siting standard m, vw_blend = get_blend_mode m, vw_smpte2086 = get_smpte2086 m,
      vw_cta861_3 = get_cta861_3 m, vw_smpte2094_40 = vector_used (md_smpte2094_40 m),
      vw_smpte2094_10 = vector_used (md_smpte2094_10 m)\<rparr>"

text \<open>The specification: nine registers, each written by its own operation only.\<close>

primrec view_step ::
  "string \<Rightarrow> 'a private_handle_t_scheme \<Rightarrow> bool \<Rightarrow> metadata_op \<Rightarrow> metadata_view \<Rightarrow> metadata_view" where
  "view_step standard hnd sdk33 (Op_crop c) v = (if crop_invalid hnd c then v else v\<lparr>vw_crop := Some c\<rparr>)"
| "view_step standard hnd sdk33 (Op_dataspace d) v = v\<lparr>vw_dataspace := Some d\<rparr>"
| "view_step standard hnd sdk33 (Op_siting t) v = v\<lparr>vw_siting := Some (shown_siting standard t)\<rparr>"
| "view_step standard hnd sdk33 (Op_blend b) v = v\<lparr>vw_blend := Some b\<rparr>"
| "view_step standard hnd sdk33 (Op_smpte2086 x) v = (if x \<noteq> None \<or> sdk33 then v\<lparr>vw_smpte2086 := x\<rparr> else v)"
| "view_step standard hnd sdk33 (Op_cta861_3 x) v = (if x \<noteq> None \<or> sdk33 then v\<lparr>vw_cta861_3 := x\<rparr> else v)"
| "view_step standard hnd sdk33 (Op_smpte2094_40 x) v =
     (if bytes_ok sdk33 smpte2094_40_size x then v\<lparr>vw_smpte2094_40 := x\<rparr> else v)"
| "view_step standard hnd sdk33 (Op_smpte2094_10 x) v =
     (if bytes_ok True smpte2094_10_size x then v\<lparr>vw_smpte2094_10 := x\<rparr> else v)"

text \<open>A setter leaves the getters of the other items alone.\<close>

lemmas item_get_defs = get_name_def metadata_get_name_def get_crop_rect_def get_dataspace_def get_chroma_siting_def
  get_blend_mode_def get_smpte2086_def get_cta861_3_def

lemmas item_set_defs = set_crop_rect_def set_dataspace_def set_chroma_siting_def set_blend_mode_def set_smpte2086_def
  set_cta861_3_def

lemma set_40_cases:
  assumes "vector_wf smpte2094_40_size (md_smpte2094_40 m)"
  obtains (refused) "\<not> bytes_ok sdk33 smpte2094_40_size x" "snd (set_smpte2094_40 sdk33 x m) = m"
    | (stored) v where "bytes_ok sdk33 smpte2094_40_size x" "snd (set_smpte2094_40 sdk33 x m) = m\<lparr>md_smpte2094_40 := v\<rparr>"
      "vector_used v = x" "vector_wf smpte2094_40_size v"
proof (cases "bytes_ok sdk33 smpte2094_40_size x")
  case False
  then show thesis
    by (intro refused) (auto simp: set_smpte2094_40_def bytes_ok_def split: option.splits if_splits)
next
  case True
  have len: "length (v_contents (md_smpte2094_40 m)) = smpte2094_40_size" "smpte2094_40_size < 2 ^ 32"
    using assms by (simp_all add: vector_wf_def smpte2094_40_size_def)
  show thesis
  proof (cases x)
    case None
    then show thesis
      using True assms by (intro stored [of "md_smpte2094_40 m\<lparr>v_size := 0\<rparr>"])
        (simp_all add: set_smpte2094_40_def bytes_ok_def vector_cleared)
  next
    case (Some b)
    then have b: "b \<noteq> []" "length b \<le> smpte2094_40_size"
      using True by (simp_all add: bytes_ok_def)
    note st = vector_store [OF b len(2,1)]
    show thesis
      using True b Some st by (intro stored) (simp_all add: set_smpte2094_40_def)
  qed
qed

lemma set_10_cases:
  assumes "vector_wf smpte2094_10_size (md_smpte2094_10 m)"
  obtains (refused) "\<not> bytes_ok True smpte2094_10_size x" "snd (set_smpte2094_10 x m) = m"
    | (stored) v where "bytes_ok True smpte2094_10_size x" "snd (set_smpte2094_10 x m) = m\<lparr>md_smpte2094_10 := v\<rparr>"
      "vector_used v = x" "vector_wf smpte2094_10_size v"
proof (cases "bytes_ok True smpte2094_10_size x")
  case False
  then show thesis
    by (intro refused) (auto simp: set_smpte2094_10_def bytes_ok_def split: option.splits if_splits)
next
  case True
  have len: "length (v_contents (md_smpte2094_10 m)) = smpte2094_10_size" "smpte2094_10_size < 2 ^ 32"
    using assms by (simp_all add: vector_wf_def smpte2094_10_size_def)
  show thesis
  proof (cases x)
    case None
    then show thesis
      using True assms by (intro stored [of "md_smpte2094_10 m\<lparr>v_size := 0\<rparr>"])
        (simp_all add: set_smpte2094_10_def bytes_ok_def vector_cleared)
  next
    case (Some b)
    then have b: "b \<noteq> []" "length b \<le> smpte2094_10_size"
      using True by (simp_all add: bytes_ok_def)
    note st = vector_store [OF b len(2,1)]
    show thesis
      using True b Some st by (intro stored) (simp_all add: set_smpte2094_10_def)
  qed
qed

lemma metadata_step_view:
  assumes "metadata_wf m"
  shows "view_of standard (metadata_step hnd sdk33 x m) = view_step standard hnd sdk33 x (view_of standard m) \<and>
    metadata_wf (metadata_step hnd sdk33 x m)"
proof (cases x)
  case (Op_crop c)
  then show ?thesis
    using assms by (cases "crop_invalid hnd c") (simp_all add: view_of_def item_get_defs item_set_defs metadata_wf_def to_std_optional_def make_optional_def)
next
  case (Op_dataspace d)
  then show ?thesis
    using assms by (simp add: view_of_def item_get_defs item_set_defs metadata_wf_def to_std_optional_def make_optional_def)
next
  case (Op_siting t)
  then show ?thesis
    using assms by (simp add: view_of_def item_get_defs item_set_defs metadata_wf_def to_std_optional_def make_optional_def
        shown_siting_def)
next
  case (Op_blend b)
  then show ?thesis
    using assms by (simp add: view_of_def item_get_defs item_set_defs metadata_wf_def to_std_optional_def make_optional_def)
next
  case (Op_smpte2086 v)
  then show ?thesis
    using assms by (cases v; cases sdk33) (simp_all add: view_of_def item_get_defs item_set_defs metadata_wf_def to_std_optional_def
        optional_of_def optional_reset_def)
next
  case (Op_cta861_3 v)
  then show ?thesis
    using assms by (cases v; cases sdk33) (simp_all add: view_of_def item_get_defs item_set_defs metadata_wf_def to_std_optional_def
        optional_of_def optional_reset_def)
next
  case (Op_smpte2094_40 b)
  have wf: "vector_wf smpte2094_40_size (md_smpte2094_40 m)"
    using assms by (simp add: metadata_wf_def)
  show ?thesis
    by (rule set_40_cases [OF wf, of sdk33 b])
      (use assms Op_smpte2094_40 in \<open>simp_all add: view_of_def item_get_defs metadata_wf_def\<close>)
next
  case (Op_smpte2094_10 b)
  have wf: "vector_wf smpte2094_10_size (md_smpte2094_10 m)"
    using assms by (simp add: metadata_wf_def)
  show ?thesis
    by (rule set_10_cases [OF wf, of b])
      (use assms Op_smpte2094_10 in \<open>simp_all add: view_of_def item_get_defs metadata_wf_def\<close>)
qed

lemma metadata_steps_view:
  assumes "metadata_wf m"
  shows "view_of standard (fold (metadata_step hnd sdk33) ops m) = fold (view_step standard hnd sdk33) ops (view_of standard m) \<and>
    metadata_wf (fold (metadata_step hnd sdk33) ops m)"
  using assms
proof (induction ops arbitrary: m)
  case (Cons x ops)
  then show ?case
    using metadata_step_view [OF Cons.prems, of standard hnd sdk33 x] by simp
qed simp


section \<open>Properties\<close>

lemma empty_metadata_wf: "metadata_wf empty_metadata"
  by (simp add: metadata_wf_def empty_metadata_def empty_vector_def vector_wf_def)

lemma init_name:
  "vector_wf name_capacity (md_name (make_shared_metadata nm))"
  "length nm < 2 ^ 32 \<Longrightarrow> get_name (make_shared_metadata nm) = Inr (take name_capacity nm)"
proof -
  define n :: u32 where "n = min (of_nat name_capacity) (of_nat (length nm))"
  have md: "make_shared_metadata nm = empty_metadata\<lparr>md_name := \<lparr>v_size = n,
      v_contents = copy_to_start (take (unat n) nm) (replicate 256 (CHR 0x00))\<rparr>\<rparr>"
    by (simp only: make_shared_metadata_def n_def Let_def) (simp add: empty_metadata_def empty_vector_def name_capacity_def)
  have n: "unat n \<le> 256"
    by (simp add: n_def min_def word_le_nat_alt name_capacity_def)
  then show "vector_wf name_capacity (md_name (make_shared_metadata nm))"
    by (simp add: md vector_wf_def copy_to_start_def name_capacity_def)
  assume "length nm < 2 ^ 32"
  then have u: "unat (of_nat (length nm) :: u32) = length nm"
    by (simp add: unat_of_nat)
  then have nn: "unat n = min 256 (length nm)"
    by (simp add: n_def min_def word_le_nat_alt name_capacity_def)
  have "0 < n \<longleftrightarrow> unat n \<noteq> 0"
    by (simp add: word_gt_0 unat_eq_0)
  then have "0 < n \<longleftrightarrow> nm \<noteq> []"
    by (simp add: nn)
  then show "get_name (make_shared_metadata nm) = Inr (take name_capacity nm)"
    using nn by (simp add: get_name_def metadata_get_name_def md copy_to_start_def name_capacity_def min_def)
qed

lemma init_view:
  assumes "length nm < 2 ^ 32"
  shows "view_of standard (shared_metadata_init nm dataspace siting) =
     \<lparr>vw_name = Inr (take name_capacity nm), vw_crop = None, vw_dataspace = Some dataspace,
      vw_siting = Some (shown_siting standard siting), vw_blend = None, vw_smpte2086 = None, vw_cta861_3 = None,
      vw_smpte2094_40 = None, vw_smpte2094_10 = None\<rparr>"
    and "metadata_wf (shared_metadata_init nm dataspace siting)"
proof -
  let ?m = "make_shared_metadata nm"
  have m: "view_of standard ?m = (view_of standard empty_metadata)\<lparr>vw_name := Inr (take name_capacity nm)\<rparr>" "metadata_wf ?m"
    using init_name [of nm] assms empty_metadata_wf
    by (simp_all add: view_of_def item_get_defs metadata_wf_def make_shared_metadata_def Let_def)
  have "shared_metadata_init nm dataspace siting =
      metadata_step sample_handle True (Op_siting siting) (metadata_step sample_handle True (Op_dataspace dataspace) ?m)"
    by (simp add: shared_metadata_init_def set_dataspace_def set_chroma_siting_def)
  then show "view_of standard (shared_metadata_init nm dataspace siting) =
     \<lparr>vw_name = Inr (take name_capacity nm), vw_crop = None, vw_dataspace = Some dataspace,
      vw_siting = Some (shown_siting standard siting), vw_blend = None, vw_smpte2086 = None, vw_cta861_3 = None,
      vw_smpte2094_40 = None, vw_smpte2094_10 = None\<rparr>"
    "metadata_wf (shared_metadata_init nm dataspace siting)"
    using m metadata_step_view [of ?m standard sample_handle True "Op_dataspace dataspace"]
      metadata_step_view [of "metadata_step sample_handle True (Op_dataspace dataspace) ?m" standard sample_handle True "Op_siting siting"]
    by (simp_all add: view_of_def item_get_defs empty_metadata_def empty_optional_def to_std_optional_def
        empty_vector_def vector_used_def)
qed



text \<open>A crop rectangle that is accepted, in numbers.\<close>

lemma crop_valid_bounds:
  assumes "\<not> crop_invalid hnd c"
  shows "0 \<le> sint (r_left c) \<and> 0 \<le> sint (r_top c) \<and> sint (r_right c) = sint (r_left c) + sint (h_width hnd) \<and>
    sint (r_bottom c) = sint (r_top c) + sint (h_height hnd) \<and> uint (r_right c) \<le> uint (alloc_width (plane_info hnd ! 0)) \<and>
    uint (r_bottom c) \<le> uint (alloc_height (plane_info hnd ! 0)) \<and>
    0 \<le> sint (h_width hnd) \<and> 0 \<le> sint (h_height hnd)"
proof -
  have diff: "sint (b - a) = sint b - sint a \<and> 0 \<le> sint (b - a)" if "0 \<le> sint a" "sint a \<le> sint b" for a b :: i32
  proof -
    have ab: "unat a < 2 ^ 31" "unat b < 2 ^ 31" "unat a \<le> unat b"
      using that sint_nonneg_iff [of a] sint_nonneg_iff [of b] by (simp_all add: sint_unat del: of_nat_unat)
    then have "unat (b - a) = unat b - unat a"
      by (simp add: unat_sub word_le_nat_alt)
    with ab show ?thesis
      by (simp add: sint_unat of_nat_diff del: of_nat_unat)
  qed
  show ?thesis
    using assms diff [of "r_left c" "r_right c"] diff [of "r_top c" "r_bottom c"]
    by (simp add: crop_invalid_def not_less word_le_def)
qed

text \<open>Whatever is written, a crop rectangle that is stored has exactly the size of the buffer and lies
  inside the allocation of plane 0.\<close>

theorem crop_inside:
  "case get_crop_rect (fold (metadata_step hnd sdk33) ops (shared_metadata_init nm dataspace siting)) of
     None \<Rightarrow> True
   | Some c \<Rightarrow>
       0 \<le> sint (r_left c) \<and> 0 \<le> sint (r_top c) \<and> sint (r_right c) = sint (r_left c) + sint (h_width hnd) \<and>
       sint (r_bottom c) = sint (r_top c) + sint (h_height hnd) \<and>
       uint (r_right c) \<le> uint (alloc_width (plane_info hnd ! 0)) \<and>
       uint (r_bottom c) \<le> uint (alloc_height (plane_info hnd ! 0))"
proof -
  define inv where "inv m \<longleftrightarrow> (case get_crop_rect m of None \<Rightarrow> True | Some c \<Rightarrow> \<not> crop_invalid hnd c)" for m
  have step: "inv (metadata_step hnd sdk33 x m)" if "inv m" for x m
  proof (cases x)
    case (Op_crop c)
    then show ?thesis
      using that crop_item.get_after_set [of hnd c m]
      by (cases "crop_invalid hnd c") (simp_all add: inv_def crop_item.reg_write_def)
  qed (use that in \<open>auto simp: inv_def get_crop_rect_def item_set_defs set_smpte2094_40_def set_smpte2094_10_def
      split: option.splits\<close>)
  have "inv (fold (metadata_step hnd sdk33) ops m)" if "inv m" for m
    using that by (induction ops arbitrary: m) (simp_all add: step)
  moreover have "inv (shared_metadata_init nm dataspace siting)"
    by (simp add: inv_def shared_metadata_init_def make_shared_metadata_def Let_def get_crop_rect_def
        empty_metadata_def empty_optional_def to_std_optional_def)
  ultimately have "inv (fold (metadata_step hnd sdk33) ops (shared_metadata_init nm dataspace siting))"
    by blast
  then show ?thesis
    using crop_valid_bounds [of hnd]
    by (cases "get_crop_rect (fold (metadata_step hnd sdk33) ops (shared_metadata_init nm dataspace siting))")
      (simp_all add: inv_def)
qed

text \<open>The SMPTE 2094-40 getter does not return what was stored. After a successful write it answers all 1268
  bytes of the array: the written bytes followed by whatever stood there before.\<close>

theorem smpte2094_padded:
  assumes "metadata_wf m" and "set_smpte2094_40 sdk33 (Some bytes) m = (android_OK, m')"
  shows "get_smpte2094_40 m' = Some (bytes @ drop (length bytes) (v_contents (md_smpte2094_40 m))) \<and>
    length (the (get_smpte2094_40 m')) = 1268 \<and> vector_used (md_smpte2094_40 m') = Some bytes"
proof -
  have b: "bytes \<noteq> []" "length bytes \<le> smpte2094_40_size"
    using assms(2) by (auto simp: set_smpte2094_40_def split: if_splits)
  have old: "length (v_contents (md_smpte2094_40 m)) = smpte2094_40_size"
    using assms(1) by (simp add: metadata_wf_def vector_wf_def)
  have n: "smpte2094_40_size < 2 ^ 32"
    by (simp add: smpte2094_40_size_def)
  show ?thesis
    using assms(2) b old vector_store [OF b n old]
    by (auto simp: set_smpte2094_40_def get_smpte2094_40_def smpte2094_40_size_def split: if_splits)
qed

theorem smpte2094_padded_witness:
  "get_smpte2094_40 (snd (set_smpte2094_40 True (Some [1, 2, 3]) empty_metadata)) = Some ([1, 2, 3] @ replicate 1265 0)"
proof -
  obtain m' where m': "set_smpte2094_40 True (Some [1, 2, 3]) empty_metadata = (android_OK, m')"
    by (simp add: set_smpte2094_40_def smpte2094_40_size_def)
  then show ?thesis
    using smpte2094_padded [OF empty_metadata_wf m'] by (simp add: empty_metadata_def empty_vector_def smpte2094_40_size_def)
qed

end
