(* ===== verification/Descriptor_Codec.thy ===== *)
theory Descriptor_Codec
  imports Alloc_Derive
begin

text \<open>
  The buffer descriptor as it crosses the process boundary
  (src/src/idl_common/gralloc_shared/include/idl_common/descriptor.h): validation, encoding into a vector
  of bytes and decoding. Vectors of bytes are the only instance of the templates that is used; integers are little
  endian, as on all Arm Android targets.
\<close>

section \<open>The description of a client\<close>

record BufferDescriptorInfo =
  bi_name :: string
  bi_width :: u32
  bi_height :: u32
  bi_layerCount :: u32
  bi_format :: i32
  bi_usage :: u64
  bi_reservedSize :: u64

text \<open>Usage bits outside of \<open>validUsageBits\<close> are only reported to the log.\<close>

definition validateDescriptorInfo :: "BufferDescriptorInfo \<Rightarrow> bool" where
  "validateDescriptorInfo d =
     (if bi_width d = 0 \<or> bi_height d = 0 \<or> bi_layerCount d = 0 then False
      else if bi_format d = 0 then False
      else True)"

text \<open>\<open>aidl\<close> says whether the allocator is built for AIDL (\<open>GRALLOC_ALLOCATOR_AIDL_VERSION > 0\<close>).\<close>

definition GPU_DATA_BUFFER_WITH_ANY_FORMAT :: u32 where "GPU_DATA_BUFFER_WITH_ANY_FORMAT = 1"
definition USE_AIDL_FRONTBUFFER_USAGE :: u32 where "USE_AIDL_FRONTBUFFER_USAGE = push_bit 1 1"
definition SUPPORTS_R8 :: u32 where "SUPPORTS_R8 = push_bit 2 1"

definition DESCRIPTOR_ALLOCATOR_FLAGS :: "bool \<Rightarrow> u32" where
  "DESCRIPTOR_ALLOCATOR_FLAGS aidl =
     (if aidl then GPU_DATA_BUFFER_WITH_ANY_FORMAT OR USE_AIDL_FRONTBUFFER_USAGE OR SUPPORTS_R8 else 0)"

section \<open>Writing and reading at a position\<close>

primrec bytes_of :: "nat \<Rightarrow> 'a::len word \<Rightarrow> u8 list" where
  "bytes_of 0 x = []"
| "bytes_of (Suc n) x = ucast x # bytes_of n (drop_bit 8 x)"

primrec of_bytes :: "u8 list \<Rightarrow> 'a::len word" where
  "of_bytes [] = 0"
| "of_bytes (b # bs) = ucast b OR push_bit 8 (of_bytes bs)"

definition write_at :: "nat \<Rightarrow> 'a list \<Rightarrow> 'a list \<Rightarrow> 'a list" where
  "write_at pos xs vec = take pos vec @ xs @ drop (pos + length xs) vec"

definition push_descriptor_uint32 :: "u32 \<Rightarrow> u8 list \<times> nat \<Rightarrow> u8 list \<times> nat" where
  "push_descriptor_uint32 val a = (case a of (vec, pos) \<Rightarrow> (write_at pos (bytes_of 4 val) vec, pos + 4))"

definition pop_descriptor_uint32 :: "u8 list \<Rightarrow> nat \<Rightarrow> u32 \<times> nat" where
  "pop_descriptor_uint32 vec pos = (of_bytes (take 4 (drop pos vec)), pos + 4)"

definition push_descriptor_uint64 :: "u64 \<Rightarrow> u8 list \<times> nat \<Rightarrow> u8 list \<times> nat" where
  "push_descriptor_uint64 val a = (case a of (vec, pos) \<Rightarrow> (write_at pos (bytes_of 8 val) vec, pos + 8))"

definition pop_descriptor_uint64 :: "u8 list \<Rightarrow> nat \<Rightarrow> u64 \<times> nat" where
  "pop_descriptor_uint64 vec pos = (of_bytes (take 8 (drop pos vec)), pos + 8)"

definition MAX_NAME_LENGTH :: nat where "MAX_NAME_LENGTH = 127"
definition NAME_BUFFER_SIZE :: nat where "NAME_BUFFER_SIZE = 128"

text \<open>\<open>strncpy\<close> stops at the first NUL of the source and fills up with NULs.\<close>

definition c_str :: "string \<Rightarrow> string" where
  "c_str s = takeWhile (\<lambda>c. c \<noteq> CHR 0x00) s"

definition strncpy :: "string \<Rightarrow> nat \<Rightarrow> u8 list" where
  "strncpy src n = map of_char (take n (c_str src)) @ replicate (n - length (c_str src)) 0"

definition push_descriptor_string :: "string \<Rightarrow> u8 list \<times> nat \<Rightarrow> u8 list \<times> nat" where
  "push_descriptor_string str a =
     (case a of (vec, pos) \<Rightarrow>
        (write_at (pos + MAX_NAME_LENGTH) [0] (write_at pos (strncpy str MAX_NAME_LENGTH) vec), pos + NAME_BUFFER_SIZE))"

definition pop_descriptor_string :: "u8 list \<Rightarrow> nat \<Rightarrow> string \<times> nat" where
  "pop_descriptor_string vec pos =
     (map (\<lambda>b. char_of (unat b)) (take MAX_NAME_LENGTH (drop pos vec)) @ [CHR 0x00], pos + NAME_BUFFER_SIZE)"

section \<open>Encoding and decoding\<close>

definition DESCRIPTOR_32BIT_FIELDS :: nat where "DESCRIPTOR_32BIT_FIELDS = 4"
definition DESCRIPTOR_64BIT_FIELDS :: nat where "DESCRIPTOR_64BIT_FIELDS = 2"

definition descriptor_static_size :: nat where
  "descriptor_static_size = DESCRIPTOR_32BIT_FIELDS * 4 + DESCRIPTOR_64BIT_FIELDS * 8 + NAME_BUFFER_SIZE"

definition grallocEncodeBufferDescriptor :: "bool \<Rightarrow> BufferDescriptorInfo \<Rightarrow> u8 list res" where
  "grallocEncodeBufferDescriptor nd d =
     (let a1 = push_descriptor_uint32 (bi_width d) (replicate descriptor_static_size 0, 0);
          a2 = push_descriptor_uint32 (bi_height d) a1;
          a3 = push_descriptor_uint32 (bi_layerCount d) a2;
          a4 = push_descriptor_uint32 (bi_format d) a3;
          a5 = push_descriptor_uint64 (bi_usage d) a4;
          a6 = push_descriptor_uint64 (bi_reservedSize d) a5;
          a7 = push_descriptor_string (bi_name d) a6
      in bind_res (c_assert nd (snd a7 = descriptor_static_size)) (\<lambda>_. Inr (fst a7)))"

text \<open>\<open>sizeof(buffer_descriptor_t)\<close> on LP64.\<close>

definition sizeof_buffer_descriptor :: u32 where "sizeof_buffer_descriptor = 256"

definition grallocDecodeBufferDescriptor :: "u8 list \<Rightarrow> buffer_descriptor_t \<Rightarrow> bool \<times> buffer_descriptor_t" where
  "grallocDecodeBufferDescriptor vec g =
     (if descriptor_static_size \<noteq> length vec then (False, g)
      else
        let (w, p1) = pop_descriptor_uint32 vec 0;
            (h, p2) = pop_descriptor_uint32 vec p1;
            (layers, p3) = pop_descriptor_uint32 vec p2;
            (f, p4) = pop_descriptor_uint32 vec p3;
            (usage, p5) = pop_descriptor_uint64 vec p4;
            (reserved, p6) = pop_descriptor_uint64 vec p5;
            (nm, p7) = pop_descriptor_string vec p6
        in (True, g\<lparr>d_width := w, d_height := h, d_layer_count := layers, d_hal_format := ucast f,
              d_producer_usage := usage, d_consumer_usage := usage, d_signature := sizeof_buffer_descriptor,
              d_reserved_size := reserved, d_name := nm\<rparr>))"

section \<open>Lemmas\<close>

lemma length_bytes_of [simp]: "length (bytes_of n x) = n"
  by (induction n arbitrary: x) simp_all

lemma of_bytes_of: "8 * n \<le> LENGTH('a) \<Longrightarrow> of_bytes (bytes_of n x) = take_bit (8 * n) (x :: 'a::len word)"
proof (induction n arbitrary: x)
  case (Suc n)
  then have "of_bytes (bytes_of n (drop_bit 8 x)) = take_bit (8 * n) (drop_bit 8 x)"
    by simp
  moreover have "ucast (ucast x :: u8) OR push_bit 8 (take_bit (8 * n) (drop_bit 8 x)) = take_bit (8 * Suc n) x"
    using Suc.prems by (intro bit_word_eqI) (auto simp: bit_simps)
  ultimately show ?case
    by simp
qed simp

lemma of_bytes_u32 [simp]: "of_bytes (bytes_of 4 x) = (x :: u32)"
  using of_bytes_of [of 4 x] by (simp add: take_bit_word_eq_self)

lemma of_bytes_u64 [simp]: "of_bytes (bytes_of 8 x) = (x :: u64)"
  using of_bytes_of [of 8 x] by (simp add: take_bit_word_eq_self)

lemma length_c_str: "length (c_str s) \<le> length s"
  by (simp add: c_str_def length_takeWhile_le)

lemma length_strncpy [simp]: "length (strncpy s n) = n"
  by (simp add: strncpy_def)

text \<open>Writing the next field of a vector that is filled from the left.\<close>

lemma write_at_next:
  "length xs = pos \<Longrightarrow> length ys \<le> n \<Longrightarrow>
   write_at pos ys (xs @ replicate n z) = xs @ ys @ replicate (n - length ys) z"
  by (simp add: write_at_def)

lemma encode_eq:
  "grallocEncodeBufferDescriptor nd d =
     Inr (bytes_of 4 (bi_width d) @ bytes_of 4 (bi_height d) @ bytes_of 4 (bi_layerCount d) @ bytes_of 4 (bi_format d) @
       bytes_of 8 (bi_usage d) @ bytes_of 8 (bi_reservedSize d) @ strncpy (bi_name d) 127 @ [0])"
proof -
  note next_field = write_at_next [where z = "0 :: u8"]
  let ?w = "bytes_of 4 (bi_width d)" and ?h = "bytes_of 4 (bi_height d)" and ?l = "bytes_of 4 (bi_layerCount d)"
    and ?f = "bytes_of 4 (bi_format d)" and ?u = "bytes_of 8 (bi_usage d)" and ?r = "bytes_of 8 (bi_reservedSize d)"
    and ?n = "strncpy (bi_name d) 127"
  have "push_descriptor_uint32 (bi_width d) (replicate descriptor_static_size 0, 0) = (?w @ replicate 156 0, 4)"
    using next_field [of "[]" 0 ?w 160]
    by (simp add: push_descriptor_uint32_def descriptor_static_size_def DESCRIPTOR_32BIT_FIELDS_def
        DESCRIPTOR_64BIT_FIELDS_def NAME_BUFFER_SIZE_def)
  moreover have "push_descriptor_uint32 (bi_height d) (?w @ replicate 156 0, 4) = ((?w @ ?h) @ replicate 152 0, 8)"
    using next_field [of ?w 4 ?h 156] by (simp add: push_descriptor_uint32_def)
  moreover have "push_descriptor_uint32 (bi_layerCount d) ((?w @ ?h) @ replicate 152 0, 8) = ((?w @ ?h @ ?l) @ replicate 148 0, 12)"
    using next_field [of "?w @ ?h" 8 ?l 152] by (simp add: push_descriptor_uint32_def)
  moreover have "push_descriptor_uint32 (bi_format d) ((?w @ ?h @ ?l) @ replicate 148 0, 12) = ((?w @ ?h @ ?l @ ?f) @ replicate 144 0, 16)"
    using next_field [of "?w @ ?h @ ?l" 12 ?f 148] by (simp add: push_descriptor_uint32_def)
  moreover have "push_descriptor_uint64 (bi_usage d) ((?w @ ?h @ ?l @ ?f) @ replicate 144 0, 16) =
      ((?w @ ?h @ ?l @ ?f @ ?u) @ replicate 136 0, 24)"
    using next_field [of "?w @ ?h @ ?l @ ?f" 16 ?u 144] by (simp add: push_descriptor_uint64_def)
  moreover have "push_descriptor_uint64 (bi_reservedSize d) ((?w @ ?h @ ?l @ ?f @ ?u) @ replicate 136 0, 24) =
      ((?w @ ?h @ ?l @ ?f @ ?u @ ?r) @ replicate 128 0, 32)"
    using next_field [of "?w @ ?h @ ?l @ ?f @ ?u" 24 ?r 136] by (simp add: push_descriptor_uint64_def)
  moreover have "push_descriptor_string (bi_name d) ((?w @ ?h @ ?l @ ?f @ ?u @ ?r) @ replicate 128 0, 32) =
      (?w @ ?h @ ?l @ ?f @ ?u @ ?r @ ?n @ [0], 160)"
    using next_field [of "?w @ ?h @ ?l @ ?f @ ?u @ ?r" 32 ?n 128]
      next_field [of "?w @ ?h @ ?l @ ?f @ ?u @ ?r @ ?n" 159 "[0]" 1]
    by (simp add: push_descriptor_string_def MAX_NAME_LENGTH_def NAME_BUFFER_SIZE_def)
  ultimately show ?thesis
    by (simp add: grallocEncodeBufferDescriptor_def descriptor_static_size_def DESCRIPTOR_32BIT_FIELDS_def
        DESCRIPTOR_64BIT_FIELDS_def NAME_BUFFER_SIZE_def)
qed

section \<open>Properties\<close>

lemma char_of_byte [simp]: "char_of (unat (of_char c :: u8)) = c"
proof -
  have "of_char c mod 256 = (of_char c :: nat)"
    by (rule of_char_mod_256)
  then have "(of_char c :: nat) < 256"
    by (metis mod_less_divisor zero_less_numeral)
  then have "unat (of_nat (of_char c) :: u8) = of_char c"
    by (simp add: unat_of_nat)
  then show ?thesis
    by (simp add: of_nat_of_char)
qed

lemma c_str_no_nul: "c \<in> set (c_str s) \<Longrightarrow> c \<noteq> CHR 0x00"
  by (auto simp: c_str_def dest: set_takeWhileD)

text \<open>The name as it arrives: at most 127 characters, filled up with NULs.\<close>

definition name_array :: "string \<Rightarrow> string" where
  "name_array s = take 127 (c_str s) @ replicate (128 - length (take 127 (c_str s))) (CHR 0x00)"

lemma c_str_name_array: "c_str (name_array s) = take 127 (c_str s)"
proof -
  have "takeWhile (\<lambda>c. c \<noteq> CHR 0x00) (xs @ replicate (Suc n) (CHR 0x00)) = xs"
    if "\<forall>c \<in> set xs. c \<noteq> CHR 0x00" for xs :: string and n
    using that by (simp add: takeWhile_append2)
  moreover have "128 - length (take 127 (c_str s)) = Suc (127 - length (take 127 (c_str s)))"
    by simp
  moreover have "\<forall>c \<in> set (take 127 (c_str s)). c \<noteq> CHR 0x00"
    by (auto simp: c_str_def dest!: in_set_takeD set_takeWhileD)
  ultimately show ?thesis
    unfolding name_array_def by (simp only: c_str_def [of "_ @ _"])
qed

lemma map_strncpy: "map (\<lambda>b. char_of (unat b)) (strncpy s 127) @ [CHR 0x00] = name_array s"
proof -
  have nul: "char_of (0 :: nat) = CHR 0x00"
    by code_simp
  have "replicate (127 - length (c_str s)) (CHR 0x00) @ [CHR 0x00] = replicate (Suc (127 - length (c_str s))) (CHR 0x00)"
    by (simp add: replicate_append_same)
  moreover have "length (c_str s) \<le> 127 \<Longrightarrow> Suc (127 - length (c_str s)) = 128 - length (c_str s)"
    by arith
  ultimately show ?thesis
    unfolding strncpy_def name_array_def by (simp add: nul comp_def min_def del: replicate_Suc)
qed

lemma descriptor_size: "descriptor_static_size = 160"
  by (simp add: descriptor_static_size_def DESCRIPTOR_32BIT_FIELDS_def DESCRIPTOR_64BIT_FIELDS_def NAME_BUFFER_SIZE_def)

lemma decode_length: "fst (grallocDecodeBufferDescriptor v g) \<longleftrightarrow> length v = 160"
  by (simp add: grallocDecodeBufferDescriptor_def descriptor_size case_prod_beta Let_def)

text \<open>What decoding gives back.\<close>

definition described :: "BufferDescriptorInfo \<Rightarrow> buffer_descriptor_t \<Rightarrow> buffer_descriptor_t" where
  "described d g = g\<lparr>d_width := bi_width d, d_height := bi_height d, d_layer_count := bi_layerCount d,
     d_hal_format := ucast (bi_format d), d_producer_usage := bi_usage d, d_consumer_usage := bi_usage d,
     d_signature := sizeof_buffer_descriptor, d_reserved_size := bi_reservedSize d, d_name := name_array (bi_name d)\<rparr>"

lemma descriptor_encoding:
  obtains vec where "grallocEncodeBufferDescriptor nd d = Inr vec"
    and "grallocDecodeBufferDescriptor vec g = (True, described d g)"
proof -
  let ?w = "bytes_of 4 (bi_width d)" and ?h = "bytes_of 4 (bi_height d)" and ?l = "bytes_of 4 (bi_layerCount d)"
    and ?f = "bytes_of 4 (bi_format d)" and ?u = "bytes_of 8 (bi_usage d)" and ?r = "bytes_of 8 (bi_reservedSize d)"
    and ?n = "strncpy (bi_name d) 127"
  have "map (\<lambda>b. char_of (unat b)) ?n @ [CHR 0x00] = name_array (bi_name d)"
    by (rule map_strncpy)
  moreover define v where "v = ?w @ ?h @ ?l @ ?f @ ?u @ ?r @ ?n @ [0]"
  have "length v = 160" "take 4 v = ?w" "take 4 (drop 4 v) = ?h" "take 4 (drop 8 v) = ?l" "take 4 (drop 12 v) = ?f"
    "take 8 (drop 16 v) = ?u" "take 8 (drop 24 v) = ?r" "take 127 (drop 32 v) = ?n"
    unfolding v_def by simp_all
  ultimately have "grallocDecodeBufferDescriptor v g = (True, described d g)"
    by (simp add: grallocDecodeBufferDescriptor_def descriptor_size pop_descriptor_uint32_def pop_descriptor_uint64_def
        pop_descriptor_string_def MAX_NAME_LENGTH_def described_def Let_def)
  moreover have "grallocEncodeBufferDescriptor nd d = Inr v"
    unfolding v_def by (rule encode_eq)
  ultimately show thesis
    by (rule that [rotated])
qed

text \<open>C35: a descriptor survives the crossing between processes. Every description encodes without failure; decoding
  accepts exactly the vectors of 160 bytes, and decoding an encoded description gives back its width, height, layers,
  format, usage (as producer and as consumer) and reserved size, and its name up to the first NUL cut to 127
  characters; the calculated fields of the descriptor are untouched.\<close>

theorem descriptor_roundtrip:
  "(\<exists>vec. grallocEncodeBufferDescriptor nd d = Inr vec \<and>
     grallocDecodeBufferDescriptor vec g =
       (True, g\<lparr>d_width := bi_width d, d_height := bi_height d, d_layer_count := bi_layerCount d,
          d_hal_format := ucast (bi_format d), d_producer_usage := bi_usage d, d_consumer_usage := bi_usage d,
          d_signature := sizeof_buffer_descriptor, d_reserved_size := bi_reservedSize d,
          d_name := name_array (bi_name d)\<rparr>)) \<and>
   c_str (name_array (bi_name d)) = take 127 (c_str (bi_name d)) \<and>
   (fst (grallocDecodeBufferDescriptor any g) \<longleftrightarrow> length any = 160)"
  using descriptor_encoding [of nd d g] by (auto simp: described_def c_str_name_array decode_length)

end
