(* ===== verification/Idl_Allocator.thy ===== *)
theory Idl_Allocator
  imports Shared_Metadata Descriptor_Codec
begin

text \<open>
  The allocator service (src/src/idl_common/allocator/allocator.cpp): the chroma siting of a format, and
  the allocation of several buffers of one description, each with its region of shared metadata. The
  HIDL and AIDL front ends (src/src/4.x/allocator/allocator.cpp, src/src/aidl/1.x/allocator.cpp) are
  the last section.
\<close>

section \<open>Chroma siting\<close>

text \<open>The constants of \<open>android::gralloc4\<close> are a parameter.\<close>

record gralloc4_sitings =
  cs_None :: ExtendableType
  cs_Unknown :: ExtendableType
  cs_SitedInterstitial :: ExtendableType
  cs_CositedHorizontal :: ExtendableType

definition forced_siting :: "gralloc4_sitings \<Rightarrow> u64 \<Rightarrow> ExtendableType" where
  "forced_siting G usage =
     (let m = usage AND MALI_GRALLOC_USAGE_CHROMA_SITING_MASK
      in if m = MALI_GRALLOC_USAGE_CHROMA_SITING_CENTER then cs_SitedInterstitial G
         else if m = MALI_GRALLOC_USAGE_CHROMA_SITING_CENTER_X then ChromaSiting_CositedVertical
         else if m = MALI_GRALLOC_USAGE_CHROMA_SITING_CENTER_Y then cs_CositedHorizontal G
         else if m = MALI_GRALLOC_USAGE_CHROMA_SITING_COSITED then ChromaSiting_CositedBoth
         else cs_Unknown G)"

definition default_siting :: "gralloc4_sitings \<Rightarrow> hal_env \<Rightarrow> u32 \<Rightarrow> ExtendableType" where
  "default_siting G H base =
     (if base \<in> fmt_value H ` {FMT_NV12, FMT_NV15, FMT_NV21, FMT_P010, FMT_YUV420_8BIT_I, FMT_YUV420_10BIT_I, FMT_Y0L2}
      then cs_SitedInterstitial G
      else if base \<in> fmt_value H ` {FMT_Y210, FMT_P210} then ChromaSiting_CositedVertical
      else if base \<in> fmt_value H ` {FMT_NV16, FMT_Y410, FMT_YUV444, FMT_Q410, FMT_Q401, FMT_YUV422_8BIT}
      then ChromaSiting_CositedBoth
      else cs_Unknown G)"

definition get_format_chroma_siting ::
  "gralloc4_sitings \<Rightarrow> hal_env \<Rightarrow> internal_format_t \<Rightarrow> u64 \<Rightarrow> ExtendableType" where
  "get_format_chroma_siting G H f usage =
     (case get_base_info H f of
        None \<Rightarrow> cs_Unknown G
      | Some info \<Rightarrow>
          if is_yuv info \<and> usage AND MALI_GRALLOC_USAGE_CHROMA_SITING_MASK \<noteq> 0 then forced_siting G usage
          else if is_yuv info then default_siting G H (get_base f)
          else if is_rgb info then cs_None G
          else cs_Unknown G)"

section \<open>Structures in mapped memory\<close>

text \<open>
  Reading and writing the structure \<open>shared_metadata\<close> at an address is a parameter, like the rest of the
  memory. A write is read back from the same address and opens and maps nothing.
\<close>

record 's metadata_memory =
  md_read :: "'s \<Rightarrow> ptr \<Rightarrow> shared_metadata"
  md_write :: "'s \<Rightarrow> ptr \<Rightarrow> shared_metadata \<Rightarrow> 's"

definition memory_documented ::
  "'s metadata_memory \<Rightarrow> ('s \<Rightarrow> i32 set) \<Rightarrow> ('s \<Rightarrow> (ptr \<times> u64) set) \<Rightarrow> bool" where
  "memory_documented M fds maps \<longleftrightarrow>
     (\<forall>s p m. keeps_resources fds maps s (md_write M s p m) \<and> md_read M (md_write M s p m) p = m)"

lemma memory_documentedD:
  assumes "memory_documented M fds maps"
  shows "fds (md_write M s p m) = fds s" "maps (md_write M s p m) = maps s" "md_read M (md_write M s p m) p = m"
  using assms by (simp_all add: memory_documented_def keeps_resources_def)

section \<open>Allocation\<close>

text \<open>
  The constants of the platform and the configuration of the build that an allocation depends on.
\<close>

record ('s, 'p) platform =
  pl_cfg :: build_config
  pl_os :: "'s os"
  pl_mem :: "'s metadata_memory"
  pl_props :: "'p property_service"
  pl_hal :: hal_env
  pl_caps :: "ip_capability list"
  pl_heaps :: heap_names
  pl_dataspaces :: dataspace_env
  pl_sitings :: gralloc4_sitings

text \<open>
  Placing the metadata into the mapped region, which is \<open>attr_size\<close> bytes long. It is unmapped at the end
  of the block. The result says whether the region could be mapped.
\<close>

definition init_metadata_region ::
  "('s, 'p) platform \<Rightarrow> private_handle_t \<Rightarrow> buffer_descriptor_t \<Rightarrow> 's \<Rightarrow> (bool \<times> 's) res" where
  "init_metadata_region L h d s =
     (case os_mmap (pl_os L) s (attr_size h) (share_attr_fd h) of
        (Inl _, s1) \<Rightarrow> Inr (False, s1)
      | (Inr mapping, s1) \<Rightarrow>
          if attr_size h < shared_metadata_size then Inl Out_of_bounds
          else
            let f = d_alloc_format d;
                usage = d_consumer_usage d OR d_producer_usage d;
                dataspace = get_format_dataspace (pl_dataspaces L) (get_base_info (pl_hal L) f) usage (h_width h) (h_height h);
                siting = get_format_chroma_siting (pl_sitings L) (pl_hal L) f usage;
                m = shared_metadata_init (c_str (d_name d)) dataspace siting
            in Inr (True, snd (os_munmap (pl_os L) (md_write (pl_mem L) s1 mapping m) mapping (attr_size h))))"

text \<open>Destroying a handle closes both of its descriptors, also one that is -1.\<close>

definition destroy_handle :: "'s os \<Rightarrow> private_handle_t \<Rightarrow> 's \<Rightarrow> 's" where
  "destroy_handle Sys h s = native_handle_deleter Sys [share_fd h, share_attr_fd h] s"

text \<open>One round of the loop, up to the comparison of the strides.\<close>

definition allocate_one ::
  "('s, 'p) platform \<Rightarrow> buffer_descriptor_t \<Rightarrow> 'p gralloc_state \<Rightarrow> 's \<Rightarrow>
   ((status_t + private_handle_t) \<times> buffer_descriptor_t \<times> 'p gralloc_state \<times> 's) res" where
  "allocate_one L d g s =
     bind_res (mali_gralloc_buffer_allocate (pl_cfg L) (pl_os L) (pl_props L) (pl_hal L) (pl_caps L) (pl_heaps L) d g s)
       (\<lambda>(r, d1, g1, s1).
          case r of
            None \<Rightarrow> Inr (Inl NO_MEMORY, d1, g1, s1)
          | Some h0 \<Rightarrow>
              let h1 = h0\<lparr>reserved_region_size := d_reserved_size d1,
                          attr_size := shared_metadata_size + d_reserved_size d1\<rparr>
              in case gralloc_shared_memory_allocate (pl_os L) ''gralloc_shared_memory'' (attr_size h1) s1 of
                   (fd, s2) \<Rightarrow>
                     let h = h1\<lparr>share_attr_fd := fd\<rparr>
                     in if sint fd < 0 then Inr (Inl BAD_VALUE, d1, g1, destroy_handle (pl_os L) h s2)
                        else bind_res (init_metadata_region L h d1 s2) (\<lambda>(ok, s3).
                               if \<not> ok then Inr (Inl NO_MEMORY, d1, g1, destroy_handle (pl_os L) h s3)
                               else Inr (Inr h, d1, g1, s3)))"

text \<open>An early return destroys the handle of the round and those of the rounds before.\<close>

definition destroy_handles :: "'s os \<Rightarrow> private_handle_t list \<Rightarrow> 's \<Rightarrow> 's" where
  "destroy_handles Sys hs s = fold (destroy_handle Sys) hs s"

primrec allocate_loop ::
  "('s, 'p) platform \<Rightarrow> nat \<Rightarrow> i32 \<Rightarrow> private_handle_t list \<Rightarrow> buffer_descriptor_t \<Rightarrow> 'p gralloc_state \<Rightarrow> 's \<Rightarrow>
   ((status_t + private_handle_t list) \<times> buffer_descriptor_t \<times> 'p gralloc_state \<times> 's) res" where
  "allocate_loop L 0 strd hs d g s = Inr (Inr hs, d, g, s)"
| "allocate_loop L (Suc n) strd hs d g s =
     bind_res (allocate_one L d g s) (\<lambda>(r, d1, g1, s1).
       case r of
         Inl e \<Rightarrow> Inr (Inl e, d1, g1, destroy_handles (pl_os L) hs s1)
       | Inr h \<Rightarrow>
           if strd \<noteq> 0 \<and> strd \<noteq> d_pixel_stride d1
           then Inr (Inl BAD_VALUE, d1, g1, destroy_handles (pl_os L) (h # hs) s1)
           else allocate_loop L n (if strd = 0 then d_pixel_stride d1 else strd) (hs @ [h]) d1 g1 s1)"

definition allocate ::
  "('s, 'p) platform \<Rightarrow> buffer_descriptor_t \<Rightarrow> u32 \<Rightarrow> 'p gralloc_state \<Rightarrow> 's \<Rightarrow>
   ((status_t + private_handle_t list) \<times> buffer_descriptor_t \<times> 'p gralloc_state \<times> 's) res" where
  "allocate L d count g s = allocate_loop L (unat count) 0 [] d g s"

section \<open>Resources of an allocation\<close>

definition descriptors_of :: "private_handle_t list \<Rightarrow> i32 list" where
  "descriptors_of hs = concat (map (\<lambda>h. [share_fd h, share_attr_fd h]) hs)"

lemma descriptors_of_simps [simp]:
  "descriptors_of [] = []" "descriptors_of (h # hs) = share_fd h # share_attr_fd h # descriptors_of hs"
  "descriptors_of (gs @ hs) = descriptors_of gs @ descriptors_of hs"
  by (simp_all add: descriptors_of_def)

lemma destroy_handles_effect [os_facts]:
  assumes "os_documented Sys fds maps"
  shows "fds (destroy_handles Sys hs s) = fds s - set (descriptors_of hs)" "maps (destroy_handles Sys hs s) = maps s"
proof -
  have "fds (fold (destroy_handle Sys) hs s) = fds s - set (descriptors_of hs) \<and> maps (fold (destroy_handle Sys) hs s) = maps s"
    by (induction hs arbitrary: s) (auto simp: destroy_handle_def close_all_effect [OF assms])
  then show "fds (destroy_handles Sys hs s) = fds s - set (descriptors_of hs)" "maps (destroy_handles Sys hs s) = maps s"
    by (simp_all add: destroy_handles_def)
qed

lemma init_metadata_region_effect:
  assumes "os_documented (pl_os L) fds maps" and "memory_documented (pl_mem L) fds maps"
    and "init_metadata_region L h d s = Inr (ok, s')"
  shows "fds s' = fds s" "maps s' = maps s" "ok \<Longrightarrow> shared_metadata_size \<le> attr_size h"
proof -
  obtain r s1 where mm: "os_mmap (pl_os L) s (attr_size h) (share_attr_fd h) = (r, s1)"
    by fastforce
  have "fds s' = fds s \<and> maps s' = maps s \<and> (ok \<longrightarrow> shared_metadata_size \<le> attr_size h)"
  proof (cases r)
    case (Inl e)
    then show ?thesis
      using assms(3) mm os_mmap_failed [OF assms(1)] by (auto simp: init_metadata_region_def)
  next
    case (Inr a)
    note eff = os_mmap_done [OF assms(1) mm [unfolded Inr]]
    then have "(a, attr_size h) \<notin> maps s"
      by (auto simp: image_iff)
    then show ?thesis
      using assms(3) mm Inr eff
      by (auto simp: init_metadata_region_def Let_def os_munmap_effect [OF assms(1)] memory_documentedD [OF assms(2)]
          split: if_splits)
  qed
  then show "fds s' = fds s" "maps s' = maps s" "ok \<Longrightarrow> shared_metadata_size \<le> attr_size h"
    by blast+
qed

lemma allocator_allocate_fd:
  assumes "allocator_allocate Sys P H N d st s = Inr (Some h, st', s')"
  shows "0 \<le> sint (share_fd h)"
proof -
  obtain heap st1 where pick: "pick_dma_buf_heap P H (d_consumer_usage d OR d_producer_usage d) (d_hal_format d) st =
      Inr (heap, st1)"
    using assms by (auto simp: allocator_allocate_def)
  obtain fd s1 where alloc: "heap_alloc Sys s (get_dma_buf_heap_name N heap) (d_size d) = (fd, s1)"
    by fastforce
  obtain c s2 where new: "os_new_handle Sys s1 = (c, s2)"
    by fastforce
  show ?thesis
    using assms pick alloc new
    by (cases "sint fd < 0"; cases c) (auto simp: allocator_allocate_def make_private_handle_def)
qed

lemma buffer_allocate_fd:
  assumes "mali_gralloc_buffer_allocate cfg Sys P H E N d g s = Inr (Some h, d', g', s')"
  shows "0 \<le> sint (share_fd h)"
proof -
  obtain err d1 rk1 where der: "mali_gralloc_derive_format_and_size cfg P H E d (g_rk g) = Inr (err, d1, rk1)"
    using assms by (auto simp: mali_gralloc_buffer_allocate_def Let_def)
  then have "err = 0"
    using assms by (auto simp: mali_gralloc_buffer_allocate_def Let_def split: if_splits)
  then obtain q rk2 s1 where alloc: "allocator_allocate Sys P H N d1 rk1 s = Inr (q, rk2, s1)"
    using assms der by (auto simp: mali_gralloc_buffer_allocate_def Let_def)
  then obtain h0 where "q = Some h0"
    using assms der \<open>err = 0\<close> by (cases q) (auto simp: mali_gralloc_buffer_allocate_def Let_def)
  then have "share_fd h = share_fd h0"
    using assms der \<open>err = 0\<close> alloc by (auto simp: mali_gralloc_buffer_allocate_def Let_def split: prod.splits)
  moreover have "0 \<le> sint (share_fd h0)"
    by (rule allocator_allocate_fd [OF alloc [unfolded \<open>q = Some h0\<close>]])
  ultimately show ?thesis
    by simp
qed

definition fds_ok :: "i32 set \<Rightarrow> bool" where
  "fds_ok F \<longleftrightarrow> (\<forall>x \<in> F. 0 \<le> sint x)"

lemma fds_ok_minus_one: "fds_ok F \<Longrightarrow> - 1 \<notin> F"
  by (auto simp: fds_ok_def)

text \<open>What a handle of the service looks like, whose descriptors are new in addition to \<open>F\<close>.\<close>

definition service_handle :: "u64 \<Rightarrow> private_handle_t \<Rightarrow> bool" where
  "service_handle reserved h \<longleftrightarrow> handle_cast raw (Some h) = Some h \<and> h_type h = raw \<and>
     reserved_region_size h = reserved \<and> attr_size h = shared_metadata_size + reserved \<and>
     shared_metadata_size \<le> attr_size h"

lemma buffer_allocate_reserved:
  assumes "mali_gralloc_buffer_allocate cfg Sys P H E N d g s = Inr (q, d', g', s')"
  shows "d_reserved_size d' = d_reserved_size d"
proof -
  obtain err d1 rk1 where der: "mali_gralloc_derive_format_and_size cfg P H E d (g_rk g) = Inr (err, d1, rk1)"
    using assms by (auto simp: mali_gralloc_buffer_allocate_def Let_def)
  have "d' = d1"
  proof (cases "err = 0")
    case True
    then obtain r rk2 s1 where alloc: "allocator_allocate Sys P H N d1 rk1 s = Inr (r, rk2, s1)"
      using assms der by (auto simp: mali_gralloc_buffer_allocate_def Let_def)
    obtain i g2 where "getUniqueId Sys s1 (g\<lparr>g_rk := rk2\<rparr>) = (i, g2)"
      by fastforce
    then show ?thesis
      using assms der alloc True by (cases r) (simp_all add: mali_gralloc_buffer_allocate_def Let_def)
  qed (use assms der in \<open>simp add: mali_gralloc_buffer_allocate_def Let_def\<close>)
  moreover have "d_reserved_size d1 = d_reserved_size d"
    using der
  proof (cases rule: derive_cases)
    case (derived f info a w h z d2)
    have "d_reserved_size d2 = d_reserved_size d"
      using arg_cong [OF adjust_for_rk_video_frame [OF derived(9)], of d_reserved_size] by simp
    then show ?thesis
      using arg_cong [OF size_all_layers_frame [of d2], of d_reserved_size] derived(10) by simp
  qed auto
  ultimately show ?thesis
    by simp
qed

text \<open>
  The ways in which one buffer is allocated: no buffer, no region for the metadata, a region that cannot be mapped, success. \<open>h\<close> is the
  handle with its sizes and the descriptor of the region.
\<close>

definition with_region :: "private_handle_t \<Rightarrow> u64 \<Rightarrow> i32 \<Rightarrow> private_handle_t" where
  "with_region h reserved fd =
     h\<lparr>reserved_region_size := reserved, attr_size := shared_metadata_size + reserved, share_attr_fd := fd\<rparr>"

lemma with_region_simps [simp]:
  "share_fd (with_region h reserved fd) = share_fd h" "share_attr_fd (with_region h reserved fd) = fd"
  "attr_size (with_region h reserved fd) = shared_metadata_size + reserved"
  by (simp_all add: with_region_def)

lemma allocate_one_cases:
  assumes run: "allocate_one L d g s = Inr (r, d', g', s')"
  obtains (no_buffer) "mali_gralloc_buffer_allocate (pl_cfg L) (pl_os L) (pl_props L) (pl_hal L) (pl_caps L)
      (pl_heaps L) d g s = Inr (None, d', g', s')" "r = Inl NO_MEMORY"
  | (buffer) h0 fd s1 s2 where "mali_gralloc_buffer_allocate (pl_cfg L) (pl_os L) (pl_props L) (pl_hal L) (pl_caps L)
      (pl_heaps L) d g s = Inr (Some h0, d', g', s1)"
      "gralloc_shared_memory_allocate (pl_os L) ''gralloc_shared_memory'' (shared_metadata_size + d_reserved_size d') s1 = (fd, s2)"
      "sint fd < 0 \<and> r = Inl BAD_VALUE \<and> s' = destroy_handle (pl_os L) (with_region h0 (d_reserved_size d') fd) s2 \<or>
       0 \<le> sint fd \<and> (\<exists>ok s3. init_metadata_region L (with_region h0 (d_reserved_size d') fd) d' s2 = Inr (ok, s3) \<and>
         (if ok then r = Inr (with_region h0 (d_reserved_size d') fd) \<and> s' = s3
          else r = Inl NO_MEMORY \<and> s' = destroy_handle (pl_os L) (with_region h0 (d_reserved_size d') fd) s3))"
proof -
  obtain q d1 g1 s1 where buf: "mali_gralloc_buffer_allocate (pl_cfg L) (pl_os L) (pl_props L) (pl_hal L) (pl_caps L)
      (pl_heaps L) d g s = Inr (q, d1, g1, s1)"
    using run by (auto simp: allocate_one_def)
  show thesis
  proof (cases q)
    case None
    then show thesis
      using run buf by (intro no_buffer) (auto simp: allocate_one_def)
  next
    case (Some h0)
    let ?n = "shared_metadata_size + d_reserved_size d1"
    obtain fd s2 where shm: "gralloc_shared_memory_allocate (pl_os L) ''gralloc_shared_memory'' ?n s1 = (fd, s2)"
      by fastforce
    let ?h = "with_region h0 (d_reserved_size d1) fd"
    have eq: "allocate_one L d g s = (if sint fd < 0 then Inr (Inl BAD_VALUE, d1, g1, destroy_handle (pl_os L) ?h s2)
        else bind_res (init_metadata_region L ?h d1 s2) (\<lambda>(ok, s3).
               if \<not> ok then Inr (Inl NO_MEMORY, d1, g1, destroy_handle (pl_os L) ?h s3) else Inr (Inr ?h, d1, g1, s3)))"
      unfolding with_region_def using buf Some shm by (simp add: allocate_one_def Let_def)
    show thesis
    proof (cases "sint fd < 0")
      case True
      then show thesis
        using run eq buf Some shm by (intro buffer [of h0 s1 fd s2]) auto
    next
      case False
      then obtain ok s3 where "init_metadata_region L ?h d1 s2 = Inr (ok, s3)"
        using run eq by auto
      then show thesis
        using run eq buf Some shm False by (intro buffer [of h0 s1 fd s2]; cases ok) auto
    qed
  qed
qed

lemma allocate_one_effect:
  assumes os: "os_documented (pl_os L) fds maps" and mem: "memory_documented (pl_mem L) fds maps"
    and "fds_ok (fds s)" and run: "allocate_one L d g s = Inr (r, d', g', s')"
  shows "maps s' = maps s \<and> fds_ok (fds s') \<and>
    (case r of Inl e \<Rightarrow> fds s' = fds s \<and> (e = NO_MEMORY \<or> e = BAD_VALUE)
     | Inr h \<Rightarrow> fds s' = fds s \<union> {share_fd h, share_attr_fd h} \<and> share_fd h \<notin> fds s \<and> share_attr_fd h \<notin> fds s \<and>
         share_fd h \<noteq> share_attr_fd h \<and> service_handle (d_reserved_size d) h \<and> d_reserved_size d' = d_reserved_size d)"
  using run
proof (cases rule: allocate_one_cases)
  case no_buffer
  then show ?thesis
    using buffer_allocate_effect [OF os no_buffer(1)] assms(3) by auto
next
  case (buffer h0 fd s1 s2)
  note res = buffer_allocate_reserved [OF buffer(1)] and shm = shared_memory_effect [OF os buffer(2)]
  let ?h = "with_region h0 (d_reserved_size d') fd"
  have fd0: "0 \<le> sint (share_fd h0)"
    by (rule buffer_allocate_fd [OF buffer(1)])
  have e0: "fds s1 = insert (share_fd h0) (fds s)" "share_fd h0 \<notin> fds s" "maps s1 = maps s"
    "handle_cast raw (Some h0) = Some h0" "h_type h0 = raw"
    using buffer_allocate_effect [OF os buffer(1)] by auto
  have closed: "fds (destroy_handle (pl_os L) ?h x) = fds x - {share_fd h0, fd}" "maps (destroy_handle (pl_os L) ?h x) = maps x" for x
    by (simp_all add: destroy_handle_def close_all_effect [OF os])
  from buffer(3) consider (no_region) "sint fd < 0" "r = Inl BAD_VALUE" "s' = destroy_handle (pl_os L) ?h s2"
    | (region) ok s3 where "0 \<le> sint fd" "init_metadata_region L ?h d' s2 = Inr (ok, s3)"
        "if ok then r = Inr ?h \<and> s' = s3 else r = Inl NO_MEMORY \<and> s' = destroy_handle (pl_os L) ?h s3"
    by blast
  then show ?thesis
  proof cases
    case no_region
    then show ?thesis
      using shm e0 closed assms(3) by (auto simp: fds_ok_def)
  next
    case (region ok s3)
    note init = init_metadata_region_effect [OF os mem region(2)]
    have s2: "fds s2 = insert fd (fds s1)" "fd \<notin> fds s1" "maps s2 = maps s1"
      using shm region(1) by simp_all
    have "service_handle (d_reserved_size d) ?h" if ok
      using e0 res init(3) [OF that] by (auto simp: service_handle_def with_region_def handle_cast_eq_Some)
    then show ?thesis
      using region(1,3) res s2 e0 init(1,2) closed fd0 assms(3) by (cases ok) (auto simp: fds_ok_def)
  qed
qed

lemma allocate_loop_effect:
  assumes os: "os_documented (pl_os L) fds maps" and mem: "memory_documented (pl_mem L) fds maps"
    and "fds_ok (fds s)" and "allocate_loop L n strd hs d g s = Inr (r, d', g', s')"
    and "fds s = F \<union> set (descriptors_of hs)" and "set (descriptors_of hs) \<inter> F = {}" and "distinct (descriptors_of hs)"
    and "\<forall>h \<in> set hs. service_handle (d_reserved_size d) h"
  shows "maps s' = maps s \<and>
    (case r of Inl e \<Rightarrow> fds s' = F \<and> (e = NO_MEMORY \<or> e = BAD_VALUE)
     | Inr hs' \<Rightarrow> length hs' = length hs + n \<and> fds s' = F \<union> set (descriptors_of hs') \<and>
         set (descriptors_of hs') \<inter> F = {} \<and> distinct (descriptors_of hs') \<and>
         (\<forall>h \<in> set hs'. service_handle (d_reserved_size d) h))"
  using assms(3-)
proof (induction n arbitrary: strd hs d g s)
  case 0
  then show ?case
    by auto
next
  case (Suc n)
  obtain q d1 g1 s1 where one: "allocate_one L d g s = Inr (q, d1, g1, s1)"
    using Suc.prems(2) by auto
  note eff = allocate_one_effect [OF os mem Suc.prems(1) one]
  have gone: "fds (destroy_handles (pl_os L) ks x) = fds x - set (descriptors_of ks)"
    "maps (destroy_handles (pl_os L) ks x) = maps x" for ks x
    by (rule destroy_handles_effect [OF os])+
  show ?case
  proof (cases q)
    case (Inl e)
    then show ?thesis
      using Suc.prems one eff by (auto simp: gone)
  next
    case (Inr h)
    have new: "fds s1 = fds s \<union> {share_fd h, share_attr_fd h}" "share_fd h \<notin> fds s" "share_attr_fd h \<notin> fds s"
      "share_fd h \<noteq> share_attr_fd h" "service_handle (d_reserved_size d) h" "maps s1 = maps s" "fds_ok (fds s1)"
      "d_reserved_size d1 = d_reserved_size d"
      using eff unfolding Inr sum.case by blast+
    show ?thesis
    proof (cases "strd \<noteq> 0 \<and> strd \<noteq> d_pixel_stride d1")
      case True
      then have "r = Inl BAD_VALUE" "s' = destroy_handles (pl_os L) (h # hs) s1"
        using Suc.prems(2) one Inr by auto
      then show ?thesis
        using new Suc.prems(3-) by (auto simp: gone)
    next
      case False
      have run: "allocate_loop L n (if strd = 0 then d_pixel_stride d1 else strd) (hs @ [h]) d1 g1 s1 = Inr (r, d', g', s')"
        using Suc.prems(2) one Inr False by auto
      have "fds s1 = F \<union> set (descriptors_of (hs @ [h]))" "set (descriptors_of (hs @ [h])) \<inter> F = {}"
        "distinct (descriptors_of (hs @ [h]))"
        "\<forall>k \<in> set (hs @ [h]). service_handle (d_reserved_size d1) k"
        using new Suc.prems(3-) by auto
      note IH = Suc.IH [OF new(7) run this]
      show ?thesis
        using IH new(6,8) by (cases r) simp_all
    qed
  qed
qed

text \<open>An allocation leaves no mapping behind. When it succeeds there is one handle for each buffer, valid
  for the casts and with its region of metadata; exactly their descriptors have been opened, all new and
  all different. When it fails, with out of memory or an unusable value, every descriptor that was opened
  on the way, of the failing buffer and of those before, is closed again.\<close>

lemma allocate_resources:
  assumes "os_documented (pl_os L) fds maps" and "memory_documented (pl_mem L) fds maps" and "fds_ok (fds s)"
    and "allocate L d count g s = Inr (r, d', g', s')"
  shows "maps s' = maps s \<and>
    (case r of Inl e \<Rightarrow> fds s' = fds s \<and> (e = NO_MEMORY \<or> e = BAD_VALUE)
     | Inr hs \<Rightarrow> length hs = unat count \<and> fds s' = fds s \<union> set (descriptors_of hs) \<and>
         set (descriptors_of hs) \<inter> fds s = {} \<and> distinct (descriptors_of hs) \<and>
         (\<forall>h \<in> set hs. service_handle (d_reserved_size d) h))"
  using allocate_loop_effect [OF assms(1-3) assms(4) [unfolded allocate_def], of "fds s"]
  by (cases r) simp_all

section \<open>An allocation in the simulation\<close>

record meta_sim = sim +
  sim_meta :: "ptr \<Rightarrow> shared_metadata"

definition sim_memory :: "meta_sim metadata_memory" where
  "sim_memory = \<lparr>md_read = sim_meta, md_write = (\<lambda>s p m. s\<lparr>sim_meta := (sim_meta s)(p := m)\<rparr>)\<rparr>"

lemma sim_memory_documented: "memory_documented sim_memory sim_fds sim_maps"
  by (simp add: memory_documented_def sim_memory_def keeps_resources_def)

definition meta_start :: meta_sim where
  "meta_start = \<lparr>sim_next = 3, sim_limit = 1000, sim_fds = {}, sim_maps = {}, sim_words = (\<lambda>_. []), sim_pid = 42,
     sim_meta = (\<lambda>_. make_shared_metadata '''')\<rparr>"

definition meta_platform :: "(meta_sim, string \<rightharpoonup> string) platform" where
  "meta_platform = \<lparr>pl_cfg = rk_build, pl_os = sim_os, pl_mem = sim_memory, pl_props = map_properties,
     pl_hal = hal_sample, pl_caps = [], pl_heaps = sample_names, pl_dataspaces = (\<lambda>_. 0),
     pl_sitings = \<lparr>cs_None = \<lparr>et_name = ''none'', et_value = 0\<rparr>, cs_Unknown = \<lparr>et_name = ''unknown'', et_value = 1\<rparr>,
       cs_SitedInterstitial = \<lparr>et_name = ''si'', et_value = 2\<rparr>, cs_CositedHorizontal = \<lparr>et_name = ''ch'', et_value = 3\<rparr>\<rparr>\<rparr>"

lemma meta_platform_simps [simp]:
  "pl_cfg meta_platform = rk_build" "pl_os meta_platform = sim_os" "pl_mem meta_platform = sim_memory"
  "pl_props meta_platform = map_properties" "pl_hal meta_platform = hal_sample" "pl_caps meta_platform = []"
  "pl_heaps meta_platform = sample_names"
  by (simp_all add: meta_platform_def)

lemma meta_start_simps [simp]:
  "sim_next meta_start = 3" "sim_limit meta_start = 1000" "sim_fds meta_start = {}" "sim_maps meta_start = {}"
  by (simp_all add: meta_start_def)

definition sample_global :: "(string \<rightharpoonup> string) gralloc_state" where
  "sample_global = \<lparr>g_rk = rk_fresh, g_counter = 0\<rparr>"

lemma sim_shared_memory:
  fixes s :: "'a sim_scheme"
  assumes "sim_next s = 5" and "sim_limit s = 1000" and "sim_fds s = {3}"
  obtains s' where "gralloc_shared_memory_allocate sim_os nm n s = (5, s')" and "sim_next s' = 6"
    and "sim_limit s' = 1000" and "sim_fds s' = {3, 5}" and "sim_maps s' = sim_maps s"
proof -
  have "os_memfd_create sim_os s nm = (5, s\<lparr>sim_next := 6, sim_fds := {3, 5}\<rparr>)"
    using assms by (simp add: sim_os_def sim_open_def Let_def insert_commute)
  then have "gralloc_shared_memory_allocate sim_os nm n s = (5, s\<lparr>sim_next := 6, sim_fds := {3, 5}\<rparr>)"
    by (cases "0 < sint n") (simp_all add: gralloc_shared_memory_allocate_def, simp_all add: sim_os_def)
  then show thesis
    by (rule that) (use assms in simp_all)
qed

lemma sim_region:
  assumes "sim_next s = 6" and "sim_limit s = 1000" and "sim_maps s = {}"
  shows "\<exists>a s1. os_mmap (pl_os meta_platform) s n fd = (Inr a, s1)"
  using assms by (simp add: sim_os_def sim_mmap_def Let_def nullptr_def MAP_FAILED_def)

lemma sample_region_run:
  assumes "sample_like d"
  obtains h0 d1 g1 s1 s2 a s3 where "mali_gralloc_buffer_allocate rk_build sim_os map_properties hal_sample [] sample_names
      d sample_global meta_start = Inr (Some h0, d1, g1, s1)"
    and "gralloc_shared_memory_allocate sim_os ''gralloc_shared_memory'' (shared_metadata_size + d_reserved_size d) s1 = (5, s2)"
    and "os_mmap sim_os s2 (shared_metadata_size + d_reserved_size d) 5 = (Inr a, s3)" and "d_reserved_size d1 = d_reserved_size d"
proof -
  obtain h0 d1 g1 s1 where buf: "mali_gralloc_buffer_allocate rk_build sim_os map_properties hal_sample [] sample_names
      d \<lparr>g_rk = rk_fresh, g_counter = 0\<rparr> meta_start = Inr (Some h0, d1, g1, s1)"
    and s1: "sim_next s1 = 5" "sim_limit s1 = 1000" "sim_fds s1 = {3}" "sim_maps s1 = sim_maps meta_start"
    by (rule sample_buffer_run [OF assms, of meta_start]) simp_all
  obtain s2 where shm: "gralloc_shared_memory_allocate sim_os ''gralloc_shared_memory'' (shared_metadata_size + d_reserved_size d) s1 = (5, s2)"
    and s2: "sim_next s2 = 6" "sim_limit s2 = 1000" "sim_fds s2 = {3, 5}" "sim_maps s2 = sim_maps s1"
    by (rule sim_shared_memory [OF s1(1-3)])
  obtain a s3 where "os_mmap sim_os s2 (shared_metadata_size + d_reserved_size d) 5 = (Inr a, s3)"
    using sim_region [of s2 "shared_metadata_size + d_reserved_size d" 5] s2 s1 by auto
  then show thesis
    using that buf shm buffer_allocate_reserved [OF buf] by (simp add: sample_global_def)
qed

lemma sample_allocate_one:
  assumes "sample_like d" and "d_reserved_size d = 0"
  obtains h d' g' s' where "allocate meta_platform d 1 sample_global meta_start = Inr (Inr [h], d', g', s')"
proof -
  obtain h0 d1 g1 s1 s2 a s3 where buf: "mali_gralloc_buffer_allocate rk_build sim_os map_properties hal_sample [] sample_names
      d sample_global meta_start = Inr (Some h0, d1, g1, s1)"
    and shm: "gralloc_shared_memory_allocate sim_os ''gralloc_shared_memory'' shared_metadata_size s1 = (5, s2)"
    and map: "os_mmap sim_os s2 shared_metadata_size 5 = (Inr a, s3)" and res: "d_reserved_size d1 = 0"
    by (rule sample_region_run [OF assms(1), unfolded assms(2) add_0_right])
  let ?h = "h0\<lparr>reserved_region_size := 0, attr_size := shared_metadata_size, share_attr_fd := 5\<rparr>"
  obtain s4 where init: "init_metadata_region meta_platform ?h d1 s2 = Inr (True, s4)"
    using map by (simp add: init_metadata_region_def Let_def)
  have "\<not> sint (5 :: i32) < 0"
    by code_simp
  then have "allocate_one meta_platform d sample_global meta_start = Inr (Inr ?h, d1, g1, s4)"
    using buf shm init res by (simp add: allocate_one_def Let_def)
  then show thesis
    by (intro that) (simp add: allocate_def)
qed

section \<open>A reserved region that is too large\<close>

text \<open>The size of the region of metadata is computed modulo \<open>2 ^ 64\<close> from a reserved size that no check
  bounds. When the sum wraps around, and the region of that (small) size can be created and mapped, the
  metadata is placed into a mapping that cannot hold it: the write leaves the mapping.\<close>

theorem reserved_size_wraps:
  assumes "mali_gralloc_buffer_allocate (pl_cfg L) (pl_os L) (pl_props L) (pl_hal L) (pl_caps L) (pl_heaps L) d g s =
      Inr (Some h, d', g', s1)"
    and "2 ^ 64 \<le> unat shared_metadata_size + unat (d_reserved_size d)"
    and "gralloc_shared_memory_allocate (pl_os L) ''gralloc_shared_memory'' (shared_metadata_size + d_reserved_size d) s1 =
      (fd, s2)" and "0 \<le> sint fd"
    and "os_mmap (pl_os L) s2 (shared_metadata_size + d_reserved_size d) fd = (Inr a, s3)" and "0 < count"
  shows "allocate L d count g s = Inl Out_of_bounds"
proof -
  have "shared_metadata_size + d_reserved_size d < shared_metadata_size"
    using assms(2) unat_plus_if' [of shared_metadata_size "d_reserved_size d"] unsigned_less [of "d_reserved_size d", where 'a = nat]
    by (simp add: word_less_nat_alt)
  then have "init_metadata_region L (h\<lparr>reserved_region_size := d_reserved_size d,
      attr_size := shared_metadata_size + d_reserved_size d, share_attr_fd := fd\<rparr>) d' s2 = Inl Out_of_bounds"
    using assms(5) by (simp add: init_metadata_region_def)
  then have "allocate_one L d g s = Inl Out_of_bounds"
    using assms(1,3,4) buffer_allocate_reserved [OF assms(1)] by (simp add: allocate_one_def Let_def)
  moreover obtain n where "unat count = Suc n"
    using assms(6) by (metis not0_implies_Suc unat_0_iff word_neq_0_conv)
  ultimately show ?thesis
    by (simp add: allocate_def)
qed

theorem reserved_size_wraps_witness:
  "allocate meta_platform ((sample_request 1 GRALLOC_USAGE_SW_WRITE_OFTEN 2)\<lparr>d_reserved_size := - 1\<rparr>) 1 sample_global
     meta_start = Inl Out_of_bounds"
proof -
  let ?d = "(sample_request 1 GRALLOC_USAGE_SW_WRITE_OFTEN 2)\<lparr>d_reserved_size := - 1\<rparr>"
  obtain h0 d1 g1 s1 s2 a s3 where run: "mali_gralloc_buffer_allocate rk_build sim_os map_properties hal_sample [] sample_names
      ?d sample_global meta_start = Inr (Some h0, d1, g1, s1)"
    "gralloc_shared_memory_allocate sim_os ''gralloc_shared_memory'' (shared_metadata_size + d_reserved_size ?d) s1 = (5, s2)"
    "os_mmap sim_os s2 (shared_metadata_size + d_reserved_size ?d) 5 = (Inr a, s3)"
    by (rule sample_region_run [OF sample_like_request(1)])
  have "2 ^ 64 \<le> unat shared_metadata_size + unat (- 1 :: u64)"
    by (simp add: metadata_layout unsigned_minus_1_eq_mask mask_eq_exp_minus_1)
  moreover have "0 \<le> sint (5 :: i32)"
    by code_simp
  ultimately show ?thesis
    using reserved_size_wraps [of meta_platform ?d sample_global meta_start h0 d1 g1 s1 5 s2 a s3 1] run by simp
qed

section \<open>The front ends\<close>

text \<open>
  Both front ends decode the description, set the flags of the interface and turn the error codes of
  \<open>allocate\<close> into their own. \<open>aidl\<close> says for which interface the driver is built.
\<close>

datatype Error = ERR_NONE | ERR_BAD_DESCRIPTOR | ERR_BAD_BUFFER | ERR_BAD_VALUE | ERR_NO_RESOURCES | ERR_UNSUPPORTED

text \<open>\<open>buffer_descriptor_t\<close> with its default initialisers.\<close>

definition new_buffer_descriptor :: buffer_descriptor_t where
  "new_buffer_descriptor =
     \<lparr>d_signature = 0, d_width = 0, d_height = 0, d_producer_usage = 0, d_consumer_usage = 0, d_hal_format = 0,
      d_layer_count = 0, d_name = replicate NAME_BUFFER_SIZE CHR 0x00, d_reserved_size = 0, d_size = 0, d_pixel_stride = 0,
      d_alloc_format = internal_format_invalid, d_plane_info = no_layout, d_flags = 0\<rparr>"

text \<open>\<open>allocate\<close> has no other errors; in particular not \<open>NO_ERROR\<close>, which the switch would let through.\<close>

definition allocation_error :: "status_t \<Rightarrow> Error" where
  "allocation_error e = (if e = NO_MEMORY then ERR_NO_RESOURCES else ERR_UNSUPPORTED)"

text \<open>
  The HIDL service. \<open>cb\<close> is the callback: what the client does with an answer, which for the time of the call may
  use the handles. They are owned by the service, which destroys them when the callback has returned.
\<close>

definition hidl_allocate ::
  "('s, 'p) platform \<Rightarrow> bool \<Rightarrow> (Error \<Rightarrow> i32 \<Rightarrow> private_handle_t list \<Rightarrow> 's \<Rightarrow> 's) \<Rightarrow> u8 list \<Rightarrow> u32 \<Rightarrow> 'p gralloc_state \<Rightarrow> 's \<Rightarrow>
   ('p gralloc_state \<times> 's) res" where
  "hidl_allocate L aidl cb descriptor count g s =
     (case grallocDecodeBufferDescriptor descriptor new_buffer_descriptor of
        (False, _) \<Rightarrow> Inr (g, cb ERR_BAD_DESCRIPTOR 0 [] s)
      | (True, d0) \<Rightarrow>
          let d = d0\<lparr>d_flags := 0\<rparr>
          in if d_flags d \<noteq> DESCRIPTOR_ALLOCATOR_FLAGS aidl then Inl Check_failed
             else bind_res (allocate L d count g s) (\<lambda>(r, d', g', s').
               case r of
                 Inl e \<Rightarrow> Inr (g', cb (allocation_error e) 0 [] s')
               | Inr hs \<Rightarrow>
                   if unat count \<noteq> length hs then Inl Check_failed
                   else Inr (g', destroy_handles (pl_os L) hs (cb ERR_NONE (d_pixel_stride d') hs s'))))"

text \<open>
  The AIDL service. The count is signed, and converted for \<open>allocate\<close>; the check compares it after a conversion
  to 64 bits. The handles are given away.
\<close>

definition aidl_allocate ::
  "('s, 'p) platform \<Rightarrow> bool \<Rightarrow> u8 list \<Rightarrow> i32 \<Rightarrow> 'p gralloc_state \<Rightarrow> 's \<Rightarrow>
   ((Error + i32 \<times> private_handle_t list) \<times> 'p gralloc_state \<times> 's) res" where
  "aidl_allocate L aidl in_descriptor in_count g s =
     (case grallocDecodeBufferDescriptor in_descriptor new_buffer_descriptor of
        (False, _) \<Rightarrow> Inr (Inl ERR_BAD_DESCRIPTOR, g, s)
      | (True, d0) \<Rightarrow>
          let d = d0\<lparr>d_flags := d_flags d0 OR GPU_DATA_BUFFER_WITH_ANY_FORMAT OR SUPPORTS_R8 OR USE_AIDL_FRONTBUFFER_USAGE\<rparr>
          in if d_flags d \<noteq> DESCRIPTOR_ALLOCATOR_FLAGS aidl then Inl Check_failed
             else bind_res (allocate L d in_count g s) (\<lambda>(r, d', g', s').
               case r of
                 Inl e \<Rightarrow> Inr (Inl (allocation_error e), g', s')
               | Inr hs \<Rightarrow>
                   if (scast in_count :: u64) \<noteq> of_nat (length hs) then Inl Check_failed
                   else Inr (Inr (d_pixel_stride d', hs), g', s')))"

lemma same_extension:
  assumes "(scast x :: u64) = ucast (x :: i32)"
  shows "0 \<le> sint x"
proof -
  have "bit x 31 \<longleftrightarrow> bit (ucast x :: u64) 63"
    unfolding assms [symmetric] by (simp add: bit_simps)
  then show ?thesis
    using bit_last_iff [of x] bit_imp_le_length [of x 63] by (auto simp: bit_simps)
qed

lemma decoded_reserved:
  "grallocDecodeBufferDescriptor v b = (True, d) \<Longrightarrow>
     d_flags d = d_flags b \<and> (\<forall>f. d_reserved_size (d\<lparr>d_flags := f\<rparr>) = d_reserved_size d)"
  by (auto simp: grallocDecodeBufferDescriptor_def Let_def split: if_splits prod.splits)

lemma destroy_descriptors:
  assumes "os_documented Sys fds maps" and "fds s = F \<union> set (descriptors_of hs)" and "set (descriptors_of hs) \<inter> F = {}"
  shows "fds (destroy_handles Sys hs s) = F"
  using assms(2,3) by (auto simp: destroy_handles_effect [OF assms(1)])


text \<open>C36: What the AIDL service answers. A success gives the caller \<open>in_count\<close> valid handles, each with a region of
  metadata that holds the structure, whose descriptors are new, different and the only ones that have been
  opened; an error has opened nothing. A negative count is never a success, although \<open>allocate\<close> is called with it.\<close>

theorem aidl_answers:
  assumes "os_documented (pl_os L) fds maps" and "memory_documented (pl_mem L) fds maps" and "fds_ok (fds s)"
    and "aidl_allocate L aidl descriptor in_count g s = Inr (r, g', s')"
  shows "maps s' = maps s \<and>
    (case r of Inl e \<Rightarrow> fds s' = fds s \<and> e \<in> {ERR_BAD_DESCRIPTOR, ERR_NO_RESOURCES, ERR_UNSUPPORTED}
     | Inr (line, hs) \<Rightarrow> 0 \<le> sint in_count \<and> int (length hs) = sint in_count \<and>
         fds s' = fds s \<union> set (descriptors_of hs) \<and> set (descriptors_of hs) \<inter> fds s = {} \<and>
         distinct (descriptors_of hs) \<and> (\<exists>reserved. \<forall>h \<in> set hs. service_handle reserved h))"
proof (cases "grallocDecodeBufferDescriptor descriptor new_buffer_descriptor")
  case (Pair ok d0)
  show ?thesis
  proof (cases ok)
    case False
    then show ?thesis
      using assms(4) Pair by (auto simp: aidl_allocate_def)
  next
    case True
    let ?d = "d0\<lparr>d_flags := d_flags d0 OR GPU_DATA_BUFFER_WITH_ANY_FORMAT OR SUPPORTS_R8 OR USE_AIDL_FRONTBUFFER_USAGE\<rparr>"
    obtain q d' g1 s1 where run: "allocate L ?d in_count g s = Inr (q, d', g1, s1)"
      using assms(4) Pair True by (auto simp: aidl_allocate_def Let_def split: if_splits)
    note eff = allocate_resources [OF assms(1-3) run]
    show ?thesis
    proof (cases q)
      case (Inl e)
      then show ?thesis
        using assms(4) Pair True run eff by (auto simp: aidl_allocate_def Let_def allocation_error_def split: if_splits)
    next
      case (Inr hs)
      then have r: "r = Inr (d_pixel_stride d', hs)" "s' = s1" "(scast in_count :: u64) = of_nat (length hs)"
        using assms(4) Pair True run by (auto simp: aidl_allocate_def Let_def split: if_splits)
      have len: "length hs = unat in_count"
        using eff Inr by simp
      then have "(scast in_count :: u64) = ucast in_count"
        using r(3) by simp
      then have "0 \<le> sint in_count"
        by (rule same_extension)
      then have "int (length hs) = sint in_count"
        using sint_nonneg_iff [of in_count] by (simp add: len sint_unat)
      then show ?thesis
        using \<open>0 \<le> sint in_count\<close> eff unfolding Inr r(1,2) by (simp only: sum.case prod.case) blast
    qed
  qed
qed

section \<open>Requests to the services\<close>

definition sample_description :: BufferDescriptorInfo where
  "sample_description = \<lparr>bi_name = ''window'', bi_width = 640, bi_height = 480, bi_layerCount = 1, bi_format = 1,
     bi_usage = GRALLOC_USAGE_SW_WRITE_OFTEN, bi_reservedSize = 0\<rparr>"

lemma sample_decoded:
  obtains vec d where "grallocEncodeBufferDescriptor True sample_description = Inr vec" and "length vec = 160"
    and "grallocDecodeBufferDescriptor vec new_buffer_descriptor = (True, d)"
    and "d_flags d = 0" and "d_reserved_size d = 0" and "sample_like (d\<lparr>d_flags := fl\<rparr>)"
proof -
  obtain vec where vec: "grallocEncodeBufferDescriptor True sample_description = Inr vec"
    "grallocDecodeBufferDescriptor vec new_buffer_descriptor = (True, described sample_description new_buffer_descriptor)"
    by (rule descriptor_encoding)
  show thesis
    by (rule that [OF vec(1) _ vec(2)])
      (use vec(2) decode_length [of vec new_buffer_descriptor] sample_request_simple(5) in
        \<open>simp_all add: described_def sample_description_def new_buffer_descriptor_def sample_like_def\<close>)
qed


theorem aidl_answers_witness:
  "\<exists>vec line h g' s'. aidl_allocate meta_platform True vec 1 sample_global meta_start = Inr (Inr (line, [h]), g', s') \<and>
     sim_fds s' = {share_fd h, share_attr_fd h} \<and> sim_maps s' = {}"
proof -
  let ?f = "0 OR GPU_DATA_BUFFER_WITH_ANY_FORMAT OR SUPPORTS_R8 OR USE_AIDL_FRONTBUFFER_USAGE"
  obtain vec d where vec: "grallocDecodeBufferDescriptor vec new_buffer_descriptor = (True, d)" "d_flags d = 0"
    "d_reserved_size d = 0" "sample_like (d\<lparr>d_flags := ?f\<rparr>)"
    by (rule sample_decoded [of ?f])
  obtain h d' g' s' where run: "allocate meta_platform (d\<lparr>d_flags := ?f\<rparr>) 1 sample_global meta_start = Inr (Inr [h], d', g', s')"
    by (rule sample_allocate_one [OF vec(4)]) (simp add: vec)
  have "?f = DESCRIPTOR_ALLOCATOR_FLAGS True"
    by code_simp
  then have "aidl_allocate meta_platform True vec 1 sample_global meta_start = Inr (Inr (d_pixel_stride d', [h]), g', s')"
    using vec run by (simp add: aidl_allocate_def Let_def)
  from aidl_answers [where fds = sim_fds and maps = sim_maps, OF _ _ _ this] this
  show ?thesis
    by (intro exI [of _ vec] exI [of _ "d_pixel_stride d'"] exI [of _ h] exI [of _ g'] exI [of _ s'])
      (auto simp: sim_documented sim_memory_documented fds_ok_def)
qed

end
