(* ===== verification/Mapper_Metadata.thy ===== *)
theory Mapper_Metadata
  imports Idl_Allocator Drm_Utils "HOL-Library.Signed_Division"
begin

text \<open>
  The metadata of buffers as the mapper presents it (src/src/idl_common/mapper/mapper_metadata.cpp): the
  components and layouts of the planes, reading and writing an item of an imported buffer, and the items of
  a description that no buffer has been allocated for yet.
\<close>

section \<open>The interface of gralloc4\<close>

text \<open>The enumerations of the interface, in the order of their header; \<open>SMT_OTHER\<close> stands for any other value.\<close>

datatype StandardMetadataType =
    SMT_INVALID | SMT_BUFFER_ID | SMT_NAME | SMT_WIDTH | SMT_HEIGHT | SMT_LAYER_COUNT
  | SMT_PIXEL_FORMAT_REQUESTED | SMT_PIXEL_FORMAT_FOURCC | SMT_PIXEL_FORMAT_MODIFIER | SMT_USAGE
  | SMT_ALLOCATION_SIZE | SMT_PROTECTED_CONTENT | SMT_COMPRESSION | SMT_INTERLACED | SMT_CHROMA_SITING
  | SMT_PLANE_LAYOUTS | SMT_CROP | SMT_DATASPACE | SMT_BLEND_MODE | SMT_SMPTE2086 | SMT_CTA861_3
  | SMT_SMPTE2094_40 | SMT_SMPTE2094_10 | SMT_OTHER

datatype component_type = PLC_R | PLC_G | PLC_B | PLC_A | PLC_CB | PLC_CR | PLC_Y | PLC_RAW

type_synonym i64 = "64 word"

text \<open>A component with its offset and its size in bits.\<close>

type_synonym PlaneLayoutComponent = "component_type \<times> i64 \<times> i64"

record PlaneLayout =
  offsetInBytes :: i64
  sampleIncrementInBits :: i64
  strideInBytes :: i64
  widthInSamples :: i64
  heightInSamples :: i64
  totalSizeInBytes :: i64
  horizontalSubsampling :: i64
  verticalSubsampling :: i64
  components :: "PlaneLayoutComponent list"

record MetadataType =
  mt_name :: string
  mt_value :: i64

text \<open>The typed value of an item, which an encoder turns into bytes.\<close>

datatype metadata_value =
    V_buffer_id u64 | V_name string | V_width u64 | V_height u64 | V_layer_count u64
  | V_format_requested i32 | V_fourcc u32 | V_modifier u64 | V_usage u64 | V_allocation_size u64
  | V_protected u64 | V_compression ExtendableType | V_interlaced ExtendableType
  | V_chroma_siting ExtendableType | V_plane_layouts "PlaneLayout list" | V_crop "Rect list"
  | V_dataspace Dataspace | V_blend_mode BlendMode | V_smpte2086 "Smpte2086 option"
  | V_cta861_3 "Cta861_3 option" | V_smpte2094_40 "u8 list option" | V_smpte2094_10 "u8 list option"

text \<open>
  The library \<open>libgralloctypes\<close> is a parameter: its encoders (an error code, 0 for success, with the bytes),
  the decoders of the items that can be set, the test for its own metadata types and its constants.
\<close>

record gralloc4 =
  g4_is_standard :: "MetadataType \<Rightarrow> bool"
  g4_standard :: "i64 \<Rightarrow> StandardMetadataType"
  g4_metadata_type :: "StandardMetadataType \<Rightarrow> MetadataType"
  g4_encode :: "metadata_value \<Rightarrow> status_t \<times> u8 list"
  g4_decode_dataspace :: "u8 list \<Rightarrow> status_t + Dataspace"
  g4_decode_chroma_siting :: "u8 list \<Rightarrow> status_t + ExtendableType"
  g4_decode_blend_mode :: "u8 list \<Rightarrow> status_t + BlendMode"
  g4_decode_smpte2086 :: "u8 list \<Rightarrow> status_t + Smpte2086 option"
  g4_decode_cta861_3 :: "u8 list \<Rightarrow> status_t + Cta861_3 option"
  g4_decode_smpte2094_40 :: "u8 list \<Rightarrow> status_t + u8 list option"
  g4_decode_smpte2094_10 :: "u8 list \<Rightarrow> status_t + u8 list option"
  g4_decode_crop :: "u8 list \<Rightarrow> status_t + Rect list"
  g4_standard_siting :: string
  g4_compression_none :: ExtendableType
  g4_interlaced_none :: ExtendableType
  g4_dataspace_unknown :: Dataspace
  g4_blend_invalid :: BlendMode

section \<open>Planes and their components\<close>

definition get_num_planes :: "'a private_handle_t_scheme \<Rightarrow> nat" where
  "get_num_planes hnd =
     (if h_is_multi_plane hnd then (if plane_offset (plane_info hnd ! 2) = 0 then 2 else 3) else 1)"

definition rgb_components :: "(drm_format \<times> PlaneLayoutComponent list list) list" where
  "rgb_components =
     [(DRM_RGB565, [[(PLC_B, 0, 5), (PLC_G, 5, 6), (PLC_R, 11, 5)]]),
      (DRM_BGR565, [[(PLC_R, 0, 5), (PLC_G, 5, 6), (PLC_B, 11, 5)]]),
      (DRM_BGR888, [[(PLC_R, 0, 8), (PLC_G, 8, 8), (PLC_B, 16, 8)]]),
      (DRM_ARGB8888, [[(PLC_B, 0, 8), (PLC_G, 8, 8), (PLC_R, 16, 8), (PLC_A, 24, 8)]]),
      (DRM_ABGR8888, [[(PLC_R, 0, 8), (PLC_G, 8, 8), (PLC_B, 16, 8), (PLC_A, 24, 8)]]),
      (DRM_XBGR8888, [[(PLC_R, 0, 8), (PLC_G, 8, 8), (PLC_B, 16, 8)]]),
      (DRM_ABGR2101010, [[(PLC_R, 0, 10), (PLC_G, 10, 10), (PLC_B, 20, 10), (PLC_A, 30, 2)]]),
      (DRM_ABGR16161616F, [[(PLC_R, 0, 16), (PLC_G, 16, 16), (PLC_B, 32, 16), (PLC_A, 48, 16)]]),
      (DRM_AXBXGXRX106106106106, [[(PLC_R, 6, 10), (PLC_G, 22, 10), (PLC_B, 38, 10), (PLC_A, 54, 10)]])]"

definition packed_yuv_components :: "(drm_format \<times> PlaneLayoutComponent list list) list" where
  "packed_yuv_components =
     [(DRM_YUYV, [[(PLC_Y, 0, 8), (PLC_CB, 8, 8), (PLC_Y, 16, 8), (PLC_CR, 24, 8)]]),
      (DRM_Y410, [[(PLC_CB, 0, 10), (PLC_Y, 10, 10), (PLC_CR, 20, 10), (PLC_A, 30, 2)]]),
      (DRM_Y210, [[(PLC_Y, 6, 10), (PLC_CB, 22, 10), (PLC_Y, 38, 10), (PLC_CR, 54, 10)]]),
      (DRM_Y0L2,
        [[(PLC_Y, 0, 10), (PLC_CB, 10, 10), (PLC_Y, 20, 10), (PLC_A, 30, 1), (PLC_A, 31, 1),
          (PLC_Y, 32, 10), (PLC_CR, 42, 10), (PLC_Y, 52, 10), (PLC_A, 62, 1), (PLC_A, 63, 1)]])]"

definition planar_components :: "(drm_format \<times> PlaneLayoutComponent list list) list" where
  "planar_components =
     [(DRM_NV24, [[(PLC_Y, 0, 8)], [(PLC_CB, 0, 8), (PLC_CR, 8, 8)]]),
      (DRM_NV30, [[(PLC_Y, 0, 10)], [(PLC_CB, 0, 10), (PLC_CR, 10, 10)]]),
      (DRM_NV16, [[(PLC_Y, 0, 8)], [(PLC_CB, 0, 8), (PLC_CR, 8, 8)]]),
      (DRM_NV12, [[(PLC_Y, 0, 8)], [(PLC_CB, 0, 8), (PLC_CR, 8, 8)]]),
      (DRM_NV21, [[(PLC_Y, 0, 8)], [(PLC_CR, 0, 8), (PLC_CB, 8, 8)]]),
      (DRM_P210, [[(PLC_Y, 6, 10)], [(PLC_CB, 6, 10), (PLC_CR, 22, 10)]]),
      (DRM_P010, [[(PLC_Y, 6, 10)], [(PLC_CB, 6, 10), (PLC_CR, 22, 10)]]),
      (DRM_YVU420, [[(PLC_Y, 0, 8)], [(PLC_CR, 0, 8)], [(PLC_CB, 0, 8)]]),
      (DRM_YUV420, [[(PLC_Y, 0, 8)], [(PLC_CB, 0, 8)], [(PLC_CR, 0, 8)]]),
      (DRM_YUV444, [[(PLC_Y, 0, 8)], [(PLC_CB, 0, 8)], [(PLC_CR, 0, 8)]]),
      (DRM_YUV420_8BIT, [[]]),
      (DRM_YUV420_10BIT, [[]]),
      (DRM_R8, [[(PLC_R, 0, 8)]])]"

definition component_table :: "(drm_format \<times> PlaneLayoutComponent list list) list" where
  "component_table = rgb_components @ packed_yuv_components @ planar_components"

definition is_raw_base :: "hal_env \<Rightarrow> u32 \<Rightarrow> bool" where
  "is_raw_base H base \<longleftrightarrow> base = fmt_value H FMT_RAW10 \<or> base = fmt_value H FMT_RAW12"

definition plane_layout_components_from_handle ::
  "hal_env \<Rightarrow> drm_header \<Rightarrow> 'a private_handle_t_scheme \<Rightarrow> PlaneLayoutComponent list list" where
  "plane_layout_components_from_handle H hdr hnd =
     (let f = alloc_format hnd
      in if \<not> has_modifiers f \<and> is_raw_base H (get_base f) then [[(PLC_RAW, 0, - 1)]]
         else
           let fourcc = drm_fourcc_from_handle H hdr hnd
           in if fourcc = drm_value hdr DRM_INVALID then []
              else case map_of (map (\<lambda>(f, cs). (drm_value hdr f, cs)) component_table) fourcc of
                     Some cs \<Rightarrow> cs
                   | None \<Rightarrow> [])"

text \<open>
  The size of a plane: up to the last plane it is the offset of the next one. The size of a layer is a signed
  division of \<open>int\<close>s, widened to 64 bits.
\<close>

definition get_plane_size :: "'a private_handle_t_scheme \<Rightarrow> nat \<Rightarrow> nat \<Rightarrow> i64 res" where
  "get_plane_size hnd n i =
     (if i < n - 1 then Inr (ucast (plane_offset (plane_info hnd ! (i + 1))))
      else if layer_count hnd = 0 then Inl Division_by_zero
      else Inr (word_of_int (sint (h_size hnd) sdiv sint (layer_count hnd)) - ucast (plane_offset (plane_info hnd ! i))))"

definition get_plane_layout ::
  "hal_env \<Rightarrow> 'a private_handle_t_scheme \<Rightarrow> format_info_t \<Rightarrow> PlaneLayoutComponent list list \<Rightarrow> nat \<Rightarrow> PlaneLayout res" where
  "get_plane_layout H hnd info cs i =
     (let f = alloc_format hnd; p = plane_info hnd ! i
      in bind_res (get_plane_size hnd (get_num_planes hnd) i) (\<lambda>plane_size.
           Inr \<lparr>offsetInBytes = ucast (plane_offset p),
             sampleIncrementInBits =
               (if has_modifiers f \<or> \<not> is_raw_base H (get_base f)
                then of_nat (if is_afbc f then bpp_afbc info ! i else bpp info ! i) else 0),
             strideInBytes = ucast (byte_stride p),
             widthInSamples = ucast (alloc_width p), heightInSamples = ucast (alloc_height p),
             totalSizeInBytes = plane_size,
             horizontalSubsampling = (if i = 0 then 1 else of_nat (hsub info)),
             verticalSubsampling = (if i = 0 then 1 else of_nat (vsub info)),
             components = (if i < length cs then cs ! i else [])\<rparr>))"

primrec collect_res :: "('a \<Rightarrow> 'b res) \<Rightarrow> 'a list \<Rightarrow> 'b list res" where
  "collect_res f [] = Inr []"
| "collect_res f (x # xs) = bind_res (f x) (\<lambda>y. bind_res (collect_res f xs) (\<lambda>ys. Inr (y # ys)))"

text \<open>\<open>Inl\<close> is an error code, \<open>Inr\<close> the layouts.\<close>

definition get_plane_layouts ::
  "hal_env \<Rightarrow> drm_header \<Rightarrow> 'a private_handle_t_scheme \<Rightarrow> (status_t + PlaneLayout list) res" where
  "get_plane_layouts H hdr hnd =
     (case get_base_info H (alloc_format hnd) of
        None \<Rightarrow> Inr (Inl BAD_VALUE)
      | Some info \<Rightarrow>
          bind_res (collect_res (get_plane_layout H hnd info (plane_layout_components_from_handle H hdr hnd))
              [0..<get_num_planes hnd])
            (\<lambda>layouts. Inr (Inr layouts)))"

definition get_plane_fds :: "'a private_handle_t_scheme \<Rightarrow> i64 list" where
  "get_plane_fds hnd = replicate (get_num_planes hnd) (scast (share_fd hnd))"

text \<open>The number of descriptors and then the descriptors, each in 8 bytes.\<close>

definition encodeArmPlaneFds :: "i64 list \<Rightarrow> u8 list" where
  "encodeArmPlaneFds fds = bytes_of 8 (of_nat (length fds) :: i64) @ concat (map (bytes_of 8) fds)"

section \<open>Reading an item of a buffer\<close>

text \<open>\<open>get_metadata\<close> is given any handle. The fields of an imported handle are used only after the cast.\<close>

definition GRALLOC_ARM_METADATA_TYPE_NAME :: string where
  "GRALLOC_ARM_METADATA_TYPE_NAME = ''arm.graphics.ArmMetadataType''"

definition isArmMetadataType :: "MetadataType \<Rightarrow> bool" where
  "isArmMetadataType t \<longleftrightarrow> mt_name t = GRALLOC_ARM_METADATA_TYPE_NAME"

text \<open>\<open>ArmMetadataType::PLANE_FDS\<close>\<close>

definition PLANE_FDS :: i64 where "PLANE_FDS = 1"

definition Compression_AFBC :: ExtendableType where
  "Compression_AFBC = \<lparr>et_name = ''arm.graphics.Compression'', et_value = 0\<rparr>"
definition Compression_AFRC :: ExtendableType where
  "Compression_AFRC = \<lparr>et_name = ''arm.graphics.Compression'', et_value = 1\<rparr>"

definition compression_of :: "gralloc4 \<Rightarrow> internal_format_t \<Rightarrow> ExtendableType" where
  "compression_of G f =
     (if is_afbc f then Compression_AFBC else if is_afrc f then Compression_AFRC else g4_compression_none G)"

definition is_protected :: "'a private_handle_t_scheme \<Rightarrow> u64" where
  "is_protected hnd = (if (consumer_usage hnd OR producer_usage hnd) AND GRALLOC_USAGE_PROTECTED = 0 then 0 else 1)"

text \<open>The items that only the private part of the handle decides; any other item is \<open>None\<close>.\<close>

definition get_handle_item ::
  "hal_env \<Rightarrow> drm_header \<Rightarrow> gralloc4 \<Rightarrow> 'a private_handle_t_scheme \<Rightarrow> StandardMetadataType \<Rightarrow>
   (status_t + metadata_value) res option" where
  "get_handle_item H hdr G hnd t =
     (case t of
        SMT_BUFFER_ID \<Rightarrow> Some (Inr (Inr (V_buffer_id (backing_store_id hnd))))
      | SMT_WIDTH \<Rightarrow> Some (Inr (Inr (V_width (scast (h_width hnd)))))
      | SMT_HEIGHT \<Rightarrow> Some (Inr (Inr (V_height (scast (h_height hnd)))))
      | SMT_LAYER_COUNT \<Rightarrow> Some (Inr (Inr (V_layer_count (scast (layer_count hnd)))))
      | SMT_PIXEL_FORMAT_REQUESTED \<Rightarrow> Some (Inr (Inr (V_format_requested (req_format hnd))))
      | SMT_PIXEL_FORMAT_FOURCC \<Rightarrow> Some (Inr (Inr (V_fourcc (drm_fourcc_from_handle H hdr hnd))))
      | SMT_PIXEL_FORMAT_MODIFIER \<Rightarrow> Some (Inr (Inr (V_modifier (drm_modifier_from_handle H hnd))))
      | SMT_USAGE \<Rightarrow> Some (Inr (Inr (V_usage (consumer_usage hnd OR producer_usage hnd))))
      | SMT_ALLOCATION_SIZE \<Rightarrow> Some (Inr (Inr (V_allocation_size (scast (h_size hnd)))))
      | SMT_PROTECTED_CONTENT \<Rightarrow> Some (Inr (Inr (V_protected (is_protected hnd))))
      | SMT_COMPRESSION \<Rightarrow> Some (Inr (Inr (V_compression (compression_of G (alloc_format hnd)))))
      | SMT_INTERLACED \<Rightarrow> Some (Inr (Inr (V_interlaced (g4_interlaced_none G))))
      | SMT_PLANE_LAYOUTS \<Rightarrow> Some (bind_res (get_plane_layouts H hdr hnd) (\<lambda>r. Inr (case r of Inl e \<Rightarrow> Inl e | Inr ls \<Rightarrow> Inr (V_plane_layouts ls))))
      | _ \<Rightarrow> None)"

text \<open>The crop rectangle of plane 0 is the one that has been set, or that of the request.\<close>

definition plane_rect :: "'a private_handle_t_scheme \<Rightarrow> nat \<Rightarrow> Rect" where
  "plane_rect hnd i =
     \<lparr>r_left = 0, r_top = 0, r_right = alloc_width (plane_info hnd ! i), r_bottom = alloc_height (plane_info hnd ! i)\<rparr>"

definition crop_rects :: "'a private_handle_t_scheme \<Rightarrow> Rect option \<Rightarrow> Rect list" where
  "crop_rects hnd crop_rect =
     map (\<lambda>i. if i = 0
              then (case crop_rect of
                      Some r \<Rightarrow> r
                    | None \<Rightarrow> \<lparr>r_left = 0, r_top = 0, r_right = h_width hnd, r_bottom = h_height hnd\<rparr>)
              else plane_rect hnd i)
       [0..<get_num_planes hnd]"

definition default_chroma_siting :: "gralloc4_sitings \<Rightarrow> format_info_t \<Rightarrow> ExtendableType" where
  "default_chroma_siting K info = (if is_yuv info then cs_Unknown K else cs_None K)"

definition value_or :: "'a option \<Rightarrow> 'a \<Rightarrow> 'a" where
  "value_or x d = (case x of Some v \<Rightarrow> v | None \<Rightarrow> d)"

text \<open>The items of the shared metadata \<open>m\<close> of an imported handle. \<open>sdk33\<close> is \<open>PLATFORM_SDK_VERSION >= 33\<close>.\<close>

definition get_shared_item ::
  "hal_env \<Rightarrow> gralloc4_sitings \<Rightarrow> gralloc4 \<Rightarrow> bool \<Rightarrow> 'a private_handle_t_scheme \<Rightarrow> shared_metadata \<Rightarrow> StandardMetadataType \<Rightarrow>
   (status_t + metadata_value) res" where
  "get_shared_item H K G sdk33 hnd m t =
     (case t of
        SMT_NAME \<Rightarrow> bind_res (get_name m) (\<lambda>nm. Inr (Inr (V_name nm)))
      | SMT_CHROMA_SITING \<Rightarrow>
          (case get_base_info H (alloc_format hnd) of
             None \<Rightarrow> Inr (Inl BAD_VALUE)
           | Some info \<Rightarrow>
               Inr (Inr (V_chroma_siting (value_or (get_chroma_siting (g4_standard_siting G) m) (default_chroma_siting K info)))))
      | SMT_DATASPACE \<Rightarrow> Inr (Inr (V_dataspace (value_or (get_dataspace m) (g4_dataspace_unknown G))))
      | SMT_BLEND_MODE \<Rightarrow> Inr (Inr (V_blend_mode (value_or (get_blend_mode m) (g4_blend_invalid G))))
      | SMT_CROP \<Rightarrow> Inr (Inr (V_crop (crop_rects hnd (get_crop_rect m))))
      | SMT_SMPTE2086 \<Rightarrow> Inr (Inr (V_smpte2086 (get_smpte2086 m)))
      | SMT_CTA861_3 \<Rightarrow> Inr (Inr (V_cta861_3 (get_cta861_3 m)))
      | SMT_SMPTE2094_40 \<Rightarrow> Inr (Inr (V_smpte2094_40 (get_smpte2094_40 m)))
      | SMT_SMPTE2094_10 \<Rightarrow> if sdk33 then Inr (Inr (V_smpte2094_10 (get_smpte2094_10 m))) else Inr (Inl BAD_VALUE)
      | _ \<Rightarrow> Inr (Inl BAD_VALUE))"

text \<open>What an answer to the client is made of: the encoder runs unless there is an error already.\<close>

definition encode_answer :: "gralloc4 \<Rightarrow> status_t + metadata_value \<Rightarrow> Error \<times> u8 list" where
  "encode_answer G r =
     (case r of
        Inl e \<Rightarrow> (if e \<noteq> 0 then ERR_UNSUPPORTED else ERR_NONE, [])
      | Inr v \<Rightarrow> (case g4_encode G v of (e, bytes) \<Rightarrow> (if e \<noteq> 0 then ERR_UNSUPPORTED else ERR_NONE, bytes)))"

text \<open>The types that need an imported handle; the cast is their first step.\<close>

definition get_standard_item ::
  "('s, 'p) platform \<Rightarrow> drm_header \<Rightarrow> gralloc4 \<Rightarrow> bool \<Rightarrow> imported_handle \<Rightarrow> StandardMetadataType \<Rightarrow> 's \<Rightarrow>
   (status_t + metadata_value) res" where
  "get_standard_item L hdr G sdk33 hnd t s =
     (case get_handle_item (pl_hal L) hdr G hnd t of
        Some r \<Rightarrow> r
      | None \<Rightarrow>
          (case handle_cast imported (Some hnd) of
             None \<Rightarrow> Inr (Inl BAD_VALUE)
           | Some hi \<Rightarrow>
               get_shared_item (pl_hal L) (pl_sitings L) G sdk33 hi (md_read (pl_mem L) s (attr_base hi)) t))"

definition get_metadata ::
  "('s, 'p) platform \<Rightarrow> drm_header \<Rightarrow> gralloc4 \<Rightarrow> bool \<Rightarrow> imported_handle \<Rightarrow> MetadataType \<Rightarrow> 's \<Rightarrow> (Error \<times> u8 list) res" where
  "get_metadata L hdr G sdk33 hnd t s =
     (if g4_is_standard G t then
        bind_res (get_standard_item L hdr G sdk33 hnd (g4_standard G (mt_value t)) s) (\<lambda>r. Inr (encode_answer G r))
      else if isArmMetadataType t then
        (if mt_value t = PLANE_FDS then Inr (ERR_NONE, encodeArmPlaneFds (get_plane_fds hnd))
         else Inr (ERR_UNSUPPORTED, []))
      else Inr (ERR_UNSUPPORTED, []))"

section \<open>Writing an item of a buffer\<close>

text \<open>The types that cannot be changed after allocation, and those that can be set.\<close>

definition fixed_types :: "StandardMetadataType set" where
  "fixed_types = {SMT_BUFFER_ID, SMT_NAME, SMT_WIDTH, SMT_HEIGHT, SMT_LAYER_COUNT, SMT_PIXEL_FORMAT_REQUESTED, SMT_USAGE}"

definition settable_types :: "bool \<Rightarrow> StandardMetadataType set" where
  "settable_types sdk33 =
     {SMT_DATASPACE, SMT_CHROMA_SITING, SMT_BLEND_MODE, SMT_SMPTE2086, SMT_CTA861_3, SMT_SMPTE2094_40, SMT_CROP} \<union>
     (if sdk33 then {SMT_SMPTE2094_10} else {})"

text \<open>A decoded value is stored; an error of the decoder, or of the setter, leaves the structure as it is.\<close>

definition store_decoded ::
  "status_t + 'v \<Rightarrow> ('v \<Rightarrow> shared_metadata \<Rightarrow> (status_t \<times> shared_metadata) res) \<Rightarrow> shared_metadata \<Rightarrow>
   (status_t \<times> shared_metadata) res" where
  "store_decoded r store m = (case r of Inl e \<Rightarrow> Inr (e, m) | Inr v \<Rightarrow> store v m)"

text \<open>The first of no rectangles is read outside of the vector.\<close>

definition store_first_crop ::
  "'a private_handle_t_scheme \<Rightarrow> Rect list \<Rightarrow> shared_metadata \<Rightarrow> (status_t \<times> shared_metadata) res" where
  "store_first_crop hnd crops m = (case crops of [] \<Rightarrow> Inl Out_of_bounds | r # _ \<Rightarrow> Inr (set_crop_rect hnd r m))"

definition set_item ::
  "hal_env \<Rightarrow> gralloc4 \<Rightarrow> bool \<Rightarrow> 'a private_handle_t_scheme \<Rightarrow> StandardMetadataType \<Rightarrow> u8 list \<Rightarrow> shared_metadata \<Rightarrow>
   (status_t \<times> shared_metadata) res" where
  "set_item H G sdk33 hnd t bytes m =
     (case t of
        SMT_DATASPACE \<Rightarrow>
          store_decoded (g4_decode_dataspace G bytes)
            (\<lambda>v m. Inr (0, if v \<noteq> g4_dataspace_unknown G then set_dataspace v m else m)) m
      | SMT_CHROMA_SITING \<Rightarrow>
          (case get_base_info H (alloc_format hnd) of
             None \<Rightarrow> Inr (BAD_VALUE, m)
           | Some info \<Rightarrow>
               store_decoded (g4_decode_chroma_siting G bytes)
                 (\<lambda>v m. if is_yuv info \<and> (et_name v = g4_standard_siting G \<or> et_name v = GRALLOC_ARM_CHROMA_SITING_TYPE_NAME)
                       then Inr (0, set_chroma_siting v m) else Inr (BAD_VALUE, m)) m)
      | SMT_BLEND_MODE \<Rightarrow> store_decoded (g4_decode_blend_mode G bytes) (\<lambda>v m. Inr (0, set_blend_mode v m)) m
      | SMT_SMPTE2086 \<Rightarrow> store_decoded (g4_decode_smpte2086 G bytes) (\<lambda>v m. Inr (set_smpte2086 sdk33 v m)) m
      | SMT_CTA861_3 \<Rightarrow> store_decoded (g4_decode_cta861_3 G bytes) (\<lambda>v m. Inr (set_cta861_3 sdk33 v m)) m
      | SMT_SMPTE2094_40 \<Rightarrow> store_decoded (g4_decode_smpte2094_40 G bytes) (\<lambda>v m. Inr (set_smpte2094_40 sdk33 v m)) m
      | SMT_SMPTE2094_10 \<Rightarrow> store_decoded (g4_decode_smpte2094_10 G bytes) (\<lambda>v m. Inr (set_smpte2094_10 v m)) m
      | SMT_CROP \<Rightarrow> store_decoded (g4_decode_crop G bytes) (store_first_crop hnd) m
      | _ \<Rightarrow> Inr (BAD_VALUE, m))"

text \<open>The structure behind \<open>attr_base\<close> is written back as a whole, also when nothing of it has changed.\<close>

definition set_metadata ::
  "('s, 'p) platform \<Rightarrow> gralloc4 \<Rightarrow> bool \<Rightarrow> imported_handle \<Rightarrow> MetadataType \<Rightarrow> u8 list \<Rightarrow> 's \<Rightarrow> (Error \<times> 's) res" where
  "set_metadata L G sdk33 hnd t bytes s =
     (let st = g4_standard G (mt_value t)
      in if \<not> g4_is_standard G t then Inr (ERR_UNSUPPORTED, s)
         else if st \<in> fixed_types then Inr (ERR_BAD_VALUE, s)
         else if st \<notin> settable_types sdk33 then Inr (ERR_UNSUPPORTED, s)
         else bind_res (set_item (pl_hal L) G sdk33 hnd st bytes (md_read (pl_mem L) s (attr_base hnd))) (\<lambda>(e, m).
                Inr (if e \<noteq> 0 then ERR_UNSUPPORTED else ERR_NONE, md_write (pl_mem L) s (attr_base hnd) m)))"

section \<open>Items of a description\<close>

definition partial_handle :: "buffer_descriptor_t \<Rightarrow> private_handle_t" where
  "partial_handle d =
     \<lparr>version = sizeof_native_handle, numFds = PRIVATE_HANDLE_NUM_FDS, numInts = PRIVATE_HANDLE_NUM_INTS,
      share_fd = - 1, share_attr_fd = - 1, magic = sMagic, h_width = d_width d, h_height = d_height d,
      req_format = ucast (d_hal_format d), producer_usage = d_producer_usage d, consumer_usage = d_consumer_usage d,
      stride = d_pixel_stride d, alloc_format = d_alloc_format d, plane_info = d_plane_info d,
      h_size = ucast (d_size d), layer_count = d_layer_count d, backing_store_id = 0, attr_size = 0,
      reserved_region_size = 0, h_type = raw\<rparr>"

text \<open>The items that are answered from the description itself and not from the handle.\<close>

definition get_description_item ::
  "('s, 'p) platform \<Rightarrow> drm_header \<Rightarrow> gralloc4 \<Rightarrow> bool \<Rightarrow> BufferDescriptorInfo \<Rightarrow> private_handle_t \<Rightarrow> StandardMetadataType \<Rightarrow>
   (status_t + metadata_value) res" where
  "get_description_item L hdr G sdk33 desc hnd t =
     (case t of
        SMT_NAME \<Rightarrow> Inr (Inr (V_name (bi_name desc)))
      | SMT_WIDTH \<Rightarrow> Inr (Inr (V_width (ucast (bi_width desc))))
      | SMT_HEIGHT \<Rightarrow> Inr (Inr (V_height (ucast (bi_height desc))))
      | SMT_LAYER_COUNT \<Rightarrow> Inr (Inr (V_layer_count (ucast (bi_layerCount desc))))
      | SMT_PIXEL_FORMAT_REQUESTED \<Rightarrow> Inr (Inr (V_format_requested (bi_format desc)))
      | SMT_USAGE \<Rightarrow> Inr (Inr (V_usage (bi_usage desc)))
      | SMT_CHROMA_SITING \<Rightarrow>
          (case get_base_info (pl_hal L) (alloc_format hnd) of
             None \<Rightarrow> Inr (Inl BAD_VALUE)
           | Some info \<Rightarrow> Inr (Inr (V_chroma_siting (default_chroma_siting (pl_sitings L) info))))
      | SMT_DATASPACE \<Rightarrow>
          Inr (Inr (V_dataspace (get_format_dataspace (pl_dataspaces L) (get_base_info (pl_hal L) (alloc_format hnd))
            (consumer_usage hnd OR producer_usage hnd) (h_width hnd) (h_height hnd))))
      | SMT_BLEND_MODE \<Rightarrow> Inr (Inr (V_blend_mode (g4_blend_invalid G)))
      | SMT_CROP \<Rightarrow> Inr (Inr (V_crop (crop_rects hnd None)))
      | SMT_SMPTE2086 \<Rightarrow> Inr (Inr (V_smpte2086 None))
      | SMT_CTA861_3 \<Rightarrow> Inr (Inr (V_cta861_3 None))
      | SMT_SMPTE2094_40 \<Rightarrow> Inr (Inr (V_smpte2094_40 None))
      | SMT_SMPTE2094_10 \<Rightarrow> if sdk33 then Inr (Inr (V_smpte2094_10 None)) else Inr (Inl BAD_VALUE)
      | SMT_BUFFER_ID \<Rightarrow> Inr (Inl BAD_VALUE)
      | _ \<Rightarrow> (case get_handle_item (pl_hal L) hdr G hnd t of Some r \<Rightarrow> r | None \<Rightarrow> Inr (Inl BAD_VALUE)))"

text \<open>No flags are set in this descriptor, whatever the allocator is built for.\<close>

definition queried_descriptor :: "BufferDescriptorInfo \<Rightarrow> buffer_descriptor_t" where
  "queried_descriptor desc =
     new_buffer_descriptor\<lparr>d_width := bi_width desc, d_height := bi_height desc, d_layer_count := bi_layerCount desc,
       d_hal_format := scast (bi_format desc), d_producer_usage := bi_usage desc, d_consumer_usage := bi_usage desc\<rparr>"

definition getFromBufferDescriptorInfo ::
  "('s, 'p) platform \<Rightarrow> drm_header \<Rightarrow> gralloc4 \<Rightarrow> bool \<Rightarrow> BufferDescriptorInfo \<Rightarrow> MetadataType \<Rightarrow> 'p rk_state \<Rightarrow>
   ((Error \<times> u8 list) \<times> 'p rk_state) res" where
  "getFromBufferDescriptorInfo L hdr G sdk33 desc t st =
     bind_res (mali_gralloc_derive_format_and_size (pl_cfg L) (pl_props L) (pl_hal L) (pl_caps L) (queried_descriptor desc) st)
       (\<lambda>(err, d, st1).
          if err \<noteq> 0 then Inr ((ERR_BAD_VALUE, []), st1)
          else if g4_is_standard G t then
            bind_res (get_description_item L hdr G sdk33 desc (partial_handle d) (g4_standard G (mt_value t)))
              (\<lambda>r. Inr (encode_answer G r, st1))
          else Inr ((ERR_UNSUPPORTED, []), st1))"

section \<open>Layouts of the planes\<close>

lemma collect_res_Inr:
  "collect_res f xs = Inr ys \<Longrightarrow> length ys = length xs \<and> (\<forall>i < length xs. f (xs ! i) = Inr (ys ! i))"
proof (induction xs arbitrary: ys)
  case (Cons x xs)
  then obtain y zs where "ys = y # zs" "f x = Inr y" "collect_res f xs = Inr zs"
    by auto
  with Cons.IH [of zs] show ?case
    by (auto simp: nth_Cons split: nat.splits)
qed simp

lemma num_planes_cases: "get_num_planes hnd = 1 \<or> get_num_planes hnd = 2 \<or> get_num_planes hnd = 3"
  by (simp add: get_num_planes_def)

text \<open>The size of one layer, as the code computes it.\<close>

definition layer_bytes :: "'a private_handle_t_scheme \<Rightarrow> i64" where
  "layer_bytes hnd = word_of_int (sint (h_size hnd) sdiv sint (layer_count hnd))"

lemma get_plane_layout_fields:
  assumes "get_plane_layout H hnd info cs i = Inr l"
  shows "offsetInBytes l = ucast (plane_offset (plane_info hnd ! i))"
    and "strideInBytes l = ucast (byte_stride (plane_info hnd ! i))"
    and "get_plane_size hnd (get_num_planes hnd) i = Inr (totalSizeInBytes l)"
  using assms by (auto simp: get_plane_layout_def Let_def)

lemma plane_layoutsD:
  assumes "get_plane_layouts H hdr hnd = Inr (Inr ls)"
  shows "length ls = get_num_planes hnd" "layer_count hnd \<noteq> 0"
    and "i < length ls \<Longrightarrow> offsetInBytes (ls ! i) = ucast (plane_offset (plane_info hnd ! i))"
    and "i < length ls \<Longrightarrow> strideInBytes (ls ! i) = ucast (byte_stride (plane_info hnd ! i))"
    and "i < length ls \<Longrightarrow> totalSizeInBytes (ls ! i) =
      (if i + 1 < length ls then ucast (plane_offset (plane_info hnd ! (i + 1)))
       else layer_bytes hnd - ucast (plane_offset (plane_info hnd ! i)))"
proof -
  obtain info where info: "get_base_info H (alloc_format hnd) = Some info"
    using assms by (auto simp: get_plane_layouts_def split: option.splits)
  define cs where "cs = plane_layout_components_from_handle H hdr hnd"
  have col: "collect_res (get_plane_layout H hnd info cs) [0..<get_num_planes hnd] = Inr ls"
    using assms info by (auto simp: get_plane_layouts_def cs_def)
  show len: "length ls = get_num_planes hnd"
    using collect_res_Inr [OF col] by simp
  have one: "get_plane_layout H hnd info cs i = Inr (ls ! i)" if "i < length ls" for i
    using collect_res_Inr [OF col] that len by simp
  have pos: "0 < length ls"
    using len num_planes_cases [of hnd] by auto
  then have last: "get_plane_layout H hnd info cs (length ls - 1) = Inr (ls ! (length ls - 1))"
    by (intro one) simp
  then show "layer_count hnd \<noteq> 0"
    using get_plane_layout_fields(3) [OF last] pos len by (auto simp: get_plane_size_def)
  show "offsetInBytes (ls ! i) = ucast (plane_offset (plane_info hnd ! i))"
    "strideInBytes (ls ! i) = ucast (byte_stride (plane_info hnd ! i))" if "i < length ls"
    using get_plane_layout_fields [OF one [OF that]] by simp_all
  show "totalSizeInBytes (ls ! i) =
      (if i + 1 < length ls then ucast (plane_offset (plane_info hnd ! (i + 1)))
       else layer_bytes hnd - ucast (plane_offset (plane_info hnd ! i)))" if "i < length ls"
    using get_plane_layout_fields(3) [OF one [OF that]] that len
    by (auto simp: get_plane_size_def layer_bytes_def split: if_splits)
qed

text \<open>The layouts that are reported of the planes. There is one for each plane, with its offset and stride. For one
  and two planes the sizes add up to the size of a layer; with three planes they add up to more: the middle
  plane is reported with the offset of the third plane as its size, so that its range runs past the start of
  the third plane by its own offset.\<close>

theorem plane_layout_sizes:
  assumes "get_plane_layouts H hdr hnd = Inr (Inr ls)" and "plane_offset (plane_info hnd ! 0) = 0"
  shows "length ls = get_num_planes hnd \<and>
    (\<forall>i < length ls. offsetInBytes (ls ! i) = ucast (plane_offset (plane_info hnd ! i)) \<and>
       strideInBytes (ls ! i) = ucast (byte_stride (plane_info hnd ! i))) \<and>
    sum_list (map totalSizeInBytes ls) = layer_bytes hnd + (if length ls = 3 then offsetInBytes (ls ! 1) else 0) \<and>
    (length ls = 3 \<longrightarrow>
       offsetInBytes (ls ! 1) + totalSizeInBytes (ls ! 1) = offsetInBytes (ls ! 2) + offsetInBytes (ls ! 1))"
proof -
  note D = plane_layoutsD [OF assms(1)]
  have "length ls = 1 \<or> length ls = 2 \<or> length ls = 3"
    using num_planes_cases [of hnd] D(1) by simp
  then have "sum_list (map totalSizeInBytes ls) = layer_bytes hnd + (if length ls = 3 then offsetInBytes (ls ! 1) else 0) \<and>
    (length ls = 3 \<longrightarrow>
       offsetInBytes (ls ! 1) + totalSizeInBytes (ls ! 1) = offsetInBytes (ls ! 2) + offsetInBytes (ls ! 1))"
  proof (elim disjE)
    assume n: "length ls = 1"
    then obtain a where "ls = [a]"
      by (auto simp: length_Suc_conv)
    then show ?thesis
      using D(5) [of 0] assms(2) by simp
  next
    assume n: "length ls = 2"
    then obtain a b where "ls = [a, b]"
      by (auto simp: numeral_2_eq_2 length_Suc_conv)
    then show ?thesis
      using D(5) [of 0] D(5) [of 1] by simp
  next
    assume n: "length ls = 3"
    then obtain a b c where "ls = [a, b, c]"
      by (auto simp: numeral_3_eq_3 length_Suc_conv)
    then show ?thesis
      using D(5) [of 0] D(5) [of 1] D(5) [of 2] D(3) [of 1] D(3) [of 2] by (simp add: numeral_2_eq_2)
  qed
  then show ?thesis
    using D(1,3,4) by simp
qed

section \<open>Setting an item and getting it back\<close>

text \<open>What is documented of the codec: decoding what has been encoded gives the value back.\<close>

definition codec_documented :: "gralloc4 \<Rightarrow> bool" where
  "codec_documented G \<longleftrightarrow> (\<forall>bytes.
     (\<forall>v. g4_encode G (V_dataspace v) = (0, bytes) \<longrightarrow> g4_decode_dataspace G bytes = Inr v) \<and>
     (\<forall>v. g4_encode G (V_chroma_siting v) = (0, bytes) \<longrightarrow> g4_decode_chroma_siting G bytes = Inr v) \<and>
     (\<forall>v. g4_encode G (V_blend_mode v) = (0, bytes) \<longrightarrow> g4_decode_blend_mode G bytes = Inr v) \<and>
     (\<forall>v. g4_encode G (V_smpte2086 v) = (0, bytes) \<longrightarrow> g4_decode_smpte2086 G bytes = Inr v) \<and>
     (\<forall>v. g4_encode G (V_cta861_3 v) = (0, bytes) \<longrightarrow> g4_decode_cta861_3 G bytes = Inr v) \<and>
     (\<forall>v. g4_encode G (V_crop v) = (0, bytes) \<longrightarrow> g4_decode_crop G bytes = Inr v))"

lemma codecD:
  assumes "codec_documented G"
  shows "g4_encode G (V_dataspace v1) = (0, bytes) \<Longrightarrow> g4_decode_dataspace G bytes = Inr v1"
    and "g4_encode G (V_chroma_siting v2) = (0, bytes) \<Longrightarrow> g4_decode_chroma_siting G bytes = Inr v2"
    and "g4_encode G (V_blend_mode v3) = (0, bytes) \<Longrightarrow> g4_decode_blend_mode G bytes = Inr v3"
    and "g4_encode G (V_smpte2086 v4) = (0, bytes) \<Longrightarrow> g4_decode_smpte2086 G bytes = Inr v4"
    and "g4_encode G (V_cta861_3 v5) = (0, bytes) \<Longrightarrow> g4_decode_cta861_3 G bytes = Inr v5"
    and "g4_encode G (V_crop v6) = (0, bytes) \<Longrightarrow> g4_decode_crop G bytes = Inr v6"
  using assms by (simp_all add: codec_documented_def)

text \<open>The items that behave as registers, and what is read of them after a value has been accepted.\<close>

definition register_type :: "metadata_value \<Rightarrow> StandardMetadataType option" where
  "register_type v =
     (case v of
        V_dataspace _ \<Rightarrow> Some SMT_DATASPACE | V_chroma_siting _ \<Rightarrow> Some SMT_CHROMA_SITING
      | V_blend_mode _ \<Rightarrow> Some SMT_BLEND_MODE | V_smpte2086 _ \<Rightarrow> Some SMT_SMPTE2086
      | V_cta861_3 _ \<Rightarrow> Some SMT_CTA861_3 | V_crop _ \<Rightarrow> Some SMT_CROP | _ \<Rightarrow> None)"

definition stored_value ::
  "gralloc4 \<Rightarrow> 'a private_handle_t_scheme \<Rightarrow> shared_metadata \<Rightarrow> metadata_value \<Rightarrow> metadata_value" where
  "stored_value G hnd m v =
     (case v of
        V_dataspace d \<Rightarrow>
          V_dataspace (if d = g4_dataspace_unknown G then value_or (get_dataspace m) (g4_dataspace_unknown G) else d)
      | V_chroma_siting c \<Rightarrow> V_chroma_siting (shown_siting (g4_standard_siting G) c)
      | V_crop rs \<Rightarrow> V_crop (crop_rects hnd (Some (hd rs)))
      | _ \<Rightarrow> v)"

lemma set_item_stores:
  assumes "codec_documented G" and "register_type v = Some ty" and "g4_encode G v = (0, bytes)"
    and "set_item H G sdk33 hnd ty bytes m = Inr (0, m')"
  shows "get_shared_item H K G sdk33 hnd m' ty = Inr (Inr (stored_value G hnd m v))"
proof (cases v)
  case (V_dataspace d)
  then show ?thesis
    using assms codecD(1) [OF assms(1)] dataspace_item.get_set
    by (auto simp: register_type_def set_item_def store_decoded_def get_shared_item_def stored_value_def value_or_def
        split: if_splits)
next
  case (V_chroma_siting c)
  then obtain info where "get_base_info H (alloc_format hnd) = Some info"
    using assms by (auto simp: register_type_def set_item_def BAD_VALUE_def EINVAL_def split: option.splits)
  then show ?thesis
    using V_chroma_siting assms codecD(2) [OF assms(1)] siting_item.get_set
    by (auto simp: register_type_def set_item_def store_decoded_def get_shared_item_def stored_value_def value_or_def
        BAD_VALUE_def EINVAL_def split: if_splits)
next
  case (V_blend_mode b)
  then show ?thesis
    using assms codecD(3) [OF assms(1)] blend_item.get_set
    by (auto simp: register_type_def set_item_def store_decoded_def get_shared_item_def stored_value_def value_or_def)
next
  case (V_smpte2086 x)
  then have "set_smpte2086 sdk33 x m = (0, m')" and ty: "ty = SMT_SMPTE2086"
    using assms codecD(4) [OF assms(1)] by (auto simp: register_type_def set_item_def store_decoded_def)
  then have "get_smpte2086 m' = x"
    using smpte2086_item.set_accepts [of sdk33 x m] smpte2086_item.get_set [of x sdk33 m] by (simp add: android_OK_def)
  then show ?thesis
    using V_smpte2086 ty by (simp add: get_shared_item_def stored_value_def)
next
  case (V_cta861_3 x)
  then have "set_cta861_3 sdk33 x m = (0, m')" and ty: "ty = SMT_CTA861_3"
    using assms codecD(5) [OF assms(1)] by (auto simp: register_type_def set_item_def store_decoded_def)
  then have "get_cta861_3 m' = x"
    using cta861_3_item.set_accepts [of sdk33 x m] cta861_3_item.get_set [of x sdk33 m] by (simp add: android_OK_def)
  then show ?thesis
    using V_cta861_3 ty by (simp add: get_shared_item_def stored_value_def)
next
  case (V_crop rs)
  then obtain r rest where rs: "rs = r # rest" and set: "set_crop_rect hnd r m = (0, m')" and ty: "ty = SMT_CROP"
    using assms codecD(6) [OF assms(1)]
    by (cases rs) (auto simp: register_type_def set_item_def store_decoded_def store_first_crop_def)
  then have "get_crop_rect m' = Some r"
    using crop_item.set_accepts [of hnd r m] crop_item.get_set [of hnd r m] by (simp add: android_OK_def)
  then show ?thesis
    using V_crop ty rs by (simp add: get_shared_item_def stored_value_def)
qed (use assms(2) in \<open>simp_all add: register_type_def\<close>)

lemma register_types:
  "register_type v = Some ty \<Longrightarrow>
     ty \<notin> fixed_types \<and> ty \<in> settable_types sdk33 \<and> get_handle_item H hdr G hnd ty = None"
  by (cases v) (auto simp: register_type_def fixed_types_def settable_types_def get_handle_item_def)


section \<open>Refused changes\<close>

lemma set_item_refused: "set_item H G sdk33 hnd ty bytes m = Inr (e, m') \<Longrightarrow> e \<noteq> 0 \<Longrightarrow> m' = m"
  by (cases ty)
    (auto simp: set_item_def store_decoded_def store_first_crop_def set_crop_rect_def set_smpte2086_def set_cta861_3_def
      set_smpte2094_40_def set_smpte2094_10_def android_OK_def split: sum.splits option.splits list.splits if_splits)


section \<open>A description and the buffer made from it\<close>

text \<open>The handle of a buffer that has been allocated for the descriptor \<open>d\<close>.\<close>

definition handle_of :: "buffer_descriptor_t \<Rightarrow> 'a private_handle_t_scheme \<Rightarrow> bool" where
  "handle_of d hnd \<longleftrightarrow> h_width hnd = d_width d \<and> h_height hnd = d_height d \<and> layer_count hnd = d_layer_count d \<and>
     req_format hnd = ucast (d_hal_format d) \<and> producer_usage hnd = d_producer_usage d \<and>
     consumer_usage hnd = d_consumer_usage d \<and> alloc_format hnd = d_alloc_format d \<and>
     plane_info hnd = d_plane_info d \<and> h_size hnd = ucast (d_size d)"

lemma partial_handle_of: "handle_of d (partial_handle d)"
  by (simp add: handle_of_def partial_handle_def)

text \<open>The items of the handle, but for the identifier, depend on nothing else.\<close>

lemma same_fields:
  fixes g :: "'a private_handle_t_scheme" and h :: "'b private_handle_t_scheme"
  assumes "handle_of d g" and "handle_of d h"
  shows "alloc_format g = alloc_format h" "plane_info g = plane_info h" "h_size g = h_size h"
    "layer_count g = layer_count h" "h_is_multi_plane g = h_is_multi_plane h" "get_num_planes g = get_num_planes h"
  using assms by (simp_all add: handle_of_def get_num_planes_def h_is_multi_plane_def)

lemma same_modifier:
  fixes g :: "'a private_handle_t_scheme" and h :: "'b private_handle_t_scheme"
  assumes "handle_of d g" and "handle_of d h"
  shows "drm_modifier_from_handle H g = drm_modifier_from_handle H h"
    and "drm_fourcc_from_handle H hdr g = drm_fourcc_from_handle H hdr h"
  unfolding drm_fourcc_from_handle_def drm_modifier_from_handle_def get_afbc_modifier_tags_def
    get_afrc_modifier_tags_def afbc_block_size_def same_fields [OF assms] by (rule refl)+

lemma same_layouts:
  fixes g :: "'a private_handle_t_scheme" and h :: "'b private_handle_t_scheme"
  assumes "handle_of d g" and "handle_of d h"
  shows "get_plane_layouts H hdr g = get_plane_layouts H hdr h"
  unfolding get_plane_layouts_def get_plane_layout_def [abs_def] get_plane_size_def
    plane_layout_components_from_handle_def same_fields [OF assms] same_modifier [OF assms] by (rule refl)

lemma same_items:
  fixes g :: "'a private_handle_t_scheme" and h :: "'b private_handle_t_scheme"
  assumes "handle_of d g" and "handle_of d h" and "t \<noteq> SMT_BUFFER_ID"
  shows "get_handle_item H hdr G g t = get_handle_item H hdr G h t"
proof -
  have "h_width g = h_width h" "h_height g = h_height h" "layer_count g = layer_count h" "req_format g = req_format h"
    "producer_usage g = producer_usage h" "consumer_usage g = consumer_usage h" "h_size g = h_size h"
    "alloc_format g = alloc_format h" "is_protected g = is_protected h"
    using assms(1,2) by (simp_all add: handle_of_def is_protected_def)
  then show ?thesis
    using assms(3) same_layouts [OF assms(1,2), of H hdr] same_modifier [OF assms(1,2)]
    by (cases t) (simp_all add: get_handle_item_def)
qed

lemma derived_request_fields:
  assumes "mali_gralloc_derive_format_and_size cfg P H E d st = Inr (r, d', st')"
  shows "d_width d' = d_width d" "d_height d' = d_height d" "d_layer_count d' = d_layer_count d"
    "d_hal_format d' = d_hal_format d" "d_producer_usage d' = d_producer_usage d" "d_consumer_usage d' = d_consumer_usage d"
proof -
  have "\<exists>f p x l. d' = d\<lparr>d_alloc_format := f, d_pixel_stride := p, d_size := x, d_plane_info := l\<rparr>"
    using assms
  proof (cases rule: derive_cases)
    case (rejected f)
    have "d' = d\<lparr>d_alloc_format := f, d_pixel_stride := d_pixel_stride d, d_size := d_size d, d_plane_info := d_plane_info d\<rparr>"
      using rejected by simp
    then show ?thesis
      by blast
  next
    case (derived f info a w h s d1)
    obtain x where d1: "d1 = (d\<lparr>d_alloc_format := f, d_pixel_stride := as_pixel_stride s,
        d_size := as_total s, d_plane_info := as_layout s\<rparr>)\<lparr>d_size := x\<rparr>"
      using adjust_for_rk_video_frame [OF derived(9)] by blast
    obtain y where "d' = d1\<lparr>d_size := y\<rparr>"
      using size_all_layers_frame [of d1] derived(10) by blast
    then have "d' = d\<lparr>d_alloc_format := f, d_pixel_stride := as_pixel_stride s, d_size := y, d_plane_info := as_layout s\<rparr>"
      using d1 by simp
    then show ?thesis
      by blast
  qed
  then show "d_width d' = d_width d" "d_height d' = d_height d" "d_layer_count d' = d_layer_count d"
    "d_hal_format d' = d_hal_format d" "d_producer_usage d' = d_producer_usage d" "d_consumer_usage d' = d_consumer_usage d"
    by auto
qed

text \<open>The items that a description decides.\<close>

definition described_types :: "StandardMetadataType set" where
  "described_types = {SMT_WIDTH, SMT_HEIGHT, SMT_LAYER_COUNT, SMT_PIXEL_FORMAT_REQUESTED, SMT_PIXEL_FORMAT_FOURCC,
     SMT_PIXEL_FORMAT_MODIFIER, SMT_USAGE, SMT_ALLOCATION_SIZE, SMT_PROTECTED_CONTENT, SMT_COMPRESSION, SMT_INTERLACED,
     SMT_PLANE_LAYOUTS}"

lemma scast_ucast_small: "x < 2 ^ 31 \<Longrightarrow> (scast (x :: u32) :: u64) = ucast x"
proof -
  assume "x < 2 ^ 31"
  then have "\<not> bit x 31"
    using bit_last_iff [of x] sint_nonneg_iff [of x] by (simp add: word_less_nat_alt)
  then have "bit x (min n 31) \<longleftrightarrow> bit x n" if "n < 64" for n
    using bit_imp_le_length [of x n] by (cases "n < 31") (auto simp: min_def le_less)
  then show ?thesis
    by (intro bit_word_eqI) (auto simp: bit_simps min.commute [of 31])
qed


section \<open>Components and bits\<close>

text \<open>
  The planes and bits per pixel of the linear formats whose components are in the table. A plane with several luma
  components describes that many pixels at once.
\<close>

definition component_bits :: "(mali_gralloc_pixel_format \<times> nat \<times> nat list) list" where
  "component_bits =
     [(FMT_RGBA_8888, 1, [32]), (FMT_BGRA_8888, 1, [32]), (FMT_RGB_565, 1, [16]), (FMT_RGBX_8888, 1, [32]),
      (FMT_RGB_888, 1, [24]), (FMT_RGBA_1010102, 1, [32]), (FMT_RGBA_16161616, 1, [64]), (FMT_RGBA_10101010, 1, [64]),
      (FMT_YV12, 3, [8, 8, 8]), (FMT_YU12, 3, [8, 8, 8]), (FMT_NV12, 2, [8, 16]), (FMT_NV30, 3, [10, 20, 0]),
      (FMT_NV16, 2, [8, 16]), (FMT_NV24, 2, [8, 16]), (FMT_NV21, 2, [8, 16]), (FMT_Y0L2, 1, [16]), (FMT_Y210, 1, [32]),
      (FMT_P010, 2, [16, 32]), (FMT_P210, 2, [16, 32]), (FMT_Y410, 1, [32]), (FMT_YUV422_8BIT, 1, [16]),
      (FMT_R8, 1, [8]), (FMT_STENCIL_8, 1, [8]), (FMT_DEPTH_16, 1, [16]), (FMT_DEPTH_24, 1, [24]),
      (FMT_DEPTH_24_STENCIL_8, 1, [32]), (FMT_DEPTH_32F, 1, [32]), (FMT_DEPTH_32F_STENCIL_8, 1, [40])]"

definition luma_count :: "PlaneLayoutComponent list \<Rightarrow> nat" where
  "luma_count cs = length (filter (\<lambda>(c, _). c = PLC_Y) cs)"

text \<open>Components in ascending order, without overlap, from bit \<open>lo\<close> up to bit \<open>hi\<close>.\<close>

fun packed_between :: "nat \<Rightarrow> nat \<Rightarrow> PlaneLayoutComponent list \<Rightarrow> bool" where
  "packed_between lo hi [] = (lo \<le> hi)"
| "packed_between lo hi ((c, off, sz) # cs) = (lo \<le> unat off \<and> 0 < unat sz \<and> packed_between (unat off + unat sz) hi cs)"

definition components_ok :: "nat \<Rightarrow> nat list \<Rightarrow> PlaneLayoutComponent list list \<Rightarrow> bool" where
  "components_ok n bits css \<longleftrightarrow> length css \<le> n \<and>
     list_all (\<lambda>p. packed_between 0 (max 1 (luma_count (css ! p)) * bits ! p) (css ! p)) [0..<length css]"

lemma component_table_ok:
  "list_all (\<lambda>(f, d, _). case map_of component_table d of
     None \<Rightarrow> True
   | Some css \<Rightarrow> css = [[]] \<or> f = FMT_YUV444 \<or>
       (case map_of component_bits f of None \<Rightarrow> False | Some (n, bits) \<Rightarrow> length css \<le> length bits \<and> components_ok n bits css)) drm_rows"
  by code_simp

definition bits_row :: "hal_env \<Rightarrow> format_info_t \<Rightarrow> bool" where
  "bits_row H f \<longleftrightarrow>
     (fi_id f = fmt_value H FMT_YUV444 \<longrightarrow> \<not> linear f) \<and>
     list_all (\<lambda>(g, n, bits). fi_id f = fmt_value H g \<longrightarrow> npln f = n \<and> take (length bits) (bpp f) = bits) component_bits"

lemma bits_row_groups:
  assumes "hal_documented H"
  shows "list_all (bits_row H) (formats_rgb H)" "list_all (bits_row H) (formats_yuv420 H)"
    "list_all (bits_row H) (formats_yuv422_444 H)" "list_all (bits_row H) (formats_yuv_10bit H)"
    "list_all (bits_row H) (formats_raw H)" "list_all (bits_row H) (formats_depth H)"
  by (simp_all add: formats_defs bits_row_def component_bits_def fmt_value_inj [OF assms] numeral_2_eq_2 numeral_3_eq_3)

lemma component_lookup:
  assumes "drm_documented hdr"
  shows "map_of (map (\<lambda>(f, cs). (drm_value hdr f, cs)) component_table) (drm_value hdr d) = map_of component_table d"
proof -
  have inj: "inj (drm_value hdr)"
    using assms by (simp add: drm_documented_def)
  have "distinct (map fst component_table)"
    by (simp add: component_table_def rgb_components_def packed_yuv_components_def planar_components_def)
  note dist = this
  show ?thesis
  proof (cases "map_of component_table d")
    case None
    then have "d \<notin> fst ` set component_table"
      using map_of_eq_None_iff [of component_table d] by blast
    then show ?thesis
      using map_of_rows_None [OF inj, of d component_table] None by simp
  next
    case (Some cs)
    then show ?thesis
      using map_of_rows_inj [OF inj map_of_SomeD [OF Some] dist] by simp
  qed
qed

lemma components_of_format:
  assumes "drm_documented hdr" and "\<not> is_afbc (alloc_format hnd)" and "\<not> is_raw_base H (get_base (alloc_format hnd))"
    and "drm_find H (get_base (alloc_format hnd)) = map_of drm_rows g"
  shows "plane_layout_components_from_handle H hdr hnd =
    (case map_of drm_rows g of
       None \<Rightarrow> []
     | Some (d, _) \<Rightarrow> (case map_of component_table d of Some css \<Rightarrow> css | None \<Rightarrow> []))"
proof (cases "map_of drm_rows g")
  case None
  then show ?thesis
    using assms by (simp add: plane_layout_components_from_handle_def drm_fourcc_from_handle_def Let_def)
next
  case (Some r)
  obtain d c where r: "r = (d, c)"
    by fastforce
  then have "d \<noteq> DRM_INVALID"
    using drm_rows_not_invalid [of g d c] Some by simp
  then have "drm_value hdr d \<noteq> drm_value hdr DRM_INVALID"
    using assms(1) unfolding drm_documented_def by (metis injD)
  then show ?thesis
    using assms Some r component_lookup [OF assms(1), of d]
    by (simp add: plane_layout_components_from_handle_def drm_fourcc_from_handle_def Let_def)
qed


section \<open>Samples\<close>

text \<open>A codec for two of the items.\<close>

definition sample_gralloc4 :: gralloc4 where
  "sample_gralloc4 =
     \<lparr>g4_is_standard = (\<lambda>t. mt_name t = ''standard''),
      g4_standard = (\<lambda>v. if v = 1 then SMT_WIDTH else if v = 2 then SMT_BLEND_MODE else SMT_OTHER),
      g4_metadata_type = (\<lambda>t. \<lparr>mt_name = ''standard'', mt_value = (if t = SMT_WIDTH then 1 else if t = SMT_BLEND_MODE then 2 else 3)\<rparr>),
      g4_encode = (\<lambda>v. case v of V_width w \<Rightarrow> (0, bytes_of 8 w) | V_blend_mode b \<Rightarrow> (0, bytes_of 4 b) | _ \<Rightarrow> (BAD_VALUE, [])),
      g4_decode_dataspace = (\<lambda>_. Inl BAD_VALUE), g4_decode_chroma_siting = (\<lambda>_. Inl BAD_VALUE),
      g4_decode_blend_mode = (\<lambda>bytes. if length bytes = 4 then Inr (of_bytes bytes) else Inl BAD_VALUE),
      g4_decode_smpte2086 = (\<lambda>_. Inl BAD_VALUE), g4_decode_cta861_3 = (\<lambda>_. Inl BAD_VALUE),
      g4_decode_smpte2094_40 = (\<lambda>_. Inl BAD_VALUE), g4_decode_smpte2094_10 = (\<lambda>_. Inl BAD_VALUE),
      g4_decode_crop = (\<lambda>_. Inl BAD_VALUE), g4_standard_siting = ''siting'',
      g4_compression_none = \<lparr>et_name = ''compression'', et_value = 0\<rparr>,
      g4_interlaced_none = \<lparr>et_name = ''interlaced'', et_value = 0\<rparr>, g4_dataspace_unknown = 0, g4_blend_invalid = 0\<rparr>"

definition sample_type :: "i64 \<Rightarrow> MetadataType" where
  "sample_type v = \<lparr>mt_name = ''standard'', mt_value = v\<rparr>"

lemma sample_codec_documented: "codec_documented sample_gralloc4"
  using of_bytes_of [of 4, where 'a = 32] status_distinct
  by (simp add: codec_documented_def sample_gralloc4_def take_bit_word_eq_self BAD_VALUE_def EINVAL_def)

lemma sample_types [simp]:
  "g4_is_standard sample_gralloc4 (sample_type v)" "g4_standard sample_gralloc4 1 = SMT_WIDTH"
  "g4_standard sample_gralloc4 2 = SMT_BLEND_MODE" "mt_value (sample_type v) = v"
  "g4_encode sample_gralloc4 (V_blend_mode b) = (0, bytes_of 4 b)" "g4_encode sample_gralloc4 (V_width w) = (0, bytes_of 8 w)"
  by (simp_all add: sample_gralloc4_def sample_type_def)

lemma sample_set_blend:
  obtains s' where "set_metadata meta_platform sample_gralloc4 sdk33 hnd (sample_type 2) (bytes_of 4 (b :: i32)) s = Inr (ERR_NONE, s')"
proof -
  have "g4_decode_blend_mode sample_gralloc4 (bytes_of 4 b) = Inr b"
    using codecD(3) [OF sample_codec_documented] by simp
  then show thesis
    by (intro that) (simp add: set_metadata_def fixed_types_def settable_types_def set_item_def store_decoded_def Let_def)
qed




definition sample_three_planes :: private_handle_t where
  "sample_three_planes = sample_handle\<lparr>alloc_format := from_private (fmt_value hal_sample FMT_YV12), h_size := 460800,
     layer_count := 1,
     plane_info := [\<lparr>plane_offset = 0, byte_stride = 640, alloc_width = 640, alloc_height = 480\<rparr>,
       \<lparr>plane_offset = 307200, byte_stride = 320, alloc_width = 320, alloc_height = 240\<rparr>,
       \<lparr>plane_offset = 384000, byte_stride = 320, alloc_width = 320, alloc_height = 240\<rparr>]\<rparr>"

lemma sample_three_simps [simp]:
  "alloc_format sample_three_planes = from_private (fmt_value hal_sample FMT_YV12)"
  "get_num_planes sample_three_planes = 3" "plane_offset (plane_info sample_three_planes ! 0) = 0"
  "layer_count sample_three_planes = 1"
  by (simp_all add: sample_three_planes_def get_num_planes_def h_is_multi_plane_def)

lemma sample_planar_row:
  obtains info where "get_base_info hal_sample (from_private (fmt_value hal_sample FMT_YV12)) = Some info" and "linear info"
    and "get_base (from_private (fmt_value hal_sample FMT_YV12)) = fmt_value hal_sample FMT_YV12"
proof -
  have base: "get_base (from_private (fmt_value hal_sample FMT_YV12)) = fmt_value hal_sample FMT_YV12"
    by code_simp
  have "get_base_info hal_sample (from_private (fmt_value hal_sample FMT_YV12)) \<noteq> None"
    by (simp add: get_base_info_def base get_format_info_None_iff table_formats_def)
  then obtain info where info: "get_base_info hal_sample (from_private (fmt_value hal_sample FMT_YV12)) = Some info"
    by blast
  then have "info \<in> set (formats hal_sample) \<and> fi_id info = fmt_value hal_sample FMT_YV12"
    using get_format_info_SomeD base by (auto simp: get_base_info_def)
  then have "linear info"
    by (auto simp: formats_defs fmt_value_inj [OF hal_documented_sample])
  with info base show thesis
    by (intro that)
qed

lemma collect_res_total: "(\<And>x. x \<in> set xs \<Longrightarrow> \<exists>y. f x = Inr y) \<Longrightarrow> \<exists>ys. collect_res f xs = Inr ys"
proof (induction xs)
  case (Cons x xs)
  then obtain y ys where "f x = Inr y" "collect_res f xs = Inr ys"
    by fastforce
  then show ?case
    by simp
qed simp

lemma plane_layouts_total:
  assumes "get_base_info H (alloc_format hnd) = Some info" and "layer_count hnd \<noteq> 0"
  shows "\<exists>ls. get_plane_layouts H hdr hnd = Inr (Inr ls)"
proof -
  have "\<exists>l. get_plane_layout H hnd info cs i = Inr l" for cs i
    using assms(2) by (cases "i < get_num_planes hnd - 1") (simp_all add: get_plane_layout_def get_plane_size_def Let_def)
  then obtain ls where "collect_res (get_plane_layout H hnd info (plane_layout_components_from_handle H hdr hnd))
      [0..<get_num_planes hnd] = Inr ls"
    using collect_res_total by metis
  then show ?thesis
    using assms(1) by (simp add: get_plane_layouts_def)
qed

theorem plane_layout_sizes_witness:
  "\<exists>ls. get_plane_layouts hal_sample sample_header sample_three_planes = Inr (Inr ls) \<and> length ls = 3 \<and>
     offsetInBytes (ls ! 1) + totalSizeInBytes (ls ! 1) = offsetInBytes (ls ! 2) + offsetInBytes (ls ! 1)"
proof -
  obtain info where "get_base_info hal_sample (from_private (fmt_value hal_sample FMT_YV12)) = Some info"
    by (rule sample_planar_row)
  then obtain ls where ls: "get_plane_layouts hal_sample sample_header sample_three_planes = Inr (Inr ls)"
    using plane_layouts_total [of hal_sample sample_three_planes info sample_header] by auto
  then show ?thesis
    using plane_layout_sizes [OF ls] by auto
qed


end
