(* ===== verification/Plane_Fds.thy ===== *)
theory Plane_Fds
  imports Mapper_Metadata
begin

text \<open>
  The consumer of the plane descriptors in the display composer (src/drm_hwcomposer/BufferInfoMapperMetadata.cpp):
  decoding the vector that \<open>encodeArmPlaneFds\<close> writes, and storing the descriptors of a buffer object.
\<close>

section \<open>Decoding\<close>

text \<open>The largest size of a \<open>std::vector<int64_t>\<close>; a greater one makes \<open>resize\<close> throw.\<close>

definition max_vector_size :: nat where "max_vector_size = 2 ^ 60 - 1"

fun int64s_of :: "nat \<Rightarrow> u8 list \<Rightarrow> i64 list" where
  "int64s_of 0 bytes = []"
| "int64s_of (Suc n) bytes = of_bytes (take 8 bytes) # int64s_of n (drop 8 bytes)"

text \<open>
  The size of the descriptors is a product modulo \<open>2 ^ 64\<close>. If it wraps around, the vector cannot have that many
  elements.
\<close>

definition DecodePlaneFds :: "u8 list \<Rightarrow> (status_t + i64 list) res" where
  "DecodePlaneFds input =
     (if length input < 8 then Inr (Inl BAD_VALUE)
      else
        let n = (of_bytes (take 8 input) :: i64); fds_size = n * 8
        in if sint n < 0 then Inr (Inl BAD_VALUE)
           else if of_nat (length input - 8) < fds_size then Inr (Inl BAD_VALUE)
           else if max_vector_size < unat n then Inl Uncaught_exception
           else Inr (Inr (int64s_of (unat n) (drop 8 input))))"

section \<open>Storing\<close>

text \<open>
  \<open>fds\<close> are stored from index \<open>i\<close> on into the array \<open>prime_fds\<close> of the composer, which has a fixed size.
  The loop stops at the first descriptor that is not positive or too large; the ones before stay stored.
\<close>

primrec store_fds :: "i64 list \<Rightarrow> nat \<Rightarrow> u32 list \<Rightarrow> (status_t \<times> u32 list) res" where
  "store_fds [] i prime_fds = Inr (0, prime_fds)"
| "store_fds (fd # fds) i prime_fds =
     (if sint fd \<le> 0 \<or> 2 ^ 32 - 1 < sint fd then Inr (BAD_VALUE, prime_fds)
      else if length prime_fds \<le> i then Inl Out_of_bounds
      else store_fds fds (i + 1) (prime_fds[i := ucast fd]))"

text \<open>The answer of the mapper is the argument.\<close>

definition GetFds :: "Error \<times> u8 list \<Rightarrow> u32 list \<Rightarrow> (status_t \<times> u32 list) res" where
  "GetFds answer prime_fds =
     (if fst answer \<noteq> ERR_NONE then Inr (BAD_VALUE, prime_fds)
      else bind_res (DecodePlaneFds (snd answer)) (\<lambda>r.
        case r of
          Inl e \<Rightarrow> Inr (e, prime_fds)
        | Inr fds \<Rightarrow> if fds = [] then Inr (BAD_VALUE, prime_fds) else store_fds fds 0 prime_fds))"

section \<open>Round trip\<close>

lemma of_bytes_int64 [simp]: "of_bytes (bytes_of 8 (x :: 64 word)) = x"
  using of_bytes_of [of 8, where 'a = 64] by (simp add: take_bit_word_eq_self)

lemma int64s_of_bytes: "int64s_of (length fds) (concat (map (bytes_of 8) fds)) = fds"
  by (induction fds) simp_all

lemma length_int64_bytes: "length (concat (map (bytes_of 8) (fds :: i64 list))) = 8 * length fds"
  by (induction fds) simp_all

lemma decode_encoded:
  assumes "length fds \<le> max_vector_size"
  shows "DecodePlaneFds (encodeArmPlaneFds fds) = Inr (Inr fds)"
proof -
  let ?n = "of_nat (length fds) :: i64"
  have small: "length fds < 1152921504606846976"
    using assms by (simp add: max_vector_size_def)
  then have n: "unat ?n = length fds"
    by (intro of_nat_inverse [OF refl]) simp
  have "sint ?n = int (length fds)"
    using small by (simp add: signed_of_nat signed_take_bit_int_eq_self)
  moreover have "\<not> 8 * ?n < ?n * 8"
    by (simp add: mult.commute)
  ultimately show ?thesis
    using assms by (simp add: DecodePlaneFds_def encodeArmPlaneFds_def Let_def length_int64_bytes int64s_of_bytes n)
qed


lemma store_same_fd:
  assumes "0 < sint fd" and "sint fd \<le> 2 ^ 32 - 1" and "i + n \<le> length ps"
  shows "store_fds (replicate n fd) i ps = Inr (0, take i ps @ replicate n (ucast fd) @ drop (i + n) ps)"
  using assms(3)
proof (induction n arbitrary: i ps)
  case (Suc n)
  then have "store_fds (replicate n fd) (i + 1) (ps[i := ucast fd]) =
      Inr (0, take (i + 1) (ps[i := ucast fd]) @ replicate n (ucast fd) @ drop (i + 1 + n) (ps[i := ucast fd]))"
    by (intro Suc.IH) simp
  moreover have "take (i + 1) (ps[i := ucast fd]) = take i ps @ [ucast fd]"
    using Suc.prems by (simp add: take_Suc_conv_app_nth)
  ultimately show ?case
    using Suc.prems assms(1,2) by simp
qed simp

text \<open>C26: The descriptors of a buffer arrive. The composer asks for the plane descriptors of a buffer, in an array
  with room for three: it gets the descriptor of the buffer once for each plane, and the rest of the array
  as it was, if the descriptor is positive; descriptor 0, which is a valid one, is taken for invalid.\<close>

theorem plane_fds_delivered:
  assumes "\<not> g4_is_standard G t" and "isArmMetadataType t" and "mt_value t = PLANE_FDS" and "3 \<le> length prime_fds"
  shows "\<exists>answer. get_metadata L hdr G sdk33 hnd t s = Inr answer \<and>
    GetFds answer prime_fds =
      Inr (if 0 < sint (share_fd hnd)
           then (0, replicate (get_num_planes hnd) (share_fd hnd) @ drop (get_num_planes hnd) prime_fds)
           else (BAD_VALUE, prime_fds))"
proof -
  let ?n = "get_num_planes hnd" and ?fd = "scast (share_fd hnd) :: i64"
  have n: "?n = 1 \<or> ?n = 2 \<or> ?n = 3"
    by (simp add: get_num_planes_def)
  have "?n \<le> max_vector_size"
    using n by (auto simp: max_vector_size_def)
  then have dec: "DecodePlaneFds (encodeArmPlaneFds (get_plane_fds hnd)) = Inr (Inr (replicate ?n ?fd))"
    using decode_encoded [of "get_plane_fds hnd"] by (simp add: get_plane_fds_def)
  have fd: "sint ?fd = sint (share_fd hnd)"
    by (intro sint_up_scast) (simp add: is_up)
  have "ucast ?fd = share_fd hnd"
    by (rule bit_word_eqI) (auto simp: bit_simps)
  note fd = fd this
  have get: "get_metadata L hdr G sdk33 hnd t s = Inr (ERR_NONE, encodeArmPlaneFds (get_plane_fds hnd))"
    using assms(1-3) by (simp add: get_metadata_def)
  show ?thesis
  proof (cases "0 < sint (share_fd hnd)")
    case True
    have "sint ?fd \<le> 2 ^ 32 - 1"
      using sint_lt [of "share_fd hnd"] by (simp add: fd)
    then have "store_fds (replicate ?n ?fd) 0 prime_fds = Inr (0, replicate ?n (share_fd hnd) @ drop ?n prime_fds)"
      using store_same_fd [of ?fd 0 ?n prime_fds] True n assms(4) by (auto simp: fd)
    then show ?thesis
      using n dec get True by (auto simp: GetFds_def)
  next
    case False
    then have "store_fds (replicate ?n ?fd) 0 prime_fds = Inr (BAD_VALUE, prime_fds)"
      using n by (auto simp: fd numeral_2_eq_2 numeral_3_eq_3)
    then show ?thesis
      using n dec get False by (auto simp: GetFds_def)
  qed
qed

section \<open>All inputs\<close>

lemma sint_negative: "sint (x :: i64) < 0 \<longleftrightarrow> 2 ^ 63 \<le> unat x"
proof -
  have "unat x < 2 ^ 64"
    using unsigned_less [of x, where ?'a = nat] by simp
  then have "unat x div 2 ^ 63 = (if 2 ^ 63 \<le> unat x then 1 else 0)"
    by (auto simp: div_eq_0_iff intro: div_nat_eqI simp del: of_nat_unat)
  then have "bit (unat x) 63 \<longleftrightarrow> 2 ^ 63 \<le> unat x"
    by (simp add: bit_iff_odd)
  then show ?thesis
    using bit_last_iff [of x] by (simp add: bit_unsigned_iff)
qed

lemma of_nat_less_wrapped:
  assumes "k < 2 ^ 32"
  shows "(of_nat k :: i64) < x * 8 \<longleftrightarrow> k < 8 * unat x mod 2 ^ 64"
proof -
  have "unat (of_nat k :: i64) = k"
    using assms by (intro of_nat_inverse [OF refl]) simp
  moreover have "unat (x * 8) = 8 * unat x mod 2 ^ 64"
    by (simp add: unat_word_ariths mult.commute)
  ultimately show ?thesis
    by (simp add: word_less_nat_alt)
qed

text \<open>C39: Every input has one of three outcomes. With \<open>n\<close> the number that its first 8 bytes hold: the decoded
  descriptors if they are all there; an uncaught exception if \<open>n\<close> is between \<open>2 ^ 61\<close> and \<open>2 ^ 63\<close> and the size, which wraps
  around, seems to be there; and otherwise a bad value. So no read leaves the vector, but eight bytes
  are enough to abort the composer.\<close>

theorem decode_outcomes:
  assumes "length input < 2 ^ 32"
  shows "DecodePlaneFds input =
    (let n = unat (of_bytes (take 8 input) :: i64)
     in if 8 + 8 * n \<le> length input then Inr (Inr (int64s_of n (drop 8 input)))
        else if 8 \<le> length input \<and> 2 ^ 61 \<le> n \<and> n < 2 ^ 63 \<and> 8 + 8 * n mod 2 ^ 64 \<le> length input
        then Inl Uncaught_exception
        else Inr (Inl BAD_VALUE))"
proof -
  define x where "x = (of_bytes (take 8 input) :: i64)"
  define n where "n = unat x"
  have dec: "DecodePlaneFds input =
      (if length input < 8 \<or> 2 ^ 63 \<le> n \<or> length input - 8 < 8 * n mod 2 ^ 64 then Inr (Inl BAD_VALUE)
       else if 2 ^ 60 - 1 < n then Inl Uncaught_exception else Inr (Inr (int64s_of n (drop 8 input))))"
  proof (cases "length input < 8")
    case False
    define k where "k = length input - 8"
    have "(of_nat k :: i64) < x * 8 \<longleftrightarrow> k < 8 * n mod 2 ^ 64"
      unfolding n_def using assms by (intro of_nat_less_wrapped) (simp add: k_def)
    then show ?thesis
      unfolding k_def [symmetric] DecodePlaneFds_def x_def [symmetric] n_def [symmetric] Let_def
      using False by (simp add: sint_negative n_def max_vector_size_def)
  qed (simp add: DecodePlaneFds_def)
  have wrap: "8 * n mod 2 ^ 64 = 8 * n" if "n < 2 ^ 61"
    using that by simp
  consider "n < 2 ^ 60" | "2 ^ 60 \<le> n" "n < 2 ^ 61" | "2 ^ 61 \<le> n" "n < 2 ^ 63" | "2 ^ 63 \<le> n"
    by linarith
  then show ?thesis
    unfolding x_def [symmetric] n_def [symmetric] Let_def
    using wrap assms by cases (auto simp: dec)
qed

section \<open>Samples\<close>

definition plane_fds_type :: MetadataType where
  "plane_fds_type = \<lparr>mt_name = GRALLOC_ARM_METADATA_TYPE_NAME, mt_value = PLANE_FDS\<rparr>"

theorem plane_fds_delivered_witness:
  "\<exists>answer. get_metadata meta_platform sample_header sample_gralloc4 False sample_imported plane_fds_type meta_start = Inr answer \<and>
     GetFds answer [0, 0, 0, 0] = Inr (0, [4, 0, 0, 0])"
proof -
  have t: "\<not> g4_is_standard sample_gralloc4 plane_fds_type" "isArmMetadataType plane_fds_type"
    "mt_value plane_fds_type = PLANE_FDS"
    by (simp_all add: plane_fds_type_def sample_gralloc4_def isArmMetadataType_def GRALLOC_ARM_METADATA_TYPE_NAME_def)
  have n: "get_num_planes sample_imported = 1"
    by (simp add: get_num_planes_def h_is_multi_plane_def sample_planes_def no_plane_def)
  have "0 < sint (4 :: i32)"
    by code_simp
  then show ?thesis
    using plane_fds_delivered [OF t, of "[0, 0, 0, 0]" meta_platform sample_header False sample_imported meta_start] n by simp
qed

theorem decode_outcomes_witness:
  "DecodePlaneFds [0, 0, 0, 0, 0, 0, 0, 0x20] = Inl Uncaught_exception"
proof -
  have "(of_bytes (take 8 [0, 0, 0, 0, 0, 0, 0, 0x20]) :: i64) = 0x2000000000000000"
    by code_simp
  then show ?thesis
    using decode_outcomes [of "[0, 0, 0, 0, 0, 0, 0, 0x20]"] by (simp add: Let_def)
qed

end
