(* ===== verification/Handle_Pool.thy ===== *)
theory Handle_Pool
  imports Main
begin

text \<open>
  The registry of imported handles (src/src/idl_common/mapper/registered_handle_pool.cpp). What its clients may
  rely on is the locale \<open>handle_registry\<close>; \<open>RegisteredHandlePool\<close> is its interpretation.
\<close>

section \<open>The contract\<close>

datatype 'k registry_op = Reg_add 'k | Reg_remove 'k

locale handle_registry =
  fixes empty :: 'r
    and add :: "'k \<Rightarrow> 'r \<Rightarrow> bool \<times> 'r"
    and remove :: "'k \<Rightarrow> 'r \<Rightarrow> 'k option \<times> 'r"
    and get :: "'k \<Rightarrow> 'r \<Rightarrow> 'k option"
    and inv :: "'r \<Rightarrow> bool"
  assumes inv_empty: "inv empty"
    and inv_add: "inv r \<Longrightarrow> inv (snd (add k r))"
    and inv_remove: "inv r \<Longrightarrow> inv (snd (remove k r))"
    and get_empty: "get k empty = None"
    and get_same: "get k r = Some j \<Longrightarrow> j = k"
    and add_new: "inv r \<Longrightarrow> fst (add k r) \<longleftrightarrow> get k r = None"
    and get_add: "inv r \<Longrightarrow> get j (snd (add k r)) = (if j = k then Some k else get j r)"
    and remove_result: "inv r \<Longrightarrow> fst (remove k r) = get k r"
    and get_remove: "inv r \<Longrightarrow> get j (snd (remove k r)) = (if j = k then None else get j r)"
begin

text \<open>A sequence of operations, and the keys that it leaves registered.\<close>

primrec apply_op :: "'k registry_op \<Rightarrow> 'r \<Rightarrow> 'r" where
  "apply_op (Reg_add k) r = snd (add k r)"
| "apply_op (Reg_remove k) r = snd (remove k r)"

primrec op_set :: "'k registry_op \<Rightarrow> 'k set \<Rightarrow> 'k set" where
  "op_set (Reg_add k) K = insert k K"
| "op_set (Reg_remove k) K = K - {k}"

lemma inv_apply: "inv r \<Longrightarrow> inv (fold apply_op ops r)"
proof (induction ops arbitrary: r)
  case (Cons x ops)
  then show ?case by (cases x) (simp_all add: inv_add inv_remove)
qed simp

lemma refines_set:
  "inv r \<Longrightarrow> {k. get k r \<noteq> None} = K \<Longrightarrow>
   {k. get k (fold apply_op ops r) \<noteq> None} = fold op_set ops K"
proof (induction ops arbitrary: r K)
  case (Cons x ops)
  have "inv (apply_op x r)"
    using Cons.prems(1) by (cases x) (simp_all add: inv_add inv_remove)
  moreover have "{k. get k (apply_op x r) \<noteq> None} = op_set x K"
    using Cons.prems by (cases x) (auto simp: get_add get_remove)
  ultimately show ?case
    using Cons.IH [of "apply_op x r" "op_set x K"] by simp
qed simp

lemma registered_after: "{k. get k (fold apply_op ops empty) \<noteq> None} = fold op_set ops {}"
  by (rule refines_set) (simp_all add: inv_empty get_empty)

lemma removed_once:
  "inv r \<Longrightarrow> fst (remove k (snd (remove k r))) = None"
  by (simp add: remove_result inv_remove get_remove)

end

section \<open>RegisteredHandlePool\<close>

text \<open>
  The set of pointers is a list without repetitions; its order stands for the unspecified
  iteration order of \<open>unordered_set\<close>. \<open>None\<close> is \<open>nullptr\<close>. The mutex makes every operation atomic.
\<close>

definition pool_add :: "'k \<Rightarrow> 'k list \<Rightarrow> bool \<times> 'k list" where
  "pool_add k pool = (if k \<in> set pool then (False, pool) else (True, k # pool))"

definition pool_remove :: "'k \<Rightarrow> 'k list \<Rightarrow> 'k option \<times> 'k list" where
  "pool_remove k pool = (if k \<in> set pool then (Some k, remove1 k pool) else (None, pool))"

definition pool_get :: "'k \<Rightarrow> 'k list \<Rightarrow> 'k option" where
  "pool_get k pool = (if k \<in> set pool then Some k else None)"

definition pool_for_each :: "('k \<Rightarrow> 'a \<Rightarrow> 'a) \<Rightarrow> 'k list \<Rightarrow> 'a \<Rightarrow> 'a" where
  "pool_for_each f pool = fold f pool"

lemma pool_get_remove:
  "distinct pool \<Longrightarrow> pool_get j (snd (pool_remove k pool)) = (if j = k then None else pool_get j pool)"
proof (cases "k \<in> set pool")
  case True
  assume "distinct pool"
  then have "set (remove1 k pool) = set pool - {k}"
    by (rule set_remove1_eq)
  then show ?thesis
    using True by (cases "j = k") (simp_all add: pool_get_def pool_remove_def)
next
  case False
  then show ?thesis
    by (cases "j = k") (simp_all add: pool_get_def pool_remove_def)
qed

lemma pool_get_add: "pool_get j (snd (pool_add k pool)) = (if j = k then Some k else pool_get j pool)"
  by (simp add: pool_get_def pool_add_def)

lemma pool_distinct:
  "distinct pool \<Longrightarrow> distinct (snd (pool_add k pool))"
  "distinct pool \<Longrightarrow> distinct (snd (pool_remove k pool))"
  by (simp_all add: pool_add_def pool_remove_def distinct_remove1)

lemma pool_results:
  "fst (pool_add k pool) \<longleftrightarrow> pool_get k pool = None"
  "fst (pool_remove k pool) = pool_get k pool"
  by (simp_all add: pool_add_def pool_remove_def pool_get_def)

lemma pool_get_same: "pool_get k pool = Some j \<Longrightarrow> j = k"
  by (simp add: pool_get_def split: if_split_asm)

interpretation pool: handle_registry "[]" pool_add pool_remove pool_get distinct
proof (unfold_locales, goal_cases)
  case 1
  then show ?case by simp
next
  case (2 r k)
  then show ?case by (rule pool_distinct(1))
next
  case (3 r k)
  then show ?case by (rule pool_distinct(2))
next
  case (4 k)
  then show ?case by (simp add: pool_get_def)
next
  case (5 k r j)
  then show ?case by (rule pool_get_same)
next
  case (6 r k)
  then show ?case by (simp only: pool_results)
next
  case (7 r j k)
  show ?case by (rule pool_get_add)
next
  case (8 r k)
  then show ?case by (simp only: pool_results)
next
  case (9 r j k)
  then show ?case by (rule pool_get_remove)
qed

text \<open>After any sequence of additions and removals the pool holds exactly the handles that
  the sequence, read as insertions into and deletions from a set, leaves; and a handle can be removed
  only once.\<close>

theorem pool_is_a_set:
  "{k. pool_get k (fold pool.apply_op ops []) \<noteq> None} = fold pool.op_set ops {} \<and>
   fst (pool_remove k (snd (pool_remove k (fold pool.apply_op ops [])))) = None"
  by (intro conjI pool.registered_after pool.removed_once pool.inv_apply) simp

end
