(* ===== verification/Mapper.thy ===== *)
theory Mapper
  imports Mapper_Metadata Handle_Pool "HOL-Library.Disjoint_Sets" "HOL-Library.Multiset"
begin

text \<open>
  The mapper (src/src/idl_common/mapper/mapper.cpp) and its HIDL front end (src/src/4.x/mapper/mapper.cpp): importing
  and freeing buffers, locking and unlocking them through the interface, validation, and the access to metadata.
\<close>

section \<open>State\<close>

text \<open>
  The registered handles, the native handles in the memory of the process, and the system. The fields of
  the imported part of a raw handle have no meaning. What a callback is given is part of the results.
\<close>

record 's mapper_state =
  mp_pool :: "ptr list"
  mp_handles :: "ptr \<Rightarrow> imported_handle option"
  mp_os :: 's

text \<open>\<open>handle_cast<imported_handle>(gRegisteredHandles->get(buffer))\<close>\<close>

definition registered :: "'s mapper_state \<Rightarrow> ptr \<Rightarrow> imported_handle option" where
  "registered m p =
     (case pool_get p (mp_pool m) of
        None \<Rightarrow> None
      | Some q \<Rightarrow> handle_cast imported (mp_handles m q))"

section \<open>Fences\<close>

text \<open>A fence handle is \<open>None\<close> for no handle, or the list of its descriptors.\<close>

type_synonym fence = "i32 list option"

definition getFenceFd :: "fence \<Rightarrow> i32 option" where
  "getFenceFd f =
     (case f of
        None \<Rightarrow> Some (- 1)
      | Some fds \<Rightarrow> if 1 < length fds then None else Some (if length fds = 1 then fds ! 0 else - 1))"

definition getFenceHandle :: "i32 \<Rightarrow> fence" where
  "getFenceHandle fenceFd = (if 0 \<le> sint fenceFd then Some [fenceFd] else None)"

section \<open>Import and free\<close>

text \<open>
  A handle is in memory of its own until it has been registered; every early return deletes it, and with it its
  descriptors. A failure to register also removes the mapping, first.
\<close>

definition importBuffer ::
  "('s, 'p) platform \<Rightarrow> 'a private_handle_t_scheme option \<Rightarrow> 's mapper_state \<Rightarrow>
   ((Error \<times> ptr option) \<times> 's mapper_state) res" where
  "importBuffer L raw_handle m =
     (let Sys = pl_os L; nd = cfg_ndebug (pl_cfg L)
      in case handle_cast raw raw_handle of
           None \<Rightarrow> Inr ((ERR_BAD_BUFFER, None), m)
         | Some private_handle \<Rightarrow>
             (case make_imported_handle Sys private_handle (mp_os m) of
                (None, s1) \<Rightarrow> Inr ((ERR_NO_RESOURCES, None), m\<lparr>mp_os := s1\<rparr>)
              | (Some (p, h), s1) \<Rightarrow>
                  (case os_mmap Sys s1 (attr_size h) (share_attr_fd h) of
                     (Inl _, s2) \<Rightarrow>
                       Inr ((ERR_NO_RESOURCES, None),
                            m\<lparr>mp_os := native_handle_deleter Sys [share_fd h, share_attr_fd h] s2\<rparr>)
                   | (Inr a, s2) \<Rightarrow>
                       let h1 = h\<lparr>attr_base := a, import_pid := os_getpid Sys s2, h_base := nullptr, cpu_write := 0\<rparr>
                       in case pool_add p (mp_pool m) of
                            (False, _) \<Rightarrow>
                              Inr ((ERR_NO_RESOURCES, None),
                                   m\<lparr>mp_os := native_handle_deleter Sys [share_fd h1, share_attr_fd h1]
                                        (snd (os_munmap Sys s2 a (attr_size h1)))\<rparr>)
                          | (True, pool) \<Rightarrow>
                              bind_res (c_assert nd (numFds h1 = PRIVATE_HANDLE_NUM_FDS)) (\<lambda>_.
                              bind_res (c_assert nd (numInts h1 = PRIVATE_HANDLE_NUM_INTS)) (\<lambda>_.
                                Inr ((ERR_NONE, Some p),
                                     m\<lparr>mp_pool := pool, mp_handles := (mp_handles m)(p \<mapsto> h1), mp_os := s2\<rparr>))))))"

text \<open>
  A handle that was imported by another process (before a fork) is only deleted. The deleter closes what
  \<open>share_fd\<close> and \<open>share_attr_fd\<close> hold at the end.
\<close>

definition freeBuffer ::
  "('s, 'p) platform \<Rightarrow> ptr \<Rightarrow> 's mapper_state \<Rightarrow> Error \<times> 's mapper_state" where
  "freeBuffer L p m =
     (let Sys = pl_os L
      in case pool_remove p (mp_pool m) of
           (None, pool) \<Rightarrow> (ERR_BAD_BUFFER, m\<lparr>mp_pool := pool\<rparr>)
         | (Some q, pool) \<Rightarrow>
             (case handle_cast imported (mp_handles m q) of
                None \<Rightarrow> (ERR_BAD_BUFFER, m\<lparr>mp_pool := pool\<rparr>)
              | Some h \<Rightarrow>
                  let s1 = (if import_pid h = os_getpid Sys (mp_os m)
                            then (case mali_unmap_buffer Sys h (mp_os m) of
                                    (h1, s) \<Rightarrow> os_close Sys (snd (os_munmap Sys s (attr_base h1) (attr_size h1))) (share_attr_fd h1))
                            else mp_os m)
                  in (ERR_NONE,
                      m\<lparr>mp_pool := pool, mp_handles := (mp_handles m)(q := None),
                        mp_os := native_handle_deleter Sys [share_fd h, - 1] s1\<rparr>)))"

section \<open>Locking\<close>

text \<open>Waiting for the fence has no other effect than that.\<close>

type_synonym region = "i32 \<times> i32 \<times> i32 \<times> i32"

definition CPU_WRITE_MASK :: u64 where "CPU_WRITE_MASK = 0xf0"

definition lockBuffer ::
  "('s, 'p) platform \<Rightarrow> imported_handle option \<Rightarrow> u64 \<Rightarrow> region \<Rightarrow> i32 \<Rightarrow> 's \<Rightarrow>
   Error \<times> ptr \<times> imported_handle option \<times> 's" where
  "lockBuffer L buffer cpuUsage accessRegion fenceFd s =
     (case handle_cast imported buffer of
        None \<Rightarrow> (ERR_BAD_BUFFER, nullptr, buffer, s)
      | Some h \<Rightarrow>
          if cpu_write h \<noteq> 0 \<and> cpuUsage AND CPU_WRITE_MASK \<noteq> 0 \<and>
             get_base (alloc_format h) \<noteq> fmt_value (pl_hal L) FMT_BLOB
          then (ERR_BAD_BUFFER, nullptr, buffer, s)
          else
            (case accessRegion of (l, t, w, ht) \<Rightarrow>
               (case mali_gralloc_lock (pl_os L) (pl_hal L) h cpuUsage l t w ht True s of
                  (result, data, h1, s1) \<Rightarrow>
                    if result \<noteq> 0 then
                      (if result = GRALLOC1_ERROR_UNSUPPORTED then ERR_BAD_BUFFER
                       else if result = - EINVAL then ERR_BAD_VALUE else ERR_NO_RESOURCES, nullptr, Some h1, s1)
                    else (ERR_NONE, value_or data nullptr, Some h1, s1))))"

definition lock ::
  "('s, 'p) platform \<Rightarrow> ptr \<Rightarrow> u64 \<Rightarrow> region \<Rightarrow> fence \<Rightarrow> 's mapper_state \<Rightarrow> (Error \<times> ptr) \<times> 's mapper_state" where
  "lock L p cpuUsage accessRegion acquireFence m =
     (case registered m p of
        None \<Rightarrow> ((ERR_BAD_BUFFER, nullptr), m)
      | Some h \<Rightarrow>
          (case getFenceFd acquireFence of
             None \<Rightarrow> ((ERR_BAD_VALUE, nullptr), m)
           | Some fenceFd \<Rightarrow>
               (case lockBuffer L (Some h) cpuUsage accessRegion fenceFd (mp_os m) of
                  (error, data, buffer, s1) \<Rightarrow>
                    ((error, data), m\<lparr>mp_handles := (mp_handles m)(p := buffer), mp_os := s1\<rparr>))))"

definition unlockBuffer ::
  "('s, 'p) platform \<Rightarrow> imported_handle option \<Rightarrow> 's \<Rightarrow> (Error \<times> i32) \<times> imported_handle option \<times> 's" where
  "unlockBuffer L buffer s =
     (case handle_cast imported buffer of
        None \<Rightarrow> ((ERR_BAD_BUFFER, - 1), buffer, s)
      | Some h \<Rightarrow>
          if lock_count h = 0 then ((ERR_BAD_BUFFER, - 1), buffer, s)
          else
            (case mali_gralloc_unlock (pl_os L) h s of
               (result, h1, s1) \<Rightarrow>
                 if result \<noteq> 0 then ((ERR_BAD_VALUE, - 1), Some h1, s1)
                 else ((ERR_NONE, - 1), Some h1, s1)))"

definition unlock ::
  "('s, 'p) platform \<Rightarrow> ptr \<Rightarrow> 's mapper_state \<Rightarrow> (Error \<times> fence) \<times> 's mapper_state" where
  "unlock L p m =
     (case pool_get p (mp_pool m) of
        None \<Rightarrow> ((ERR_BAD_BUFFER, None), m)
      | Some q \<Rightarrow>
          (case unlockBuffer L (mp_handles m q) (mp_os m) of
             ((error, fenceFd), buffer, s1) \<Rightarrow>
               let m1 = m\<lparr>mp_handles := (mp_handles m)(q := buffer), mp_os := s1\<rparr>
               in if error = ERR_NONE
                  then ((error, getFenceHandle fenceFd),
                        if 0 \<le> sint fenceFd then m1\<lparr>mp_os := os_close (pl_os L) s1 fenceFd\<rparr> else m1)
                  else ((error, None), m1)))"

section \<open>Validation and support\<close>

text \<open>The comparison of the usages is disabled in the source.\<close>

definition validateBufferSize :: "'s mapper_state \<Rightarrow> ptr \<Rightarrow> BufferDescriptorInfo \<Rightarrow> u32 \<Rightarrow> Error" where
  "validateBufferSize m p desc in_stride =
     (case registered m p of
        None \<Rightarrow> ERR_BAD_BUFFER
      | Some h \<Rightarrow>
          if h_width h \<noteq> bi_width desc then ERR_BAD_VALUE
          else if h_height h \<noteq> bi_height desc then ERR_BAD_VALUE
          else if layer_count h \<noteq> bi_layerCount desc then ERR_BAD_VALUE
          else if in_stride \<noteq> 0 \<and> stride h \<noteq> in_stride then ERR_BAD_VALUE
          else if req_format h \<noteq> bi_format desc then ERR_BAD_VALUE
          else ERR_NONE)"

definition getTransportSize :: "bool \<Rightarrow> 's mapper_state \<Rightarrow> ptr \<Rightarrow> (Error \<times> i32 \<times> i32) res" where
  "getTransportSize nd m p =
     (case registered m p of
        None \<Rightarrow> Inr (ERR_BAD_BUFFER, - 1, - 1)
      | Some h \<Rightarrow>
          bind_res (c_assert nd (numInts h = PRIVATE_HANDLE_NUM_INTS)) (\<lambda>_. Inr (ERR_NONE, numFds h, numInts h)))"

definition isSupported ::
  "('s, 'p) platform \<Rightarrow> bool \<Rightarrow> BufferDescriptorInfo \<Rightarrow> 'p rk_state \<Rightarrow> ((Error \<times> bool) \<times> 'p rk_state) res" where
  "isSupported L aidl desc st =
     bind_res (mali_gralloc_derive_format_and_size (pl_cfg L) (pl_props L) (pl_hal L) (pl_caps L)
         ((queried_descriptor desc)\<lparr>d_flags := DESCRIPTOR_ALLOCATOR_FLAGS aidl\<rparr>) st)
       (\<lambda>(result, d, st1). Inr ((ERR_NONE, result = 0), st1))"

section \<open>Cache maintenance\<close>

definition flushLockedBuffer :: "('s, 'p) platform \<Rightarrow> ptr \<Rightarrow> 's mapper_state \<Rightarrow> Error \<times> 's mapper_state" where
  "flushLockedBuffer L p m =
     (case registered m p of
        None \<Rightarrow> (ERR_BAD_BUFFER, m)
      | Some h \<Rightarrow>
          if lock_count h = 0 then (ERR_BAD_BUFFER, m)
          else (ERR_NONE, m\<lparr>mp_os := snd (allocator_sync_end (pl_os L) h False True (mp_os m))\<rparr>))"

definition rereadLockedBuffer :: "('s, 'p) platform \<Rightarrow> ptr \<Rightarrow> 's mapper_state \<Rightarrow> Error \<times> 's mapper_state" where
  "rereadLockedBuffer L p m =
     (case registered m p of
        None \<Rightarrow> (ERR_BAD_BUFFER, m)
      | Some h \<Rightarrow>
          if lock_count h = 0 then (ERR_BAD_BUFFER, m)
          else (ERR_NONE, m\<lparr>mp_os := snd (allocator_sync_start (pl_os L) h True False (mp_os m))\<rparr>))"

section \<open>Metadata\<close>

text \<open>A type with its description, and whether it can be read and set.\<close>

type_synonym MetadataTypeDescription = "MetadataType \<times> string \<times> bool \<times> bool"

definition standard_descriptions :: "bool \<Rightarrow> (StandardMetadataType \<times> bool) list" where
  "standard_descriptions sdk33 =
     [(SMT_BUFFER_ID, False), (SMT_NAME, False), (SMT_WIDTH, False), (SMT_HEIGHT, False), (SMT_LAYER_COUNT, False),
      (SMT_PIXEL_FORMAT_REQUESTED, False), (SMT_PIXEL_FORMAT_FOURCC, False), (SMT_PIXEL_FORMAT_MODIFIER, False),
      (SMT_USAGE, False), (SMT_ALLOCATION_SIZE, False), (SMT_PROTECTED_CONTENT, False), (SMT_COMPRESSION, False),
      (SMT_INTERLACED, False), (SMT_CHROMA_SITING, True), (SMT_PLANE_LAYOUTS, False), (SMT_DATASPACE, True),
      (SMT_BLEND_MODE, True), (SMT_SMPTE2086, True), (SMT_CTA861_3, True), (SMT_SMPTE2094_40, True), (SMT_CROP, True)] @
     (if sdk33 then [(SMT_SMPTE2094_10, True)] else [])"

definition descriptions :: "gralloc4 \<Rightarrow> bool \<Rightarrow> MetadataTypeDescription list" where
  "descriptions G sdk33 =
     map (\<lambda>(t, settable). (g4_metadata_type G t, '''', True, settable)) (standard_descriptions sdk33) @
     [(\<lparr>mt_name = GRALLOC_ARM_METADATA_TYPE_NAME, mt_value = PLANE_FDS\<rparr>, ''Vector of file descriptors of each plane'', True, False)]"

definition is_mutable :: "gralloc4 \<Rightarrow> bool \<Rightarrow> MetadataType \<Rightarrow> bool" where
  "is_mutable G sdk33 t =
     (case find (\<lambda>(u, _). u = t) (descriptions G sdk33) of
        None \<Rightarrow> False
      | Some (_, _, _, settable) \<Rightarrow> settable)"

text \<open>Raw handles are accepted for the items that cannot be set.\<close>

definition get ::
  "('s, 'p) platform \<Rightarrow> drm_header \<Rightarrow> gralloc4 \<Rightarrow> bool \<Rightarrow> ptr \<Rightarrow> MetadataType \<Rightarrow> 's mapper_state \<Rightarrow> (Error \<times> u8 list) res" where
  "get L hdr G sdk33 p t m =
     (if pool_get p (mp_pool m) = None \<and> is_mutable G sdk33 t then Inr (ERR_BAD_BUFFER, [])
      else
        (case handle_cast raw (mp_handles m p) of
           None \<Rightarrow> Inr (ERR_BAD_BUFFER, [])
         | Some h \<Rightarrow> get_metadata L hdr G sdk33 h t (mp_os m)))"

definition set_buffer ::
  "('s, 'p) platform \<Rightarrow> gralloc4 \<Rightarrow> bool \<Rightarrow> ptr \<Rightarrow> MetadataType \<Rightarrow> u8 list \<Rightarrow> 's mapper_state \<Rightarrow> (Error \<times> 's mapper_state) res" where
  "set_buffer L G sdk33 p t bytes m =
     (case registered m p of
        None \<Rightarrow> Inr (ERR_BAD_BUFFER, m)
      | Some h \<Rightarrow> bind_res (set_metadata L G sdk33 h t bytes (mp_os m)) (\<lambda>(e, s). Inr (e, m\<lparr>mp_os := s\<rparr>)))"

definition listSupportedMetadataTypes :: "gralloc4 \<Rightarrow> bool \<Rightarrow> Error \<times> MetadataTypeDescription list" where
  "listSupportedMetadataTypes G sdk33 = (ERR_NONE, descriptions G sdk33)"

text \<open>A dump has the items of the standard that can be read without an error.\<close>

primrec dump_items ::
  "('s, 'p) platform \<Rightarrow> drm_header \<Rightarrow> gralloc4 \<Rightarrow> bool \<Rightarrow> imported_handle \<Rightarrow> 's \<Rightarrow> MetadataTypeDescription list \<Rightarrow>
   (MetadataType \<times> u8 list) list res" where
  "dump_items L hdr G sdk33 h s [] = Inr []"
| "dump_items L hdr G sdk33 h s (d # ds) =
     (case d of (t, _, _, settable) \<Rightarrow>
        if \<not> g4_is_standard G t then dump_items L hdr G sdk33 h s ds
        else if h_type h = raw \<and> settable then dump_items L hdr G sdk33 h s ds
        else
          bind_res (get_metadata L hdr G sdk33 h t s) (\<lambda>(error, bytes).
          bind_res (dump_items L hdr G sdk33 h s ds) (\<lambda>out.
            Inr (if error = ERR_NONE then (t, bytes) # out else out))))"

definition dumpBufferHelper ::
  "('s, 'p) platform \<Rightarrow> drm_header \<Rightarrow> gralloc4 \<Rightarrow> bool \<Rightarrow> imported_handle option \<Rightarrow> 's \<Rightarrow> (MetadataType \<times> u8 list) list res" where
  "dumpBufferHelper L hdr G sdk33 buffer s =
     (case buffer of
        None \<Rightarrow> Inl Null_dereference
      | Some h \<Rightarrow> dump_items L hdr G sdk33 h s (descriptions G sdk33))"

definition dumpBuffer ::
  "('s, 'p) platform \<Rightarrow> drm_header \<Rightarrow> gralloc4 \<Rightarrow> bool \<Rightarrow> ptr \<Rightarrow> 's mapper_state \<Rightarrow>
   (Error \<times> (MetadataType \<times> u8 list) list) res" where
  "dumpBuffer L hdr G sdk33 p m =
     (case handle_cast raw (mp_handles m p) of
        None \<Rightarrow> Inr (ERR_BAD_BUFFER, [])
      | Some h \<Rightarrow> bind_res (dumpBufferHelper L hdr G sdk33 (Some h) (mp_os m)) (\<lambda>dump. Inr (ERR_NONE, dump)))"

definition dumpBuffers ::
  "('s, 'p) platform \<Rightarrow> drm_header \<Rightarrow> gralloc4 \<Rightarrow> bool \<Rightarrow> 's mapper_state \<Rightarrow>
   (Error \<times> (MetadataType \<times> u8 list) list list) res" where
  "dumpBuffers L hdr G sdk33 m =
     bind_res (pool_for_each
         (\<lambda>p r. bind_res r (\<lambda>dumps.
            bind_res (dumpBufferHelper L hdr G sdk33 (handle_cast imported (mp_handles m p)) (mp_os m)) (\<lambda>dump.
              Inr (dumps @ [dump]))))
         (mp_pool m) (Inr []))
       (\<lambda>dumps. Inr (ERR_NONE, dumps))"

definition getReservedRegion :: "'s mapper_state \<Rightarrow> ptr \<Rightarrow> Error \<times> ptr \<times> u64" where
  "getReservedRegion m p =
     (case registered m p of
        None \<Rightarrow> (ERR_BAD_BUFFER, 0, 0)
      | Some h \<Rightarrow>
          if reserved_region_size h = 0 then (ERR_BAD_BUFFER, 0, 0)
          else (ERR_NONE, attr_base h + shared_metadata_size, reserved_region_size h))"

section \<open>The HIDL front end\<close>

definition hidl_createDescriptor :: "bool \<Rightarrow> BufferDescriptorInfo \<Rightarrow> (Error \<times> u8 list) res" where
  "hidl_createDescriptor nd desc =
     (if validateDescriptorInfo desc
      then bind_res (grallocEncodeBufferDescriptor nd desc) (\<lambda>vec. Inr (ERR_NONE, vec))
      else Inr (ERR_BAD_VALUE, []))"

definition hidl_validateBufferSize :: "'s mapper_state \<Rightarrow> ptr \<Rightarrow> BufferDescriptorInfo \<Rightarrow> u32 \<Rightarrow> Error" where
  "hidl_validateBufferSize m p desc in_stride =
     (if \<not> validateDescriptorInfo desc then ERR_BAD_VALUE else validateBufferSize m p desc in_stride)"

text \<open>The answers that the callback gets: an invalid description is answered twice.\<close>

definition hidl_isSupported ::
  "('s, 'p) platform \<Rightarrow> bool \<Rightarrow> BufferDescriptorInfo \<Rightarrow> 'p rk_state \<Rightarrow> ((Error \<times> bool) list \<times> 'p rk_state) res" where
  "hidl_isSupported L aidl desc st =
     bind_res (isSupported L aidl desc st) (\<lambda>(answer, st1).
       Inr ((if \<not> validateDescriptorInfo desc then [(ERR_BAD_VALUE, False)] else []) @ [answer], st1))"

section \<open>Ownership\<close>

text \<open>
  A set of resources that is made up of foreign ones and of the disjoint shares of the owners.
\<close>

definition owns :: "'b set \<Rightarrow> ('a \<Rightarrow> 'b set) \<Rightarrow> 'a set \<Rightarrow> 'b set \<Rightarrow> bool" where
  "owns F own P S \<longleftrightarrow> S = F \<union> (\<Union>p\<in>P. own p) \<and> (\<forall>p\<in>P. own p \<inter> F = {}) \<and> disjoint_family_on own P"

lemma owns_none: "owns F own {} S \<longleftrightarrow> S = F"
  by (simp add: owns_def disjoint_family_on_def)

lemma owns_cong: "(\<And>p. p \<in> P \<Longrightarrow> own p = own' p) \<Longrightarrow> owns F own P S \<longleftrightarrow> owns F own' P S"
  by (auto simp: owns_def disjoint_family_on_def)

lemma owns_add:
  assumes "owns F own P S" and "p \<notin> P" and "own' p \<inter> S = {}" and "\<And>q. q \<in> P \<Longrightarrow> own' q = own q"
  shows "owns F own' (insert p P) (S \<union> own' p)"
  using assms by (auto simp: owns_def disjoint_family_on_def)

lemma owns_remove:
  assumes "owns F own P S" and "p \<in> P"
  shows "owns F own (P - {p}) (S - own p)"
proof -
  have "S - own p = F \<union> (\<Union>q\<in>P - {p}. own q)"
    using assms by (fastforce simp: owns_def disjoint_family_on_def)
  then show ?thesis
    using assms by (auto simp: owns_def disjoint_family_on_def)
qed

lemma owns_grow:
  assumes "owns F own P S" and "p \<in> P" and "own' p = own p \<union> x" and "x \<inter> S = {}"
    and "\<And>q. q \<in> P \<Longrightarrow> q \<noteq> p \<Longrightarrow> own' q = own q"
  shows "owns F own' P (S \<union> x)"
proof -
  have "owns F own' (insert p (P - {p})) ((S - own p) \<union> own' p)"
    by (rule owns_add [OF owns_remove [OF assms(1,2)]])
      (use assms in \<open>auto simp: owns_def\<close>)
  moreover have "insert p (P - {p}) = P" "(S - own p) \<union> own' p = S \<union> x"
    using assms by (auto simp: owns_def)
  ultimately show ?thesis
    by simp
qed

section \<open>Effect of the operations on one handle\<close>

lemma sync_effect:
  assumes "os_documented Sys fds maps" and "buffer_sync Sys hnd d s = (hnd', s')"
  shows "\<exists>n c. hnd' = hnd\<lparr>lock_count := n, cpu_write := c\<rparr> \<and> fds s' = fds s \<and> maps s' = maps s"
proof (cases "d = TX_NONE")
  case True
  show ?thesis
    using assms(2) unfolding True
  proof (cases rule: sync_unlockE)
    case released
    then show ?thesis
      using os_keeps [OF assms(1)] by metis
  next
    case failed
    then show ?thesis
      using os_keeps [OF assms(1)] by (intro exI [of _ "lock_count hnd"] exI [of _ "cpu_write hnd"]) simp
  qed
next
  case False
  show ?thesis
    using sync_lockE [OF assms(2) False] os_keeps [OF assms(1)] by metis
qed

text \<open>What a lock does to the handle and to the resources: at most one new mapping, of a handle without one.\<close>

definition lock_step ::
  "('s \<Rightarrow> i32 set) \<Rightarrow> ('s \<Rightarrow> (ptr \<times> u64) set) \<Rightarrow> imported_handle \<Rightarrow> 's \<Rightarrow> imported_handle \<Rightarrow> 's \<Rightarrow> bool" where
  "lock_step fds maps h s h' s' \<longleftrightarrow>
     (\<exists>n c b. h' = h\<lparr>lock_count := n, cpu_write := c, h_base := b\<rparr> \<and> fds s' = fds s \<and>
        (b = h_base h \<and> maps s' = maps s \<or>
         h_base h = nullptr \<and> b \<noteq> nullptr \<and> b \<notin> fst ` maps s \<and> maps s' = insert (b, scast (h_size h)) (maps s)))"

lemma lock_step_refl: "lock_step fds maps h s h s"
  unfolding lock_step_def
  by (intro exI [of _ "lock_count h"] exI [of _ "cpu_write h"] exI [of _ "h_base h"]) simp

lemma lock_step_map:
  assumes "os_documented Sys fds maps" and "mali_map_buffer Sys h s = (r, h', s')"
  shows "lock_step fds maps h s h' s'"
  using assms(2)
proof (cases rule: map_bufferE)
  case 1
  then show ?thesis by (simp add: lock_step_refl)
next
  case (2 e)
  then have "fds s' = fds s" "maps s' = maps s" "h' = h\<lparr>lock_count := lock_count h, cpu_write := cpu_write h, h_base := h_base h\<rparr>"
    using os_mmap_failed [OF assms(1) 2(2)] by simp_all
  then show ?thesis
    unfolding lock_step_def by blast
next
  case (3 a)
  note eff = os_mmap_done [OF assms(1) 3(2)]
  have "h' = h\<lparr>lock_count := lock_count h, cpu_write := cpu_write h, h_base := a\<rparr>"
    using 3 by simp
  then show ?thesis
    unfolding lock_step_def using 3(1) eff by blast
qed

lemma lock_step_sync:
  assumes "os_documented Sys fds maps" and "lock_step fds maps h s h1 s1" and "buffer_sync Sys h1 d s1 = (h2, s2)"
  shows "lock_step fds maps h s h2 s2"
proof -
  obtain n c where e: "h2 = h1\<lparr>lock_count := n, cpu_write := c\<rparr>" "fds s2 = fds s1" "maps s2 = maps s1"
    using sync_effect [OF assms(1,3)] by blast
  obtain m d b where l: "h1 = h\<lparr>lock_count := m, cpu_write := d, h_base := b\<rparr>" "fds s1 = fds s"
    "b = h_base h \<and> maps s1 = maps s \<or>
     h_base h = nullptr \<and> b \<noteq> nullptr \<and> b \<notin> fst ` maps s \<and> maps s1 = insert (b, scast (h_size h)) (maps s)"
    using assms(2) by (auto simp: lock_step_def)
  have "h2 = h\<lparr>lock_count := n, cpu_write := c, h_base := b\<rparr>"
    using e(1) l(1) by simp
  then show ?thesis
    unfolding lock_step_def using e(2,3) l(2,3) by (intro exI [of _ n] exI [of _ c] exI [of _ b]) auto
qed

lemma lock_step_lock:
  assumes "os_documented Sys fds maps" and "mali_gralloc_lock Sys H h usage l t w ht v s = (r, p, h', s')"
  shows "lock_step fds maps h s h' s'"
proof (cases p)
  case None
  show ?thesis
    using assms(2) [unfolded None]
  proof (cases rule: lock_NoneE)
    case 1
    then show ?thesis by (simp add: lock_step_refl)
  next
    case (2 r)
    then show ?thesis by (intro lock_step_map [OF assms(1)])
  qed
next
  case (Some q)
  obtain h1 s1 where "mali_map_buffer Sys h s = (0, h1, s1)" "buffer_sync Sys h1 (get_tx_direction usage) s1 = (h', s')"
    using assms(2) [unfolded Some] by (rule lock_SomeE)
  then show ?thesis
    by (intro lock_step_sync [OF assms(1) lock_step_map [OF assms(1)]])
qed

lemma lock_step_fields:
  assumes "lock_step fds maps h s h' s'"
  shows "share_fd h' = share_fd h" "share_attr_fd h' = share_attr_fd h" "attr_base h' = attr_base h"
    "attr_size h' = attr_size h" "h_size h' = h_size h" "import_pid h' = import_pid h"
    "handle_cast imported (Some h) = Some h \<Longrightarrow> handle_cast imported (Some h') = Some h'" "fds s' = fds s"
  using assms by (auto simp: lock_step_def handle_cast_eq_Some)

section \<open>What the mapper holds\<close>

definition handle_fds :: "(ptr \<Rightarrow> imported_handle option) \<Rightarrow> ptr \<Rightarrow> i32 set" where
  "handle_fds H p = (case H p of None \<Rightarrow> {} | Some h \<Rightarrow> {share_fd h, share_attr_fd h})"

definition handle_maps :: "(ptr \<Rightarrow> imported_handle option) \<Rightarrow> ptr \<Rightarrow> (ptr \<times> u64) set" where
  "handle_maps H p = (case H p of None \<Rightarrow> {} | Some h \<Rightarrow> insert (attr_base h, attr_size h) (own_mapping h))"

text \<open>
  \<open>F\<close> and \<open>M\<close> are the descriptors and mappings of the rest of the process, \<open>pid\<close> is the process.
\<close>

definition mapper_inv ::
  "('s \<Rightarrow> i32 set) \<Rightarrow> ('s \<Rightarrow> (ptr \<times> u64) set) \<Rightarrow> i32 \<Rightarrow> i32 set \<Rightarrow> (ptr \<times> u64) set \<Rightarrow> 's mapper_state \<Rightarrow> bool" where
  "mapper_inv fds maps pid F M m \<longleftrightarrow>
     distinct (mp_pool m) \<and> - 1 \<notin> fds (mp_os m) \<and>
     (\<forall>p \<in> set (mp_pool m). \<exists>h. mp_handles m p = Some h \<and> handle_cast imported (Some h) = Some h \<and> import_pid h = pid) \<and>
     owns F (handle_fds (mp_handles m)) (set (mp_pool m)) (fds (mp_os m)) \<and>
     owns M (handle_maps (mp_handles m)) (set (mp_pool m)) (maps (mp_os m))"

lemma clone_fds_open:
  "clone_fds Sys old cloned s = (Some new, s') \<Longrightarrow> - 1 \<notin> set cloned \<Longrightarrow> - 1 \<notin> set new"
  by (induction old arbitrary: cloned s) (auto split: prod.splits if_splits)

lemma imported_handle_fields:
  assumes "make_imported_handle Sys g s = (Some (p, h), s')" and "handle_cast raw (Some g) = Some g"
  shows "share_fd h \<noteq> - 1" "share_attr_fd h \<noteq> - 1" "numFds h = PRIVATE_HANDLE_NUM_FDS" "numInts h = PRIVATE_HANDLE_NUM_INTS"
    "version h = sizeof_native_handle" "magic h = sMagic" "h_type h = imported"
proof -
  obtain junk fds s1 s2 where clone: "clone_fds Sys [share_fd g, share_attr_fd g] [] s1 = (Some fds, s2)"
    and h: "h = imported_copy g fds junk"
    using assms(1) by (auto simp: make_imported_handle_def simp del: clone_fds.simps split: prod.splits option.splits)
  then obtain a b where "fds = [a, b]"
    by (auto split: prod.splits if_splits)
  then show "share_fd h \<noteq> - 1" "share_attr_fd h \<noteq> - 1"
    using clone_fds_open [OF clone] by (auto simp: h)
  show "numFds h = PRIVATE_HANDLE_NUM_FDS" "numInts h = PRIVATE_HANDLE_NUM_INTS"
    "version h = sizeof_native_handle" "magic h = sMagic" "h_type h = imported"
    using assms(2) by (simp_all add: h handle_cast_eq_Some)
qed

text \<open>
  The ways in which an import ends, with the state in each: no raw handle, no clone, no mapping, a handle that is already
  registered, and success.
\<close>

lemma import_cases:
  assumes run: "importBuffer L g m = Inr ((e, q), m')"
  obtains (bad) "handle_cast raw g = None" "e = ERR_BAD_BUFFER" "q = None" "m' = m"
  | (no_clone) ph s1 where "handle_cast raw g = Some ph" "make_imported_handle (pl_os L) ph (mp_os m) = (None, s1)"
      "e = ERR_NO_RESOURCES" "q = None" "m' = m\<lparr>mp_os := s1\<rparr>"
  | (no_map) ph p h s1 err s2 where "handle_cast raw g = Some ph" "make_imported_handle (pl_os L) ph (mp_os m) = (Some (p, h), s1)"
      "os_mmap (pl_os L) s1 (attr_size h) (share_attr_fd h) = (Inl err, s2)" "e = ERR_NO_RESOURCES" "q = None"
      "m' = m\<lparr>mp_os := native_handle_deleter (pl_os L) [share_fd h, share_attr_fd h] s2\<rparr>"
  | (known) ph p h s1 a s2 where "handle_cast raw g = Some ph" "make_imported_handle (pl_os L) ph (mp_os m) = (Some (p, h), s1)"
      "os_mmap (pl_os L) s1 (attr_size h) (share_attr_fd h) = (Inr a, s2)" "p \<in> set (mp_pool m)" "e = ERR_NO_RESOURCES" "q = None"
      "m' = m\<lparr>mp_os := native_handle_deleter (pl_os L) [share_fd h, share_attr_fd h] (snd (os_munmap (pl_os L) s2 a (attr_size h)))\<rparr>"
  | (registered) ph p h s1 a s2 where "handle_cast raw g = Some ph" "make_imported_handle (pl_os L) ph (mp_os m) = (Some (p, h), s1)"
      "os_mmap (pl_os L) s1 (attr_size h) (share_attr_fd h) = (Inr a, s2)" "p \<notin> set (mp_pool m)" "e = ERR_NONE" "q = Some p"
      "m' = m\<lparr>mp_pool := p # mp_pool m, mp_handles := (mp_handles m)(p \<mapsto> h
         \<lparr>attr_base := a, import_pid := os_getpid (pl_os L) s2, h_base := nullptr, cpu_write := 0\<rparr>), mp_os := s2\<rparr>"
proof (cases "handle_cast raw g")
  case None
  then show thesis
    using run by (intro bad) (auto simp: importBuffer_def)
next
  case ph: (Some ph)
  obtain r s1 where make: "make_imported_handle (pl_os L) ph (mp_os m) = (r, s1)"
    by fastforce
  show thesis
  proof (cases r)
    case None
    then show thesis
      using run ph make by (intro no_clone) (auto simp: importBuffer_def Let_def)
  next
    case (Some ph')
    then obtain p h where r: "r = Some (p, h)"
      by (cases ph') simp
    obtain z s2 where map: "os_mmap (pl_os L) s1 (attr_size h) (share_attr_fd h) = (z, s2)"
      by fastforce
    show thesis
    proof (cases z)
      case (Inl err)
      then show thesis
        using run ph make r map by (intro no_map [of ph p h s1 err s2]) (auto simp: importBuffer_def Let_def)
    next
      case (Inr a)
      then show thesis
        using run ph make r map known [of ph p h s1 a s2] registered [of ph p h s1 a s2]
        by (auto simp: importBuffer_def pool_add_def Let_def c_assert_def split: if_splits)
    qed
  qed
qed

lemma import_effect:
  assumes os: "os_documented (pl_os L) fds maps" and run: "importBuffer L g m = Inr ((e, q), m')"
  obtains (refused) "e \<noteq> ERR_NONE" "q = None" "mp_pool m' = mp_pool m" "mp_handles m' = mp_handles m"
      "fds (mp_os m') = fds (mp_os m)" "maps (mp_os m') = maps (mp_os m)"
  | (success) p h s where "e = ERR_NONE" "q = Some p" "p \<notin> set (mp_pool m)" "mp_pool m' = p # mp_pool m"
      "mp_handles m' = (mp_handles m)(p \<mapsto> h)" "handle_cast imported (Some h) = Some h"
      "import_pid h = os_getpid (pl_os L) s" "h_base h = nullptr" "share_fd h \<noteq> - 1" "share_attr_fd h \<noteq> - 1"
      "fds (mp_os m') = fds (mp_os m) \<union> {share_fd h, share_attr_fd h}" "share_fd h \<notin> fds (mp_os m)"
      "share_attr_fd h \<notin> fds (mp_os m)" "maps (mp_os m') = insert (attr_base h, attr_size h) (maps (mp_os m))"
      "attr_base h \<notin> fst ` maps (mp_os m)"
proof -
  have closed: "fds (native_handle_deleter (pl_os L) [share_fd h, share_attr_fd h] x) = fds x - {share_fd h, share_attr_fd h}"
    "maps (native_handle_deleter (pl_os L) [share_fd h, share_attr_fd h] x) = maps x" for h :: imported_handle and x
    using close_all_effect [OF os, of "[share_fd h, share_attr_fd h]" x] by simp_all
  show thesis
    using run
  proof (cases rule: import_cases)
    case bad
    then show thesis by (intro refused) simp_all
  next
    case (no_clone ph s1)
    then show thesis
      using import_clones_balanced [OF os no_clone(2)] by (intro refused) simp_all
  next
    case (no_map ph p h s1 err s2)
    then show thesis
      using import_clones_balanced [OF os no_map(2)] os_mmap_failed [OF os no_map(3)] by (intro refused) (auto simp: closed)
  next
    case (known ph p h s1 a s2)
    then show thesis
      using import_clones_balanced [OF os known(2)] os_mmap_done [OF os known(3)]
      by (intro refused) (auto simp: closed os_munmap_effect [OF os] image_iff)
  next
    case (registered ph p h s1 a s2)
    have "handle_cast raw (Some ph) = Some ph"
      using registered(1) by (auto simp: handle_cast_eq_Some)
    note fields = imported_handle_fields [OF registered(2) this]
    show thesis
      using registered import_clones_balanced [OF os registered(2)] os_mmap_done [OF os registered(3)] fields
      by (intro success [of p "h\<lparr>attr_base := a, import_pid := os_getpid (pl_os L) s2, h_base := nullptr, cpu_write := 0\<rparr>" s2])
        (simp_all add: handle_cast_eq_Some)
  qed
qed

text \<open>What a successful import has done.\<close>

lemma import_success:
  assumes "importBuffer L g m = Inr ((ERR_NONE, q), m')"
  obtains ph p junk fds s a s' where "handle_cast raw g = Some ph" and "os_new_handle (pl_os L) (mp_os m) = (Some (p, junk), s)"
    and "q = Some p"
    and "m' = m\<lparr>mp_pool := p # mp_pool m, mp_handles := (mp_handles m)(p \<mapsto> (imported_copy ph fds junk)
      \<lparr>attr_base := a, import_pid := os_getpid (pl_os L) s', h_base := nullptr, cpu_write := 0\<rparr>), mp_os := s'\<rparr>"
  using assms
proof (cases rule: import_cases)
  case (registered ph p h s1 a s2)
  obtain junk fds s where "os_new_handle (pl_os L) (mp_os m) = (Some (p, junk), s)" "h = imported_copy ph fds junk"
    using registered(2) by (auto simp: make_imported_handle_def split: prod.splits option.splits simp del: clone_fds.simps)
  then show thesis
    using registered by (intro that [of ph p junk s s2 a fds]) simp_all
qed simp_all

lemma mapper_invD:
  assumes "mapper_inv fds maps pid F M m"
  shows "distinct (mp_pool m)" "- 1 \<notin> fds (mp_os m)"
    "p \<in> set (mp_pool m) \<Longrightarrow> \<exists>h. mp_handles m p = Some h \<and> handle_cast imported (Some h) = Some h \<and> import_pid h = pid"
    "owns F (handle_fds (mp_handles m)) (set (mp_pool m)) (fds (mp_os m))"
    "owns M (handle_maps (mp_handles m)) (set (mp_pool m)) (maps (mp_os m))"
  using assms unfolding mapper_inv_def by blast+

lemma inv_same:
  assumes "mapper_inv fds maps pid F M m" and "mp_pool m' = mp_pool m" and "mp_handles m' = mp_handles m"
    and "fds (mp_os m') = fds (mp_os m)" and "maps (mp_os m') = maps (mp_os m)"
  shows "mapper_inv fds maps pid F M m'"
  using assms by (simp add: mapper_inv_def)

lemma inv_import:
  assumes os: "os_documented (pl_os L) fds maps" and pid: "\<And>s. os_getpid (pl_os L) s = pid"
    and inv: "mapper_inv fds maps pid F M m" and run: "importBuffer L g m = Inr ((e, q), m')"
  shows "mapper_inv fds maps pid F M m'"
  using os run
proof (cases rule: import_effect)
  case refused
  then show ?thesis
    by (intro inv_same [OF inv])
next
  case (success p h s)
  note D = mapper_invD [OF inv]
  let ?H = "mp_handles m'"
  have new: "handle_fds ?H p = {share_fd h, share_attr_fd h}" "handle_maps ?H p = {(attr_base h, attr_size h)}"
    using success by (simp_all add: handle_fds_def handle_maps_def own_mapping_def)
  have old: "handle_fds ?H r = handle_fds (mp_handles m) r" "handle_maps ?H r = handle_maps (mp_handles m) r"
    if "r \<in> set (mp_pool m)" for r
    using success that by (auto simp: handle_fds_def handle_maps_def)
  have "owns F (handle_fds ?H) (insert p (set (mp_pool m))) (fds (mp_os m) \<union> handle_fds ?H p)"
    by (rule owns_add [OF D(4)]) (use success new old in auto)
  moreover have "owns M (handle_maps ?H) (insert p (set (mp_pool m))) (maps (mp_os m) \<union> handle_maps ?H p)"
    by (rule owns_add [OF D(5)]) (use success new old in \<open>auto simp: image_iff\<close>)
  ultimately show ?thesis
    unfolding mapper_inv_def using D(1-3) success new pid by simp
qed

lemma inv_handle_step:
  assumes inv: "mapper_inv fds maps pid F M m" and p: "p \<in> set (mp_pool m)" and h: "mp_handles m p = Some h"
    and step: "lock_step fds maps h (mp_os m) h' s'"
  shows "mapper_inv fds maps pid F M (m\<lparr>mp_handles := (mp_handles m)(p \<mapsto> h'), mp_os := s'\<rparr>)"
proof -
  note D = mapper_invD [OF inv] and f = lock_step_fields [OF step]
  let ?H = "(mp_handles m)(p \<mapsto> h')"
  have "handle_fds ?H r = handle_fds (mp_handles m) r" for r
    using f h by (simp add: handle_fds_def)
  then have fd: "owns F (handle_fds ?H) (set (mp_pool m)) (fds s')"
    using D(4) f(8) owns_cong [of "set (mp_pool m)" "handle_fds ?H" "handle_fds (mp_handles m)"] by simp
  have other: "handle_maps ?H r = handle_maps (mp_handles m) r" if "r \<noteq> p" for r
    using that by (simp add: handle_maps_def)
  have mp: "owns M (handle_maps ?H) (set (mp_pool m)) (maps s')"
  proof (cases "h_base h' = h_base h \<and> maps s' = maps (mp_os m)")
    case True
    then have "handle_maps ?H p = handle_maps (mp_handles m) p"
      using h f by (simp add: handle_maps_def own_mapping_def)
    with other have "handle_maps ?H r = handle_maps (mp_handles m) r" for r
      by (cases "r = p") simp_all
    then show ?thesis
      using D(5) True owns_cong [of "set (mp_pool m)" "handle_maps ?H" "handle_maps (mp_handles m)"] by simp
  next
    case False
    obtain n c b where s: "h' = h\<lparr>lock_count := n, cpu_write := c, h_base := b\<rparr>"
      "b = h_base h \<and> maps s' = maps (mp_os m) \<or>
       h_base h = nullptr \<and> b \<noteq> nullptr \<and> b \<notin> fst ` maps (mp_os m) \<and> maps s' = insert (b, scast (h_size h)) (maps (mp_os m))"
      using step unfolding lock_step_def by blast
    have hb: "h_base h' = b"
      by (simp add: s(1))
    have "h_base h = nullptr \<and> b \<noteq> nullptr \<and> b \<notin> fst ` maps (mp_os m) \<and> maps s' = insert (b, scast (h_size h)) (maps (mp_os m))"
      using s(2) False unfolding hb by blast
    then have grown: "h_base h = nullptr" "h_base h' \<noteq> nullptr" "h_base h' \<notin> fst ` maps (mp_os m)"
      "maps s' = maps (mp_os m) \<union> {(h_base h', scast (h_size h))}"
      unfolding hb by simp_all
    have own: "handle_maps ?H p = handle_maps (mp_handles m) p \<union> {(h_base h', scast (h_size h))}"
      using grown(1,2) f h by (simp add: handle_maps_def own_mapping_def insert_commute)
    have "(h_base h', scast (h_size h)) \<notin> maps (mp_os m)"
      using grown(3) by force
    then show ?thesis
      unfolding grown(4) by (intro owns_grow [OF D(5) p own _ other]) simp_all
  qed
  have "\<exists>k. ?H r = Some k \<and> handle_cast imported (Some k) = Some k \<and> import_pid k = pid" if "r \<in> set (mp_pool m)" for r
    using D(3) [OF that] f(6,7) h by (cases "r = p") auto
  then show ?thesis
    unfolding mapper_inv_def using D(1,2) fd mp f(8) by simp
qed

lemma unmap_effect:
  assumes "os_documented Sys fds maps" and "mali_unmap_buffer Sys h s = (h1, s1)"
  shows "fds s1 = fds s" "maps s1 = maps s - own_mapping h" "attr_base h1 = attr_base h" "attr_size h1 = attr_size h"
    "share_attr_fd h1 = share_attr_fd h"
proof -
  obtain ok s2 where m: "os_munmap Sys s (h_base h) (scast (h_size h)) = (ok, s2)"
    by fastforce
  then have "fds s2 = fds s" "maps s2 = maps s - {(h_base h, scast (h_size h))}"
    using os_munmap_effect [OF assms(1), of s "h_base h" "scast (h_size h)"] by simp_all
  then show "fds s1 = fds s" "maps s1 = maps s - own_mapping h" "attr_base h1 = attr_base h" "attr_size h1 = attr_size h"
    "share_attr_fd h1 = share_attr_fd h"
    using assms(2) m by (auto simp: mali_unmap_buffer_def own_mapping_def allocator_unmap_def split: if_splits)
qed

lemma free_effect:
  assumes os: "os_documented (pl_os L) fds maps" and pid: "\<And>s. os_getpid (pl_os L) s = pid"
    and inv: "mapper_inv fds maps pid F M m" and p: "p \<in> set (mp_pool m)" and run: "freeBuffer L p m = (e, m')"
  shows "e = ERR_NONE" "mp_pool m' = remove1 p (mp_pool m)" "mp_handles m' = (mp_handles m)(p := None)"
    "fds (mp_os m') = fds (mp_os m) - handle_fds (mp_handles m) p"
    "maps (mp_os m') = maps (mp_os m) - handle_maps (mp_handles m) p"
proof -
  let ?Sys = "pl_os L"
  obtain h where h: "mp_handles m p = Some h" "handle_cast imported (Some h) = Some h" "import_pid h = pid"
    using mapper_invD(3) [OF inv p] by blast
  obtain h1 s1 where un: "mali_unmap_buffer ?Sys h (mp_os m) = (h1, s1)"
    by fastforce
  note u = unmap_effect [OF os un]
  define s2 where "s2 = os_close ?Sys (snd (os_munmap ?Sys s1 (attr_base h1) (attr_size h1))) (share_attr_fd h1)"
  have m': "e = ERR_NONE" "m' = m\<lparr>mp_pool := remove1 p (mp_pool m), mp_handles := (mp_handles m)(p := None),
      mp_os := native_handle_deleter ?Sys [share_fd h, - 1] s2\<rparr>"
    using run p h un pid by (auto simp: freeBuffer_def pool_remove_def s2_def Let_def)
  then show "e = ERR_NONE" "mp_pool m' = remove1 p (mp_pool m)" "mp_handles m' = (mp_handles m)(p := None)"
    by simp_all
  have "fds s2 = fds (mp_os m) - {share_attr_fd h}" "maps s2 = maps (mp_os m) - own_mapping h - {(attr_base h, attr_size h)}"
    using u by (simp_all add: s2_def os_keeps [OF os] os_munmap_effect [OF os])
  then show "fds (mp_os m') = fds (mp_os m) - handle_fds (mp_handles m) p"
    "maps (mp_os m') = maps (mp_os m) - handle_maps (mp_handles m) p"
    using m'(2) h mapper_invD(2) [OF inv] close_all_effect [OF os, of "[share_fd h, - 1]" s2]
    by (auto simp: handle_fds_def handle_maps_def)
qed

lemma inv_free:
  assumes os: "os_documented (pl_os L) fds maps" and pid: "\<And>s. os_getpid (pl_os L) s = pid"
    and inv: "mapper_inv fds maps pid F M m" and run: "freeBuffer L p m = (e, m')"
  shows "mapper_inv fds maps pid F M m'"
proof (cases "p \<in> set (mp_pool m)")
  case False
  then show ?thesis
    using run by (intro inv_same [OF inv]) (auto simp: freeBuffer_def pool_remove_def Let_def)
next
  case True
  note D = mapper_invD [OF inv] and eff = free_effect [OF os pid inv True run]
  have pool: "set (mp_pool m') = set (mp_pool m) - {p}" "distinct (mp_pool m')"
    using D(1) eff(2) by (simp_all add: set_remove1_eq distinct_remove1)
  have same: "handle_fds (mp_handles m') r = handle_fds (mp_handles m) r"
    "handle_maps (mp_handles m') r = handle_maps (mp_handles m) r" if "r \<noteq> p" for r
    using that eff(3) by (simp_all add: handle_fds_def handle_maps_def)
  have "owns F (handle_fds (mp_handles m')) (set (mp_pool m) - {p}) (fds (mp_os m'))"
    using owns_remove [OF D(4) True] same owns_cong [of "set (mp_pool m) - {p}" "handle_fds (mp_handles m')"]
    by (simp add: eff(4))
  moreover have "owns M (handle_maps (mp_handles m')) (set (mp_pool m) - {p}) (maps (mp_os m'))"
    using owns_remove [OF D(5) True] same owns_cong [of "set (mp_pool m) - {p}" "handle_maps (mp_handles m')"]
    by (simp add: eff(5))
  ultimately show ?thesis
    unfolding mapper_inv_def using pool D(2,3) eff(3,4) by auto
qed


section \<open>Every operation keeps the resources\<close>

text \<open>Runs of the mapper. The other operations change nothing.\<close>

inductive mapper_run ::
  "('s, 'p) platform \<Rightarrow> gralloc4 \<Rightarrow> bool \<Rightarrow> 's mapper_state \<Rightarrow> 's mapper_state \<Rightarrow> bool"
  for L G sdk33 m0 where
  run_start: "mapper_run L G sdk33 m0 m0"
| run_import: "mapper_run L G sdk33 m0 m \<Longrightarrow> importBuffer L (h :: private_handle_t option) m = Inr (r, m') \<Longrightarrow>
    mapper_run L G sdk33 m0 m'"
| run_free: "mapper_run L G sdk33 m0 m \<Longrightarrow> freeBuffer L p m = (e, m') \<Longrightarrow> mapper_run L G sdk33 m0 m'"
| run_lock: "mapper_run L G sdk33 m0 m \<Longrightarrow> lock L p usage region fence m = (r, m') \<Longrightarrow> mapper_run L G sdk33 m0 m'"
| run_unlock: "mapper_run L G sdk33 m0 m \<Longrightarrow> unlock L p m = (r, m') \<Longrightarrow> mapper_run L G sdk33 m0 m'"
| run_flush: "mapper_run L G sdk33 m0 m \<Longrightarrow> flushLockedBuffer L p m = (e, m') \<Longrightarrow> mapper_run L G sdk33 m0 m'"
| run_reread: "mapper_run L G sdk33 m0 m \<Longrightarrow> rereadLockedBuffer L p m = (e, m') \<Longrightarrow> mapper_run L G sdk33 m0 m'"
| run_set: "mapper_run L G sdk33 m0 m \<Longrightarrow> set_buffer L G sdk33 p t bytes m = Inr (e, m') \<Longrightarrow> mapper_run L G sdk33 m0 m'"

inductive_cases mapper_runE: "mapper_run L G sdk33 m0 m"

lemma inv_registered:
  assumes "mapper_inv fds maps pid F M m" and "registered m p = Some h"
  shows "p \<in> set (mp_pool m)" "mp_handles m p = Some h"
  using assms(2) by (auto simp: registered_def pool_get_def handle_cast_eq_Some split: if_splits)

lemma inv_lock:
  assumes os: "os_documented (pl_os L) fds maps" and inv: "mapper_inv fds maps pid F M m"
    and run: "lock L p usage reg fence m = (r, m')"
  shows "mapper_inv fds maps pid F M m'"
proof (cases "registered m p")
  case None
  then show ?thesis
    using run inv by (simp add: lock_def)
next
  case (Some h)
  note at = inv_registered [OF inv Some]
  have cast: "handle_cast imported (Some h) = Some h"
    using Some by (auto simp: registered_def handle_cast_eq_Some split: option.splits)
  show ?thesis
  proof (cases "getFenceFd fence")
    case None
    then show ?thesis
      using run inv Some by (simp add: lock_def)
  next
    case fd: (Some fd)
    obtain e data buffer s1 where lb: "lockBuffer L (Some h) usage reg fd (mp_os m) = (e, data, buffer, s1)"
      using prod_cases4 by blast
    have "\<exists>h'. buffer = Some h' \<and> lock_step fds maps h (mp_os m) h' s1"
    proof (cases "cpu_write h \<noteq> 0 \<and> usage AND CPU_WRITE_MASK \<noteq> 0 \<and> get_base (alloc_format h) \<noteq> fmt_value (pl_hal L) FMT_BLOB")
      case True
      then show ?thesis
        using lb cast by (auto simp: lockBuffer_def lock_step_refl)
    next
      case False
      obtain l t w ht where reg: "reg = (l, t, w, ht)"
        using prod_cases4 by blast
      obtain result d h1 s2 where lk: "mali_gralloc_lock (pl_os L) (pl_hal L) h usage l t w ht True (mp_os m) = (result, d, h1, s2)"
        using prod_cases4 by blast
      then have "buffer = Some h1" "s1 = s2"
        using lb cast False reg by (cases "result = 0"; auto simp: lockBuffer_def)+
      then show ?thesis
        using lock_step_lock [OF os lk] by simp
    qed
    then obtain h' where "buffer = Some h'" "lock_step fds maps h (mp_os m) h' s1"
      by blast
    moreover have "m' = m\<lparr>mp_handles := (mp_handles m)(p := buffer), mp_os := s1\<rparr>"
      using run Some fd lb by (simp add: lock_def)
    ultimately show ?thesis
      using inv_handle_step [OF inv at] by simp
  qed
qed

lemma inv_unlock:
  assumes os: "os_documented (pl_os L) fds maps" and inv: "mapper_inv fds maps pid F M m"
    and run: "unlock L p m = (r, m')"
  shows "mapper_inv fds maps pid F M m'"
proof (cases "p \<in> set (mp_pool m)")
  case False
  then show ?thesis
    using run inv by (simp add: unlock_def pool_get_def)
next
  case True
  then obtain h where h: "mp_handles m p = Some h" "handle_cast imported (Some h) = Some h"
    using mapper_invD(3) [OF inv] by blast
  obtain h' s' where sync: "buffer_sync (pl_os L) h TX_NONE (mp_os m) = (h', s')"
    by fastforce
  then have un: "mali_gralloc_unlock (pl_os L) h (mp_os m) = (0, h', s')"
    by (simp add: mali_gralloc_unlock_def)
  have step: "lock_step fds maps h (mp_os m) h' s'"
    by (rule lock_step_sync [OF os lock_step_refl sync])
  have "sint (- 1 :: i32) < 0"
    by code_simp
  then have "m' = (if lock_count h = 0 then m\<lparr>mp_handles := (mp_handles m)(p \<mapsto> h), mp_os := mp_os m\<rparr>
      else m\<lparr>mp_handles := (mp_handles m)(p \<mapsto> h'), mp_os := s'\<rparr>)"
    using run True h un by (auto simp: unlock_def pool_get_def unlockBuffer_def Let_def)
  then show ?thesis
    using inv_handle_step [OF inv True h(1) lock_step_refl] inv_handle_step [OF inv True h(1) step]
    by (cases "lock_count h = 0") simp_all
qed

lemma inv_sync:
  assumes os: "os_documented (pl_os L) fds maps" and inv: "mapper_inv fds maps pid F M m"
  shows "flushLockedBuffer L p m = (e, m') \<Longrightarrow> mapper_inv fds maps pid F M m'"
    and "rereadLockedBuffer L p m = (e, m') \<Longrightarrow> mapper_inv fds maps pid F M m'"
  using inv_same [OF inv] inv
  by (auto simp: flushLockedBuffer_def rereadLockedBuffer_def allocator_sync_start_def allocator_sync_end_def os_keeps [OF os]
      split: option.splits if_splits)

lemma inv_set:
  assumes mem: "memory_documented (pl_mem L) fds maps" and inv: "mapper_inv fds maps pid F M m"
    and run: "set_buffer L G sdk33 p t bytes m = Inr (e, m')"
  shows "mapper_inv fds maps pid F M m'"
proof (cases "registered m p")
  case None
  then show ?thesis
    using run inv by (simp add: set_buffer_def)
next
  case (Some h)
  then obtain s where set: "set_metadata L G sdk33 h t bytes (mp_os m) = Inr (e, s)" and m': "m' = m\<lparr>mp_os := s\<rparr>"
    using run by (auto simp: set_buffer_def)
  have "fds s = fds (mp_os m) \<and> maps s = maps (mp_os m)"
    using set by (auto simp: set_metadata_def Let_def memory_documentedD [OF mem] split: if_splits)
  then show ?thesis
    by (intro inv_same [OF inv]) (simp_all add: m')
qed

lemma mapper_run_inv:
  assumes os: "os_documented (pl_os L) fds maps" and mem: "memory_documented (pl_mem L) fds maps"
    and pid: "\<And>s. os_getpid (pl_os L) s = pid"
    and run: "mapper_run L G sdk33 m0 m" and start: "mapper_inv fds maps pid F M m0"
  shows "mapper_inv fds maps pid F M m"
  using run
proof (induction rule: mapper_run.induct)
  case run_start
  show ?case by (rule start)
next
  case (run_import m h r m')
  then show ?case
    using inv_import [OF os pid] by (cases r) blast
next
  case (run_free m p e m')
  then show ?case
    using inv_free [OF os pid] by blast
next
  case (run_lock m p usage region fence r m')
  then show ?case
    using inv_lock [OF os] by blast
next
  case (run_unlock m p r m')
  then show ?case
    using inv_unlock [OF os] by blast
next
  case (run_flush m p e m')
  then show ?case
    using inv_sync(1) [OF os] by blast
next
  case (run_reread m p e m')
  then show ?case
    using inv_sync(2) [OF os] by blast
next
  case (run_set m p t bytes e m')
  then show ?case
    using inv_set [OF mem] by blast
qed

text \<open>C3: The mapper holds exactly what its registered buffers need. After any sequence of imports, frees, locks, unlocks,
  cache operations and changes of metadata, successful or not, in one process that started without registered
  buffers: the open descriptors are those of the start and two for each registered buffer, the mappings
  are those of the start and the own ones of each registered buffer, all of them disjoint; so when every
  buffer has been freed, nothing is left open or mapped.\<close>

theorem mapper_balanced:
  assumes "os_documented (pl_os L) fds maps" and "memory_documented (pl_mem L) fds maps"
    and "\<And>s. os_getpid (pl_os L) s = pid" and "mp_pool m0 = []" and "- 1 \<notin> fds (mp_os m0)"
    and "mapper_run L G sdk33 m0 m"
  shows "distinct (mp_pool m) \<and> (\<forall>p \<in> set (mp_pool m). registered m p \<noteq> None) \<and>
    fds (mp_os m) = fds (mp_os m0) \<union> (\<Union>p \<in> set (mp_pool m). handle_fds (mp_handles m) p) \<and>
    maps (mp_os m) = maps (mp_os m0) \<union> (\<Union>p \<in> set (mp_pool m). handle_maps (mp_handles m) p) \<and>
    disjoint_family_on (handle_fds (mp_handles m)) (set (mp_pool m)) \<and>
    disjoint_family_on (handle_maps (mp_handles m)) (set (mp_pool m)) \<and>
    (mp_pool m = [] \<longrightarrow> fds (mp_os m) = fds (mp_os m0) \<and> maps (mp_os m) = maps (mp_os m0))"
proof -
  have "mapper_inv fds maps pid (fds (mp_os m0)) (maps (mp_os m0)) m0"
    using assms(4,5) by (simp add: mapper_inv_def owns_none)
  from mapper_run_inv [OF assms(1-3,6) this]
  have inv: "mapper_inv fds maps pid (fds (mp_os m0)) (maps (mp_os m0)) m" .
  note D = mapper_invD [OF inv]
  have "registered m p \<noteq> None" if "p \<in> set (mp_pool m)" for p
    using D(3) [OF that] that by (auto simp: registered_def pool_get_def)
  then show ?thesis
    using D(1,4,5) by (auto simp: owns_def)
qed

section \<open>Locks through the mapper\<close>

lemma CPU_WRITE_MASK_eq: "CPU_WRITE_MASK = GRALLOC_USAGE_SW_WRITE_MASK"
  by (simp add: CPU_WRITE_MASK_def usage_values)

lemma write_lock_marks:
  assumes "mali_gralloc_lock Sys H h usage l t w ht True s = (0, d, h', s')" and "usage AND CPU_WRITE_MASK \<noteq> 0"
  shows "cpu_write h' \<noteq> 0" "alloc_format h' = alloc_format h"
    "handle_cast imported (Some h) = Some h \<Longrightarrow> handle_cast imported (Some h') = Some h'"
proof -
  have access: "cpu_access usage" "get_tx_direction usage = TX_TO_DEVICE \<or> get_tx_direction usage = TX_BOTH"
    using assms(2) CPU_WRITE_MASK_eq
    by (auto simp: cpu_access_def get_tx_direction_def Let_def bit.conj_disj_distrib or_zero_iff)
  then have "d \<noteq> None"
    using assms(1) by (auto simp: mali_gralloc_lock_def Let_def EINVAL_def split: if_splits prod.splits)
  then obtain q where "mali_gralloc_lock Sys H h usage l t w ht True s = (0, Some q, h', s')"
    using assms(1) by auto
  then obtain h1 s1 where map: "mali_map_buffer Sys h s = (0, h1, s1)"
    and sync: "buffer_sync Sys h1 (get_tx_direction usage) s1 = (h', s')"
    by (rule lock_SomeE)
  have h1: "\<exists>b. h1 = h\<lparr>h_base := b\<rparr>"
    using map
  proof (cases rule: map_bufferE)
    case 1
    then have "h1 = h\<lparr>h_base := h_base h\<rparr>"
      by simp
    then show ?thesis ..
  next
    case (2 e)
    then have "h1 = h\<lparr>h_base := h_base h\<rparr>"
      by simp
    then show ?thesis ..
  next
    case (3 a)
    then show ?thesis by blast
  qed
  have "h' = h1\<lparr>lock_count := lock_count h1 + 1, cpu_write := 1\<rparr>"
    using sync access(2) by (auto simp: buffer_sync_def Let_def split: prod.splits)
  then show "cpu_write h' \<noteq> 0" "alloc_format h' = alloc_format h"
    "handle_cast imported (Some h) = Some h \<Longrightarrow> handle_cast imported (Some h') = Some h'"
    using h1 by (auto simp: handle_cast_eq_Some)
qed

text \<open>C22: A buffer is locked for writing by one client at a time. After a lock for writing has succeeded on a buffer
  that is not a blob, another lock for writing is refused, whatever its region and its (valid) fence, and
  changes neither the buffer nor anything else.\<close>

theorem write_lock_exclusive:
  assumes "lock L p usage reg fence m = ((ERR_NONE, a), m1)" and "usage AND CPU_WRITE_MASK \<noteq> 0"
    and "registered m p = Some h" and "get_base (alloc_format h) \<noteq> fmt_value (pl_hal L) FMT_BLOB"
    and "usage' AND CPU_WRITE_MASK \<noteq> 0" and "getFenceFd fence' \<noteq> None"
  shows "lock L p usage' reg' fence' m1 = ((ERR_BAD_BUFFER, nullptr), m1)"
proof -
  have pool: "p \<in> set (mp_pool m)" and cast: "handle_cast imported (Some h) = Some h"
    using assms(3) by (auto simp: registered_def pool_get_def handle_cast_eq_Some split: if_splits)
  obtain fd where fd: "getFenceFd fence = Some fd"
    using assms(1,3) by (cases "getFenceFd fence") (auto simp: lock_def)
  obtain e data buffer s1 where lb: "lockBuffer L (Some h) usage reg fd (mp_os m) = (e, data, buffer, s1)"
    using prod_cases4 by blast
  have m1: "e = ERR_NONE" "m1 = m\<lparr>mp_handles := (mp_handles m)(p := buffer), mp_os := s1\<rparr>"
    using assms(1,3) fd lb by (simp_all add: lock_def)
  obtain l t w ht where reg: "reg = (l, t, w, ht)"
    using prod_cases4 by blast
  obtain result d h1 s2 where lk: "mali_gralloc_lock (pl_os L) (pl_hal L) h usage l t w ht True (mp_os m) = (result, d, h1, s2)"
    using prod_cases4 by blast
  have "\<not> (cpu_write h \<noteq> 0 \<and> usage AND CPU_WRITE_MASK \<noteq> 0 \<and> get_base (alloc_format h) \<noteq> fmt_value (pl_hal L) FMT_BLOB)"
  proof
    assume "cpu_write h \<noteq> 0 \<and> usage AND CPU_WRITE_MASK \<noteq> 0 \<and> get_base (alloc_format h) \<noteq> fmt_value (pl_hal L) FMT_BLOB"
    then have "e = ERR_BAD_BUFFER"
      using lb cast by (simp add: lockBuffer_def)
    then show False
      using m1(1) by simp
  qed
  then have res: "result = 0" "buffer = Some h1"
    using lb cast m1(1) reg lk by (cases "result = 0"; auto simp: lockBuffer_def split: if_splits)+
  note h1 = write_lock_marks [OF lk [unfolded res(1)] assms(2)]
  have "registered m1 p = Some h1"
    using m1 res pool h1(3) [OF cast] by (simp add: registered_def pool_get_def)
  moreover obtain fd' where "getFenceFd fence' = Some fd'"
    using assms(6) by blast
  moreover obtain l' t' w' ht' where "reg' = (l', t', w', ht')"
    using prod_cases4 by blast
  ultimately show ?thesis
    using h1 cast assms(4,5) m1 res by (auto simp: lock_def lockBuffer_def)
qed

text \<open>A buffer that has just been imported can be unlocked without having been locked. Its lock count is what the
  memory of the new handle happened to hold, so that the check for an unlocked buffer in \<open>unlock\<close> depends on it.\<close>

theorem unlock_after_import:
  assumes "os_new_handle (pl_os L) (mp_os m) = (Some (p, junk), s)"
    and "importBuffer L g m = Inr ((ERR_NONE, q), m1)"
  shows "q = Some p \<and> (fst (fst (unlock L p m1)) = (if junk_lock_count junk = 0 then ERR_BAD_BUFFER else ERR_NONE))"
proof -
  obtain ph fds a s' where ph: "handle_cast raw g = Some ph" and q: "q = Some p"
    and m1: "m1 = m\<lparr>mp_pool := p # mp_pool m, mp_handles := (mp_handles m)(p \<mapsto> (imported_copy ph fds junk)
      \<lparr>attr_base := a, import_pid := os_getpid (pl_os L) s', h_base := nullptr, cpu_write := 0\<rparr>), mp_os := s'\<rparr>"
    by (rule import_success [OF assms(2)]) (use assms(1) in simp)
  let ?h = "imported_copy ph fds junk\<lparr>attr_base := a, import_pid := os_getpid (pl_os L) s', h_base := nullptr, cpu_write := 0\<rparr>"
  have "handle_cast imported (Some ?h) = Some ?h"
    using ph by (auto simp: handle_cast_eq_Some)
  then show ?thesis
    unfolding q m1 by (auto simp: unlock_def pool_get_def unlockBuffer_def mali_gralloc_unlock_def split: prod.splits)
qed

section \<open>What can be set\<close>

text \<open>The table of descriptions agrees with \<open>set\<close>: an item of the standard is listed as settable exactly if
  setting it is not refused because of its type.\<close>

theorem settable_as_described:
  assumes "inj (g4_metadata_type G)" and "\<And>t. mt_name (g4_metadata_type G t) \<noteq> GRALLOC_ARM_METADATA_TYPE_NAME"
  shows "is_mutable G sdk33 (g4_metadata_type G t) \<longleftrightarrow> t \<in> settable_types sdk33"
proof -
  have eq: "g4_metadata_type G u = g4_metadata_type G v \<longleftrightarrow> u = v" for u v
    using assms(1) by (simp add: inj_eq)
  have arm: "\<lparr>mt_name = GRALLOC_ARM_METADATA_TYPE_NAME, mt_value = PLANE_FDS\<rparr> \<noteq> g4_metadata_type G u" for u
    using assms(2) [of u] by (metis MetadataType.select_convs(1))
  show ?thesis
    by (cases t; cases sdk33)
      (simp_all add: is_mutable_def descriptions_def standard_descriptions_def settable_types_def eq arm)
qed

section \<open>Runs of the simulation\<close>

text \<open>The process has one number, as no fork happens.\<close>

definition mapper_platform :: "(meta_sim, string \<rightharpoonup> string) platform" where
  "mapper_platform = meta_platform\<lparr>pl_os := sim_os\<lparr>os_getpid := (\<lambda>_. 42)\<rparr>\<rparr>"

definition mapper_start :: "meta_sim mapper_state" where
  "mapper_start = \<lparr>mp_pool = [], mp_handles = (\<lambda>_. None), mp_os = meta_start\<rparr>"

lemma mapper_platform_simps [simp]:
  "pl_os mapper_platform = sim_os\<lparr>os_getpid := (\<lambda>_. 42)\<rparr>" "pl_mem mapper_platform = sim_memory"
  "pl_cfg mapper_platform = rk_build" "pl_hal mapper_platform = hal_sample"
  by (simp_all add: mapper_platform_def)

lemma mapper_platform_documented: "os_documented (pl_os mapper_platform) sim_fds sim_maps"
  using sim_documented unfolding os_documented_def by simp

lemma sample_handle_raw: "handle_cast raw (Some sample_handle) = Some sample_handle"
  by (simp add: handle_cast_eq_Some sample_handle_def make_private_handle_def sim_os_def)

lemma sample_imported_cast: "handle_cast imported (Some sample_imported) = Some sample_imported"
  by (simp add: handle_cast_eq_Some sample_imported_def sample_handle_def make_private_handle_def sim_os_def)

lemma sample_import:
  assumes g: "handle_cast raw (Some g) = Some g"
  obtains m where "importBuffer mapper_platform (Some g) mapper_start = Inr ((ERR_NONE, Some 24), m)"
    and "sim_fds (mp_os m) = {4, 5}" and "mp_pool m = [24]"
proof -
  define h where "h = (imported_copy g [4, 5] sim_junk)
    \<lparr>attr_base := 0x6000, import_pid := 42, h_base := nullptr, cpu_write := 0\<rparr>"
  define s where "s = meta_start\<lparr>sim_next := 7, sim_fds := {4, 5}, sim_maps := {(0x6000, attr_size g)}\<rparr>"
  have make: "make_imported_handle (sim_os\<lparr>os_getpid := (\<lambda>_. 42)\<rparr>) g meta_start =
      (Some (24, imported_copy g [4, 5] sim_junk), meta_start\<lparr>sim_next := 6, sim_fds := {4, 5}\<rparr>)"
    by (simp add: make_imported_handle_def sim_os_def sim_open_def Let_def insert_commute)
  have n: "numFds g = PRIVATE_HANDLE_NUM_FDS" "numInts g = PRIVATE_HANDLE_NUM_INTS"
    using g by (simp_all add: handle_cast_eq_Some)
  have mmap: "os_mmap sim_os (meta_start\<lparr>sim_next := 6, sim_fds := {4, 5}\<rparr>) k 5 = (Inr 0x6000,
      meta_start\<lparr>sim_next := 7, sim_fds := {4, 5}, sim_maps := {(0x6000, k)}\<rparr>)" for k
    by (simp add: sim_os_def sim_mmap_def nullptr_def MAP_FAILED_def Let_def)
  have "importBuffer mapper_platform (Some g) mapper_start =
      Inr ((ERR_NONE, Some 24), \<lparr>mp_pool = [24], mp_handles = (\<lambda>_. None)(24 \<mapsto> h), mp_os = s\<rparr>)"
    unfolding importBuffer_def Let_def mapper_start_def
    by (simp add: g make mmap pool_add_def c_assert_def n h_def s_def nullptr_def)
  then show thesis
    by (rule that) (simp_all add: s_def)
qed

theorem mapper_balanced_witness:
  "\<exists>m1 m2. importBuffer mapper_platform (Some sample_handle) mapper_start = Inr ((ERR_NONE, Some 24), m1) \<and>
    freeBuffer mapper_platform 24 m1 = (ERR_NONE, m2) \<and>
    sim_fds (mp_os m1) = {4, 5} \<and> sim_fds (mp_os m2) = {} \<and> sim_maps (mp_os m2) = {}"
proof -
  obtain m1 where m1: "importBuffer mapper_platform (Some sample_handle) mapper_start = Inr ((ERR_NONE, Some 24), m1)"
    "sim_fds (mp_os m1) = {4, 5}" "mp_pool m1 = [24]"
    by (rule sample_import [OF sample_handle_raw])
  obtain e m2 where m2: "freeBuffer mapper_platform 24 m1 = (e, m2)"
    by fastforce
  have start: "mp_pool mapper_start = []" "sim_fds (mp_os mapper_start) = {}" "sim_maps (mp_os mapper_start) = {}"
    by (simp_all add: mapper_start_def)
  have pid: "os_getpid (pl_os mapper_platform) s = 42" for s
    by simp
  have run1: "mapper_run mapper_platform sample_gralloc4 False mapper_start m1"
    by (rule run_import [OF run_start m1(1)])
  have run2: "mapper_run mapper_platform sample_gralloc4 False mapper_start m2"
    by (rule run_free [OF run1 m2])
  note balanced = mapper_balanced [where fds = sim_fds and maps = sim_maps, OF mapper_platform_documented _ pid start(1)]
  have "registered m1 24 \<noteq> None"
    using balanced [OF _ _ run1] m1(3) start by (simp add: sim_memory_documented)
  then have "e = ERR_NONE" "mp_pool m2 = []"
    using m2 m1(3) by (auto simp: freeBuffer_def registered_def pool_get_def pool_remove_def Let_def split: option.splits)
  then show ?thesis
    using balanced [OF _ _ run2] start m1 m2 by (auto simp: sim_memory_documented)
qed

theorem unlock_after_import_witness:
  "\<exists>m1. importBuffer mapper_platform (Some sample_handle) mapper_start = Inr ((ERR_NONE, Some 24), m1) \<and>
    fst (fst (unlock mapper_platform 24 m1)) = ERR_NONE"
proof -
  obtain m1 where m1: "importBuffer mapper_platform (Some sample_handle) mapper_start = Inr ((ERR_NONE, Some 24), m1)"
    by (rule sample_import [OF sample_handle_raw])
  have "os_new_handle (pl_os mapper_platform) (mp_os mapper_start) = (Some (24, sim_junk), meta_start\<lparr>sim_next := 4\<rparr>)"
    by (simp add: sim_os_def mapper_start_def)
  with m1 show ?thesis
    using unlock_after_import [of mapper_platform mapper_start 24 sim_junk "meta_start\<lparr>sim_next := 4\<rparr>" "Some sample_handle" "Some 24" m1]
    by (simp add: sim_junk_def)
qed

text \<open>A buffer that is locked for writing, on a system without metadata.\<close>

definition plain_platform :: "(sim, string \<rightharpoonup> string) platform" where
  "plain_platform = \<lparr>pl_cfg = rk_build, pl_os = sim_os,
     pl_mem = \<lparr>md_read = (\<lambda>_ _. make_shared_metadata ''''), md_write = (\<lambda>s _ _. s)\<rparr>, pl_props = map_properties,
     pl_hal = hal_sample, pl_caps = [], pl_heaps = sample_names, pl_dataspaces = (\<lambda>_. 0),
     pl_sitings = pl_sitings meta_platform\<rparr>"

definition one_buffer :: "sim mapper_state" where
  "one_buffer = \<lparr>mp_pool = [64], mp_handles = (\<lambda>_. None)(64 \<mapsto> sample_imported), mp_os = sim_start\<rparr>"

theorem write_lock_exclusive_witness:
  "\<exists>m1. lock plain_platform 64 GRALLOC_USAGE_SW_WRITE_OFTEN (0, 0, 640, 480) None one_buffer = ((ERR_NONE, 0x3000), m1) \<and>
    lock plain_platform 64 GRALLOC_USAGE_SW_WRITE_RARELY (0, 0, 320, 480) None m1 = ((ERR_BAD_BUFFER, nullptr), m1)"
proof -
  have reg: "registered one_buffer 64 = Some sample_imported"
    using sample_imported_cast by (simp add: registered_def one_buffer_def pool_get_def)
  have usage: "GRALLOC_USAGE_SW_WRITE_OFTEN AND CPU_WRITE_MASK \<noteq> 0" "GRALLOC_USAGE_SW_WRITE_RARELY AND CPU_WRITE_MASK \<noteq> 0"
    by (simp_all add: usage_values CPU_WRITE_MASK_def)
  have sys: "pl_os plain_platform = sim_os" "pl_hal plain_platform = hal_sample" "mp_os one_buffer = sim_start"
    by (simp_all add: plain_platform_def one_buffer_def)
  have "get_base (from_private 1) \<noteq> fmt_value hal_sample FMT_BLOB"
    by code_simp
  then have base: "get_base (alloc_format sample_imported) \<noteq> fmt_value (pl_hal plain_platform) FMT_BLOB"
    by (simp add: sys)
  have "lockBuffer plain_platform (Some sample_imported) GRALLOC_USAGE_SW_WRITE_OFTEN (0, 0, 640, 480) (- 1) sim_start =
      (ERR_NONE, 0x3000, Some (sample_imported\<lparr>lock_count := 1, h_base := 0x3000, cpu_write := 1\<rparr>), sample_mapped)"
    using sample_first_lock [OF sample_access(1) refl]
    by (simp add: lockBuffer_def sample_imported_cast sys sample_access(3) value_or_def)
  then obtain m1 where m1: "lock plain_platform 64 GRALLOC_USAGE_SW_WRITE_OFTEN (0, 0, 640, 480) None one_buffer = ((ERR_NONE, 0x3000), m1)"
    using reg by (simp add: lock_def getFenceFd_def sys)
  then show ?thesis
    using write_lock_exclusive [OF m1 usage(1) reg base usage(2), of None "(0, 0, 320, 480)"] by (simp add: getFenceFd_def)
qed

text \<open>A library that numbers the types in the order of the enumeration.\<close>

definition all_types :: "StandardMetadataType list" where
  "all_types =
     [SMT_INVALID, SMT_BUFFER_ID, SMT_NAME, SMT_WIDTH, SMT_HEIGHT, SMT_LAYER_COUNT, SMT_PIXEL_FORMAT_REQUESTED,
      SMT_PIXEL_FORMAT_FOURCC, SMT_PIXEL_FORMAT_MODIFIER, SMT_USAGE, SMT_ALLOCATION_SIZE, SMT_PROTECTED_CONTENT,
      SMT_COMPRESSION, SMT_INTERLACED, SMT_CHROMA_SITING, SMT_PLANE_LAYOUTS, SMT_CROP, SMT_DATASPACE, SMT_BLEND_MODE,
      SMT_SMPTE2086, SMT_CTA861_3, SMT_SMPTE2094_40, SMT_SMPTE2094_10, SMT_OTHER]"

definition numbered_gralloc4 :: gralloc4 where
  "numbered_gralloc4 = sample_gralloc4
     \<lparr>g4_metadata_type := (\<lambda>t. \<lparr>mt_name = ''standard'', mt_value = of_nat (length (takeWhile (\<lambda>u. u \<noteq> t) all_types))\<rparr>)\<rparr>"

lemma numbered_left_inverse: "all_types ! unat (mt_value (g4_metadata_type numbered_gralloc4 t)) = t"
  by (cases t) (simp_all add: numbered_gralloc4_def all_types_def)

theorem settable_as_described_witness:
  "is_mutable numbered_gralloc4 False (g4_metadata_type numbered_gralloc4 SMT_CROP) \<and>
   \<not> is_mutable numbered_gralloc4 False (g4_metadata_type numbered_gralloc4 SMT_WIDTH)"
proof -
  have "inj (g4_metadata_type numbered_gralloc4)"
    by (rule inj_on_inverseI [of _ "\<lambda>d. all_types ! unat (mt_value d)"]) (rule numbered_left_inverse)
  moreover have "mt_name (g4_metadata_type numbered_gralloc4 t) \<noteq> GRALLOC_ARM_METADATA_TYPE_NAME" for t
    by (simp add: numbered_gralloc4_def GRALLOC_ARM_METADATA_TYPE_NAME_def)
  ultimately show ?thesis
    using settable_as_described [of numbered_gralloc4 False] by (simp add: settable_types_def)
qed

section \<open>Freeing everything\<close>

text \<open>A client that frees a list of buffers, one after another, with the errors that it is answered.\<close>

primrec free_all :: "('s, 'p) platform \<Rightarrow> ptr list \<Rightarrow> 's mapper_state \<Rightarrow> Error list \<times> 's mapper_state" where
  "free_all L [] m = ([], m)"
| "free_all L (p # ps) m = (case freeBuffer L p m of (e, m1) \<Rightarrow> case free_all L ps m1 of (es, m2) \<Rightarrow> (e # es, m2))"

lemma free_all_effect:
  assumes os: "os_documented (pl_os L) fds maps" and pid: "\<And>s. os_getpid (pl_os L) s = pid"
  shows "mapper_inv fds maps pid F M m \<Longrightarrow> distinct ps \<Longrightarrow> set ps = set (mp_pool m) \<Longrightarrow> free_all L ps m = (es, m') \<Longrightarrow>
    set es \<subseteq> {ERR_NONE} \<and> mp_pool m' = [] \<and> mapper_inv fds maps pid F M m'"
proof (induction ps arbitrary: m es)
  case Nil
  then show ?case by simp
next
  case (Cons p ps)
  obtain e m1 where free: "freeBuffer L p m = (e, m1)"
    by fastforce
  obtain es1 where rest: "free_all L ps m1 = (es1, m')" "es = e # es1"
    using Cons.prems(4) free by (auto split: prod.splits)
  have p: "p \<in> set (mp_pool m)"
    using Cons.prems(3) by auto
  have "set ps = set (mp_pool m1)"
    using Cons.prems(2,3) mapper_invD(1) [OF Cons.prems(1)] free_effect(2) [OF os pid Cons.prems(1) p free]
    by (auto simp: set_remove1_eq)
  then show ?case
    using Cons.IH [OF inv_free [OF os pid Cons.prems(1) free] _ _ rest(1)] Cons.prems(2)
      free_effect(1) [OF os pid Cons.prems(1) p free] rest(2) by simp
qed

lemma free_all_length: "free_all L ps m = (es, m') \<Longrightarrow> length es = length ps"
  by (induction ps arbitrary: m es) (auto split: prod.splits)

text \<open>C16: Everything can always be given back. From any state that the mapper reaches, freeing the registered buffers one
  after another, in any order and whether they are locked or not, succeeds for every one of them, and
  then the pool is empty and the process has the descriptors and mappings that it had at the start.\<close>

theorem mapper_drains:
  assumes "os_documented (pl_os L) fds maps" and "memory_documented (pl_mem L) fds maps"
    and "\<And>s. os_getpid (pl_os L) s = pid" and "mp_pool m0 = []" and "- 1 \<notin> fds (mp_os m0)"
    and "mapper_run L G sdk33 m0 m" and "mset ps = mset (mp_pool m)"
  shows "\<exists>m'. free_all L ps m = (replicate (length (mp_pool m)) ERR_NONE, m') \<and> mp_pool m' = [] \<and>
    fds (mp_os m') = fds (mp_os m0) \<and> maps (mp_os m') = maps (mp_os m0)"
proof -
  have "mapper_inv fds maps pid (fds (mp_os m0)) (maps (mp_os m0)) m0"
    using assms(4,5) by (simp add: mapper_inv_def owns_none)
  then have inv: "mapper_inv fds maps pid (fds (mp_os m0)) (maps (mp_os m0)) m"
    by (rule mapper_run_inv [OF assms(1-3,6)])
  obtain es m' where run: "free_all L ps m = (es, m')"
    by fastforce
  have "distinct ps" "set ps = set (mp_pool m)" "length ps = length (mp_pool m)"
    using mapper_invD(1) [OF inv] assms(7) by (metis mset_eq_imp_distinct_iff, metis mset_eq_setD, metis mset_eq_length)
  note eff = free_all_effect [OF assms(1,3) inv this(1,2) run]
  have "length es = length ps"
    by (rule free_all_length [OF run])
  then have "es = replicate (length (mp_pool m)) ERR_NONE"
    using eff \<open>length ps = _\<close> by (metis replicate_length_same singletonD subsetD)
  then show ?thesis
    using run eff mapper_invD(4,5) [of fds maps pid "fds (mp_os m0)" "maps (mp_os m0)" m'] by (auto simp: owns_none)
qed

theorem mapper_drains_witness:
  "\<exists>m1 m2. importBuffer mapper_platform (Some sample_handle) mapper_start = Inr ((ERR_NONE, Some 24), m1) \<and>
    free_all mapper_platform [24] m1 = ([ERR_NONE], m2) \<and> sim_fds (mp_os m2) = {} \<and> sim_maps (mp_os m2) = {}"
proof -
  obtain m1 where m1: "importBuffer mapper_platform (Some sample_handle) mapper_start = Inr ((ERR_NONE, Some 24), m1)"
    "mp_pool m1 = [24]"
    by (rule sample_import [OF sample_handle_raw])
  have run1: "mapper_run mapper_platform sample_gralloc4 False mapper_start m1"
    by (rule run_import [OF run_start m1(1)])
  show ?thesis
    using mapper_drains [where fds = sim_fds and maps = sim_maps and pid = 42, OF mapper_platform_documented _ _ _ _ run1, where ps = "[24]"]
      m1 sim_memory_documented by (auto simp: mapper_start_def)
qed

end
