(* ===== verification/Buffer_Lifecycle.thy ===== *)
theory Buffer_Lifecycle
  imports Mapper
begin

text \<open>
  The way of a buffer from the service to a client: what an allocation of
  src/src/idl_common/allocator/allocator.cpp answers is what the mapper of another process
  (src/src/idl_common/mapper/mapper.cpp) imports, registers and gives access to.
\<close>

lemma same_buffer_mapped:
  "same_buffer (h\<lparr>attr_base := a, import_pid := b, h_base := c, cpu_write := w\<rparr>) g \<longleftrightarrow> same_buffer h g"
  by (cases h) (simp add: same_buffer_def private_handle_t.defs imported_handle.defs)

lemma import_same_buffer:
  assumes "importBuffer L (Some g) m = Inr ((ERR_NONE, q), m')"
  obtains p i where "q = Some p" and "p \<in> set (mp_pool m')" and "mp_handles m' p = Some i" and "same_buffer i g"
proof -
  obtain ph p fds junk a s' where ph: "handle_cast raw (Some g) = Some ph" and q: "q = Some p"
    and m': "m' = m\<lparr>mp_pool := p # mp_pool m, mp_handles := (mp_handles m)(p \<mapsto> (imported_copy ph fds junk)
      \<lparr>attr_base := a, import_pid := os_getpid (pl_os L) s', h_base := nullptr, cpu_write := 0\<rparr>), mp_os := s'\<rparr>"
    by (rule import_success [OF assms])
  have "ph = g"
    using ph by (simp add: handle_cast_eq_Some)
  then have "same_buffer (imported_copy ph fds junk) g"
    using imported_copy_same [of raw g fds junk] ph by simp
  then show thesis
    by (intro that [of p "imported_copy ph fds junk
        \<lparr>attr_base := a, import_pid := os_getpid (pl_os L) s', h_base := nullptr, cpu_write := 0\<rparr>", OF q]) (simp_all add: m' same_buffer_mapped)
qed

lemma same_buffer_fields:
  assumes "same_buffer g h"
  shows "h_width g = h_width h" "h_height g = h_height h" "h_size g = h_size h" "alloc_format g = alloc_format h"
    "plane_info g = plane_info h" "layer_count g = layer_count h" "attr_size g = attr_size h"
    "reserved_region_size g = reserved_region_size h" "backing_store_id g = backing_store_id h"
  using assms by (simp_all add: same_buffer_def private_handle_t.defs)

lemma import_of_service_handle:
  assumes "service_handle reserved h" and "os_documented (pl_os C) cfds cmaps"
    and "importBuffer C (Some h) m = Inr ((ERR_NONE, q), m')"
  obtains p i where "q = Some p" and "registered m' p = Some i" and "same_buffer i h"
    and "(attr_base i, attr_size i) \<in> cmaps (mp_os m')" and "attr_base i \<notin> fst ` cmaps (mp_os m)"
    and "unat (attr_size i) = unat shared_metadata_size + unat reserved" and "reserved_region_size i = reserved"
  using assms(2,3)
proof (cases rule: import_effect)
  case refused
  then show ?thesis by simp
next
  case (success p i s)
  obtain p' i' where "q = Some p'" "mp_handles m' p' = Some i'" "same_buffer i' h"
    using assms(3) by (rule import_same_buffer)
  then have same: "same_buffer i h"
    using success by auto
  have h: "reserved_region_size h = reserved" "attr_size h = shared_metadata_size + reserved" "shared_metadata_size \<le> attr_size h"
    using assms(1) unfolding service_handle_def by blast+
  then have size: "attr_size i = shared_metadata_size + reserved" "reserved_region_size i = reserved"
    "shared_metadata_size \<le> shared_metadata_size + reserved"
    using same_buffer_fields(7,8) [OF same] by (metis, metis, metis)
  then have "unat (attr_size i) = unat shared_metadata_size + unat reserved"
    by (simp add: unat_plus_simple)
  moreover have "registered m' p = Some i"
    using success by (simp add: registered_def pool_get_def)
  ultimately show ?thesis
    using success same size(2) by (intro that [of p i]) simp_all
qed

text \<open>C7: A buffer that the service answers can be used by a client. The import of such a handle is never refused
  as a bad buffer; when it succeeds the client has a registered handle that describes the same buffer,
  with the metadata of the service's size mapped at a new address. If the client asked for a reserved
  region, \<open>getReservedRegion\<close> answers its size and its address behind the metadata, and
  its end is exactly the end of the mapping; without one it is refused.\<close>

theorem allocated_buffer_usable:
  assumes "os_documented (pl_os L) fds maps" and "memory_documented (pl_mem L) fds maps" and "fds_ok (fds s)"
    and "allocate L d n g s = Inr (Inr hs, d', g', s')" and "h \<in> set hs"
    and "os_documented (pl_os C) cfds cmaps" and "importBuffer C (Some h) m = Inr ((e, q), m')"
  shows "e \<noteq> ERR_BAD_BUFFER \<and>
    (e = ERR_NONE \<longrightarrow> (\<exists>p i. q = Some p \<and> registered m' p = Some i \<and> same_buffer i h \<and>
       (attr_base i, attr_size i) \<in> cmaps (mp_os m') \<and> attr_base i \<notin> fst ` cmaps (mp_os m) \<and>
       unat (attr_size i) = unat shared_metadata_size + unat (d_reserved_size d) \<and>
       getReservedRegion m' p =
         (if d_reserved_size d = 0 then (ERR_BAD_BUFFER, 0, 0)
          else (ERR_NONE, attr_base i + shared_metadata_size, d_reserved_size d))))"
proof (intro conjI impI)
  have h: "service_handle (d_reserved_size d) h"
    using allocate_resources [OF assms(1-4)] assms(5) by auto
  then have "handle_cast raw (Some h) = Some h"
    by (simp add: service_handle_def)
  then show "e \<noteq> ERR_BAD_BUFFER"
    using assms(7)
    by (auto simp: importBuffer_def Let_def c_assert_def split: prod.splits option.splits sum.splits bool.splits if_splits)
  assume "e = ERR_NONE"
  then obtain p i where i: "q = Some p" "registered m' p = Some i" "same_buffer i h"
      "(attr_base i, attr_size i) \<in> cmaps (mp_os m')" "attr_base i \<notin> fst ` cmaps (mp_os m)"
      "unat (attr_size i) = unat shared_metadata_size + unat (d_reserved_size d)" "reserved_region_size i = d_reserved_size d"
    using import_of_service_handle [OF h assms(6)] assms(7) by blast
  then show "\<exists>p i. q = Some p \<and> registered m' p = Some i \<and> same_buffer i h \<and>
       (attr_base i, attr_size i) \<in> cmaps (mp_os m') \<and> attr_base i \<notin> fst ` cmaps (mp_os m) \<and>
       unat (attr_size i) = unat shared_metadata_size + unat (d_reserved_size d) \<and>
       getReservedRegion m' p =
         (if d_reserved_size d = 0 then (ERR_BAD_BUFFER, 0, 0)
          else (ERR_NONE, attr_base i + shared_metadata_size, d_reserved_size d))"
    by (intro exI [of _ p] exI [of _ i]) (simp add: getReservedRegion_def)
qed

theorem allocated_buffer_usable_witness:
  "\<exists>h d' g' s' m' i. allocate meta_platform (sample_request 1 GRALLOC_USAGE_SW_WRITE_OFTEN 2) 1 sample_global meta_start =
      Inr (Inr [h], d', g', s') \<and>
    importBuffer mapper_platform (Some h) mapper_start = Inr ((ERR_NONE, Some 24), m') \<and>
    registered m' 24 = Some i \<and> same_buffer i h \<and> getReservedRegion m' 24 = (ERR_BAD_BUFFER, 0, 0)"
proof -
  let ?d = "sample_request 1 GRALLOC_USAGE_SW_WRITE_OFTEN 2"
  have "sample_like ?d" and res: "d_reserved_size ?d = 0"
    using sample_like_request(2) by (simp, simp add: sample_request_def)
  then obtain h d' g' s' where run: "allocate meta_platform ?d 1 sample_global meta_start = Inr (Inr [h], d', g', s')"
    by (rule sample_allocate_one)
  have sys: "os_documented (pl_os meta_platform) sim_fds sim_maps" "memory_documented (pl_mem meta_platform) sim_fds sim_maps"
    "fds_ok (sim_fds meta_start)"
    by (simp_all add: sim_documented sim_memory_documented fds_ok_def)
  have "handle_cast raw (Some h) = Some h"
    using allocate_resources [OF sys run] by (simp add: service_handle_def)
  then obtain m' where m': "importBuffer mapper_platform (Some h) mapper_start = Inr ((ERR_NONE, Some 24), m')"
    by (rule sample_import)
  show ?thesis
    using allocated_buffer_usable [OF sys run _ mapper_platform_documented m'] run m' res by auto
qed

end
