(* ===== verification/Format_Wrappers.thy ===== *)
theory Format_Wrappers
  imports Internal_Format
begin

text \<open>
  The macros that clients pack private formats with (src/src/include/gralloc/formats.h). The macro that removes
  a modifier has an unbalanced parenthesis in the source, so that no use of it compiles; it has no definition.
\<close>

section \<open>The macros\<close>

definition MALI_GRALLOC_INTFMT_AFRC_LUMA_CODING_UNIT_BYTES :: "u32 \<Rightarrow> u32" where
  "MALI_GRALLOC_INTFMT_AFRC_LUMA_CODING_UNIT_BYTES x =
     MALI_GRALLOC_INTFMT_AFRC_RGBA_CODING_UNIT_BYTES x"

definition GRALLOC_PRIVATE_FORMAT_WRAPPER_AFRC_DEFAULT :: "hal_env \<Rightarrow> u32 \<Rightarrow> u32" where
  "GRALLOC_PRIVATE_FORMAT_WRAPPER_AFRC_DEFAULT H x =
     GRALLOC_PRIVATE_FORMAT_WRAPPER_AFRC H x 0"

definition GRALLOC_PRIVATE_FORMAT_WRAPPER_AFRC_RGBA_SCAN :: "hal_env \<Rightarrow> u32 \<Rightarrow> u32 \<Rightarrow> u32" where
  "GRALLOC_PRIVATE_FORMAT_WRAPPER_AFRC_RGBA_SCAN H x n =
     GRALLOC_PRIVATE_FORMAT_WRAPPER_AFRC H x (MALI_GRALLOC_INTFMT_AFRC_RGBA_CODING_UNIT_BYTES n)"

definition GRALLOC_PRIVATE_FORMAT_WRAPPER_AFRC_RGBA_ROT :: "hal_env \<Rightarrow> u32 \<Rightarrow> u32 \<Rightarrow> u32" where
  "GRALLOC_PRIVATE_FORMAT_WRAPPER_AFRC_RGBA_ROT H x n =
     GRALLOC_PRIVATE_FORMAT_WRAPPER_AFRC H x (MALI_GRALLOC_INTFMT_AFRC_ROT_LAYOUT OR MALI_GRALLOC_INTFMT_AFRC_RGBA_CODING_UNIT_BYTES n)"

definition GRALLOC_PRIVATE_FORMAT_WRAPPER_AFRC_YUV_SCAN :: "hal_env \<Rightarrow> u32 \<Rightarrow> u32 \<Rightarrow> u32 \<Rightarrow> u32" where
  "GRALLOC_PRIVATE_FORMAT_WRAPPER_AFRC_YUV_SCAN H x n c =
     GRALLOC_PRIVATE_FORMAT_WRAPPER_AFRC H x
       (MALI_GRALLOC_INTFMT_AFRC_LUMA_CODING_UNIT_BYTES n OR MALI_GRALLOC_INTFMT_AFRC_CHROMA_CODING_UNIT_BYTES c)"

definition GRALLOC_PRIVATE_FORMAT_WRAPPER_AFRC_YUV_ROT :: "hal_env \<Rightarrow> u32 \<Rightarrow> u32 \<Rightarrow> u32 \<Rightarrow> u32" where
  "GRALLOC_PRIVATE_FORMAT_WRAPPER_AFRC_YUV_ROT H x n c =
     GRALLOC_PRIVATE_FORMAT_WRAPPER_AFRC H x
       (MALI_GRALLOC_INTFMT_AFRC_ROT_LAYOUT OR MALI_GRALLOC_INTFMT_AFRC_LUMA_CODING_UNIT_BYTES n OR MALI_GRALLOC_INTFMT_AFRC_CHROMA_CODING_UNIT_BYTES c)"

definition GRALLOC_PRIVATE_FORMAT_WRAPPER :: "hal_env \<Rightarrow> u32 \<Rightarrow> u32" where
  "GRALLOC_PRIVATE_FORMAT_WRAPPER H x =
     mali_gralloc_format_wrapper H x 0"

definition GRALLOC_PRIVATE_FORMAT_WRAPPER_BLOCK_LINEAR :: "hal_env \<Rightarrow> u32 \<Rightarrow> u32" where
  "GRALLOC_PRIVATE_FORMAT_WRAPPER_BLOCK_LINEAR H x =
     mali_gralloc_format_wrapper H x MALI_GRALLOC_INTFMT_BLOCK_LINEAR_BASIC"

definition GRALLOC_PRIVATE_FORMAT_WRAPPER_AFBC_SPLITBLK :: "hal_env \<Rightarrow> u32 \<Rightarrow> u32" where
  "GRALLOC_PRIVATE_FORMAT_WRAPPER_AFBC_SPLITBLK H x =
     GRALLOC_PRIVATE_FORMAT_WRAPPER_ADD_MODIFIER (GRALLOC_PRIVATE_FORMAT_WRAPPER_AFBC H x)
       MALI_GRALLOC_INTFMT_AFBC_SPLITBLK"

definition GRALLOC_PRIVATE_FORMAT_WRAPPER_AFBC_WIDEBLK :: "hal_env \<Rightarrow> u32 \<Rightarrow> u32" where
  "GRALLOC_PRIVATE_FORMAT_WRAPPER_AFBC_WIDEBLK H x =
     GRALLOC_PRIVATE_FORMAT_WRAPPER_ADD_MODIFIER (GRALLOC_PRIVATE_FORMAT_WRAPPER_AFBC H x)
       MALI_GRALLOC_INTFMT_AFBC_WIDEBLK"

definition GRALLOC_PRIVATE_FORMAT_WRAPPER_AFBC_WIDE_SPLIT :: "hal_env \<Rightarrow> u32 \<Rightarrow> u32" where
  "GRALLOC_PRIVATE_FORMAT_WRAPPER_AFBC_WIDE_SPLIT H x =
     GRALLOC_PRIVATE_FORMAT_WRAPPER_ADD_MODIFIER (GRALLOC_PRIVATE_FORMAT_WRAPPER_AFBC_SPLITBLK H x)
       MALI_GRALLOC_INTFMT_AFBC_WIDEBLK"

definition GRALLOC_PRIVATE_FORMAT_WRAPPER_AFBC_TILED_HEADERS_BASIC :: "hal_env \<Rightarrow> u32 \<Rightarrow> u32" where
  "GRALLOC_PRIVATE_FORMAT_WRAPPER_AFBC_TILED_HEADERS_BASIC H x =
     GRALLOC_PRIVATE_FORMAT_WRAPPER_ADD_MODIFIER (GRALLOC_PRIVATE_FORMAT_WRAPPER_AFBC H x)
       MALI_GRALLOC_INTFMT_AFBC_TILED_HEADERS"

definition GRALLOC_PRIVATE_FORMAT_WRAPPER_AFBC_TILED_HEADERS_WIDE :: "hal_env \<Rightarrow> u32 \<Rightarrow> u32" where
  "GRALLOC_PRIVATE_FORMAT_WRAPPER_AFBC_TILED_HEADERS_WIDE H x =
     GRALLOC_PRIVATE_FORMAT_WRAPPER_ADD_MODIFIER (GRALLOC_PRIVATE_FORMAT_WRAPPER_AFBC_WIDEBLK H x)
       MALI_GRALLOC_INTFMT_AFBC_TILED_HEADERS"

definition GRALLOC_PRIVATE_FORMAT_WRAPPER_AFBC_TILED_HEADERS_SPLIT :: "hal_env \<Rightarrow> u32 \<Rightarrow> u32" where
  "GRALLOC_PRIVATE_FORMAT_WRAPPER_AFBC_TILED_HEADERS_SPLIT H x =
     GRALLOC_PRIVATE_FORMAT_WRAPPER_ADD_MODIFIER (GRALLOC_PRIVATE_FORMAT_WRAPPER_AFBC_SPLITBLK H x)
       MALI_GRALLOC_INTFMT_AFBC_TILED_HEADERS"

definition GRALLOC_PRIVATE_FORMAT_WRAPPER_AFBC_TILED_HEADERS_WIDE_SPLIT :: "hal_env \<Rightarrow> u32 \<Rightarrow> u32" where
  "GRALLOC_PRIVATE_FORMAT_WRAPPER_AFBC_TILED_HEADERS_WIDE_SPLIT H x =
     GRALLOC_PRIVATE_FORMAT_WRAPPER_ADD_MODIFIER (GRALLOC_PRIVATE_FORMAT_WRAPPER_AFBC_WIDE_SPLIT H x)
       MALI_GRALLOC_INTFMT_AFBC_TILED_HEADERS"

definition GRALLOC_PRIVATE_FORMAT_WRAPPER_AFBC_EXTRAWIDEBLK :: "hal_env \<Rightarrow> u32 \<Rightarrow> u32" where
  "GRALLOC_PRIVATE_FORMAT_WRAPPER_AFBC_EXTRAWIDEBLK H x =
     GRALLOC_PRIVATE_FORMAT_WRAPPER_ADD_MODIFIER (GRALLOC_PRIVATE_FORMAT_WRAPPER_AFBC_TILED_HEADERS_BASIC H x)
       MALI_GRALLOC_INTFMT_AFBC_EXTRAWIDEBLK"

definition GRALLOC_PRIVATE_FORMAT_WRAPPER_AFBC_WIDE_EXTRAWIDE :: "hal_env \<Rightarrow> u32 \<Rightarrow> u32" where
  "GRALLOC_PRIVATE_FORMAT_WRAPPER_AFBC_WIDE_EXTRAWIDE H x =
     GRALLOC_PRIVATE_FORMAT_WRAPPER_ADD_MODIFIER (GRALLOC_PRIVATE_FORMAT_WRAPPER_AFBC_EXTRAWIDEBLK H x)
       MALI_GRALLOC_INTFMT_AFBC_WIDEBLK"

definition GRALLOC_PRIVATE_FORMAT_WRAPPER_AFBC_TILED_DOUBLE_BODY :: "hal_env \<Rightarrow> u32 \<Rightarrow> u32" where
  "GRALLOC_PRIVATE_FORMAT_WRAPPER_AFBC_TILED_DOUBLE_BODY H x =
     GRALLOC_PRIVATE_FORMAT_WRAPPER_ADD_MODIFIER (GRALLOC_PRIVATE_FORMAT_WRAPPER_AFBC_TILED_HEADERS_BASIC H x)
       MALI_GRALLOC_INTFMT_AFBC_DOUBLE_BODY"

definition GRALLOC_PRIVATE_FORMAT_WRAPPER_AFBC_TILED_SPLIT_DOUBLE_BODY :: "hal_env \<Rightarrow> u32 \<Rightarrow> u32" where
  "GRALLOC_PRIVATE_FORMAT_WRAPPER_AFBC_TILED_SPLIT_DOUBLE_BODY H x =
     GRALLOC_PRIVATE_FORMAT_WRAPPER_ADD_MODIFIER (GRALLOC_PRIVATE_FORMAT_WRAPPER_AFBC_TILED_HEADERS_SPLIT H x)
       MALI_GRALLOC_INTFMT_AFBC_DOUBLE_BODY"

lemmas wrapper_defs =
  GRALLOC_PRIVATE_FORMAT_WRAPPER_AFRC_DEFAULT_def
  GRALLOC_PRIVATE_FORMAT_WRAPPER_AFRC_RGBA_SCAN_def
  GRALLOC_PRIVATE_FORMAT_WRAPPER_AFRC_RGBA_ROT_def
  GRALLOC_PRIVATE_FORMAT_WRAPPER_AFRC_YUV_SCAN_def
  GRALLOC_PRIVATE_FORMAT_WRAPPER_AFRC_YUV_ROT_def
  GRALLOC_PRIVATE_FORMAT_WRAPPER_def
  GRALLOC_PRIVATE_FORMAT_WRAPPER_BLOCK_LINEAR_def
  GRALLOC_PRIVATE_FORMAT_WRAPPER_AFBC_SPLITBLK_def
  GRALLOC_PRIVATE_FORMAT_WRAPPER_AFBC_WIDEBLK_def
  GRALLOC_PRIVATE_FORMAT_WRAPPER_AFBC_WIDE_SPLIT_def
  GRALLOC_PRIVATE_FORMAT_WRAPPER_AFBC_TILED_HEADERS_BASIC_def
  GRALLOC_PRIVATE_FORMAT_WRAPPER_AFBC_TILED_HEADERS_WIDE_def
  GRALLOC_PRIVATE_FORMAT_WRAPPER_AFBC_TILED_HEADERS_SPLIT_def
  GRALLOC_PRIVATE_FORMAT_WRAPPER_AFBC_TILED_HEADERS_WIDE_SPLIT_def
  GRALLOC_PRIVATE_FORMAT_WRAPPER_AFBC_EXTRAWIDEBLK_def
  GRALLOC_PRIVATE_FORMAT_WRAPPER_AFBC_WIDE_EXTRAWIDE_def
  GRALLOC_PRIVATE_FORMAT_WRAPPER_AFBC_TILED_DOUBLE_BODY_def
  GRALLOC_PRIVATE_FORMAT_WRAPPER_AFBC_TILED_SPLIT_DOUBLE_BODY_def
  GRALLOC_PRIVATE_FORMAT_WRAPPER_ADD_MODIFIER_def GRALLOC_PRIVATE_FORMAT_WRAPPER_AFBC_def GRALLOC_PRIVATE_FORMAT_WRAPPER_AFRC_def

section \<open>What they pack\<close>

lemma add_modifier_wrapper:
  assumes "m AND NOT MALI_GRALLOC_INTFMT_EXT_MASK = 0" and "n AND NOT MALI_GRALLOC_INTFMT_EXT_MASK = 0"
  shows "GRALLOC_PRIVATE_FORMAT_WRAPPER_ADD_MODIFIER (mali_gralloc_format_wrapper H x m) n =
    mali_gralloc_format_wrapper H x (m OR n)"
  using assms by (simp add: GRALLOC_PRIVATE_FORMAT_WRAPPER_ADD_MODIFIER_def mali_gralloc_format_wrapper_def
      bit.conj_disj_distrib bit.conj_disj_distrib2 ac_simps)

text \<open>The packed formats for a base format, each with the features that its macro names.\<close>

definition afbc_wrappers :: "hal_env \<Rightarrow> u32 \<Rightarrow> (u32 \<times> u32) list" where
  "afbc_wrappers H x =
     [(GRALLOC_PRIVATE_FORMAT_WRAPPER_AFBC H x, 0),
      (GRALLOC_PRIVATE_FORMAT_WRAPPER_AFBC_SPLITBLK H x, MALI_GRALLOC_INTFMT_AFBC_SPLITBLK),
      (GRALLOC_PRIVATE_FORMAT_WRAPPER_AFBC_WIDEBLK H x, MALI_GRALLOC_INTFMT_AFBC_WIDEBLK),
      (GRALLOC_PRIVATE_FORMAT_WRAPPER_AFBC_WIDE_SPLIT H x,
       MALI_GRALLOC_INTFMT_AFBC_WIDEBLK OR MALI_GRALLOC_INTFMT_AFBC_SPLITBLK),
      (GRALLOC_PRIVATE_FORMAT_WRAPPER_AFBC_TILED_HEADERS_BASIC H x, MALI_GRALLOC_INTFMT_AFBC_TILED_HEADERS),
      (GRALLOC_PRIVATE_FORMAT_WRAPPER_AFBC_TILED_HEADERS_WIDE H x,
       MALI_GRALLOC_INTFMT_AFBC_TILED_HEADERS OR MALI_GRALLOC_INTFMT_AFBC_WIDEBLK),
      (GRALLOC_PRIVATE_FORMAT_WRAPPER_AFBC_TILED_HEADERS_SPLIT H x,
       MALI_GRALLOC_INTFMT_AFBC_TILED_HEADERS OR MALI_GRALLOC_INTFMT_AFBC_SPLITBLK),
      (GRALLOC_PRIVATE_FORMAT_WRAPPER_AFBC_TILED_HEADERS_WIDE_SPLIT H x,
       MALI_GRALLOC_INTFMT_AFBC_TILED_HEADERS OR MALI_GRALLOC_INTFMT_AFBC_WIDEBLK OR MALI_GRALLOC_INTFMT_AFBC_SPLITBLK),
      (GRALLOC_PRIVATE_FORMAT_WRAPPER_AFBC_EXTRAWIDEBLK H x,
       MALI_GRALLOC_INTFMT_AFBC_TILED_HEADERS OR MALI_GRALLOC_INTFMT_AFBC_EXTRAWIDEBLK),
      (GRALLOC_PRIVATE_FORMAT_WRAPPER_AFBC_WIDE_EXTRAWIDE H x,
       MALI_GRALLOC_INTFMT_AFBC_TILED_HEADERS OR MALI_GRALLOC_INTFMT_AFBC_EXTRAWIDEBLK OR MALI_GRALLOC_INTFMT_AFBC_WIDEBLK),
      (GRALLOC_PRIVATE_FORMAT_WRAPPER_AFBC_TILED_DOUBLE_BODY H x,
       MALI_GRALLOC_INTFMT_AFBC_TILED_HEADERS OR MALI_GRALLOC_INTFMT_AFBC_DOUBLE_BODY),
      (GRALLOC_PRIVATE_FORMAT_WRAPPER_AFBC_TILED_SPLIT_DOUBLE_BODY H x,
       MALI_GRALLOC_INTFMT_AFBC_TILED_HEADERS OR MALI_GRALLOC_INTFMT_AFBC_SPLITBLK OR MALI_GRALLOC_INTFMT_AFBC_DOUBLE_BODY)]"

text \<open>Every AFBC macro packs the base format with the basic and the sparse bit and exactly the features it names.\<close>

lemma afbc_wrappers_pack:
  "(w, m) \<in> set (afbc_wrappers H x) \<Longrightarrow>
   w = mali_gralloc_format_wrapper H x (MALI_GRALLOC_INTFMT_AFBC_BASIC OR MALI_GRALLOC_INTFMT_AFBC_SPARSE OR m)"
  by (auto simp: afbc_wrappers_def wrapper_defs(7-) add_modifier_wrapper [unfolded GRALLOC_PRIVATE_FORMAT_WRAPPER_ADD_MODIFIER_def]
      intfmt_values)

lemma afbc_wrapper_format:
  assumes "(w, m) \<in> set (afbc_wrappers H x)"
  shows "from_private w = \<lparr>m_format = mali_gralloc_format_compress H x,
      m_modifiers = MALI_GRALLOC_INTFMT_AFBC_BASIC OR MALI_GRALLOC_INTFMT_AFBC_SPARSE OR m\<rparr>"
    and "mali_gralloc_format_is_private w"
proof -
  have "(MALI_GRALLOC_INTFMT_AFBC_BASIC OR MALI_GRALLOC_INTFMT_AFBC_SPARSE OR m) AND NOT MALI_GRALLOC_INTFMT_EXT_MASK = 0"
    using assms by (auto simp: afbc_wrappers_def intfmt_values)
  then show "from_private w = \<lparr>m_format = mali_gralloc_format_compress H x,
      m_modifiers = MALI_GRALLOC_INTFMT_AFBC_BASIC OR MALI_GRALLOC_INTFMT_AFBC_SPARSE OR m\<rparr>"
    and "mali_gralloc_format_is_private w"
    using from_private_wrapper wrapper_unpacks(3) by (simp_all add: afbc_wrappers_pack [OF assms])
qed

lemma coding_size_cases:
  assumes "n \<le> (3 :: u32)"
  obtains "n = 0" | "n = 1" | "n = 2" | "n = 3"
proof -
  have "unat n < 4"
    using assms by (simp add: word_le_nat_alt)
  then have "unat n = 0 \<or> unat n = 1 \<or> unat n = 2 \<or> unat n = 3"
    by arith
  then show thesis
    using that by (auto simp: word_unat_eq_iff)
qed

text \<open>The format that an AFRC macro packs: \<open>r\<close> is the rotation layout or nothing.\<close>

definition afrc_format :: "hal_env \<Rightarrow> u32 \<Rightarrow> bool \<Rightarrow> u32 \<Rightarrow> u32 \<Rightarrow> internal_format_t \<Rightarrow> bool" where
  "afrc_format H x r n c f \<longleftrightarrow>
     get_base f = mali_gralloc_format_compress H x \<and> is_afrc f \<and> get_afrc_rot_layout f = r \<and> \<not> is_afbc f \<and>
     get_afrc_luma_coding_size f = n \<and> get_afrc_chroma_coding_size f = c"

lemma afrc_wrapper_format:
  assumes "n \<le> 3" and "c \<le> 3"
  shows "afrc_format H x True n c (from_private (GRALLOC_PRIVATE_FORMAT_WRAPPER_AFRC_YUV_ROT H x n c))"
    and "afrc_format H x False n c (from_private (GRALLOC_PRIVATE_FORMAT_WRAPPER_AFRC_YUV_SCAN H x n c))"
    and "afrc_format H x True n 0 (from_private (GRALLOC_PRIVATE_FORMAT_WRAPPER_AFRC_RGBA_ROT H x n))"
    and "afrc_format H x False n 0 (from_private (GRALLOC_PRIVATE_FORMAT_WRAPPER_AFRC_RGBA_SCAN H x n))"
    and "afrc_format H x False 0 0 (from_private (GRALLOC_PRIVATE_FORMAT_WRAPPER_AFRC_DEFAULT H x))"
proof -
  define pack where "pack rot n c = mali_gralloc_format_wrapper H x (0x20000 OR rot OR push_bit 20 n OR push_bit 22 c)" for rot n c :: u32
  have packed: "afrc_format H x (r = 0x80000) n c (from_private (pack r n c))" if "r \<in> {0, 0x80000}" "n \<le> 3" "c \<le> 3" for r n c
  proof -
    have "(0x20000 OR r OR push_bit 20 n OR push_bit 22 c) AND NOT MALI_GRALLOC_INTFMT_EXT_MASK = 0"
      using that(1) by (cases rule: coding_size_cases [OF that(2)]; cases rule: coding_size_cases [OF that(3)])
        (auto simp: intfmt_values push_bit_eq_mult)
    then have f: "from_private (pack r n c) = \<lparr>m_format = mali_gralloc_format_compress H x,
        m_modifiers = 0x20000 OR r OR push_bit 20 n OR push_bit 22 c\<rparr>"
      unfolding pack_def by (rule from_private_wrapper)
    show ?thesis
      unfolding f afrc_format_def using compress_fits [of H x] that(1)
      by (cases rule: coding_size_cases [OF that(2)]; cases rule: coding_size_cases [OF that(3)])
        (auto simp: get_base_def mali_gralloc_format_get_base_def is_afrc_def is_afbc_def get_afrc_rot_layout_def
          get_modifier_def test_flag_def intfmt_values get_afrc_luma_coding_size_def get_afrc_rgba_coding_size_def
          get_afrc_chroma_coding_size_def MALI_GRALLOC_INTFMT_AFRC_CODING_UNIT_BYTES_MASK_def push_bit_eq_mult drop_bit_eq_div)
  qed
  note sizes = MALI_GRALLOC_INTFMT_AFRC_RGBA_CODING_UNIT_BYTES_def MALI_GRALLOC_INTFMT_AFRC_LUMA_CODING_UNIT_BYTES_def
    MALI_GRALLOC_INTFMT_AFRC_CHROMA_CODING_UNIT_BYTES_def
  show "afrc_format H x True n c (from_private (GRALLOC_PRIVATE_FORMAT_WRAPPER_AFRC_YUV_ROT H x n c))"
    using packed [of "0x80000" n c] assms by (simp add: pack_def wrapper_defs sizes intfmt_values)
  show "afrc_format H x False n c (from_private (GRALLOC_PRIVATE_FORMAT_WRAPPER_AFRC_YUV_SCAN H x n c))"
    using packed [of 0 n c] assms by (simp add: pack_def wrapper_defs sizes intfmt_values)
  show "afrc_format H x True n 0 (from_private (GRALLOC_PRIVATE_FORMAT_WRAPPER_AFRC_RGBA_ROT H x n))"
    using packed [of "0x80000" n 0] assms by (simp add: pack_def wrapper_defs sizes intfmt_values)
  show "afrc_format H x False n 0 (from_private (GRALLOC_PRIVATE_FORMAT_WRAPPER_AFRC_RGBA_SCAN H x n))"
    using packed [of 0 n 0] assms by (simp add: pack_def wrapper_defs sizes intfmt_values)
  show "afrc_format H x False 0 0 (from_private (GRALLOC_PRIVATE_FORMAT_WRAPPER_AFRC_DEFAULT H x))"
    using packed [of 0 0 0] by (simp add: pack_def wrapper_defs intfmt_values)
qed

text \<open>The packing macros say what they pack. For every base format each AFBC macro gives a private format that unpacks
  to the (compressed) base format, is AFBC and sparse and has exactly the layout features in its name, where an
  extra-wide superblock always comes with tiled headers; the AFRC macros give a format with the rotation
  layout exactly for the two rotating ones and with the coding sizes of the arguments.\<close>

theorem wrappers_unpack:
  assumes "n \<le> 3" and "c \<le> 3"
  shows "(\<forall>(w, m) \<in> set (afbc_wrappers H x). mali_gralloc_format_is_private w \<and>
      get_base (from_private w) = mali_gralloc_format_compress H x \<and> is_afbc (from_private w) \<and>
      get_afbc_sparse (from_private w) \<and>
      get_modifiers (from_private w) = MALI_GRALLOC_INTFMT_AFBC_BASIC OR MALI_GRALLOC_INTFMT_AFBC_SPARSE OR m \<and>
      (get_afbc_64x4 (from_private w) \<longrightarrow> get_afbc_tiled_headers (from_private w))) \<and>
    afrc_format H x True n c (from_private (GRALLOC_PRIVATE_FORMAT_WRAPPER_AFRC_YUV_ROT H x n c)) \<and>
    afrc_format H x False n c (from_private (GRALLOC_PRIVATE_FORMAT_WRAPPER_AFRC_YUV_SCAN H x n c))"
proof -
  have "get_base f = mali_gralloc_format_compress H x" if "m_format f = mali_gralloc_format_compress H x" for f
    using that compress_fits [of H x] by (simp add: get_base_def mali_gralloc_format_get_base_def)
  moreover have "get_afbc_64x4 (from_private w) \<longrightarrow> get_afbc_tiled_headers (from_private w)" if "(w, m) \<in> set (afbc_wrappers H x)" for w m
    using that unfolding afbc_wrapper_format [OF that] afbc_wrappers_def
    by (auto simp: get_afbc_64x4_def get_afbc_tiled_headers_def get_modifier_def test_flag_def intfmt_values)
  ultimately show ?thesis
    using afrc_wrapper_format(1,2) [OF assms]
    by (auto simp: afbc_wrapper_format get_modifiers_def is_afbc_def get_afbc_sparse_def get_modifier_def test_flag_def
        intfmt_values bit.conj_disj_distrib2)
qed

theorem wrappers_unpack_witness:
  "get_afrc_luma_coding_size (from_private (GRALLOC_PRIVATE_FORMAT_WRAPPER_AFRC_YUV_ROT hal_sample 0x100 1 2)) = 1 \<and>
   get_modifiers (from_private (GRALLOC_PRIVATE_FORMAT_WRAPPER_AFBC_EXTRAWIDEBLK hal_sample 0x100)) = 0x4610000 \<and>
   get_afbc_tiled_headers (from_private (GRALLOC_PRIVATE_FORMAT_WRAPPER_AFBC_EXTRAWIDEBLK hal_sample 0x100))"
proof -
  have w: "(GRALLOC_PRIVATE_FORMAT_WRAPPER_AFBC_EXTRAWIDEBLK hal_sample 0x100,
      MALI_GRALLOC_INTFMT_AFBC_TILED_HEADERS OR MALI_GRALLOC_INTFMT_AFBC_EXTRAWIDEBLK) \<in> set (afbc_wrappers hal_sample 0x100)"
    by (simp add: afbc_wrappers_def)
  have "(1 :: u32) \<le> 3" "(2 :: u32) \<le> 3"
    by simp_all
  note all = wrappers_unpack [OF this, of hal_sample "0x100"]
  show ?thesis
    using bspec [OF conjunct1 [OF all] w] conjunct2 [OF all]
    by (simp add: afrc_format_def get_afbc_64x4_def get_modifier_def test_flag_def get_modifiers_def intfmt_values)
qed

end
