(* ===== verification/Alloc_Tiles.thy ===== *)
theory Alloc_Tiles
  imports Alloc_Layout
begin

text \<open>
  The two layouts of src/src/core/buffer_allocation.cpp that divide a plane into tiles: AFRC, whose planes are
  paging tiles of 64 coding units of a fixed size, and block linear. For both the byte stride that
  is reported has to agree with the bytes that are reserved.
\<close>

lemma unat_times: "unat a * unat b < 2 ^ LENGTH('a) \<Longrightarrow> unat (a * b :: 'a::len word) = unat a * unat b"
  by (rule unat_mult_lem [THEN iffD1])

section \<open>AFRC\<close>

text \<open>A paging tile has eight by eight or sixteen by four coding units, a coding unit covers one clump of samples.\<close>

definition tile_cols :: "alloc_type_t \<Rightarrow> nat \<Rightarrow> nat" where
  "tile_cols a p = unat (paging_tile_width (at_afrc a)) * unat (clump_width (at_afrc a) ! p)"

definition tile_rows :: "alloc_type_t \<Rightarrow> nat \<Rightarrow> nat" where
  "tile_rows a p = unat (paging_tile_height (at_afrc a)) * unat (clump_height (at_afrc a) ! p)"

lemma afrc_params_cases:
  assumes "alloc_type_wf info a" and "p < npln info" and "at_is_afrc a"
  shows "(paging_tile_width (at_afrc a), paging_tile_height (at_afrc a)) \<in> {(8, 8), (16, 4)}"
    and "(clump_width (at_afrc a) ! p, clump_height (at_afrc a) ! p) \<in> {(8, 8), (16, 4), (8, 4), (4, 4)}"
    and "coding_unit_bytes a p \<in> {16, 24, 32}"
    and "plane_alignment a p = afrc_plane_alignment_requirement (coding_unit_bytes a p)"
proof -
  note wf = assms(1) [unfolded alloc_type_wf_def]
  show tile: "(paging_tile_width (at_afrc a), paging_tile_height (at_afrc a)) \<in> {(8, 8), (16, 4)}"
    using wf assms(3) by blast
  have "clump_of (paging_tile_width (at_afrc a)) (paging_tile_height (at_afrc a)) (ncmp info ! p) =
      Some (clump_width (at_afrc a) ! p, clump_height (at_afrc a) ! p)"
    using wf assms(2,3) by blast
  then show "(clump_width (at_afrc a) ! p, clump_height (at_afrc a) ! p) \<in> {(8, 8), (16, 4), (8, 4), (4, 4)}"
    using clump_of_bounds(2) tile by blast
  show "coding_unit_bytes a p \<in> {16, 24, 32}" "plane_alignment a p = afrc_plane_alignment_requirement (coding_unit_bytes a p)"
    using wf assms(3) by (simp_all add: coding_unit_bytes_def plane_alignment_def)
qed

lemma afrc_params_facts:
  assumes "alloc_type_wf info a" and "p < npln info" and "at_is_afrc a"
  defines "PW \<equiv> unat (paging_tile_width (at_afrc a))" and "PH \<equiv> unat (paging_tile_height (at_afrc a))"
    and "CW \<equiv> unat (clump_width (at_afrc a) ! p)" and "CH \<equiv> unat (clump_height (at_afrc a) ! p)"
    and "U \<equiv> unat (coding_unit_bytes a p)"
  shows "0 < PW" "0 < PH" "4 \<le> CW" "4 \<le> CH" "PW * PH = 64" "PH * CH dvd 64" "U \<le> 32" "PH * CH \<le> 64" "0 < unat (plane_alignment a p)"
    "unat (plane_alignment a p) dvd 64 * U"
  using afrc_params_cases [OF assms(1-3)]
  by (auto simp: PW_def PH_def CW_def CH_def U_def afrc_plane_alignment_requirement_def)

lemma afrc_unit_dvd:
  assumes "row_wf info" and "alloc_type_wf info a" and "p < npln info" and "at_is_afrc a"
  shows "tile_cols a p dvd align_unit_w info a p False" and "tile_rows a p dvd align_unit_h info a p False"
proof -
  have t: "tile_size info \<in> {1, 2, 4, 8, 16, 32, 64, 128}"
    using assms(1) by (simp add: row_wf_def power_of_two_def)
  have a: "\<not> at_is_afbc a"
    using assms(4) by (simp add: at_is_afbc_def at_is_afrc_def)
  note P = afrc_params_cases(1,2) [OF assms(2-4)]
  show "tile_cols a p dvd align_unit_w info a p False"
    using P t unfolding align_unit_w_def pixel_align_def tile_cols_def
    by (simp add: assms(4) a) (elim disjE; simp add: unat_max3)
  show "tile_rows a p dvd align_unit_h info a p False"
    using P t unfolding align_unit_h_def pixel_align_def tile_rows_def
    by (simp add: assms(4) a) (elim disjE; simp add: unat_max3)
qed

lemma afrc_stride_exact:
  assumes wf: "alloc_type_wf info a" "p < npln info" "at_is_afrc a"
    and aw: "unat aw = tile_cols a p * nx" and ah: "unat ah = tile_rows a p * ny" and small: "nx \<le> 512" "nx * ny \<le> 2 ^ 18"
  obtains bs body where "afrc_byte_stride nd a p aw = Inr bs" and "afrc_body_size a p aw ah = Inr body"
    and "unat body = nx * ny * (64 * unat (coding_unit_bytes a p))" and "unat bs * unat ah = unat body"
proof -
  let ?ptw = "paging_tile_width (at_afrc a)" and ?pth = "paging_tile_height (at_afrc a)" and ?cw = "clump_width (at_afrc a) ! p"
    and ?ch = "clump_height (at_afrc a) ! p" and ?u = "coding_unit_bytes a p"
  note F = afrc_params_facts [OF wf]
  have nz: "?ptw \<noteq> 0" "?pth \<noteq> 0" "?cw \<noteq> 0" "?ch \<noteq> 0"
    using F by auto
  have cols: "unat (aw div ?cw) = unat ?ptw * nx" and rows: "unat (ah div ?ch) = unat ?pth * ny"
    using F(3,4) by (simp_all add: unat_div aw ah tile_cols_def tile_rows_def)
  have tiles: "unat (aw div ?cw div ?ptw) = nx"
    using F(1) cols unfolding unat_div [of "aw div ?cw"] by simp
  have nxu: "nx * 64 * unat ?u \<le> 512 * 64 * 32"
    using small(1) F(7) by (intro mult_le_mono) simp_all
  have "unat (aw div ?cw div ?ptw * 64) = nx * 64"
    using small(1) by (subst unat_times) (simp_all add: tiles)
  then have ptbs: "unat (aw div ?cw div ?ptw * 64 * ?u) = nx * 64 * unat ?u"
    using nxu by (subst unat_times) simp_all
  have sh: "unat (?pth * ?ch) = unat ?pth * unat ?ch"
    using F(8) by (intro unat_times) simp
  have shnz: "?pth * ?ch \<noteq> 0"
    using sh F(2,4) by (metis mult_eq_0_iff not_numeral_le_zero unat_0 less_irrefl)
  have "unat ?pth * unat ?ch dvd nx * 64 * unat ?u"
    using F(6) by (meson dvd_mult dvd_mult2)
  then obtain k where k: "nx * 64 * unat ?u = unat ?pth * unat ?ch * k" ..
  have mod: "aw div ?cw div ?ptw * 64 * ?u mod (?pth * ?ch) = 0"
    by (simp only: word_unat_eq_iff unat_mod ptbs sh k) simp
  define bs where "bs = aw div ?cw div ?ptw * 64 * ?u div (?pth * ?ch)"
  have bs: "unat bs = k"
    using sh shnz F(2,4) unfolding bs_def unat_div ptbs sh k by simp
  have "unat ?ptw * nx * (unat ?pth * ny) = (unat ?ptw * unat ?pth) * (nx * ny)"
    by (simp add: ac_simps)
  then have units: "unat ?ptw * nx * (unat ?pth * ny) = 64 * (nx * ny)"
    by (simp only: F(5))
  then have st: "unat (aw div ?cw * (ah div ?ch)) = 64 * (nx * ny)"
    using small(2) by (subst unat_times) (simp_all only: cols rows units, simp_all)
  have "64 * (nx * ny) * unat ?u \<le> 64 * 2 ^ 18 * 32"
    using small(2) F(7) by (intro mult_le_mono) simp_all
  then have body: "unat (aw div ?cw * (ah div ?ch) * ?u) = 64 * (nx * ny) * unat ?u"
    by (subst unat_times) (simp_all add: st)
  have "afrc_byte_stride nd a p aw = Inr bs"
    using nz shnz mod by (simp add: afrc_byte_stride_def c_div_def Let_def c_assert_def bs_def)
  moreover have "afrc_body_size a p aw ah = Inr (aw div ?cw * (ah div ?ch) * ?u)"
    using nz by (simp add: afrc_body_size_def c_div_def)
  moreover have "k * (unat ?pth * unat ?ch * ny) = (unat ?pth * unat ?ch * k) * ny"
    by (simp add: ac_simps)
  then have "unat bs * unat ah = 64 * (nx * ny) * unat ?u"
    unfolding bs ah tile_rows_def k [symmetric] by (simp add: ac_simps)
  ultimately show thesis
    using body by (intro that [of bs "aw div ?cw * (ah div ?ch) * ?u"]) (simp_all add: ac_simps)
qed

lemma afrc_plane_start:
  assumes "alloc_type_wf info a" and "p < npln info" and "at_is_afrc a" and "unat t < 2 ^ 40"
  obtains start where "plane_start a p t = Inr start" and "unat start = align_up (unat t) (unat (plane_alignment a p))"
proof -
  define b :: u64 where "b = ucast (plane_alignment a p)"
  have ub: "unat b = unat (plane_alignment a p)"
    unfolding b_def by (rule unat_ucast_up) simp
  have nz: "0 < unat (plane_alignment a p)"
    by (rule afrc_params_facts(9) [OF assms(1-3)])
  then have "b \<noteq> 0" "plane_alignment a p \<noteq> 0"
    using ub by auto
  moreover have "unat b < 2 ^ 32"
    unfolding ub using unsigned_less [of "plane_alignment a p", where 'a = nat] by simp
  ultimately have "unat (GRALLOC_ALIGN t b) = align_up (unat t) (unat b)"
    using assms(4) by (intro unat_GRALLOC_ALIGN) simp_all
  then show thesis
    using that [of "GRALLOC_ALIGN t b"] assms(3) \<open>plane_alignment a p \<noteq> 0\<close> unfolding ub
    by (simp add: plane_start_def b_def)
qed

lemma afrc_tiles_bound:
  assumes "alloc_type_wf info a" and "p < npln info" and "at_is_afrc a"
    and "tile_cols a p * nx \<le> 8832" and "tile_rows a p * ny \<le> 8448"
  shows "nx \<le> 512" "nx * ny \<le> 2 ^ 18"
proof -
  have "32 \<le> tile_cols a p" "16 \<le> tile_rows a p"
    using afrc_params_cases(1,2) [OF assms(1-3)] by (auto simp: tile_cols_def tile_rows_def)
  then have "32 * nx \<le> 8832" "16 * ny \<le> 8448"
    using assms(4,5) by (meson le_trans mult_le_mono1)+
  then have n: "nx \<le> 276" "ny \<le> 528"
    by simp_all
  then show "nx \<le> 512"
    by simp
  show "nx * ny \<le> 2 ^ 18"
    using mult_le_mono [OF n] by simp
qed



section \<open>Block linear\<close>

definition bl_row :: "format_info_t \<Rightarrow> bool" where
  "bl_row f \<longleftrightarrow> (block_linear f \<longrightarrow> npln f = 2 \<and> tile_size f \<in> {1, 4} \<and> hsub f = 2 \<and> vsub f \<in> {1, 2} \<and>
     (bpp f ! 0, bpp f ! 1) \<in> {(8, 16), (16, 32), (10, 20)})"

lemma bl_row_groups:
  "list_all bl_row (formats_rgb H)" "list_all bl_row (formats_yuv420 H)" "list_all bl_row (formats_yuv422_444 H)"
  "list_all bl_row (formats_yuv_10bit H)" "list_all bl_row (formats_raw H)" "list_all bl_row (formats_depth H)"
  by (simp_all add: formats_defs bl_row_def)

lemma formats_bl_row: "f \<in> set (formats H) \<Longrightarrow> bl_row f"
  using bl_row_groups [of H] by (auto simp: formats_def list_all_iff)

text \<open>The block of a plane in samples, and its size in bytes.\<close>

definition block_cols :: "format_info_t \<Rightarrow> nat \<Rightarrow> nat" where
  "block_cols info p = (if 0 < p then 16 div hsub info else 16)"

definition block_rows :: "format_info_t \<Rightarrow> nat \<Rightarrow> nat" where
  "block_rows info p = (if 0 < p then 16 div vsub info else 16)"

text \<open>A row of whole blocks is a whole number of bytes; the values of a block as the code computes them in 32 bits.\<close>

lemma block_row_whole:
  assumes "16 dvd unat (aw :: u32)" "unat aw \<le> 8832" and b: "b \<in> {8, 10, 16, 20, 32 :: nat}"
  shows "(aw * of_nat b) mod 8 = 0"
proof -
  obtain m where m: "unat aw = 16 * m"
    using assms(1) ..
  have "unat (of_nat b :: u32) = b"
    using b by auto
  then have "unat (aw * of_nat b) = 16 * m * b"
    using assms(2) b m by (subst unat_times) auto
  then show ?thesis
    by (simp only: word_unat_eq_iff unat_mod) (simp add: mult.assoc)
qed

lemma block_values:
  assumes row: "info \<in> set (formats H)" "block_linear info" and p: "p < npln info"
  obtains sh sw bpb :: u32 and k where "(if 0 < p then c_div 16 (of_nat (vsub info)) else Inr 16) = Inr sh"
    and "(if 0 < p then c_div 16 (of_nat (hsub info)) else Inr 16) = Inr sw"
    and "bpb = sh * sw * of_nat (bpp info ! p) div 8" and "bpp info ! p \<in> {8, 10, 16, 20, 32}"
    and "unat sh = block_rows info p" "block_rows info p \<in> {8, 16}" "unat bpb = block_rows info p * k"
    and "8 * k = block_cols info p * bpp info ! p" "k \<le> 64"
proof -
  have r: "npln info = 2" "hsub info = 2" "vsub info \<in> {1, 2}" "(bpp info ! 0, bpp info ! 1) \<in> {(8, 16), (16, 32), (10, 20)}"
    using formats_bl_row [OF row(1)] row(2) by (simp_all add: bl_row_def)
  then have p2: "p = 0 \<or> p = 1"
    using p by (auto simp: less_2_cases_iff)
  let ?k = "block_cols info p * bpp info ! p div 8"
  let ?sh = "of_nat (block_rows info p) :: u32" and ?sw = "of_nat (block_cols info p) :: u32"
  show thesis
  proof (rule that [of ?sh ?sw "?sh * ?sw * of_nat (bpp info ! p) div 8" ?k])
    show "unat (?sh * ?sw * of_nat (bpp info ! p) div 8) = block_rows info p * ?k"
      using p2 r(2,3,4) unfolding block_rows_def block_cols_def by auto
    show "8 * ?k = block_cols info p * bpp info ! p" "?k \<le> 64"
      using p2 r(2,4) unfolding block_cols_def by auto
  qed (use p2 r in \<open>auto simp: block_rows_def block_cols_def c_div_def\<close>)
qed

lemma block_linear_stride:
  assumes row: "info \<in> set (formats H)" "block_linear info" and p: "p < npln info"
    and aw: "16 dvd unat aw" "unat aw \<le> 8832" and aw0: "unat aw0 = 16 * nx" "0 < nx" "nx \<le> 552"
    and ah0: "unat ah0 = 16 * ny" "ny \<le> 528"
  obtains bs body where "block_linear_byte_stride nd info p aw aw0 = Inr bs" and "block_linear_body_size info p bs ah0 = Inr body"
    and "8 * unat bs = nx * block_cols info p * bpp info ! p" and "unat body = unat bs * (ny * block_rows info p)"
proof -
  obtain sh sw bpb :: u32 and k where sizes: "(if 0 < p then c_div 16 (of_nat (vsub info)) else Inr 16) = Inr sh"
      "(if 0 < p then c_div 16 (of_nat (hsub info)) else Inr 16) = Inr sw"
    and bpb_def: "bpb = sh * sw * of_nat (bpp info ! p) div 8" and bits: "bpp info ! p \<in> {8, 10, 16, 20, 32}"
    and sh: "unat sh = block_rows info p" "block_rows info p \<in> {8, 16}" and bpb: "unat bpb = block_rows info p * k"
    and k: "8 * k = block_cols info p * bpp info ! p" "k \<le> 64"
    by (rule block_values [OF row p])
  have nx: "unat (aw0 div 16) = nx" and ny: "unat (ah0 div 16) = ny"
    using aw0 ah0 by (simp_all add: unat_div)
  have nonzero: "0 < aw0 div 16"
    using nx aw0(2) by (simp add: word_less_nat_alt)
  have shnz: "sh \<noteq> 0" "0 < block_rows info p" "block_rows info p \<le> 16"
    using sh by auto
  have small: "nx * k \<le> 552 * 64"
    using aw0(3) k(2) by (rule mult_le_mono)
  then have le: "nx * k * block_rows info p \<le> 552 * 64 * 16"
    using shnz(3) by (rule mult_le_mono)
  moreover have "nx * (block_rows info p * k) = nx * k * block_rows info p"
    by (simp only: mult.assoc mult.commute [of k])
  ultimately have blocks: "unat (aw0 div 16 * bpb) = nx * k * block_rows info p"
    by (subst unat_times) (simp_all only: nx bpb, simp)
  define bs where "bs = aw0 div 16 * bpb div sh"
  have bs: "unat bs = nx * k"
    unfolding bs_def unat_div blocks sh(1) using shnz(2) by simp
  have "bpb mod sh = 0"
    by (simp only: word_unat_eq_iff unat_mod bpb sh(1)) simp
  then have stride: "block_linear_byte_stride nd info p aw aw0 = Inr bs"
    unfolding block_linear_byte_stride_def sizes
    using block_row_whole [OF aw bits] nonzero shnz(1) by (simp add: c_assert_def c_div_def Let_def bs_def bpb_def)
  have line: "unat (bs * sh) = nx * k * block_rows info p"
    using le by (subst unat_times) (simp_all only: bs sh(1), simp)
  have "nx * k * block_rows info p * ny \<le> 552 * 64 * 16 * 528"
    using le ah0(2) by (rule mult_le_mono)
  then have body: "unat (bs * sh * (ah0 div 16)) = nx * k * block_rows info p * ny"
    by (subst unat_times) (simp_all only: line ny, simp)
  have "block_linear_body_size info p bs ah0 = Inr (bs * sh * (ah0 div 16))"
    unfolding block_linear_body_size_def sizes by simp
  then show thesis
    using stride k(1) body bs by (intro that [of bs]) (simp_all add: ac_simps)
qed

lemma block_unit:
  assumes "block_linear info" "info \<in> set (formats H)" and "at_is_block_linear a"
  shows "align_unit_w info a p False = 16" "align_unit_h info a p False = 16"
  using formats_bl_row [OF assms(2)] assms(1,3)
  by (auto simp: bl_row_def align_unit_w_def align_unit_h_def pixel_align_def unat_max3 at_is_block_linear_def
      at_is_afbc_def at_is_afrc_def)



end
