(* ===== verification/Mapper_Threads.thy ===== *)
theory Mapper_Threads
  imports Mapper
begin

text \<open>
  Threads of one process that lock, unlock and free the same buffer (src/src/idl_common/mapper/mapper.cpp,
  src/src/core/buffer_access.cpp). The theory \<open>Mapper\<close> has these operations as one step each. Here they are
  cut at every access to what threads share: the pool (its operations are atomic, by its mutex), the base of the
  mapping (mapping and unmapping are atomic, by \<open>g_map_mutex\<close>; the base is read without it), \<open>lock_count\<close> (an
  atomic integer), \<open>cpu_write\<close> (an \<open>int\<close>; its reads and writes are taken to be atomic, which C++ does not
  promise), the memory of the handle itself, and the system. The other fields of a handle do not change
  between its import and its deletion.
\<close>

section \<open>Requests and positions\<close>

datatype request = Req_lock u64 region fence | Req_unlock | Req_free

datatype answer = Ans_lock Error ptr | Ans_unlock Error fence | Ans_free Error

text \<open>
  Where a thread stands in the code of its request. \<open>Undefined\<close> is the position of a thread that has touched
  a handle after its deletion.
\<close>

datatype position =
    Begin
  | Lock_found | Lock_checked | Lock_mapped | Lock_addressed ptr | Lock_counted ptr | Lock_marked ptr
  | Unlock_found | Unlock_counted | Unlock_flush | Unlock_flushed | Unlock_decrement | Unlock_reset
  | Unlock_released | Unlock_clear
  | Free_removed | Free_mapped | Free_unmapped | Free_attr_unmapped | Free_ready
  | Done answer
  | Undefined

definition touch ::
  "'s mapper_state \<Rightarrow> ptr \<Rightarrow> (imported_handle \<Rightarrow> position \<times> 's mapper_state) \<Rightarrow> position \<times> 's mapper_state" where
  "touch m p f = (case mp_handles m p of None \<Rightarrow> (Undefined, m) | Some h \<Rightarrow> f h)"

definition put_handle :: "'s mapper_state \<Rightarrow> ptr \<Rightarrow> imported_handle \<Rightarrow> 's \<Rightarrow> 's mapper_state" where
  "put_handle m p h s = m\<lparr>mp_handles := (mp_handles m)(p \<mapsto> h), mp_os := s\<rparr>"

section \<open>One step of a thread\<close>

text \<open>\<open>buffer_sync\<close>, the part of a lock, and then the part of an unlock.\<close>

fun sync_lock_thread ::
  "'s os \<Rightarrow> tx_direction \<Rightarrow> position \<Rightarrow> imported_handle \<Rightarrow> 's \<Rightarrow> position \<times> imported_handle \<times> 's" where
  "sync_lock_thread Sys d (Lock_addressed a) h s = (Lock_counted a, h\<lparr>lock_count := lock_count h + 1\<rparr>, s)"
| "sync_lock_thread Sys d (Lock_counted a) h s =
     (Lock_marked a, h\<lparr>cpu_write := (if d = TX_TO_DEVICE \<or> d = TX_BOTH then 1 else 0)\<rparr>, s)"
| "sync_lock_thread Sys d (Lock_marked a) h s =
     (Done (Ans_lock ERR_NONE a), h,
      snd (allocator_sync_start Sys h (d = TX_FROM_DEVICE \<or> d = TX_BOTH) (cpu_write h \<noteq> 0) s))"
| "sync_lock_thread Sys d x h s = (x, h, s)"

definition unlock_done :: position where
  "unlock_done = Done (Ans_unlock ERR_NONE (getFenceHandle (- 1)))"

fun sync_unlock_thread ::
  "'s os \<Rightarrow> position \<Rightarrow> imported_handle \<Rightarrow> 's \<Rightarrow> position \<times> imported_handle \<times> 's" where
  "sync_unlock_thread Sys Unlock_counted h s = (if cpu_write h \<noteq> 0 then Unlock_flush else Unlock_flushed, h, s)"
| "sync_unlock_thread Sys Unlock_flush h s =
     (let (status, s1) = allocator_sync_end Sys h False (cpu_write h \<noteq> 0) s
      in (if sint status < 0 then unlock_done else Unlock_flushed, h, s1))"
| "sync_unlock_thread Sys Unlock_flushed h s = (if 0 < sint (lock_count h) then Unlock_decrement else Unlock_reset, h, s)"
| "sync_unlock_thread Sys Unlock_decrement h s = (Unlock_released, h\<lparr>lock_count := lock_count h - 1\<rparr>, s)"
| "sync_unlock_thread Sys Unlock_reset h s = (Unlock_released, h\<lparr>lock_count := 0\<rparr>, s)"
| "sync_unlock_thread Sys Unlock_released h s = (if lock_count h = 0 then Unlock_clear else unlock_done, h, s)"
| "sync_unlock_thread Sys Unlock_clear h s = (unlock_done, h\<lparr>cpu_write := 0\<rparr>, s)"
| "sync_unlock_thread Sys x h s = (x, h, s)"

definition lock_error :: "i32 \<Rightarrow> Error" where
  "lock_error result =
     (if result = GRALLOC1_ERROR_UNSUPPORTED then ERR_BAD_BUFFER
      else if result = - EINVAL then ERR_BAD_VALUE else ERR_NO_RESOURCES)"

fun lock_thread ::
  "('s, 'p) platform \<Rightarrow> ptr \<Rightarrow> u64 \<Rightarrow> region \<Rightarrow> fence \<Rightarrow> position \<Rightarrow> 's mapper_state \<Rightarrow> position \<times> 's mapper_state" where
  "lock_thread L p usage reg fence Begin m =
     (if pool_get p (mp_pool m) = None then (Done (Ans_lock ERR_BAD_BUFFER nullptr), m) else (Lock_found, m))"
| "lock_thread L p usage reg fence Lock_found m =
     touch m p (\<lambda>h.
       (if handle_cast imported (Some h) = None then Done (Ans_lock ERR_BAD_BUFFER nullptr)
        else if getFenceFd fence = None then Done (Ans_lock ERR_BAD_VALUE nullptr)
        else if cpu_write h \<noteq> 0 \<and> usage AND CPU_WRITE_MASK \<noteq> 0 \<and>
                get_base (alloc_format h) \<noteq> fmt_value (pl_hal L) FMT_BLOB
        then Done (Ans_lock ERR_BAD_BUFFER nullptr) else Lock_checked, m))"
| "lock_thread L p usage reg fence Lock_checked m =
     touch m p (\<lambda>h.
       let status = (case reg of (l, t, w, ht) \<Rightarrow>
             validate_lock_input_parameters (pl_os L) h l t w ht usage (mp_os m))
       in if status \<noteq> 0 then (Done (Ans_lock (lock_error status) nullptr), m)
          else if get_base_info (pl_hal L) (alloc_format h) = None
          then (Done (Ans_lock (lock_error (- EINVAL)) nullptr), m)
          else if cpu_access usage then
            (case mali_map_buffer (pl_os L) h (mp_os m) of
               (status1, h1, s1) \<Rightarrow>
                 (if status1 \<noteq> 0 then Done (Ans_lock (lock_error status1) nullptr) else Lock_mapped,
                  put_handle m p h1 s1))
          else (Done (Ans_lock ERR_NONE nullptr), m))"
| "lock_thread L p usage reg fence Lock_mapped m = touch m p (\<lambda>h. (Lock_addressed (h_base h), m))"
| "lock_thread L p usage reg fence x m =
     touch m p (\<lambda>h.
       case sync_lock_thread (pl_os L) (get_tx_direction usage) x h (mp_os m) of (y, h1, s1) \<Rightarrow> (y, put_handle m p h1 s1))"

fun unlock_thread ::
  "('s, 'p) platform \<Rightarrow> ptr \<Rightarrow> position \<Rightarrow> 's mapper_state \<Rightarrow> position \<times> 's mapper_state" where
  "unlock_thread L p Begin m =
     (if pool_get p (mp_pool m) = None then (Done (Ans_unlock ERR_BAD_BUFFER None), m) else (Unlock_found, m))"
| "unlock_thread L p Unlock_found m =
     touch m p (\<lambda>h.
       (if handle_cast imported (Some h) = None then Done (Ans_unlock ERR_BAD_BUFFER None)
        else if lock_count h = 0 then Done (Ans_unlock ERR_BAD_BUFFER None) else Unlock_counted, m))"
| "unlock_thread L p x m =
     touch m p (\<lambda>h.
       case sync_unlock_thread (pl_os L) x h (mp_os m) of (y, h1, s1) \<Rightarrow> (y, put_handle m p h1 s1))"

text \<open>
  The deletion of the handle and the writes to its fields before it are one step: it ends the life of the handle either way.
\<close>

fun free_thread ::
  "('s, 'p) platform \<Rightarrow> ptr \<Rightarrow> position \<Rightarrow> 's mapper_state \<Rightarrow> position \<times> 's mapper_state" where
  "free_thread L p Begin m =
     (case pool_remove p (mp_pool m) of
        (None, pool) \<Rightarrow> (Done (Ans_free ERR_BAD_BUFFER), m\<lparr>mp_pool := pool\<rparr>)
      | (Some q, pool) \<Rightarrow> (Free_removed, m\<lparr>mp_pool := pool\<rparr>))"
| "free_thread L p Free_removed m =
     touch m p (\<lambda>h.
       (if handle_cast imported (Some h) = None then Done (Ans_free ERR_BAD_BUFFER)
        else if import_pid h = os_getpid (pl_os L) (mp_os m) then Free_mapped else Free_ready, m))"
| "free_thread L p Free_mapped m =
     touch m p (\<lambda>h.
       case mali_unmap_buffer (pl_os L) h (mp_os m) of (h1, s1) \<Rightarrow> (Free_unmapped, put_handle m p h1 s1))"
| "free_thread L p Free_unmapped m =
     touch m p (\<lambda>h.
       (Free_attr_unmapped, m\<lparr>mp_os := snd (os_munmap (pl_os L) (mp_os m) (attr_base h) (attr_size h))\<rparr>))"
| "free_thread L p Free_attr_unmapped m =
     touch m p (\<lambda>h. (Free_ready, m\<lparr>mp_os := os_close (pl_os L) (mp_os m) (share_attr_fd h)\<rparr>))"
| "free_thread L p Free_ready m =
     touch m p (\<lambda>h.
       (Done (Ans_free ERR_NONE),
        m\<lparr>mp_handles := (mp_handles m)(p := None),
          mp_os := native_handle_deleter (pl_os L) [share_fd h, - 1] (mp_os m)\<rparr>))"
| "free_thread L p x m = (x, m)"

text \<open>A thread that has its answer, or has left the defined behaviour, does not move.\<close>

definition finished :: "position \<Rightarrow> bool" where
  "finished x \<longleftrightarrow> (case x of Done _ \<Rightarrow> True | Undefined \<Rightarrow> True | _ \<Rightarrow> False)"

definition thread_step ::
  "('s, 'p) platform \<Rightarrow> ptr \<Rightarrow> request \<Rightarrow> position \<Rightarrow> 's mapper_state \<Rightarrow> position \<times> 's mapper_state" where
  "thread_step L p r x m =
     (if finished x then (x, m)
      else case r of
        Req_lock usage reg fence \<Rightarrow> lock_thread L p usage reg fence x m
      | Req_unlock \<Rightarrow> unlock_thread L p x m
      | Req_free \<Rightarrow> free_thread L p x m)"

section \<open>Schedules\<close>

text \<open>
  A schedule names the thread that makes the next step. \<open>R i\<close> is the request of the thread \<open>i\<close>.
\<close>

type_synonym 's threads = "(nat \<Rightarrow> position) \<times> 's mapper_state"

definition move ::
  "('s, 'p) platform \<Rightarrow> ptr \<Rightarrow> (nat \<Rightarrow> request) \<Rightarrow> nat \<Rightarrow> 's threads \<Rightarrow> 's threads" where
  "move L p R i st =
     (case thread_step L p (R i) (fst st i) (snd st) of (x, m) \<Rightarrow> ((fst st)(i := x), m))"

definition schedule ::
  "('s, 'p) platform \<Rightarrow> ptr \<Rightarrow> (nat \<Rightarrow> request) \<Rightarrow> nat list \<Rightarrow> 's threads \<Rightarrow> 's threads" where
  "schedule L p R is st = fold (move L p R) is st"


section \<open>A thread on its own\<close>

text \<open>The answer and the effect of a request as one step.\<close>

definition call ::
  "('s, 'p) platform \<Rightarrow> ptr \<Rightarrow> request \<Rightarrow> 's mapper_state \<Rightarrow> answer \<times> 's mapper_state" where
  "call L p r m =
     (case r of
        Req_lock usage reg fence \<Rightarrow> (case lock L p usage reg fence m of ((e, a), m') \<Rightarrow> (Ans_lock e a, m'))
      | Req_unlock \<Rightarrow> (case unlock L p m of ((e, f), m') \<Rightarrow> (Ans_unlock e f, m'))
      | Req_free \<Rightarrow> (case freeBuffer L p m of (e, m') \<Rightarrow> (Ans_free e, m')))"

primrec alone ::
  "('s, 'p) platform \<Rightarrow> ptr \<Rightarrow> request \<Rightarrow> nat \<Rightarrow> position \<times> 's mapper_state \<Rightarrow> position \<times> 's mapper_state" where
  "alone L p r 0 xm = xm"
| "alone L p r (Suc n) xm = alone L p r n (thread_step L p r (fst xm) (snd xm))"

lemma schedule_simps [simp]:
  "schedule L p R [] st = st" "schedule L p R (i # is) st = schedule L p R is (move L p R i st)"
  "schedule L p R (is @ js) st = schedule L p R js (schedule L p R is st)"
  by (simp_all add: schedule_def)

lemma schedule_alone:
  "schedule L p R (replicate n i) st =
     (case alone L p (R i) n (fst st i, snd st) of (x, m) \<Rightarrow> ((fst st)(i := x), m))"
  by (induction n arbitrary: st) (auto simp: move_def split: prod.splits)

lemma finished_simps [simp]:
  "finished (Done a)" "finished Undefined" "\<not> finished Begin"
  "\<not> finished Lock_found" "\<not> finished Lock_checked" "\<not> finished Lock_mapped"
  "\<not> finished (Lock_addressed q)" "\<not> finished (Lock_counted q)" "\<not> finished (Lock_marked q)"
  "\<not> finished Unlock_found" "\<not> finished Unlock_counted" "\<not> finished Unlock_flush" "\<not> finished Unlock_flushed"
  "\<not> finished Unlock_decrement" "\<not> finished Unlock_reset" "\<not> finished Unlock_released" "\<not> finished Unlock_clear"
  "\<not> finished Free_removed" "\<not> finished Free_mapped" "\<not> finished Free_unmapped" "\<not> finished Free_attr_unmapped"
  "\<not> finished Free_ready"
  by (simp_all add: finished_def)

lemma alone_finished [simp]: "finished (fst xm) \<Longrightarrow> alone L p r n xm = xm"
  by (induction n) (simp_all add: thread_step_def)

lemma alone_step: "0 < n \<Longrightarrow> alone L p r n xm = alone L p r (n - 1) (thread_step L p r (fst xm) (snd xm))"
  by (cases n) simp_all

lemma put_same [simp]:
  "mp_handles m p = Some h \<Longrightarrow> put_handle m p h (mp_os m) = m"
  by (simp add: put_handle_def fun_upd_idem)

lemma put_fields [simp]:
  "mp_handles (put_handle m p h s) p = Some h" "mp_os (put_handle m p h s) = s" "mp_pool (put_handle m p h s) = mp_pool m"
  "put_handle (put_handle m p h s) p h' s' = put_handle m p h' s'"
  by (simp_all add: put_handle_def)

lemma alone_lock_sync:
  assumes "mp_handles m p = Some h" and "d = get_tx_direction usage" "d \<noteq> TX_NONE" and "h_base h = a" and "4 \<le> n"
  shows "alone L p (Req_lock usage reg fence) n (Lock_mapped, m) =
    (case buffer_sync (pl_os L) h d (mp_os m) of (h', s') \<Rightarrow> (Done (Ans_lock ERR_NONE a), put_handle m p h' s'))"
proof -
  obtain k where "n = 4 + k"
    using assms(5) le_Suc_ex by blast
  then have n: "n = Suc (Suc (Suc (Suc k)))"
    by simp
  show ?thesis
    using assms(1-4) by (simp add: n thread_step_def touch_def buffer_sync_def Let_def split: prod.splits)
qed


lemma alone_stepI:
  assumes "thread_step L p r x m = (y, m1)" and "alone L p r k (y, m1) = z" and "n = Suc k"
  shows "alone L p r n (x, m) = z"
  using assms by simp

lemmas thread_step_simps = thread_step_def touch_def

lemma lock_checked_alone:
  assumes "mp_handles m p = Some h"
    and "mali_gralloc_lock (pl_os L) (pl_hal L) h usage l t w ht True (mp_os m) = (result, d, h1, s1)"
  shows "alone L p (Req_lock usage (l, t, w, ht) fence) 6 (Lock_checked, m) =
    (Done (if result \<noteq> 0 then Ans_lock (lock_error result) nullptr else Ans_lock ERR_NONE (value_or d nullptr)),
     put_handle m p h1 s1)" (is "_ = ?r")
proof (cases "cpu_access usage \<and> validate_lock_input_parameters (pl_os L) h l t w ht usage (mp_os m) = 0 \<and>
    get_base_info (pl_hal L) (alloc_format h) \<noteq> None")
  case False
  then have "thread_step L p (Req_lock usage (l, t, w, ht) fence) Lock_checked m = ?r"
    using assms by (auto simp: thread_step_simps mali_gralloc_lock_def Let_def value_or_def EINVAL_def split: if_splits)
  then show ?thesis
    by (rule alone_stepI [where k = 5]) simp_all
next
  case True
  obtain r h2 s2 where map: "mali_map_buffer (pl_os L) h (mp_os m) = (r, h2, s2)"
    using prod_cases3 by blast
  have step: "thread_step L p (Req_lock usage (l, t, w, ht) fence) Lock_checked m =
      (if r \<noteq> 0 then Done (Ans_lock (lock_error r) nullptr) else Lock_mapped, put_handle m p h2 s2)"
    using assms(1) True map by (auto simp: thread_step_simps)
  show ?thesis
  proof (cases "r = 0")
    case False
    with step assms True map have "thread_step L p (Req_lock usage (l, t, w, ht) fence) Lock_checked m = ?r"
      by (auto simp: mali_gralloc_lock_def)
    then show ?thesis
      by (rule alone_stepI [where k = 5]) simp_all
  next
    case r: True
    obtain h3 s3 where sync: "buffer_sync (pl_os L) h2 (get_tx_direction usage) s2 = (h3, s3)"
      by fastforce
    have "result = 0" "d = Some (h_base h2)" "h1 = h3" "s1 = s3"
      using assms(2) True map r sync by (auto simp: mali_gralloc_lock_def)
    moreover have "alone L p (Req_lock usage (l, t, w, ht) fence) 5 (Lock_mapped, put_handle m p h2 s2) =
        (Done (Ans_lock ERR_NONE (h_base h2)), put_handle m p h3 s3)"
      using sync True by (subst alone_lock_sync [where h = h2, OF _ refl]) (simp_all add: get_tx_direction_none)
    ultimately show ?thesis
      using step r by (intro alone_stepI [OF step, where k = 5]) (simp_all add: value_or_def)
  qed
qed

lemma cast_cases:
  obtains "handle_cast imported (Some h) = None" | "handle_cast imported (Some h) = Some h"
  by (cases "handle_cast imported (Some h)") (auto simp: handle_cast_eq_Some)

lemma lock_thread_alone:
  assumes "p \<in> set (mp_pool m)" and "mp_handles m p = Some h" and "lock L p usage reg fence m = ((e, a), m')"
  shows "alone L p (Req_lock usage reg fence) 8 (Begin, m) = (Done (Ans_lock e a), m')"
proof -
  let ?r = "Req_lock usage reg fence"
  have begin': "thread_step L p ?r Begin m = (Lock_found, m)"
    using assms(1) by (simp add: thread_step_def pool_get_def)
  have "alone L p ?r 7 (Lock_found, m) = (Done (Ans_lock e a), m')"
  proof (cases "thread_step L p ?r Lock_found m = (Lock_checked, m)")
    case False
    then have "thread_step L p ?r Lock_found m = (Done (Ans_lock e a), m')"
      using assms by (cases h rule: cast_cases)
        (auto simp: thread_step_simps lock_def lockBuffer_def registered_def pool_get_def fun_upd_idem split: if_splits)
    then show ?thesis
      by (rule alone_stepI [where k = 6]) simp_all
  next
    case True
    obtain l t w ht where region: "reg = (l, t, w, ht)"
      using prod_cases4 by blast
    obtain result d h1 s1 where lk: "mali_gralloc_lock (pl_os L) (pl_hal L) h usage l t w ht True (mp_os m) = (result, d, h1, s1)"
      using prod_cases4 by blast
    have "Done (Ans_lock e a) = Done (if result \<noteq> 0 then Ans_lock (lock_error result) nullptr else Ans_lock ERR_NONE (value_or d nullptr))"
      "m' = put_handle m p h1 s1"
      using assms True region lk
      by (cases h rule: cast_cases;
          auto simp: thread_step_simps lock_def lockBuffer_def registered_def pool_get_def lock_error_def put_handle_def
          split: if_splits)+
    then show ?thesis
      using lock_checked_alone [OF assms(2) lk, of fence] region by (intro alone_stepI [OF True, where k = 6]) simp_all
  qed
  then show ?thesis
    by (rule alone_stepI [OF begin']) simp
qed

text \<open>An unlock after the flush.\<close>

definition released :: "imported_handle \<Rightarrow> imported_handle" where
  "released h =
     (let n = (if 0 < sint (lock_count h) then lock_count h - 1 else 0)
      in if n = 0 then h\<lparr>lock_count := n, cpu_write := 0\<rparr> else h\<lparr>lock_count := n\<rparr>)"

lemma sync_none_released:
  "buffer_sync Sys h TX_NONE s =
     (if cpu_write h \<noteq> 0
      then (case allocator_sync_end Sys h False True s of (st, s1) \<Rightarrow> (if sint st < 0 then h else released h, s1))
      else (released h, s))"
  by (cases "allocator_sync_end Sys h False True s") (simp add: buffer_sync_def released_def Let_def)

lemma alone_unlock_count:
  assumes "mp_handles m p = Some h" and "n = 4 + k"
  shows "alone L p Req_unlock n (Unlock_flushed, m) = (unlock_done, put_handle m p (released h) (mp_os m))"
proof -
  define n1 where "n1 = (if 0 < sint (lock_count h) then lock_count h - 1 else 0)"
  define h1 where "h1 = h\<lparr>lock_count := n1\<rparr>"
  obtain x where s1: "thread_step L p Req_unlock Unlock_flushed m = (x, m)"
    and x: "x = (if 0 < sint (lock_count h) then Unlock_decrement else Unlock_reset)"
    using assms(1) by (simp add: thread_step_simps)
  have s2: "thread_step L p Req_unlock x m = (Unlock_released, put_handle m p h1 (mp_os m))"
  proof (cases "0 < sint (lock_count h)")
    case True
    then have "x = Unlock_decrement" "h1 = h\<lparr>lock_count := lock_count h - 1\<rparr>"
      using x by (simp_all add: h1_def n1_def)
    then show ?thesis
      using assms(1) by (simp add: thread_step_simps)
  next
    case False
    then have "x = Unlock_reset" "h1 = h\<lparr>lock_count := 0\<rparr>"
      using x by (simp_all add: h1_def n1_def)
    then show ?thesis
      using assms(1) by (simp add: thread_step_simps)
  qed
  have r: "released h = (if n1 = 0 then h1\<lparr>cpu_write := 0\<rparr> else h1)" "lock_count h1 = n1"
    unfolding released_def n1_def [symmetric] Let_def by (simp_all add: h1_def)
  have "alone L p Req_unlock (Suc (Suc k)) (Unlock_released, put_handle m p h1 (mp_os m)) =
      (unlock_done, put_handle m p (released h) (mp_os m))"
    unfolding r(1) by (cases "n1 = 0") (simp_all add: thread_step_simps unlock_done_def r(2))
  from alone_stepI [OF s1 alone_stepI [OF s2 this refl] refl] show ?thesis
    by (simp add: assms(2) eval_nat_numeral del: alone.simps)
qed

lemma alone_unlock_sync:
  assumes "mp_handles m p = Some h" and "buffer_sync (pl_os L) h TX_NONE (mp_os m) = (h', s')"
  shows "alone L p Req_unlock 6 (Unlock_counted, m) = (unlock_done, put_handle m p h' s')"
proof (cases "cpu_write h = 0")
  case True
  then have "thread_step L p Req_unlock Unlock_counted m = (Unlock_flushed, m)"
    using assms(1) by (simp add: thread_step_simps)
  moreover have "alone L p Req_unlock 5 (Unlock_flushed, m) = (unlock_done, put_handle m p h' s')"
    using alone_unlock_count [OF assms(1), of 5 1 L] assms(2) True by (simp add: sync_none_released)
  ultimately show ?thesis
    by (rule alone_stepI) simp
next
  case False
  obtain st s1 where e: "allocator_sync_end (pl_os L) h False True (mp_os m) = (st, s1)"
    by fastforce
  have s1: "thread_step L p Req_unlock Unlock_counted m = (Unlock_flush, m)"
    using assms(1) False by (simp add: thread_step_simps)
  have s2: "thread_step L p Req_unlock Unlock_flush m =
      (if sint st < 0 then unlock_done else Unlock_flushed, put_handle m p h s1)"
    using assms(1) False e by (simp add: thread_step_simps)
  have "alone L p Req_unlock 4 (if sint st < 0 then unlock_done else Unlock_flushed, put_handle m p h s1) =
      (unlock_done, put_handle m p h' s')"
    using alone_unlock_count [of "put_handle m p h s1" p h 4 0 L] assms(2) e False
    by (auto simp: sync_none_released unlock_done_def)
  then show ?thesis
    by (intro alone_stepI [OF s1 alone_stepI [OF s2], of 4]) simp_all
qed

lemma unlock_thread_alone:
  assumes "p \<in> set (mp_pool m)" and "mp_handles m p = Some h" and "unlock L p m = ((e, f), m')"
  shows "alone L p Req_unlock 8 (Begin, m) = (Done (Ans_unlock e f), m')"
proof -
  have begin': "thread_step L p Req_unlock Begin m = (Unlock_found, m)"
    using assms(1) by (simp add: thread_step_def pool_get_def)
  have "alone L p Req_unlock 7 (Unlock_found, m) = (Done (Ans_unlock e f), m')"
  proof (cases "thread_step L p Req_unlock Unlock_found m = (Unlock_counted, m)")
    case False
    then have "thread_step L p Req_unlock Unlock_found m = (Done (Ans_unlock e f), m')"
      using assms by (cases h rule: cast_cases)
        (auto simp: thread_step_simps unlock_def unlockBuffer_def pool_get_def fun_upd_idem split: if_splits)
    then show ?thesis
      by (rule alone_stepI [where k = 6]) simp_all
  next
    case True
    obtain h' s' where sync: "buffer_sync (pl_os L) h TX_NONE (mp_os m) = (h', s')"
      by fastforce
    have "Ans_unlock e f = Ans_unlock ERR_NONE (getFenceHandle (- 1))" "m' = put_handle m p h' s'"
      using assms True sync
      by (cases h rule: cast_cases;
          auto simp: thread_step_simps unlock_def unlockBuffer_def pool_get_def mali_gralloc_unlock_def put_handle_def
          split: if_splits)+
    then show ?thesis
      using alone_unlock_sync [OF assms(2) sync] by (intro alone_stepI [OF True, where k = 6]) (simp_all add: unlock_done_def)
  qed
  then show ?thesis
    by (rule alone_stepI [OF begin']) simp
qed

lemma free_thread_alone:
  assumes "p \<in> set (mp_pool m)" and "mp_handles m p = Some h" and "freeBuffer L p m = (e, m')"
  shows "alone L p Req_free 8 (Begin, m) = (Done (Ans_free e), m')"
proof -
  define m0 where "m0 = m\<lparr>mp_pool := remove1 p (mp_pool m)\<rparr>"
  have m0: "mp_handles m0 p = Some h" "mp_os m0 = mp_os m"
    using assms(2) by (simp_all add: m0_def)
  have begin': "thread_step L p Req_free Begin m = (Free_removed, m0)"
    using assms(1) by (simp add: thread_step_def pool_remove_def m0_def)
  have "alone L p Req_free 7 (Free_removed, m0) = (Done (Ans_free e), m')"
  proof (cases h rule: cast_cases)
    case 1
    then have "thread_step L p Req_free Free_removed m0 = (Done (Ans_free e), m')"
      using assms m0 by (auto simp: thread_step_simps freeBuffer_def pool_remove_def m0_def)
    then show ?thesis
      by (rule alone_stepI [where k = 6]) simp_all
  next
    case 2
    obtain h1 s1 where un: "mali_unmap_buffer (pl_os L) h (mp_os m) = (h1, s1)"
      by fastforce
    have h1: "share_fd h1 = share_fd h"
      using un by (auto simp: mali_unmap_buffer_def allocator_unmap_def split: if_splits prod.splits)
    show ?thesis
    proof (cases "import_pid h = os_getpid (pl_os L) (mp_os m)")
      case False
      then have s1: "thread_step L p Req_free Free_removed m0 = (Free_ready, m0)"
        using m0 2 by (simp add: thread_step_simps)
      have "thread_step L p Req_free Free_ready m0 = (Done (Ans_free e), m')"
        using assms m0 False 2 by (auto simp: thread_step_simps freeBuffer_def pool_remove_def m0_def)
      from alone_stepI [OF s1 alone_stepI [OF this _ refl] refl] show ?thesis
        by (simp add: eval_nat_numeral del: alone.simps(2))
    next
      case True
      define m1 where "m1 = put_handle m0 p h1 s1"
      define m2 where "m2 = m1\<lparr>mp_os := snd (os_munmap (pl_os L) s1 (attr_base h1) (attr_size h1))\<rparr>"
      define m3 where "m3 = m2\<lparr>mp_os := os_close (pl_os L) (mp_os m2) (share_attr_fd h1)\<rparr>"
      have h: "mp_handles m1 p = Some h1" "mp_handles m2 p = Some h1" "mp_handles m3 p = Some h1" "mp_os m1 = s1"
        by (simp_all add: m1_def m2_def m3_def)
      have s1: "thread_step L p Req_free Free_removed m0 = (Free_mapped, m0)"
        using m0 2 True by (simp add: thread_step_simps)
      have s2: "thread_step L p Req_free Free_mapped m0 = (Free_unmapped, m1)"
        using m0 un by (simp add: thread_step_simps m1_def)
      have s3: "thread_step L p Req_free Free_unmapped m1 = (Free_attr_unmapped, m2)"
        using h by (simp add: thread_step_simps m2_def)
      have s4: "thread_step L p Req_free Free_attr_unmapped m2 = (Free_ready, m3)"
        using h by (simp add: thread_step_simps m3_def)
      have s5: "thread_step L p Req_free Free_ready m3 = (Done (Ans_free e), m')"
        using assms True 2 un h h1
        by (auto simp: thread_step_simps freeBuffer_def pool_remove_def m0_def m1_def m2_def m3_def put_handle_def Let_def)
      from alone_stepI [OF s1 alone_stepI [OF s2 alone_stepI [OF s3 alone_stepI [OF s4 alone_stepI [OF s5 _ refl] refl] refl] refl] refl]
      show ?thesis
        by (simp add: eval_nat_numeral del: alone.simps(2))
    qed
  qed
  then show ?thesis
    by (rule alone_stepI [OF begin']) simp
qed

lemma absent_thread_alone:
  assumes "p \<notin> set (mp_pool m)" and "call L p r m = (a, m')"
  shows "alone L p r 8 (Begin, m) = (Done a, m')"
proof -
  have "thread_step L p r Begin m = (Done a, m')"
    using assms by (cases r)
      (auto simp: thread_step_simps call_def lock_def unlock_def freeBuffer_def registered_def pool_get_def pool_remove_def)
  then show ?thesis
    by (rule alone_stepI [where k = 7]) simp_all
qed

text \<open>C17: Cutting the operations into steps changes nothing for a thread that is not disturbed: eight steps of a thread
  in a row end its request with the answer and the state of the undivided operation of the mapper.\<close>

theorem undisturbed_thread:
  assumes "fst st i = Begin" and "p \<in> set (mp_pool (snd st)) \<Longrightarrow> mp_handles (snd st) p \<noteq> None"
  shows "schedule L p R (replicate 8 i) st =
    (case call L p (R i) (snd st) of (a, m') \<Rightarrow> ((fst st)(i := Done a), m'))"
proof -
  obtain a m' where call: "call L p (R i) (snd st) = (a, m')"
    by fastforce
  have "alone L p (R i) 8 (Begin, snd st) = (Done a, m')"
  proof (cases "p \<in> set (mp_pool (snd st))")
    case False
    then show ?thesis
      using call by (rule absent_thread_alone)
  next
    case True
    then obtain h where "mp_handles (snd st) p = Some h"
      using assms(2) by blast
    with True call show ?thesis
      by (cases "R i") (auto simp: call_def lock_thread_alone unlock_thread_alone free_thread_alone split: prod.splits)
  qed
  then show ?thesis
    using assms(1) call by (simp add: schedule_alone del: alone.simps)
qed

section \<open>Every thread is answered\<close>

text \<open>The number of steps a thread has before it at most.\<close>

primrec remaining :: "position \<Rightarrow> nat" where
  "remaining Begin = 8"
| "remaining Lock_found = 7" | "remaining Lock_checked = 6" | "remaining Lock_mapped = 5"
| "remaining (Lock_addressed a) = 3" | "remaining (Lock_counted a) = 2" | "remaining (Lock_marked a) = 1"
| "remaining Unlock_found = 7" | "remaining Unlock_counted = 6" | "remaining Unlock_flush = 5"
| "remaining Unlock_flushed = 4" | "remaining Unlock_decrement = 3" | "remaining Unlock_reset = 3"
| "remaining Unlock_released = 2" | "remaining Unlock_clear = 1"
| "remaining Free_removed = 7" | "remaining Free_mapped = 6" | "remaining Free_unmapped = 5"
| "remaining Free_attr_unmapped = 4" | "remaining Free_ready = 3"
| "remaining (Done a) = 0" | "remaining Undefined = 0"

text \<open>The positions that the code of a request has.\<close>

primrec is_lock :: "request \<Rightarrow> bool" where
  "is_lock (Req_lock u reg f) = True" | "is_lock Req_unlock = False" | "is_lock Req_free = False"

primrec belongs :: "position \<Rightarrow> request \<Rightarrow> bool" where
  "belongs Begin r = True"
| "belongs Lock_found r = is_lock r" | "belongs Lock_checked r = is_lock r" | "belongs Lock_mapped r = is_lock r"
| "belongs (Lock_addressed a) r = is_lock r" | "belongs (Lock_counted a) r = is_lock r"
| "belongs (Lock_marked a) r = is_lock r"
| "belongs Unlock_found r = (r = Req_unlock)" | "belongs Unlock_counted r = (r = Req_unlock)"
| "belongs Unlock_flush r = (r = Req_unlock)" | "belongs Unlock_flushed r = (r = Req_unlock)"
| "belongs Unlock_decrement r = (r = Req_unlock)" | "belongs Unlock_reset r = (r = Req_unlock)"
| "belongs Unlock_released r = (r = Req_unlock)" | "belongs Unlock_clear r = (r = Req_unlock)"
| "belongs Free_removed r = (r = Req_free)" | "belongs Free_mapped r = (r = Req_free)"
| "belongs Free_unmapped r = (r = Req_free)" | "belongs Free_attr_unmapped r = (r = Req_free)"
| "belongs Free_ready r = (r = Req_free)"
| "belongs (Done a) r = True" | "belongs Undefined r = True"

lemma is_lockE: "is_lock r \<Longrightarrow> (\<And>u reg f. r = Req_lock u reg f \<Longrightarrow> P) \<Longrightarrow> P"
  by (cases r) auto

lemma step_progress:
  assumes "thread_step L p r x m = (y, m')" and "belongs x r" and "\<not> finished x"
  shows "belongs y r \<and> remaining y < remaining x"
  using assms
  by (cases r; cases x)
    (auto simp: thread_step_simps unlock_done_def Let_def split: option.splits prod.splits if_splits)

lemma remaining_0: "remaining x = 0 \<longleftrightarrow> finished x"
  by (cases x) simp_all

text \<open>Properties of all schedules, by induction on the moves.\<close>

lemma schedule_inv:
  assumes "I st" and "\<And>st i. I st \<Longrightarrow> i \<in> set is \<Longrightarrow> I (move L p R i st)"
  shows "I (schedule L p R is st)"
  using assms by (induction "is" arbitrary: st) simp_all

lemma move_other [simp]: "j \<noteq> i \<Longrightarrow> fst (move L p R i st) j = fst st j"
  by (simp add: move_def split: prod.splits)

lemma schedule_progress:
  assumes "\<And>j. belongs (fst st j) (R j)"
  shows "belongs (fst (schedule L p R is st) i) (R i) \<and>
    remaining (fst (schedule L p R is st) i) \<le> remaining (fst st i) - count_list is i"
  using assms
proof (induction "is" arbitrary: st)
  case (Cons j js)
  obtain y m' where y: "thread_step L p (R j) (fst st j) (snd st) = (y, m')"
    by fastforce
  have step: "belongs y (R j) \<and> remaining y \<le> remaining (fst st j) - 1"
  proof (cases "finished (fst st j)")
    case True
    then show ?thesis
      using y Cons.prems [of j] remaining_0 [of "fst st j"] by (auto simp: thread_step_def)
  next
    case False
    then show ?thesis
      using step_progress [OF y Cons.prems False] by linarith
  qed
  then have "belongs (fst (move L p R j st) k) (R k)" for k
    using Cons.prems by (cases "k = j") (simp_all add: move_def y)
  from Cons.IH [OF this] show ?case
    using step by (cases "i = j") (auto simp: move_def y)
qed simp

text \<open>Without a free, the handle stays.\<close>

lemma step_keeps_handle:
  assumes "thread_step L p r x m = (y, m')" and "mp_handles m p \<noteq> None" and "r \<noteq> Req_free"
  shows "mp_handles m' p \<noteq> None \<and> (x \<noteq> Undefined \<longrightarrow> y \<noteq> Undefined)"
  using assms
  by (cases r; cases x)
    (auto simp: thread_step_simps unlock_done_def Let_def split: option.splits prod.splits if_splits)


section \<open>Examples\<close>

definition write_request :: request where
  "write_request = Req_lock GRALLOC_USAGE_SW_WRITE_OFTEN (0, 0, 640, 480) None"

definition read_request :: request where
  "read_request = Req_lock GRALLOC_USAGE_SW_READ_OFTEN (0, 0, 640, 480) None"

lemma one_buffer_simps [simp]:
  "mp_pool one_buffer = [64]" "mp_handles one_buffer 64 = Some sample_imported" "mp_os one_buffer = sim_start"
  "pl_os plain_platform = sim_os" "pl_hal plain_platform = hal_sample"
  by (simp_all add: one_buffer_def plain_platform_def)

text \<open>The sample buffer can be locked, also when it is mapped already.\<close>

lemma sample_lock_succeeds:
  assumes "u = GRALLOC_USAGE_SW_WRITE_OFTEN \<or> u = GRALLOC_USAGE_SW_READ_OFTEN"
    and "m = put_handle one_buffer 64 h s" and "h = sample_imported\<lparr>h_base := b\<rparr>"
    and "b = nullptr \<and> s = sim_start \<or> b = 0x3000 \<and> s = sample_mapped"
  shows "lock plain_platform 64 u (0, 0, 640, 480) None m = ((ERR_NONE, 0x3000), put_handle one_buffer 64
    (sample_imported\<lparr>lock_count := 1, h_base := 0x3000, cpu_write := (if u = GRALLOC_USAGE_SW_WRITE_OFTEN then 1 else 0)\<rparr>)
    sample_mapped)"
proof -
  have cast: "handle_cast imported (Some h) = Some h"
    using sample_imported_cast assms(3) by (simp add: handle_cast_eq_Some)
  have h: "h = sample_imported\<lparr>lock_count := 0, cpu_write := 0, h_base := b\<rparr>"
    by (simp add: assms(3) sample_imported_def)
  have cpu: "cpu_access u" "(if get_tx_direction u = TX_TO_DEVICE \<or> get_tx_direction u = TX_BOTH then 1 else 0) =
      (if u = GRALLOC_USAGE_SW_WRITE_OFTEN then 1 else 0 :: i32)"
    using assms(1) sample_access by (auto simp: usage_values)
  have "lockBuffer plain_platform (Some h) u (0, 0, 640, 480) (- 1) s =
      (ERR_NONE, 0x3000, Some (h\<lparr>lock_count := 1, h_base := 0x3000,
         cpu_write := (if u = GRALLOC_USAGE_SW_WRITE_OFTEN then 1 else 0)\<rparr>), sample_mapped)"
    using sample_lock [where h = h and n = 0 and c = 0 and b = b and u = u and s = s, OF _ h _ cpu(1)] assms(3,4) cast
    by (auto simp: lockBuffer_def value_or_def sample_mapped_def cpu(2) nullptr_def)
  then show ?thesis
    using cast by (simp add: assms(2,3) lock_def registered_def pool_get_def getFenceFd_def put_handle_def)
qed

lemma sample_locked: "lock plain_platform 64 GRALLOC_USAGE_SW_WRITE_OFTEN (0, 0, 640, 480) None one_buffer =
    ((ERR_NONE, 0x3000), put_handle one_buffer 64 (sample_imported\<lparr>lock_count := 1, h_base := 0x3000, cpu_write := 1\<rparr>) sample_mapped)"
proof -
  have h: "sample_imported = sample_imported\<lparr>h_base := nullptr\<rparr>"
    by (simp add: sample_imported_def)
  show ?thesis
    using sample_lock_succeeds [of GRALLOC_USAGE_SW_WRITE_OFTEN one_buffer sample_imported sim_start nullptr, OF _ _ h]
      put_same [of one_buffer 64 sample_imported] by simp
qed

definition two_requests :: "request \<Rightarrow> request \<Rightarrow> nat \<Rightarrow> request" where
  "two_requests r r' i = (if i = 0 then r else r')"

lemma two_requests_simps [simp]: "two_requests r r' 0 = r" "two_requests r r' (Suc 0) = r'"
  by (simp_all add: two_requests_def)

text \<open>All threads at the beginning of their requests.\<close>

definition start :: "nat \<Rightarrow> position" where
  "start = (\<lambda>_. Begin)"

lemma start_simp [simp]: "start i = Begin"
  by (simp add: start_def)

theorem undisturbed_thread_witness:
  "fst (schedule plain_platform 64 (two_requests write_request Req_unlock) (replicate 8 0) (start, one_buffer)) 0 =
    Done (Ans_lock ERR_NONE 0x3000)"
  using undisturbed_thread [of "(start, one_buffer)" 0 64 plain_platform "two_requests write_request Req_unlock"]
  by (simp add: call_def write_request_def sample_locked)


end
