(* ===== verification/Thread_Sharing.thy ===== *)
theory Thread_Sharing
  imports Mapper_Threads
begin

text \<open>
  What holds of a buffer under every schedule of threads: it is freed once, and it is mapped once.
\<close>

section \<open>A buffer is freed once\<close>

definition claims :: "position \<Rightarrow> bool" where
  "claims x \<longleftrightarrow> x \<in> {Free_removed, Free_mapped, Free_unmapped, Free_attr_unmapped, Free_ready, Done (Ans_free ERR_NONE)}"

definition freed :: "position \<Rightarrow> bool" where
  "freed x \<longleftrightarrow> x = Done (Ans_free ERR_NONE)"

lemma freed_claims: "freed x \<Longrightarrow> claims x"
  by (simp add: freed_def claims_def)

text \<open>What one step does to the pool, to the claim and to the handle.\<close>

lemma step_claims:
  assumes "thread_step L p r x m = (y, m')"
  shows "claims y \<longleftrightarrow> claims x \<and> y \<noteq> Done (Ans_free ERR_BAD_BUFFER) \<and> y \<noteq> Undefined \<or>
      \<not> finished x \<and> x = Begin \<and> r = Req_free \<and> p \<in> set (mp_pool m)"
    and "mp_pool m' = (if x = Begin \<and> r = Req_free then remove1 p (mp_pool m) else mp_pool m)"
    and "mp_handles m' p = None \<longleftrightarrow> mp_handles m p = None \<or> freed y \<and> \<not> freed x"
    and "y = Undefined \<Longrightarrow> x = Undefined \<or> mp_handles m p = None"
  by (insert assms)
    ((cases r; cases x;
      force simp: thread_step_simps claims_def freed_def unlock_done_def Let_def pool_remove_def remove1_idem
        split: option.splits prod.splits if_splits)+)

text \<open>At most one thread holds the claim to delete the handle; it has taken the handle out of the pool.\<close>

definition claim_inv :: "ptr \<Rightarrow> 's threads \<Rightarrow> bool" where
  "claim_inv p st \<longleftrightarrow>
     distinct (mp_pool (snd st)) \<and>
     (\<forall>i j. claims (fst st i) \<and> claims (fst st j) \<longrightarrow> i = j) \<and>
     (\<forall>i. claims (fst st i) \<longrightarrow> p \<notin> set (mp_pool (snd st))) \<and>
     (mp_handles (snd st) p = None \<longleftrightarrow> (\<exists>i. freed (fst st i))) \<and>
     ((\<exists>i. fst st i = Undefined) \<longrightarrow> mp_handles (snd st) p = None)"

lemma claim_inv_move:
  assumes "claim_inv p st"
  shows "claim_inv p (move L p R i st)"
proof -
  obtain y m' where y: "thread_step L p (R i) (fst st i) (snd st) = (y, m')"
    by fastforce
  note step = step_claims [OF y]
  have still: "finished (fst st i) \<Longrightarrow> y = fst st i"
    using y by (simp add: thread_step_def)
  have D: "distinct (mp_pool (snd st))" "\<And>i j. claims (fst st i) \<Longrightarrow> claims (fst st j) \<Longrightarrow> i = j"
    "\<And>i. claims (fst st i) \<Longrightarrow> p \<notin> set (mp_pool (snd st))"
    "mp_handles (snd st) p = None \<longleftrightarrow> (\<exists>i. freed (fst st i))"
    "\<And>i. fst st i = Undefined \<Longrightarrow> mp_handles (snd st) p = None"
    using assms by (auto simp: claim_inv_def)
  have claims_y: "claims y \<Longrightarrow> claims (fst st i) \<or> p \<in> set (mp_pool (snd st))"
    using step(1) by blast
  have "distinct (mp_pool m')"
    using D(1) step(2) by simp
  moreover have "j = k" if "claims (((fst st)(i := y)) j)" "claims (((fst st)(i := y)) k)" for j k
    using that claims_y D(2,3) by (cases "j = i"; cases "k = i") auto
  moreover have "p \<notin> set (mp_pool m')" if "claims (((fst st)(i := y)) j)" for j
    using that step(1,2) D(1,3) by (cases "j = i") (auto split: if_splits)
  moreover have "mp_handles m' p = None \<longleftrightarrow> (\<exists>j. freed (((fst st)(i := y)) j))"
  proof -
    have "freed (fst st i) \<Longrightarrow> freed y"
      using still by (auto simp: freed_def)
    then have "(\<exists>j. freed (((fst st)(i := y)) j)) \<longleftrightarrow> (\<exists>j. freed (fst st j)) \<or> freed y"
      by (metis fun_upd_apply)
    then show ?thesis
      using step(3) D(4) by blast
  qed
  moreover have "mp_handles m' p = None" if "((fst st)(i := y)) j = Undefined" for j
    using that step(3,4) D(5) by (cases "j = i") auto
  ultimately show ?thesis
    unfolding claim_inv_def move_def y prod.case fst_conv snd_conv by blast
qed

text \<open>C5: A buffer is freed once. However the steps of any number of threads that lock, unlock and free the same buffer are
  interleaved, at most one call of freeBuffer succeeds; the handle is deleted exactly when it has, and it is out of the
  pool by then. A thread can only come to touch a deleted handle after that.\<close>

theorem freed_once:
  assumes "\<And>j. fst st j = Begin" and "distinct (mp_pool (snd st))" and "mp_handles (snd st) p \<noteq> None"
    and "schedule L p R is st = (pos, m)"
  shows "(\<forall>i j. pos i = Done (Ans_free ERR_NONE) \<and> pos j = Done (Ans_free ERR_NONE) \<longrightarrow> i = j) \<and>
    (mp_handles m p = None \<longleftrightarrow> (\<exists>i. pos i = Done (Ans_free ERR_NONE))) \<and>
    (mp_handles m p = None \<longrightarrow> p \<notin> set (mp_pool m)) \<and>
    (mp_handles m p \<noteq> None \<longrightarrow> (\<forall>i. pos i \<noteq> Undefined))"
proof -
  have "claim_inv p st"
    using assms(1-3) by (simp add: claim_inv_def claims_def freed_def)
  then have "claim_inv p (schedule L p R is st)"
    by (rule schedule_inv) (rule claim_inv_move)
  then have inv: "claim_inv p (pos, m)"
    using assms(4) by simp
  then have one: "\<And>i j. claims (pos i) \<Longrightarrow> claims (pos j) \<Longrightarrow> i = j"
    and pool: "\<And>i. claims (pos i) \<Longrightarrow> p \<notin> set (mp_pool m)"
    and gone: "mp_handles m p = None \<longleftrightarrow> (\<exists>i. freed (pos i))"
    and undef: "\<And>i. pos i = Undefined \<Longrightarrow> mp_handles m p = None"
    by (auto simp: claim_inv_def)
  have "pos i = Done (Ans_free ERR_NONE) \<longleftrightarrow> freed (pos i)" for i
    by (simp add: freed_def)
  then show ?thesis
    using one pool gone undef freed_claims by metis
qed

section \<open>A buffer is mapped once\<close>

lemma lock_step_counts:
  "lock_step fds maps h s (h\<lparr>lock_count := n\<rparr>) s" "lock_step fds maps h s (h\<lparr>cpu_write := c\<rparr>) s"
  unfolding lock_step_def
  by (intro exI [of _ n] exI [of _ "cpu_write h"] exI [of _ "h_base h"] conjI; simp)
    (intro exI [of _ "lock_count h"] exI [of _ c] exI [of _ "h_base h"] conjI; simp)

lemma lock_step_os:
  assumes "fds s' = fds s" "maps s' = maps s"
  shows "lock_step fds maps h s h s'"
  unfolding lock_step_def using assms
  by (intro exI [of _ "lock_count h"] exI [of _ "cpu_write h"] exI [of _ "h_base h"]) simp

lemma sync_lock_thread_step:
  assumes "os_documented Sys fds maps" and "sync_lock_thread Sys d x h s = (y, h', s')"
  shows "lock_step fds maps h s h' s'"
proof (cases x)
  case (Lock_marked a)
  then have "h' = h" "fds s' = fds s" "maps s' = maps s"
    using assms(2) by (auto simp: allocator_sync_start_def os_keeps [OF assms(1)])
  then show ?thesis
    by (simp add: lock_step_os)
qed (use assms(2) in \<open>auto simp: lock_step_refl lock_step_counts\<close>)

lemma sync_unlock_thread_step:
  assumes "os_documented Sys fds maps" and "sync_unlock_thread Sys x h s = (y, h', s')"
  shows "lock_step fds maps h s h' s'"
proof (cases x)
  case Unlock_flush
  obtain st s1 where "heap_sync_end Sys s (share_fd h) (make_sync_type False (cpu_write h \<noteq> 0)) = (st, s1)"
    by fastforce
  then have "h' = h" "fds s' = fds s" "maps s' = maps s"
    using assms(2) Unlock_flush os_keeps(13,14) [OF assms(1), of s "share_fd h" "make_sync_type False (cpu_write h \<noteq> 0)"]
    by (auto simp: allocator_sync_end_def)
  then show ?thesis
    by (simp add: lock_step_os)
qed (use assms(2) in \<open>auto simp: lock_step_refl lock_step_counts\<close>)

lemma lock_thread_sync:
  assumes "x \<notin> {Begin, Lock_found, Lock_checked, Lock_mapped}"
  shows "lock_thread L p usage reg fence x m = touch m p (\<lambda>h.
    case sync_lock_thread (pl_os L) (get_tx_direction usage) x h (mp_os m) of (y, h1, s1) \<Rightarrow> (y, put_handle m p h1 s1))"
  using assms by (cases x) simp_all

lemma unlock_thread_sync:
  assumes "x \<notin> {Begin, Unlock_found}"
  shows "unlock_thread L p x m = touch m p (\<lambda>h.
    case sync_unlock_thread (pl_os L) x h (mp_os m) of (y, h1, s1) \<Rightarrow> (y, put_handle m p h1 s1))"
  using assms by (cases x) simp_all

text \<open>A step of a lock or an unlock leaves the mapper as it is, maps the buffer, or makes a step of the accounting.\<close>

lemma lock_thread_cases:
  assumes "lock_thread L p usage reg fence x m = (y, m')" and "mp_handles m p = Some h"
  obtains (same) "m' = m"
    | (map) c h1 s1 where "x = Lock_checked" "mali_map_buffer (pl_os L) h (mp_os m) = (c, h1, s1)" "m' = put_handle m p h1 s1"
    | (sync) h1 s1 where "sync_lock_thread (pl_os L) (get_tx_direction usage) x h (mp_os m) = (y, h1, s1)"
        "m' = put_handle m p h1 s1"
proof (cases "x = Begin \<or> x = Lock_found \<or> x = Lock_mapped")
  case True
  then have "m' = m"
    using assms by (auto simp: touch_def split: if_splits)
  then show thesis
    by (rule same)
next
  case other: False
  show thesis
  proof (cases "x = Lock_checked")
    case True
    obtain c h1 s1 where 1: "mali_map_buffer (pl_os L) h (mp_os m) = (c, h1, s1)"
      using prod_cases3 by blast
    have "m' = m \<or> m' = put_handle m p h1 s1"
      using assms True 1 by (auto simp: touch_def Let_def split: if_splits)
    then show thesis
      using same map [OF True 1] by blast
  next
    case False
    obtain y1 h1 s1 where 1: "sync_lock_thread (pl_os L) (get_tx_direction usage) x h (mp_os m) = (y1, h1, s1)"
      using prod_cases3 by blast
    have "y1 = y" "m' = put_handle m p h1 s1"
      using assms 1 lock_thread_sync [of x L p usage reg fence m] False other by (simp_all add: touch_def)
    then show thesis
      using sync 1 by simp
  qed
qed

lemma unlock_thread_cases:
  assumes "unlock_thread L p x m = (y, m')" and "mp_handles m p = Some h"
  obtains (same) "m' = m"
    | (sync) h1 s1 where "sync_unlock_thread (pl_os L) x h (mp_os m) = (y, h1, s1)" "m' = put_handle m p h1 s1"
proof (cases "x = Begin \<or> x = Unlock_found")
  case True
  then have "m' = m"
    using assms by (auto simp: touch_def split: if_splits)
  then show thesis
    by (rule same)
next
  case False
  obtain y1 h1 s1 where 1: "sync_unlock_thread (pl_os L) x h (mp_os m) = (y1, h1, s1)"
    using prod_cases3 by blast
  have "y1 = y" "m' = put_handle m p h1 s1"
    using assms 1 unlock_thread_sync [of x L p m] False by (simp_all add: touch_def)
  then show thesis
    using sync 1 by simp
qed

lemma step_lock_step:
  assumes os: "os_documented (pl_os L) fds maps" and step: "thread_step L p r x m = (y, m')"
    and h: "mp_handles m p = Some h" and r: "r \<noteq> Req_free"
  shows "\<exists>h'. mp_handles m' p = Some h' \<and> lock_step fds maps h (mp_os m) h' (mp_os m')"
proof -
  have put: "\<exists>h'. mp_handles m' p = Some h' \<and> lock_step fds maps h (mp_os m) h' (mp_os m')"
    if "m' = put_handle m p h1 s1" "lock_step fds maps h (mp_os m) h1 s1" for h1 s1
    using that by simp
  have same: "\<exists>h'. mp_handles m' p = Some h' \<and> lock_step fds maps h (mp_os m) h' (mp_os m')" if "m' = m"
    using that h by (simp add: lock_step_refl)
  show ?thesis
  proof (cases "finished x")
    case True
    then show ?thesis
      using step by (intro same) (simp add: thread_step_def)
  next
    case False
    show ?thesis
    proof (cases r)
      case (Req_lock usage reg fence)
      then have "lock_thread L p usage reg fence x m = (y, m')"
        using step False by (simp add: thread_step_def)
      then show ?thesis
        using h
      proof (cases rule: lock_thread_cases)
        case (map c h1 s1)
        then show ?thesis
          using lock_step_map [OF os] put by blast
      next
        case (sync h1 s1)
        then show ?thesis
          using sync_lock_thread_step [OF os] put by blast
      qed (rule same)
    next
      case Req_unlock
      then have "unlock_thread L p x m = (y, m')"
        using step False by (simp add: thread_step_def)
      then show ?thesis
        using h
      proof (cases rule: unlock_thread_cases)
        case (sync h1 s1)
        then show ?thesis
          using sync_unlock_thread_step [OF os] put by blast
      qed (rule same)
    qed (use r in simp)
  qed
qed

text \<open>The addresses that the threads have read or answered.\<close>

primrec cpu_lock :: "request \<Rightarrow> bool" where
  "cpu_lock (Req_lock usage reg fence) = cpu_access usage" | "cpu_lock Req_unlock = False" | "cpu_lock Req_free = False"

definition is_base :: "ptr \<Rightarrow> imported_handle \<Rightarrow> bool" where
  "is_base a h \<longleftrightarrow> a = h_base h \<and> a \<noteq> nullptr"

definition address_ok :: "request \<Rightarrow> position \<Rightarrow> imported_handle \<Rightarrow> bool" where
  "address_ok r x h \<longleftrightarrow> is_lock r \<longrightarrow>
     (case x of
        Lock_mapped \<Rightarrow> h_base h \<noteq> nullptr
      | Lock_addressed a \<Rightarrow> is_base a h | Lock_counted a \<Rightarrow> is_base a h | Lock_marked a \<Rightarrow> is_base a h
      | Done (Ans_lock e a) \<Rightarrow> e = ERR_NONE \<and> cpu_lock r \<longrightarrow> is_base a h
      | _ \<Rightarrow> True)"

lemma lock_step_base:
  assumes "lock_step fds maps h s h' s'" and "h_base h \<noteq> nullptr"
  shows "h_base h' = h_base h"
  using assms by (auto simp: lock_step_def)

lemma address_ok_mono: "address_ok r x h \<Longrightarrow> (h_base h \<noteq> nullptr \<Longrightarrow> h_base h' = h_base h) \<Longrightarrow> address_ok r x h'"
  by (auto simp: address_ok_def is_base_def split: position.splits answer.splits)

lemma lock_error_not_none [simp]: "lock_error c \<noteq> ERR_NONE"
  by (simp add: lock_error_def)

text \<open>A failed \<open>mmap\<close> reports an error number, which is not 0.\<close>

definition mmap_errors :: "'s os \<Rightarrow> bool" where
  "mmap_errors Sys \<longleftrightarrow> (\<forall>s n fd. case os_mmap Sys s n fd of (Inl e, s') \<Rightarrow> e \<noteq> 0 | (Inr a, s') \<Rightarrow> True)"

lemma mmap_errorsD: "mmap_errors Sys \<Longrightarrow> os_mmap Sys s n fd = (Inl e, s') \<Longrightarrow> e \<noteq> 0"
  unfolding mmap_errors_def by (drule spec [of _ s], drule spec [of _ n], drule spec [of _ fd]) simp

lemma map_buffer_base:
  assumes "os_documented Sys fds maps" and "mmap_errors Sys" and "mali_map_buffer Sys h s = (0, h', s')"
  shows "h_base h' \<noteq> nullptr"
  using assms(3)
proof (cases rule: map_bufferE)
  case (2 e)
  then show ?thesis
    using mmap_errorsD [OF assms(2) 2(2)] by simp
next
  case (3 a)
  then show ?thesis
    using os_mmap_done(1) [OF assms(1) 3(2)] by simp
qed simp

lemma lock_thread_address:
  assumes os: "os_documented (pl_os L) fds maps" "mmap_errors (pl_os L)" and step: "lock_thread L p usage reg fence x m = (y, m')"
    and h: "mp_handles m p = Some h" "mp_handles m' p = Some h'" and ok: "address_ok (Req_lock usage reg fence) x h"
  shows "address_ok (Req_lock usage reg fence) y h'"
proof -
  consider "x = Begin \<or> x = Lock_found" | "x = Lock_checked" | "x = Lock_mapped"
    | "x \<notin> {Begin, Lock_found, Lock_checked, Lock_mapped}"
    by blast
  then show ?thesis
  proof cases
    case 1
    then show ?thesis
      using step h by (auto simp: touch_def address_ok_def split: if_splits)
  next
    case 2
    obtain c h1 s1 where map: "mali_map_buffer (pl_os L) h (mp_os m) = (c, h1, s1)"
      using prod_cases3 by blast
    show ?thesis
    proof (cases "y = Lock_mapped")
      case True
      then have "c = 0" "h' = h1"
        using step h 2 map by (auto simp: touch_def Let_def split: if_splits)
      then show ?thesis
        using map_buffer_base [OF os] map True by (simp add: address_ok_def)
    next
      case False
      then show ?thesis
        using step h 2 map by (auto simp: touch_def Let_def address_ok_def split: if_splits)
    qed
  next
    case 3
    then show ?thesis
      using step h ok by (auto simp: touch_def address_ok_def is_base_def)
  next
    case 4
    obtain y1 h1 s1 where 5: "sync_lock_thread (pl_os L) (get_tx_direction usage) x h (mp_os m) = (y1, h1, s1)"
      using prod_cases3 by blast
    have "y1 = y" "h1 = h'"
      using step h 4 5 lock_thread_sync [of x L p usage reg fence m] by (auto simp: touch_def)
    with 5 show ?thesis
      using h ok by (cases x) (auto simp: address_ok_def is_base_def)
  qed
qed

lemma step_address:
  assumes os: "os_documented (pl_os L) fds maps" "mmap_errors (pl_os L)" and step: "thread_step L p r x m = (y, m')"
    and h: "mp_handles m p = Some h" "mp_handles m' p = Some h'" and r: "r \<noteq> Req_free" and ok: "address_ok r x h"
  shows "address_ok r y h'"
proof (cases "finished x")
  case True
  then show ?thesis
    using step h ok by (simp add: thread_step_def)
next
  case False
  show ?thesis
  proof (cases r)
    case (Req_lock usage reg fence)
    then show ?thesis
      using step False lock_thread_address [OF os _ h] ok by (simp add: thread_step_def)
  next
    case Req_unlock
    then show ?thesis
      by (simp add: address_ok_def)
  qed (use r in simp)
qed

text \<open>What holds of the buffer and of all threads as long as it is not freed.\<close>

definition shared_inv ::
  "('s \<Rightarrow> i32 set) \<Rightarrow> ('s \<Rightarrow> (ptr \<times> u64) set) \<Rightarrow> ptr \<Rightarrow> (nat \<Rightarrow> request) \<Rightarrow> imported_handle \<Rightarrow> 's \<Rightarrow> 's threads \<Rightarrow> bool" where
  "shared_inv fds maps p R h0 s0 st \<longleftrightarrow>
     (\<exists>h. mp_handles (snd st) p = Some h \<and> mapping_inv fds maps h0 s0 h (mp_os (snd st)) \<and>
       (\<forall>i. address_ok (R i) (fst st i) h))"

lemma mapping_inv_lock_step:
  assumes "mapping_inv fds maps h0 s0 h s" and "lock_step fds maps h s h' s'"
  shows "mapping_inv fds maps h0 s0 h' s'"
proof -
  obtain n c b where b: "h = h0\<lparr>lock_count := n, cpu_write := c, h_base := b\<rparr>" "fds s = fds s0"
    "maps s = maps s0 \<union> own_mapping h" "h_base h \<noteq> nullptr \<longrightarrow> h_base h \<notin> fst ` maps s0"
    using assms(1) unfolding mapping_inv_def by blast
  obtain n' c' b' where b': "h' = h\<lparr>lock_count := n', cpu_write := c', h_base := b'\<rparr>" "fds s' = fds s"
    "b' = h_base h \<and> maps s' = maps s \<or>
     h_base h = nullptr \<and> b' \<noteq> nullptr \<and> b' \<notin> fst ` maps s \<and> maps s' = insert (b', scast (h_size h)) (maps s)"
    using assms(2) unfolding lock_step_def by blast
  have "h' = h0\<lparr>lock_count := n', cpu_write := c', h_base := b'\<rparr>"
    using b(1) b'(1) by simp
  moreover have "maps s' = maps s0 \<union> own_mapping h'" "h_base h' \<noteq> nullptr \<longrightarrow> h_base h' \<notin> fst ` maps s0"
    using b b' by (auto simp: own_mapping_def)
  ultimately show ?thesis
    using b(2) b'(2) unfolding mapping_inv_def by blast
qed

lemma shared_inv_move:
  assumes "os_documented (pl_os L) fds maps" "mmap_errors (pl_os L)" and "shared_inv fds maps p R h0 s0 st"
    and "R i \<noteq> Req_free"
  shows "shared_inv fds maps p R h0 s0 (move L p R i st)"
proof -
  obtain y m' where y: "thread_step L p (R i) (fst st i) (snd st) = (y, m')"
    by fastforce
  obtain h where h: "mp_handles (snd st) p = Some h" "mapping_inv fds maps h0 s0 h (mp_os (snd st))"
    "\<And>i. address_ok (R i) (fst st i) h"
    using assms(3) by (auto simp: shared_inv_def)
  obtain h' where h': "mp_handles m' p = Some h'" "lock_step fds maps h (mp_os (snd st)) h' (mp_os m')"
    using step_lock_step [OF assms(1) y h(1) assms(4)] by blast
  have "address_ok (R j) (((fst st)(i := y)) j) h'" for j
    using step_address [OF assms(1,2) y h(1) h'(1) assms(4) h(3)]
      address_ok_mono [OF h(3), of h' j] lock_step_base [OF h'(2)] by (cases "j = i") simp_all
  then show ?thesis
    using h'(1) mapping_inv_lock_step [OF h(2) h'(2)] by (simp add: shared_inv_def move_def y)
qed

text \<open>C18: Threads share one mapping. In every schedule of locks and unlocks of a buffer that was not mapped, the process has
  at most one mapping of it, at an address that no other mapping has, no descriptor is opened or closed, and every thread
  whose lock for the CPU has succeeded was given the address of that mapping.\<close>

theorem mapped_once_by_threads:
  assumes "os_documented (pl_os L) fds maps" and "mmap_errors (pl_os L)"
    and "\<And>j. fst st j = Begin" and "mp_handles (snd st) p = Some h0" and "h_base h0 = nullptr"
    and "\<And>j. j \<in> set is \<Longrightarrow> R j \<noteq> Req_free"
    and "schedule L p R is st = (pos, m)"
  shows "\<exists>h. mp_handles m p = Some h \<and> fds (mp_os m) = fds (mp_os (snd st)) \<and>
    maps (mp_os m) = maps (mp_os (snd st)) \<union> own_mapping h \<and> own_mapping h \<inter> maps (mp_os (snd st)) = {} \<and>
    (\<forall>i a. pos i = Done (Ans_lock ERR_NONE a) \<and> cpu_lock (R i) \<longrightarrow> a = h_base h \<and> a \<noteq> nullptr)"
proof -
  let ?s0 = "mp_os (snd st)"
  have "mapping_inv fds maps h0 ?s0 h0 ?s0"
    unfolding mapping_inv_def own_mapping_def using assms(5)
    by (intro conjI exI [of _ "lock_count h0"] exI [of _ "cpu_write h0"] exI [of _ "h_base h0"]) simp_all
  then have "shared_inv fds maps p R h0 ?s0 st"
    using assms(3,4) by (simp add: shared_inv_def address_ok_def)
  then have "shared_inv fds maps p R h0 ?s0 (schedule L p R is st)"
    by (rule schedule_inv) (use shared_inv_move [OF assms(1,2)] assms(6) in blast)
  then obtain h where h: "mp_handles m p = Some h" "mapping_inv fds maps h0 ?s0 h (mp_os m)"
    "\<And>i. address_ok (R i) (pos i) h"
    using assms(7) by (auto simp: shared_inv_def)
  have "is_base a h" if "pos i = Done (Ans_lock ERR_NONE a)" "cpu_lock (R i)" for i a
    using h(3) [of i] that by (cases "R i") (simp_all add: address_ok_def)
  moreover have "own_mapping h \<inter> maps ?s0 = {}"
    using h(2) by (auto simp: mapping_inv_def own_mapping_def image_iff)
  moreover have "fds (mp_os m) = fds ?s0" "maps (mp_os m) = maps ?s0 \<union> own_mapping h"
    using h(2) by (simp_all add: mapping_inv_def)
  ultimately show ?thesis
    using h(1) by (auto simp: is_base_def)
qed

section \<open>Examples\<close>

lemma sim_mmap_errors: "mmap_errors sim_os"
  by (auto simp: mmap_errors_def sim_os_def sim_mmap_def Let_def)

theorem freed_once_witness:
  "\<exists>pos m. schedule plain_platform 64 (\<lambda>_. Req_free) (replicate 8 0 @ replicate 8 1) (start, one_buffer) = (pos, m) \<and>
    pos 0 = Done (Ans_free ERR_NONE) \<and> pos 1 \<noteq> Done (Ans_free ERR_NONE) \<and> mp_handles m 64 = None"
proof -
  obtain e m1 where free: "freeBuffer plain_platform 64 one_buffer = (e, m1)"
    by fastforce
  then have e: "e = ERR_NONE" "mp_handles m1 64 = None"
    using sample_imported_cast by (auto simp: freeBuffer_def pool_remove_def Let_def split: if_splits prod.splits)
  obtain pos m where run: "schedule plain_platform 64 (\<lambda>_. Req_free) (replicate 8 0 @ replicate 8 1) (start, one_buffer) = (pos, m)"
    by fastforce
  then have "pos 0 = Done (Ans_free ERR_NONE)"
    using free_thread_alone [OF _ _ free] e by (auto simp: schedule_alone simp del: alone.simps split: prod.splits)
  moreover have "(\<forall>i j. pos i = Done (Ans_free ERR_NONE) \<and> pos j = Done (Ans_free ERR_NONE) \<longrightarrow> i = j) \<and>
    (mp_handles m 64 = None \<longleftrightarrow> (\<exists>i. pos i = Done (Ans_free ERR_NONE)))"
    using freed_once [OF _ _ _ run] by simp
  ultimately show ?thesis
    using run by (metis zero_neq_one)
qed

theorem mapped_once_by_threads_witness:
  "\<exists>pos m h. schedule plain_platform 64 (two_requests write_request read_request) (replicate 8 0) (start, one_buffer) = (pos, m) \<and>
    pos 0 = Done (Ans_lock ERR_NONE 0x3000) \<and> mp_handles m 64 = Some h \<and> h_base h = 0x3000 \<and>
    sim_maps (mp_os m) = own_mapping h"
proof -
  obtain pos m where run: "schedule plain_platform 64 (two_requests write_request read_request) (replicate 8 0) (start, one_buffer) = (pos, m)"
    by fastforce
  have a: "pos 0 = Done (Ans_lock ERR_NONE 0x3000)"
    using run lock_thread_alone [OF _ _ sample_locked, of sample_imported]
    by (auto simp: schedule_alone write_request_def simp del: alone.simps split: prod.splits)
  have free: "two_requests write_request read_request j \<noteq> Req_free" for j
    by (simp add: two_requests_def write_request_def read_request_def)
  have cpu: "cpu_lock (two_requests write_request read_request 0)"
    by (simp add: write_request_def sample_access)
  have "\<exists>h. mp_handles m 64 = Some h \<and> sim_fds (mp_os m) = sim_fds sim_start \<and>
    sim_maps (mp_os m) = sim_maps sim_start \<union> own_mapping h \<and> own_mapping h \<inter> sim_maps sim_start = {} \<and>
    (\<forall>i a. pos i = Done (Ans_lock ERR_NONE a) \<and> cpu_lock (two_requests write_request read_request i) \<longrightarrow> a = h_base h \<and> a \<noteq> nullptr)"
    using mapped_once_by_threads [where L = plain_platform and p = 64 and fds = sim_fds and maps = sim_maps and ?h0.0 = sample_imported,
        OF _ _ _ _ _ free run] sim_documented sim_mmap_errors by simp
  then obtain h where h: "mp_handles m 64 = Some h" "sim_maps (mp_os m) = own_mapping h"
    "\<forall>i a. pos i = Done (Ans_lock ERR_NONE a) \<and> cpu_lock (two_requests write_request read_request i) \<longrightarrow> a = h_base h \<and> a \<noteq> nullptr"
    by (auto simp: sim_start_def)
  have "0x3000 = h_base h"
    using h(3) a cpu by blast
  then show ?thesis
    using run a h(1,2) by auto
qed

end
