(* ===== verification/Thread_Locks.thy ===== *)
theory Thread_Locks
  imports Thread_Sharing
begin

text \<open>
  What the accounting of locks is worth when threads interleave: the counter of locks keeps its meaning, as it is an
  atomic integer; the flag \<open>cpu_write\<close>, which no lock protects, does not.
\<close>

section \<open>The counter\<close>

text \<open>
  What a thread has added to the counter so far, when every lock is one for the CPU and every flush succeeds.
\<close>

primrec contribution :: "position \<Rightarrow> int" where
  "contribution Begin = 0"
| "contribution Lock_found = 0" | "contribution Lock_checked = 0" | "contribution Lock_mapped = 0"
| "contribution (Lock_addressed a) = 0" | "contribution (Lock_counted a) = 1" | "contribution (Lock_marked a) = 1"
| "contribution Unlock_found = 0" | "contribution Unlock_counted = 0" | "contribution Unlock_flush = 0"
| "contribution Unlock_flushed = 0" | "contribution Unlock_decrement = 0" | "contribution Unlock_reset = 0"
| "contribution Unlock_released = - 1" | "contribution Unlock_clear = - 1"
| "contribution Free_removed = 0" | "contribution Free_mapped = 0" | "contribution Free_unmapped = 0"
| "contribution Free_attr_unmapped = 0" | "contribution Free_ready = 0"
| "contribution (Done a) =
     (case a of Ans_lock e q \<Rightarrow> if e = ERR_NONE then 1 else 0
      | Ans_unlock e f \<Rightarrow> if e = ERR_NONE then - 1 else 0
      | Ans_free e \<Rightarrow> 0)"
| "contribution Undefined = 0"

text \<open>
  A client unlocks only what is locked: among the threads \<open>T\<close> at most as many unlock as there are locks at the start. Then an
  unlock finds the counter above 0 at every point.
\<close>

definition expected :: "request \<Rightarrow> position \<Rightarrow> bool" where
  "expected r x \<longleftrightarrow>
     belongs x r \<and> x \<noteq> Unlock_reset \<and> x \<noteq> Undefined \<and>
     (case x of Done (Ans_lock e a) \<Rightarrow> is_lock r
      | Done (Ans_unlock e f) \<Rightarrow> r = Req_unlock \<and> e = ERR_NONE
      | Done (Ans_free e) \<Rightarrow> r = Req_free | _ \<Rightarrow> True)"

definition count_inv :: "ptr \<Rightarrow> (nat \<Rightarrow> request) \<Rightarrow> nat set \<Rightarrow> nat \<Rightarrow> 's threads \<Rightarrow> bool" where
  "count_inv p R T k st \<longleftrightarrow>
     (\<exists>h. mp_handles (snd st) p = Some h \<and> handle_cast imported (Some h) = Some h \<and> p \<in> set (mp_pool (snd st)) \<and>
       int (unat (lock_count h)) = int k + (\<Sum>i \<in> T. contribution (fst st i)) \<and>
       (\<forall>i \<in> T. expected (R i) (fst st i)))"

lemma contribution_bounds:
  assumes "expected r x"
  shows "contribution x \<le> 1" "- (if r = Req_unlock then 1 else 0) \<le> contribution x"
  using assms by (cases x; auto simp: expected_def split: answer.splits)+

lemma sum_update:
  fixes f :: "position \<Rightarrow> int"
  assumes "finite T" "i \<in> T"
  shows "(\<Sum>j \<in> T. f ((g(i := y)) j)) = (\<Sum>j \<in> T. f (g j)) - f (g i) + f y"
proof -
  have "(\<Sum>j \<in> T. f ((g(i := y)) j)) = f y + (\<Sum>j \<in> T - {i}. f ((g(i := y)) j))"
    using assms by (simp add: sum.remove)
  also have "(\<Sum>j \<in> T - {i}. f ((g(i := y)) j)) = (\<Sum>j \<in> T - {i}. f (g j))"
    by (rule sum.cong) auto
  also have "\<dots> = (\<Sum>j \<in> T. f (g j)) - f (g i)"
    using assms by (simp add: sum_diff1)
  finally show ?thesis
    by simp
qed

text \<open>The bounds of the counter at a thread that has not contributed yet.\<close>

lemma counter_bounds:
  assumes "finite T" "i \<in> T" and "\<And>j. j \<in> T \<Longrightarrow> expected (R j) (pos j)" and "contribution (pos i) = 0"
    and "card {j \<in> T. R j = Req_unlock} \<le> k"
  shows "(\<Sum>j \<in> T. contribution (pos j)) < int (card T)"
    and "R i = Req_unlock \<Longrightarrow> 0 < int k + (\<Sum>j \<in> T. contribution (pos j))"
proof -
  have split: "(\<Sum>j \<in> T. contribution (pos j)) = (\<Sum>j \<in> T - {i}. contribution (pos j))"
    using assms(1,2,4) by (simp add: sum.remove)
  have "(\<Sum>j \<in> T - {i}. contribution (pos j)) \<le> (\<Sum>j \<in> T - {i}. 1)"
    using assms(3) contribution_bounds(1) by (intro sum_mono) blast
  also have "\<dots> < int (card T)"
    using assms(1,2) card_gt_0_iff [of T] by auto
  finally show "(\<Sum>j \<in> T. contribution (pos j)) < int (card T)"
    using split by simp
  assume i: "R i = Req_unlock"
  let ?U = "{j \<in> T. R j = Req_unlock}"
  have "(\<Sum>j \<in> T - {i}. - (if R j = Req_unlock then 1 else 0 :: int)) = - int (card (?U - {i}))"
    using assms(1) by (simp add: sum_negf flip: sum.inter_filter) (rule arg_cong [of _ _ card], auto)
  moreover have "(\<Sum>j \<in> T - {i}. - (if R j = Req_unlock then 1 else 0 :: int)) \<le> (\<Sum>j \<in> T - {i}. contribution (pos j))"
    using assms(3) contribution_bounds(2) by (intro sum_mono) blast
  moreover have "int (card (?U - {i})) < int (card ?U)"
    using assms(1,2) i by (intro iffD2 [OF of_nat_less_iff] psubset_card_mono) auto
  ultimately show "0 < int k + (\<Sum>j \<in> T. contribution (pos j))"
    using assms(5) split by linarith
qed

text \<open>One step changes the counter by what it changes the contribution of its thread.\<close>

lemma map_buffer_count:
  assumes "mali_map_buffer Sys h s = (c, h', s')"
  shows "lock_count h' = lock_count h" "handle_cast imported (Some h) = Some h \<Longrightarrow> handle_cast imported (Some h') = Some h'"
  using assms by (cases rule: map_bufferE; simp add: handle_cast_eq_Some)+

definition counts_step :: "ptr \<Rightarrow> request \<Rightarrow> position \<Rightarrow> 's mapper_state \<Rightarrow> position \<Rightarrow> 's mapper_state \<Rightarrow> bool" where
  "counts_step p r x m y m' \<longleftrightarrow>
     (\<exists>h h'. mp_handles m p = Some h \<and> mp_handles m' p = Some h' \<and> handle_cast imported (Some h') = Some h' \<and>
       mp_pool m' = mp_pool m \<and> expected r y \<and>
       lock_count h' = lock_count h + of_int (contribution y - contribution x))"

lemma sync_lock_counts:
  assumes "sync_lock_thread Sys d x h s = (y, h', s')" and "expected r x" "is_lock r"
  shows "expected r y \<and> lock_count h' = lock_count h + of_int (contribution y - contribution x) \<and>
    (handle_cast imported (Some h) = Some h \<longrightarrow> handle_cast imported (Some h') = Some h')"
  using assms by (cases x) (auto simp: expected_def handle_cast_eq_Some)

lemma sync_unlock_counts:
  assumes "sync_unlock_thread Sys x h s = (y, h', s')" and "expected r x" "r = Req_unlock"
    and "sync_end_succeeds Sys" and "contribution x = 0 \<Longrightarrow> 0 < sint (lock_count h)"
  shows "expected r y \<and> lock_count h' = lock_count h + of_int (contribution y - contribution x) \<and>
    (handle_cast imported (Some h) = Some h \<longrightarrow> handle_cast imported (Some h') = Some h')"
proof (cases x)
  case Unlock_flush
  obtain st s1 where e: "allocator_sync_end Sys h False (cpu_write h \<noteq> 0) s = (st, s1)"
    by fastforce
  then have "\<not> sint st < 0"
    using assms(4) by (auto simp: sync_end_succeeds_def allocator_sync_end_def not_less split: prod.splits) (metis fst_conv)
  then show ?thesis
    using assms Unlock_flush e by (auto simp: expected_def)
qed (use assms in \<open>auto simp: expected_def unlock_done_def handle_cast_eq_Some split: if_splits\<close>)

lemma counts_same:
  assumes "mp_handles m p = Some h" "handle_cast imported (Some h) = Some h" and "expected r y" "contribution y = contribution x"
  shows "counts_step p r x m y m"
  using assms by (simp add: counts_step_def)

lemma counts_put:
  assumes "mp_handles m p = Some h" and "expected r y" "lock_count h1 = lock_count h + of_int (contribution y - contribution x)"
    and "handle_cast imported (Some h1) = Some h1"
  shows "counts_step p r x m y (put_handle m p h1 s1)"
  using assms by (simp add: counts_step_def)

lemma lock_thread_counts:
  assumes run: "lock_thread L p usage reg fence x m = (y, m')" and h: "mp_handles m p = Some h" "handle_cast imported (Some h) = Some h"
    and p: "p \<in> set (mp_pool m)" and cpu: "cpu_access usage" and r: "r = Req_lock usage reg fence" and exp: "expected r x"
    and x: "\<not> finished x"
  shows "counts_step p r x m y m'"
proof -
  consider "x = Begin \<or> x = Lock_found \<or> x = Lock_mapped" | "x = Lock_checked"
    | "x \<notin> {Begin, Lock_found, Lock_checked, Lock_mapped}"
    by blast
  then show ?thesis
  proof cases
    case 1
    then have "m' = m" "expected r y" "contribution y = contribution x"
      using run h p exp r by (auto simp: touch_def expected_def pool_get_def split: if_splits)
    then show ?thesis
      using counts_same [OF h] by simp
  next
    case 2
    obtain c h1 s1 where map: "mali_map_buffer (pl_os L) h (mp_os m) = (c, h1, s1)"
      using prod_cases3 by blast
    have "expected r y" "contribution y = contribution x" "m' = m \<or> m' = put_handle m p h1 s1"
      using run h 2 map cpu r by (auto simp: touch_def Let_def expected_def split: if_splits)
    then show ?thesis
      using counts_same [OF h] counts_put [OF h(1), of r y h1 x s1] map_buffer_count [OF map] h(2) by auto
  next
    case 3
    obtain y1 h1 s1 where s: "sync_lock_thread (pl_os L) (get_tx_direction usage) x h (mp_os m) = (y1, h1, s1)"
      using prod_cases3 by blast
    then have "y1 = y" "m' = put_handle m p h1 s1"
      using run h 3 lock_thread_sync [OF 3, of L p usage reg fence m] by (simp_all add: touch_def)
    then show ?thesis
      using counts_put [OF h(1), of r y h1 x s1] sync_lock_counts [OF s exp] r h(2) by simp
  qed
qed

lemma unlock_thread_counts:
  assumes run: "unlock_thread L p x m = (y, m')" and h: "mp_handles m p = Some h" "handle_cast imported (Some h) = Some h"
    and p: "p \<in> set (mp_pool m)" and exp: "expected Req_unlock x" and flush: "sync_end_succeeds (pl_os L)"
    and pos: "contribution x = 0 \<Longrightarrow> 0 < sint (lock_count h)" and x: "\<not> finished x"
  shows "counts_step p Req_unlock x m y m'"
proof (cases "x \<in> {Begin, Unlock_found}")
  case True
  then have "m' = m" "expected Req_unlock y" "contribution y = contribution x"
    using run h p exp pos by (auto simp: touch_def expected_def pool_get_def split: if_splits)
  then show ?thesis
    using counts_same [OF h] by simp
next
  case False
  obtain y1 h1 s1 where s: "sync_unlock_thread (pl_os L) x h (mp_os m) = (y1, h1, s1)"
    using prod_cases3 by blast
  then have "y1 = y" "m' = put_handle m p h1 s1"
    using run h False unlock_thread_sync [OF False, of L p m] by (simp_all add: touch_def)
  then show ?thesis
    using counts_put [OF h(1), of Req_unlock y h1 x s1] sync_unlock_counts [OF s exp refl flush pos] h(2) by simp
qed

lemma step_counts:
  assumes step: "thread_step L p r x m = (y, m')" and h: "mp_handles m p = Some h" "handle_cast imported (Some h) = Some h"
    and p: "p \<in> set (mp_pool m)" and r: "r \<noteq> Req_free" "is_lock r \<Longrightarrow> cpu_lock r" and exp: "expected r x"
    and flush: "sync_end_succeeds (pl_os L)"
    and pos: "r = Req_unlock \<Longrightarrow> contribution x = 0 \<Longrightarrow> 0 < sint (lock_count h)"
  shows "counts_step p r x m y m'"
proof (cases "finished x")
  case True
  then show ?thesis
    using step exp counts_same [OF h exp refl] by (simp add: thread_step_def)
next
  case False
  show ?thesis
  proof (cases r)
    case (Req_lock usage reg fence)
    then show ?thesis
      using step False lock_thread_counts [OF _ h p _ Req_lock exp False] r(2) by (simp add: thread_step_def)
  next
    case Req_unlock
    then show ?thesis
      using step False unlock_thread_counts [OF _ h p _ flush _ False] exp pos by (simp add: thread_step_def)
  qed (use r in simp)
qed

lemma sum_bounds:
  assumes "finite T" and "\<And>j. j \<in> T \<Longrightarrow> expected (R j) (pos j)"
  shows "(\<Sum>j \<in> T. contribution (pos j)) \<le> int (card T)"
    and "- int (card {j \<in> T. R j = Req_unlock}) \<le> (\<Sum>j \<in> T. contribution (pos j))"
proof -
  have "(\<Sum>j \<in> T. contribution (pos j)) \<le> (\<Sum>j \<in> T. 1)"
    using assms(2) contribution_bounds(1) by (intro sum_mono) blast
  then show "(\<Sum>j \<in> T. contribution (pos j)) \<le> int (card T)"
    by simp
  have "(\<Sum>j \<in> T. - (if R j = Req_unlock then 1 else 0 :: int)) \<le> (\<Sum>j \<in> T. contribution (pos j))"
    using assms(2) contribution_bounds(2) by (intro sum_mono) blast
  then show "- int (card {j \<in> T. R j = Req_unlock}) \<le> (\<Sum>j \<in> T. contribution (pos j))"
    using assms(1) by (simp add: sum_negf flip: sum.inter_filter)
qed

lemma unat_add_int:
  fixes c :: i32
  assumes "0 \<le> int (unat c) + d" "int (unat c) + d < 2 ^ 32"
  shows "int (unat (c + of_int d)) = int (unat c) + d"
proof -
  have "c + of_int d = of_int (uint c + d)"
    by simp
  then have "uint (c + of_int d) = (uint c + d) mod 2 ^ 32"
    by (simp only: uint_word_of_int) simp
  then show ?thesis
    using assms by simp
qed

definition clients_ok :: "(nat \<Rightarrow> request) \<Rightarrow> nat set \<Rightarrow> nat \<Rightarrow> bool" where
  "clients_ok R T k \<longleftrightarrow>
     finite T \<and> k + card T < 2 ^ 31 \<and> card {j \<in> T. R j = Req_unlock} \<le> k \<and>
     (\<forall>j \<in> T. R j \<noteq> Req_free \<and> (is_lock (R j) \<longrightarrow> cpu_lock (R j)))"

lemma count_inv_move:
  assumes ok: "clients_ok R T k" and flush: "sync_end_succeeds (pl_os L)" and inv: "count_inv p R T k st" and i: "i \<in> T"
  shows "count_inv p R T k (move L p R i st)"
proof -
  let ?S = "\<Sum>j \<in> T. contribution (fst st j)"
  have T: "finite T" "k + card T < 2 ^ 31" "card {j \<in> T. R j = Req_unlock} \<le> k"
    "R i \<noteq> Req_free" "is_lock (R i) \<Longrightarrow> cpu_lock (R i)"
    using ok i by (auto simp: clients_ok_def)
  obtain h where h: "mp_handles (snd st) p = Some h" "handle_cast imported (Some h) = Some h" "p \<in> set (mp_pool (snd st))"
    "int (unat (lock_count h)) = int k + ?S" and exp: "\<And>j. j \<in> T \<Longrightarrow> expected (R j) (fst st j)"
    using inv by (auto simp: count_inv_def)
  obtain y m' where y: "thread_step L p (R i) (fst st i) (snd st) = (y, m')"
    by fastforce
  have "0 < sint (lock_count h)" if "R i = Req_unlock" "contribution (fst st i) = 0"
  proof -
    note counter_bounds [OF T(1) i exp that(2) T(3)]
    then have "0 < unat (lock_count h)" "unat (lock_count h) < 2 ^ 31"
      using h(4) T(2) that(1) by linarith+
    moreover from this have "sint (lock_count h) = int (unat (lock_count h))"
      by (simp add: sint_small)
    ultimately show ?thesis
      by linarith
  qed
  with step_counts [OF y h(1-3) T(4,5) exp [OF i] flush]
  have "counts_step p (R i) (fst st i) (snd st) y m'"
    by blast
  then obtain h2 h' where h2: "mp_handles (snd st) p = Some h2" and h': "mp_handles m' p = Some h'" "handle_cast imported (Some h') = Some h'" "mp_pool m' = mp_pool (snd st)"
    "expected (R i) y" "lock_count h' = lock_count h2 + of_int (contribution y - contribution (fst st i))"
    unfolding counts_step_def by blast
  have h2: "h2 = h"
    using h2 h(1) by simp
  have exp': "expected (R j) (((fst st)(i := y)) j)" if "j \<in> T" for j
    using that exp h'(4) by simp
  have S': "(\<Sum>j \<in> T. contribution (((fst st)(i := y)) j)) = ?S - contribution (fst st i) + contribution y"
    by (rule sum_update [OF T(1) i])
  let ?d = "contribution y - contribution (fst st i)"
  let ?S' = "\<Sum>j \<in> T. contribution (((fst st)(i := y)) j)"
  have bounds: "?S' \<le> int (card T)" "- int (card {j \<in> T. R j = Req_unlock}) \<le> ?S'"
    by (rule sum_bounds [OF T(1) exp']; assumption)+
  have sum: "int (unat (lock_count h)) + ?d = int k + ?S'"
    using h(4) S' by linarith
  have "int k + int (card T) < 2 ^ 32"
    using T(2) by simp
  then have "0 \<le> int (unat (lock_count h)) + ?d" "int (unat (lock_count h)) + ?d < 2 ^ 32"
    unfolding sum using bounds T(3) by linarith+
  then have "int (unat (lock_count h')) = int k + ?S'"
    unfolding h'(5) h2 sum [symmetric] by (rule unat_add_int)
  then show ?thesis
    unfolding count_inv_def move_def y prod.case fst_conv snd_conv using h' h(3) exp' by (intro exI [of _ h']) simp
qed

lemma expected_finished:
  assumes "expected r x" and "finished x" and "r \<noteq> Req_free"
  shows "r = Req_unlock \<Longrightarrow> \<exists>f. x = Done (Ans_unlock ERR_NONE f)"
    and "contribution x = (if \<exists>a. x = Done (Ans_lock ERR_NONE a) then 1 else 0) - (if r = Req_unlock then 1 else 0)"
  using assms by (cases x; auto simp: expected_def split: answer.splits)+

text \<open>C4: The counter of locks is right under every interleaving. Starting from \<open>k\<close> locks, let threads lock the buffer for the
  CPU or unlock it, at most \<open>k\<close> of them the latter. When all have come to their end, every unlock has succeeded and
  the counter is \<open>k\<close>, and one more for each lock that succeeded, and one less for each unlock.\<close>

theorem locks_counted_by_threads:
  assumes ok: "clients_ok R T k" and "sync_end_succeeds (pl_os L)"
    and "\<And>j. fst st j = Begin" and "p \<in> set (mp_pool (snd st))"
    and "mp_handles (snd st) p = Some h0" "handle_cast imported (Some h0) = Some h0" "unat (lock_count h0) = k"
    and "set is \<subseteq> T" and "schedule L p R is st = (pos, m)" and "\<And>j. j \<in> T \<Longrightarrow> finished (pos j)"
  shows "\<exists>h. mp_handles m p = Some h \<and>
    (\<forall>j \<in> T. R j = Req_unlock \<longrightarrow> (\<exists>f. pos j = Done (Ans_unlock ERR_NONE f))) \<and>
    int (unat (lock_count h)) =
      int k + int (card {j \<in> T. \<exists>a. pos j = Done (Ans_lock ERR_NONE a)}) - int (card {j \<in> T. R j = Req_unlock})"
proof -
  have "count_inv p R T k st"
    unfolding count_inv_def
    by (intro exI [of _ h0]) (simp add: assms(3-6) assms(7) [symmetric] expected_def)
  then have "count_inv p R T k (schedule L p R is st)"
    by (rule schedule_inv) (use count_inv_move [OF ok assms(2)] assms(8) in blast)
  then obtain h where h: "mp_handles m p = Some h" "int (unat (lock_count h)) = int k + (\<Sum>j \<in> T. contribution (pos j))"
    and exp: "\<And>j. j \<in> T \<Longrightarrow> expected (R j) (pos j)"
    using assms(9) by (auto simp: count_inv_def)
  have T: "finite T" "\<And>j. j \<in> T \<Longrightarrow> R j \<noteq> Req_free"
    using ok by (auto simp: clients_ok_def)
  have "(\<Sum>j \<in> T. contribution (pos j)) =
      (\<Sum>j \<in> T. (if \<exists>a. pos j = Done (Ans_lock ERR_NONE a) then 1 else 0) - (if R j = Req_unlock then 1 else 0))"
    using expected_finished(2) [OF exp assms(10) T(2)] by (intro sum.cong) auto
  also have "\<dots> = int (card {j \<in> T. \<exists>a. pos j = Done (Ans_lock ERR_NONE a)}) - int (card {j \<in> T. R j = Req_unlock})"
    using T(1) by (simp add: sum_subtractf flip: sum.inter_filter)
  finally show ?thesis
    using h expected_finished(1) [OF exp assms(10) T(2)] by auto
qed

section \<open>What is not protected\<close>

text \<open>C25: The pool protects the set of handles, not the handles. A thread that has found a buffer in the pool and is then
  overtaken by a call of freeBuffer, which succeeds, goes on to read the deleted handle.\<close>

theorem deleted_handle_touched:
  assumes "i \<noteq> j" and "is_lock (R i) \<or> R i = Req_unlock" and "R j = Req_free" and "\<And>k. fst st k = Begin"
    and "p \<in> set (mp_pool (snd st))" and "mp_handles (snd st) p = Some h" "handle_cast imported (Some h) = Some h"
    and "schedule L p R ([i] @ replicate 8 j @ [i]) st = (pos, m)"
  shows "pos j = Done (Ans_free ERR_NONE) \<and> pos i = Undefined"
proof -
  define x where "x = (if is_lock (R i) then Lock_found else Unlock_found)"
  have s1: "thread_step L p (R i) Begin (snd st) = (x, snd st)"
    using assms(2,5) by (cases "R i") (simp_all add: thread_step_def pool_get_def x_def)
  obtain e m1 where free: "freeBuffer L p (snd st) = (e, m1)"
    by fastforce
  then have e: "e = ERR_NONE" "mp_handles m1 p = None"
    using assms(5-7) by (auto simp: freeBuffer_def pool_remove_def Let_def split: if_splits prod.splits)
  have "thread_step L p (R i) x m1 = (Undefined, m1)"
    using assms(2) e(2) by (cases "R i") (simp_all add: thread_step_simps x_def)
  then have "schedule L p R ([i] @ replicate 8 j @ [i]) st =
      ((fst st)(i := x, j := Done (Ans_free ERR_NONE), i := Undefined), m1)"
    using assms(1,3,4) s1 free_thread_alone [OF assms(5,6) free] e(1)
    by (simp add: move_def schedule_alone del: alone.simps)
  then show ?thesis
    using assms(1,8) by auto
qed

text \<open>What a successful CPU lock does to the handle.\<close>

lemma gralloc_lock_result:
  assumes "mali_gralloc_lock Sys H h usage l t w ht True s = (0, d, h1, s1)" and "cpu_access usage"
    and "os_documented Sys fds maps" and "mmap_errors Sys"
  shows "\<exists>b c. h1 = h\<lparr>h_base := b, lock_count := lock_count h + 1, cpu_write := c\<rparr> \<and> b \<noteq> nullptr \<and> d = Some b"
proof -
  obtain q where d: "d = Some q"
    using assms(1,2) by (auto simp: mali_gralloc_lock_def Let_def EINVAL_def split: if_splits prod.splits)
  from assms(1) [unfolded d] obtain h2 s2 where map: "mali_map_buffer Sys h s = (0, h2, s2)" and q: "q = h_base h2"
    and sync: "buffer_sync Sys h2 (get_tx_direction usage) s2 = (h1, s1)" "get_tx_direction usage \<noteq> TX_NONE"
    by (rule lock_SomeE)
  have b: "h_base h2 \<noteq> nullptr"
    by (rule map_buffer_base [OF assms(3,4) map])
  have "h2 = h\<lparr>h_base := h_base h2\<rparr>"
    using map by (cases rule: map_bufferE) simp_all
  moreover obtain c where "h1 = h2\<lparr>lock_count := lock_count h2 + 1, cpu_write := c\<rparr>"
    using sync_lockE [OF sync] by metis
  moreover have "lock_count h2 = lock_count h"
    by (rule map_buffer_count(1) [OF map])
  ultimately show ?thesis
    using b d q by (intro exI [of _ "h_base h2"] exI [of _ c]) (metis imported_handle.fold_congs(1))
qed

lemma lock_successD:
  assumes "p \<in> set (mp_pool m)" and "mp_handles m p = Some h"
    and "lock L p usage (l, t, w, ht) fence m = ((ERR_NONE, a), m1)"
  shows "thread_step L p (Req_lock usage (l, t, w, ht) fence) Lock_found m = (Lock_checked, m)"
    and "\<exists>d h1 s1. mali_gralloc_lock (pl_os L) (pl_hal L) h usage l t w ht True (mp_os m) = (0, d, h1, s1) \<and>
      a = value_or d nullptr \<and> m1 = put_handle m p h1 s1"
proof -
  obtain result d h1 s1 where lk: "mali_gralloc_lock (pl_os L) (pl_hal L) h usage l t w ht True (mp_os m) = (result, d, h1, s1)"
    using prod_cases4 by blast
  show step: "thread_step L p (Req_lock usage (l, t, w, ht) fence) Lock_found m = (Lock_checked, m)"
    using assms by (cases h rule: cast_cases)
      (auto simp: thread_step_simps lock_def lockBuffer_def registered_def pool_get_def split: if_splits option.splits)
  have "result = 0 \<and> a = value_or d nullptr \<and> m1 = put_handle m p h1 s1"
    using assms lk step by (cases h rule: cast_cases)
      (auto simp: thread_step_simps lock_def lockBuffer_def registered_def pool_get_def put_handle_def split: if_splits option.splits)
  then show "\<exists>d h1 s1. mali_gralloc_lock (pl_os L) (pl_hal L) h usage l t w ht True (mp_os m) = (0, d, h1, s1) \<and>
      a = value_or d nullptr \<and> m1 = put_handle m p h1 s1"
    using lk by blast
qed

text \<open>A handle that is mapped already is locked at once.\<close>

lemma gralloc_lock_mapped:
  assumes "mali_gralloc_lock Sys H h usage l t w ht True s = (0, d, h1, s1)" and "cpu_access usage"
    and "os_getpid Sys s' = os_getpid Sys s" and "h' = h\<lparr>h_base := b, lock_count := n, cpu_write := c\<rparr>" and "b \<noteq> nullptr"
  shows "\<exists>h2 s2. mali_gralloc_lock Sys H h' usage l t w ht True s' = (0, Some b, h2, s2)"
proof -
  have "validate_lock_input_parameters Sys h' l t w ht usage s' = validate_lock_input_parameters Sys h l t w ht usage s"
    using assms(3,4) by (simp add: validate_lock_input_parameters_def)
  moreover have "validate_lock_input_parameters Sys h l t w ht usage s = 0" "get_base_info H (alloc_format h) \<noteq> None"
    using assms(1) by (auto simp: mali_gralloc_lock_def Let_def EINVAL_def split: if_splits)
  moreover have "mali_map_buffer Sys h' s' = (0, h', s')" "alloc_format h' = alloc_format h" "h_base h' = b"
    using assms(4,5) by (simp_all add: mali_map_buffer_def)
  ultimately show ?thesis
    using assms(2) by (auto simp: mali_gralloc_lock_def split: prod.splits)
qed

lemma write_usage_cpu: "usage AND CPU_WRITE_MASK \<noteq> 0 \<Longrightarrow> cpu_access usage"
  by (auto simp: cpu_access_def CPU_WRITE_MASK_eq bit.conj_disj_distrib or_zero_iff)

text \<open>C23: The test for a buffer that is locked for writing and the mark that it is are two steps, and no lock is held over
  them. If two threads could each lock a buffer for writing on their own, there is a schedule in which both do at the same
  time, and both get the same address.\<close>

theorem two_writers:
  assumes "i \<noteq> j" and "R i = Req_lock u reg f" "R j = Req_lock u' reg' f'"
    and "u AND CPU_WRITE_MASK \<noteq> 0" "u' AND CPU_WRITE_MASK \<noteq> 0"
    and "\<And>k. fst st k = Begin" and "p \<in> set (mp_pool (snd st))" and "mp_handles (snd st) p = Some h"
    and "lock L p u reg f (snd st) = ((ERR_NONE, a), m1)" "lock L p u' reg' f' (snd st) = ((ERR_NONE, a'), m2)"
    and "os_documented (pl_os L) fds maps" "mmap_errors (pl_os L)"
    and "os_getpid (pl_os L) (mp_os m1) = os_getpid (pl_os L) (mp_os (snd st))"
    and "schedule L p R ([i, i, j, j] @ replicate 6 i @ replicate 6 j) st = (pos, m)"
  shows "pos i = Done (Ans_lock ERR_NONE a) \<and> pos j = Done (Ans_lock ERR_NONE a)"
proof -
  obtain l t w ht where reg: "reg = (l, t, w, ht)"
    using prod_cases4 by blast
  obtain l' t' w' ht' where reg': "reg' = (l', t', w', ht')"
    using prod_cases4 by blast
  let ?m = "snd st"
  note L1 = lock_successD [OF assms(7,8) assms(9) [unfolded reg]] and L2 = lock_successD [OF assms(7,8) assms(10) [unfolded reg']]
  obtain d h1 s1 where lk: "mali_gralloc_lock (pl_os L) (pl_hal L) h u l t w ht True (mp_os ?m) = (0, d, h1, s1)"
    and a: "a = value_or d nullptr" and m1: "m1 = put_handle ?m p h1 s1"
    using L1(2) by blast
  obtain b c where h1: "h1 = h\<lparr>h_base := b, lock_count := lock_count h + 1, cpu_write := c\<rparr>" "b \<noteq> nullptr" "d = Some b"
    using gralloc_lock_result [OF lk write_usage_cpu [OF assms(4)] assms(11,12)] by blast
  obtain d' h1' s1' where lk': "mali_gralloc_lock (pl_os L) (pl_hal L) h u' l' t' w' ht' True (mp_os ?m) = (0, d', h1', s1')"
    using L2(2) by blast
  obtain h2 s2 where lk2: "mali_gralloc_lock (pl_os L) (pl_hal L) h1 u' l' t' w' ht' True s1 = (0, Some b, h2, s2)"
    using gralloc_lock_mapped [OF lk' write_usage_cpu [OF assms(5)] _ h1(1,2), of s1] assms(13) m1 by auto
  have start: "thread_step L p (R k) Begin ?m = (Lock_found, ?m)" if "is_lock (R k)" for k
    using assms(7) that by (cases "R k") (simp_all add: thread_step_def pool_get_def)
  have run1: "alone L p (R i) 6 (Lock_checked, ?m) = (Done (Ans_lock ERR_NONE b), put_handle ?m p h1 s1)"
    using lock_checked_alone [OF assms(8) lk, of f] assms(2) h1(3) by (simp add: reg value_or_def del: alone.simps)
  have run2: "alone L p (R j) 6 (Lock_checked, put_handle ?m p h1 s1) =
      (Done (Ans_lock ERR_NONE b), put_handle ?m p h2 s2)"
    using lock_checked_alone [of "put_handle ?m p h1 s1" p h1 L u' l' t' w' ht' 0 "Some b" h2 s2 f'] lk2 assms(3)
    by (simp add: reg' value_or_def del: alone.simps)
  have first: "schedule L p R [i, i, j, j] st = ((fst st)(i := Lock_checked, j := Lock_checked), ?m)"
    using assms(1-3,6) start [of i] start [of j] L1(1) L2(1) by (simp add: move_def reg reg' fun_eq_iff)
  have "(pos, m) = ((fst st)(i := Done (Ans_lock ERR_NONE b), j := Done (Ans_lock ERR_NONE b)), put_handle ?m p h2 s2)"
    unfolding assms(14) [symmetric] schedule_simps(3) first schedule_alone
    using assms(1) run1 run2 by (simp add: fun_upd_twist del: alone.simps)
  then show ?thesis
    using assms(1) a h1(3) by (simp add: value_or_def)
qed

text \<open>C24: An unlock clears the mark of the writer in a step of its own, after it has seen the counter at 0. If a buffer that
  one reader has locked is unlocked, and another thread locks it for writing just before that step, the buffer ends up
  locked by the writer without the mark, and its unlock writes no cache back.\<close>

theorem write_mark_lost:
  assumes "i \<noteq> j" and "R i = Req_unlock" "R j = Req_lock u reg f" and "u AND CPU_WRITE_MASK \<noteq> 0"
    and "\<And>k. fst st k = Begin" and "p \<in> set (mp_pool (snd st))"
    and "mp_handles (snd st) p = Some h" "handle_cast imported (Some h) = Some h" "lock_count h = 1" "cpu_write h = 0"
    and "lock L p u reg f (put_handle (snd st) p (h\<lparr>lock_count := 0\<rparr>) (mp_os (snd st))) = ((ERR_NONE, a), m1)"
    and "os_documented (pl_os L) fds maps" "mmap_errors (pl_os L)"
    and "schedule L p R (replicate 6 i @ replicate 8 j @ [i]) st = (pos, m)"
  shows "pos i = Done (Ans_unlock ERR_NONE None) \<and> pos j = Done (Ans_lock ERR_NONE a) \<and>
    (\<exists>h'. mp_handles m p = Some h' \<and> lock_count h' = 1 \<and> cpu_write h' = 0) \<and>
    mp_os (snd (unlock L p m)) = mp_os m"
proof -
  let ?m = "snd st"
  define m0 where "m0 = put_handle ?m p (h\<lparr>lock_count := 0\<rparr>) (mp_os ?m)"
  have m0: "p \<in> set (mp_pool m0)" "mp_handles m0 p = Some (h\<lparr>lock_count := 0\<rparr>)"
    using assms(6) by (simp_all add: m0_def)
  obtain l t w ht where reg: "reg = (l, t, w, ht)"
    using prod_cases4 by blast
  obtain d h1 s1 where lk: "mali_gralloc_lock (pl_os L) (pl_hal L) (h\<lparr>lock_count := 0\<rparr>) u l t w ht True (mp_os m0) = (0, d, h1, s1)"
    and a: "a = value_or d nullptr" and m1: "m1 = put_handle m0 p h1 s1"
    using lock_successD(2) [OF m0 assms(11) [folded m0_def, unfolded reg]] by blast
  obtain b c where h1: "h1 = h\<lparr>lock_count := 0, h_base := b, lock_count := 0 + 1, cpu_write := c\<rparr>"
    using gralloc_lock_result [OF lk write_usage_cpu [OF assms(4)] assms(12,13)] by auto
  have run1: "alone L p (R i) 6 (Begin, ?m) = (Unlock_clear, m0)"
    using assms(2,6-10) by (simp add: eval_nat_numeral thread_step_simps pool_get_def m0_def)
  have run2: "alone L p (R j) 8 (Begin, m0) = (Done (Ans_lock ERR_NONE a), m1)"
    using lock_thread_alone [OF m0 assms(11) [folded m0_def]] assms(3) by simp
  define m' where "m' = put_handle m1 p (h1\<lparr>cpu_write := 0\<rparr>) (mp_os m1)"
  have run3: "thread_step L p (R i) Unlock_clear m1 = (unlock_done, m')"
    using assms(2) by (simp add: thread_step_simps m1 m'_def)
  have "(pos, m) = ((fst st)(i := unlock_done, j := Done (Ans_lock ERR_NONE a)), m')"
    unfolding assms(14) [symmetric] schedule_simps(3) schedule_alone
    using assms(1,5) run1 run2 run3 by (simp add: move_def fun_upd_twist del: alone.simps)
  moreover have "mp_handles m' p = Some (h1\<lparr>cpu_write := 0\<rparr>)" "lock_count h1 = 1"
    by (simp_all add: m'_def h1)
  moreover have "mp_os (snd (unlock L p m')) = mp_os m'"
  proof -
    have "handle_cast imported (Some (h1\<lparr>cpu_write := 0\<rparr>)) = Some (h1\<lparr>cpu_write := 0\<rparr>)"
      using assms(8) by (simp add: h1 handle_cast_eq_Some)
    moreover have "buffer_sync Sys (h1\<lparr>cpu_write := 0\<rparr>) TX_NONE s = (released (h1\<lparr>cpu_write := 0\<rparr>), s)" for Sys :: "'a os" and s
      by (simp add: sync_none_released)
    moreover have "mp_handles m' p = Some (h1\<lparr>cpu_write := 0\<rparr>)" "p \<in> set (mp_pool m')"
      using m0(1) by (simp_all add: m'_def m1)
    ultimately show ?thesis
      by (simp add: unlock_def unlockBuffer_def mali_gralloc_unlock_def pool_get_def)
  qed
  ultimately show ?thesis
    using assms(1) by (auto simp: unlock_done_def getFenceHandle_def)
qed

section \<open>Examples\<close>

theorem locks_counted_by_threads_witness:
  "\<exists>pos m h. schedule plain_platform 64 (two_requests write_request Req_unlock) (replicate 8 0) (start, one_buffer) = (pos, m) \<and>
    mp_handles m 64 = Some h \<and> lock_count h = 1"
proof -
  obtain pos m where run: "schedule plain_platform 64 (two_requests write_request Req_unlock) (replicate 8 0) (start, one_buffer) = (pos, m)"
    by fastforce
  have a: "pos 0 = Done (Ans_lock ERR_NONE 0x3000)"
    using run lock_thread_alone [OF _ _ sample_locked, of sample_imported]
    by (auto simp: schedule_alone write_request_def simp del: alone.simps split: prod.splits)
  have ok: "clients_ok (two_requests write_request Req_unlock) {0} 0"
    by (auto simp: clients_ok_def write_request_def sample_access)
  have flush: "sync_end_succeeds (pl_os plain_platform)"
    by (simp add: sync_end_succeeds_def sim_os_def)
  have "{j \<in> {0}. \<exists>a. pos j = Done (Ans_lock ERR_NONE a)} = {0}" "{j \<in> {0}. two_requests write_request Req_unlock j = Req_unlock} = {}"
    using a by (auto simp: write_request_def)
  then obtain h where h: "mp_handles m 64 = Some h" "int (unat (lock_count h)) = 1"
    using locks_counted_by_threads [where p = 64 and st = "(start, one_buffer)" and ?h0.0 = sample_imported,
        OF ok flush _ _ _ _ _ _ run] sample_imported_cast a by auto
  then have "lock_count h = 1"
    by (simp add: word_uint_eq_iff)
  with run h(1) show ?thesis
    by blast
qed

theorem deleted_handle_touched_witness:
  "\<exists>pos m. schedule plain_platform 64 (two_requests Req_unlock Req_free) ([0] @ replicate 8 1 @ [0]) (start, one_buffer) = (pos, m) \<and>
    pos 1 = Done (Ans_free ERR_NONE) \<and> pos 0 = Undefined"
proof -
  obtain pos m where run: "schedule plain_platform 64 (two_requests Req_unlock Req_free) ([0] @ replicate 8 1 @ [0]) (start, one_buffer) = (pos, m)"
    by fastforce
  then show ?thesis
    using deleted_handle_touched [where st = "(start, one_buffer)" and h = sample_imported, OF _ _ _ _ _ _ _ run]
      sample_imported_cast by simp
qed

theorem two_writers_witness:
  "\<exists>pos m. schedule plain_platform 64 (\<lambda>_. write_request) ([0, 0, 1, 1] @ replicate 6 0 @ replicate 6 1) (start, one_buffer) = (pos, m) \<and>
    pos 0 = Done (Ans_lock ERR_NONE 0x3000) \<and> pos 1 = Done (Ans_lock ERR_NONE 0x3000)"
proof -
  obtain pos m where run: "schedule plain_platform 64 (\<lambda>_. write_request) ([0, 0, 1, 1] @ replicate 6 0 @ replicate 6 1) (start, one_buffer) = (pos, m)"
    by fastforce
  have "GRALLOC_USAGE_SW_WRITE_OFTEN AND CPU_WRITE_MASK \<noteq> 0"
    by (simp add: usage_values CPU_WRITE_MASK_def)
  with run show ?thesis
    using two_writers [where st = "(start, one_buffer)" and h = sample_imported and fds = sim_fds and maps = sim_maps,
        OF _ write_request_def write_request_def _ _ _ _ _ _ _ _ _ _ run] sample_locked sim_documented sim_mmap_errors
    by (auto simp: sim_os_def sample_mapped_def)
qed

theorem write_mark_lost_witness:
  "\<exists>pos m h m0. m0 = put_handle one_buffer 64 (sample_imported\<lparr>lock_count := 1, h_base := 0x3000\<rparr>) sample_mapped \<and>
    schedule plain_platform 64 (two_requests Req_unlock write_request) (replicate 6 0 @ replicate 8 1 @ [0]) (start, m0) = (pos, m) \<and>
    pos 1 = Done (Ans_lock ERR_NONE 0x3000) \<and> mp_handles m 64 = Some h \<and> lock_count h = 1 \<and> cpu_write h = 0"
proof -
  define h0 where "h0 = sample_imported\<lparr>lock_count := 1, h_base := 0x3000\<rparr>"
  define m0 where "m0 = put_handle one_buffer 64 h0 sample_mapped"
  obtain pos m where run: "schedule plain_platform 64 (two_requests Req_unlock write_request)
      (replicate 6 0 @ replicate 8 1 @ [0]) (start, m0) = (pos, m)"
    by fastforce
  have usage: "GRALLOC_USAGE_SW_WRITE_OFTEN AND CPU_WRITE_MASK \<noteq> 0"
    by (simp add: usage_values CPU_WRITE_MASK_def)
  have cast: "handle_cast imported (Some h0) = Some h0"
    using sample_imported_cast by (simp add: h0_def handle_cast_eq_Some)
  have "h0\<lparr>lock_count := 0\<rparr> = sample_imported\<lparr>h_base := 0x3000\<rparr>"
    by (simp add: h0_def sample_imported_def)
  then obtain m1 where lk: "lock plain_platform 64 GRALLOC_USAGE_SW_WRITE_OFTEN (0, 0, 640, 480) None
      (put_handle m0 64 (h0\<lparr>lock_count := 0\<rparr>) sample_mapped) = ((ERR_NONE, 0x3000), m1)"
    using sample_lock_succeeds [of GRALLOC_USAGE_SW_WRITE_OFTEN _ "sample_imported\<lparr>h_base := 0x3000\<rparr>" sample_mapped "0x3000"]
    by (simp add: m0_def)
  have "two_requests Req_unlock write_request 1 = Req_lock GRALLOC_USAGE_SW_WRITE_OFTEN (0, 0, 640, 480) None"
    by (simp add: write_request_def)
  with run show ?thesis
    using write_mark_lost [where st = "(start, m0)" and i = 0 and j = 1 and h = h0 and fds = sim_fds and maps = sim_maps,
        OF _ _ _ usage _ _ _ cast _ _ _ _ _ run] lk sim_documented sim_mmap_errors
    by (fastforce simp: m0_def h0_def)
qed

end
