(* ===== verification/Custom_Log.thy ===== *)
theory Custom_Log
  imports Internal_Format
begin

text \<open>
  Diagnostics: the dumps of memory of src/src/custom_log.h, which write text into C buffers of a fixed size, and the
  text of a format that src/src/core/internal_format.h prints. What goes to the log is the result; a write outside of a
  buffer is the fault \<open>Out_of_bounds\<close>. The address in a header line, delays, and file and line of a message are left out.
\<close>

section \<open>Buffers of characters\<close>

definition NUL :: char where "NUL = CHR 0x00"

definition poke :: "string \<Rightarrow> nat \<Rightarrow> char \<Rightarrow> string res" where
  "poke b i c = (if i < length b then Inr (b[i := c]) else Inl Out_of_bounds)"

primrec put_chars :: "string \<Rightarrow> nat \<Rightarrow> string \<Rightarrow> string res" where
  "put_chars b i [] = Inr b"
| "put_chars b i (c # cs) = bind_res (poke b i c) (\<lambda>b1. put_chars b1 (Suc i) cs)"

text \<open>The text at the beginning of a buffer; \<open>sprintf\<close> of a text; \<open>strcat\<close>.\<close>

definition c_string :: "string \<Rightarrow> string" where
  "c_string b = takeWhile (\<lambda>c. c \<noteq> NUL) b"

definition c_sprintf :: "string \<Rightarrow> nat \<Rightarrow> string \<Rightarrow> string res" where
  "c_sprintf b i t = put_chars b i (t @ [NUL])"

definition c_strcat :: "string \<Rightarrow> string \<Rightarrow> string res" where
  "c_strcat b t = put_chars b (length (c_string b)) (t @ [NUL])"

text \<open>Memory of \<open>malloc\<close> holds anything; \<open>junk\<close> is what it happens to hold.\<close>

section \<open>Hexadecimal digits\<close>

definition hex_digit :: "nat \<Rightarrow> char" where
  "hex_digit n = ''0123456789abcdef'' ! n"

text \<open>The conversion \<open>"0x%02x"\<close> of a byte.\<close>

definition hex_byte :: "u8 \<Rightarrow> string" where
  "hex_byte x = ''0x'' @ [hex_digit (unat x div 16), hex_digit (unat x mod 16)]"

definition hex_item :: "u8 \<Rightarrow> string" where
  "hex_item x = hex_byte x @ '', ''"

section \<open>Dumps\<close>

definition BYTES_PER_LINE :: nat where "BYTES_PER_LINE = 16"

definition DUMP_SIZE_PER_SRC_BYTE :: nat where "DUMP_SIZE_PER_SRC_BYTE = 6"

text \<open>One line of \<open>dumpMemory\<close>: the loop, and the terminator that is written behind it.\<close>

primrec dump_items_at :: "string \<Rightarrow> nat \<Rightarrow> u8 list \<Rightarrow> (string \<times> nat) res" where
  "dump_items_at b i [] = Inr (b, i)"
| "dump_items_at b i (x # xs) =
     bind_res (c_sprintf b i (hex_item x)) (\<lambda>b1. dump_items_at b1 (i + DUMP_SIZE_PER_SRC_BYTE) xs)"

definition dump_line :: "string \<Rightarrow> u8 list \<Rightarrow> string res" where
  "dump_line b xs =
     bind_res (dump_items_at b 0 xs) (\<lambda>(b1, i). poke b1 (i + 1) NUL)"

fun dump_full_lines :: "string \<Rightarrow> nat \<Rightarrow> u8 list \<Rightarrow> (string \<times> string list) res" where
  "dump_full_lines b 0 src = Inr (b, [])"
| "dump_full_lines b (Suc n) src =
     bind_res (dump_line b (take BYTES_PER_LINE src)) (\<lambda>b1.
     bind_res (dump_full_lines b1 n (drop BYTES_PER_LINE src)) (\<lambda>(b2, out).
       Inr (b2, c_string b1 # out)))"

text \<open>\<open>pStart\<close> with \<open>len\<close> is \<open>None\<close> for \<open>nullptr\<close> or the bytes; \<open>junk\<close> is \<open>None\<close> when \<open>malloc\<close> fails.\<close>

definition dumpMemory :: "u8 list option \<Rightarrow> (nat \<Rightarrow> string option) \<Rightarrow> string list res" where
  "dumpMemory pStart malloc =
     (case pStart of
        None \<Rightarrow> Inr []
      | Some src \<Rightarrow>
          if src = [] then Inr []
          else
            (case malloc (BYTES_PER_LINE * DUMP_SIZE_PER_SRC_BYTE + 1) of
               None \<Rightarrow> Inr []
             | Some b \<Rightarrow>
                 bind_res (dump_full_lines b (length src div BYTES_PER_LINE) src) (\<lambda>(b1, out).
                   let left = drop (length src div BYTES_PER_LINE * BYTES_PER_LINE) src
                   in if left \<noteq> []
                      then bind_res (dump_line b1 left) (\<lambda>b2. Inr (out @ [c_string b2]))
                      else Inr out)))"

text \<open>The last byte of a text is written without the separator.\<close>

fun ascii_items :: "string \<Rightarrow> nat \<Rightarrow> u8 list \<Rightarrow> string res" where
  "ascii_items b i [] = Inr b"
| "ascii_items b i (x # xs) =
     bind_res (c_sprintf b i (if xs \<noteq> [] then hex_item x else hex_byte x)) (\<lambda>b1.
       ascii_items b1 (i + DUMP_SIZE_PER_SRC_BYTE) xs)"

definition dumpMemInHexAsciiToMem :: "u8 list option \<Rightarrow> string option \<Rightarrow> string option res" where
  "dumpMemInHexAsciiToMem pStart pBuf =
     (case pStart of
        None \<Rightarrow> Inr pBuf
      | Some src \<Rightarrow>
          (case pBuf of
             None \<Rightarrow> Inr None
           | Some b \<Rightarrow>
               if src = [] then Inr (Some b)
               else
                 bind_res (ascii_items b 0 src) (\<lambda>b1.
                 bind_res (poke b1 (length src * DUMP_SIZE_PER_SRC_BYTE - 1) NUL) (\<lambda>b2. Inr (Some b2)))))"

text \<open>Indentation with tabulators, in a buffer of 16 characters.\<close>

primrec append_tabs :: "nat \<Rightarrow> string \<Rightarrow> string res" where
  "append_tabs 0 b = Inr b"
| "append_tabs (Suc n) b = bind_res (c_strcat b [CHR 0x09]) (append_tabs n)"

definition fill_indents :: "string \<Rightarrow> nat \<Rightarrow> string res" where
  "fill_indents b n =
     bind_res (poke b 0 NUL) (\<lambda>b1.
     bind_res (append_tabs n b1) (\<lambda>b2. poke b2 n NUL))"

definition setIndents :: "string \<Rightarrow> u8 \<Rightarrow> string res" where
  "setIndents b indentNum = fill_indents b (min (unat indentNum) 15)"

text \<open>
  \<open>dumpMemoryWithIndents\<close> does not look at the result of \<open>malloc\<close>, and of \<open>nullptr\<close> only the first line is left alone. Its lines are the indentation, the offset of the line and
  the text. \<open>stack\<close> is what the array \<open>indents\<close> holds before it is written.
\<close>

definition lines_num :: "nat \<Rightarrow> nat" where
  "lines_num len = (if len mod 16 = 0 then len div 16 else len div 16 + 1)"

definition line_length :: "nat \<Rightarrow> nat \<Rightarrow> nat" where
  "line_length len i =
     (if i < lines_num len - 1 then 16
      else if len mod 16 = 0 then 16 else len mod 16)"

fun indented_lines ::
  "string \<Rightarrow> u8 list option \<Rightarrow> nat \<Rightarrow> string \<Rightarrow> nat \<Rightarrow> nat list \<Rightarrow> (string \<times> nat \<times> string) list res" where
  "indented_lines indents pStart len b at [] = Inr []"
| "indented_lines indents pStart len b at (i # is) =
     bind_res
       (if pStart = None \<and> 0 < at then Inl Null_dereference
        else dumpMemInHexAsciiToMem (map_option (\<lambda>src. take (line_length len i) (drop at src)) pStart) (Some b)) (\<lambda>r.
       let b1 = (case r of None \<Rightarrow> b | Some b1 \<Rightarrow> b1)
       in bind_res (indented_lines indents pStart len b1 (at + line_length len i) is) (\<lambda>out.
            Inr ((indents, 16 * i, c_string b1) # out)))"

definition dumpMemoryWithIndents ::
  "u8 list option \<Rightarrow> nat \<Rightarrow> nat \<Rightarrow> (nat \<Rightarrow> string option) \<Rightarrow> string \<Rightarrow> (string \<times> nat \<times> string) list res" where
  "dumpMemoryWithIndents pStart len indentNum malloc stack =
     bind_res (fill_indents stack indentNum) (\<lambda>indents.
       case malloc (16 * DUMP_SIZE_PER_SRC_BYTE) of
         None \<Rightarrow> Inl Null_dereference
       | Some b \<Rightarrow>
           bind_res (poke b 0 NUL) (\<lambda>b1.
             indented_lines (c_string indents) pStart len b1 0 [0..<lines_num len]))"

text \<open>
  \<open>CHECK_MALLOC\<close> as \<open>dumpCharArray\<close> uses it: the size is kept in an \<open>unsigned int\<close>, and \<open>memset\<close> clears
  \<open>sizeof(bug_len)\<close> bytes. The result is what is logged, and the value of the function.
\<close>

definition CHECK_MALLOC :: "u32 \<Rightarrow> (nat \<Rightarrow> string option) \<Rightarrow> string option res" where
  "CHECK_MALLOC sz malloc =
     (case malloc (unat sz) of
        None \<Rightarrow> Inr None
      | Some b \<Rightarrow> bind_res (put_chars b 0 (replicate 4 NUL)) (\<lambda>b1. Inr (Some b1)))"

definition dumpCharArray ::
  "string option \<Rightarrow> u32 \<Rightarrow> u8 \<Rightarrow> (nat \<Rightarrow> string option) \<Rightarrow> string \<Rightarrow> ((string \<times> string) option \<times> int) res" where
  "dumpCharArray pStart len indentNum malloc stack =
     bind_res (setIndents stack indentNum) (\<lambda>indents.
       case pStart of
         None \<Rightarrow> Inr (Some (c_string indents, ''null''), 0)
       | Some src \<Rightarrow>
           bind_res (CHECK_MALLOC (len + 1) malloc) (\<lambda>r.
             case r of
               None \<Rightarrow> Inr (None, - 1)
             | Some b \<Rightarrow>
                 bind_res (put_chars b 0 (take (unat len) src)) (\<lambda>b1.
                 bind_res (poke b1 (unat len) NUL) (\<lambda>b2.
                   Inr (Some (c_string indents, c_string b2), 0)))))"

definition dumpStr :: "string option \<Rightarrow> u8 \<Rightarrow> string \<Rightarrow> ((string \<times> string) \<times> int) res" where
  "dumpStr pStr indentNum stack =
     bind_res (setIndents stack indentNum) (\<lambda>indents.
       Inr ((c_string indents, case pStr of None \<Rightarrow> ''null'' | Some t \<Rightarrow> t), 0))"

text \<open>A message that is to be repeated: whether it is logged, and the counter after it.\<close>

definition D_WHEN_REPEAT :: "i32 \<Rightarrow> i32 \<Rightarrow> bool \<times> i32" where
  "D_WHEN_REPEAT threshold n =
     (if n = 0 then (True, 1)
      else if n = threshold then (True, 1) else (False, n + 1))"

primrec repeated :: "i32 \<Rightarrow> nat \<Rightarrow> i32 \<Rightarrow> bool list" where
  "repeated threshold 0 n = []"
| "repeated threshold (Suc k) n =
     (case D_WHEN_REPEAT threshold n of (logged, n1) \<Rightarrow> logged # repeated threshold k n1)"

section \<open>Writing into buffers\<close>

definition overwrite :: "string \<Rightarrow> nat \<Rightarrow> string \<Rightarrow> string" where
  "overwrite b i t = take i b @ t @ drop (i + length t) b"

lemma overwrite_length [simp]: "i + length t \<le> length b \<Longrightarrow> length (overwrite b i t) = length b"
  by (simp add: overwrite_def)

lemma overwrite_append:
  assumes "i + length s + length t \<le> length b" and "length r \<le> length t"
  shows "overwrite (overwrite b i (s @ r)) (i + length s) t = overwrite b i (s @ t)"
proof (cases "length b \<le> i")
  case True
  then have "length s = 0" "length t = 0" "length r = 0"
    using assms by linarith+
  then show ?thesis
    by (simp add: overwrite_def)
next
  case False
  then show ?thesis
    using assms by (auto simp: overwrite_def min_def ac_simps)
qed

lemma overwrite_single: "i < length b \<Longrightarrow> b[i := c] = overwrite b i [c]"
  by (simp add: overwrite_def upd_conv_take_nth_drop)

lemma put_chars_eq:
  "put_chars b i t =
     (if t = [] then Inr b else if i + length t \<le> length b then Inr (overwrite b i t) else Inl Out_of_bounds)"
proof (induction t arbitrary: b i)
  case (Cons c t)
  show ?case
  proof (cases "i < length b")
    case True
    show ?thesis
    proof (cases "t = []")
      case True
      then show ?thesis
        using \<open>i < length b\<close> by (simp add: poke_def overwrite_single)
    next
      case False
      have "overwrite (overwrite b i ([c] @ [])) (i + length [c]) t = overwrite b i ([c] @ t)" if "Suc i + length t \<le> length b"
        using that by (intro overwrite_append) simp_all
      then show ?thesis
        using True False Cons.IH [of "b[i := c]" "Suc i"] by (simp add: poke_def overwrite_single)
    qed
  next
    case False
    then show ?thesis
      by (simp add: poke_def)
  qed
qed simp

lemma c_string_overwrite [simp]: "NUL \<notin> set t \<Longrightarrow> c_string (overwrite b 0 (t @ NUL # u)) = t"
  unfolding c_string_def overwrite_def by (simp, subst takeWhile_append2) auto

section \<open>Dumped lines\<close>

lemma hex_digit_code: "n < 16 \<Longrightarrow> hex_digit n \<noteq> NUL \<and> hex_digit n \<noteq> CHR '',''"
proof -
  assume "n < 16"
  then have "hex_digit n \<in> set ''0123456789abcdef''"
    by (simp add: hex_digit_def nth_mem [of n "''0123456789abcdef''", simplified] del: set_simps)
  then show ?thesis
    by (auto simp: NUL_def)
qed

lemma byte_digits: "unat (x :: u8) div 16 < 16" "unat x mod 16 < 16"
proof -
  have "unat x < 256"
    using unsigned_less [of x] by simp
  then show "unat x div 16 < 16" "unat x mod 16 < 16"
    by (simp_all add: less_mult_imp_div_less)
qed

lemma hex_lengths [simp]: "length (hex_byte x) = 4" "length (hex_item x) = 6" "hex_byte x \<noteq> []" "hex_item x \<noteq> []"
  by (simp_all add: hex_byte_def hex_item_def)

lemma hex_no_NUL [simp]: "NUL \<notin> set (hex_byte x)" "NUL \<notin> set (hex_item x)"
  using hex_digit_code [OF byte_digits(1) [of x]] hex_digit_code [OF byte_digits(2) [of x]]
  by (auto simp: hex_item_def hex_byte_def) (auto simp: NUL_def)

lemma length_items [simp]: "length (concat (map hex_item xs)) = 6 * length xs"
  by (induction xs) simp_all

lemma items_no_NUL [simp]: "NUL \<notin> set (concat (map hex_item xs))"
  by (induction xs) auto

lemma dump_items_at_eq:
  assumes "i + 6 * length xs + 1 \<le> length b" and "xs \<noteq> []"
  shows "dump_items_at b i xs = Inr (overwrite b i (concat (map hex_item xs) @ [NUL]), i + 6 * length xs)"
  using assms
proof (induction xs arbitrary: b i)
  case (Cons x xs)
  have w: "c_sprintf b i (hex_item x) = Inr (overwrite b i (hex_item x @ [NUL]))"
    using Cons.prems by (simp add: c_sprintf_def put_chars_eq)
  show ?case
  proof (cases "xs = []")
    case True
    then show ?thesis
      using w by (simp add: DUMP_SIZE_PER_SRC_BYTE_def)
  next
    case False
    have "overwrite (overwrite b i (hex_item x @ [NUL])) (i + length (hex_item x)) (concat (map hex_item xs) @ [NUL]) =
        overwrite b i (hex_item x @ concat (map hex_item xs) @ [NUL])"
      using Cons.prems by (intro overwrite_append) simp_all
    then show ?thesis
      using w Cons.IH [of "i + 6" "overwrite b i (hex_item x @ [NUL])"] Cons.prems False
      by (simp add: DUMP_SIZE_PER_SRC_BYTE_def)
  qed
qed simp

text \<open>The terminator behind the line lies one character too far, which a full line has no room for.\<close>

lemma dump_line_eq:
  assumes "6 * length xs + 1 \<le> length b" and "xs \<noteq> []"
  shows "dump_line b xs =
    (if 6 * length xs + 1 < length b
     then Inr ((overwrite b 0 (concat (map hex_item xs) @ [NUL]))[6 * length xs + 1 := NUL]) else Inl Out_of_bounds)"
  using assms by (simp add: dump_line_def dump_items_at_eq poke_def)

lemma c_string_dump_line:
  assumes "6 * length xs + 1 < length b"
  shows "c_string ((overwrite b 0 (concat (map hex_item xs) @ [NUL]))[6 * length xs + 1 := NUL]) = concat (map hex_item xs)"
proof -
  have "(overwrite b 0 (concat (map hex_item xs) @ [NUL]))[6 * length xs + 1 := NUL] =
      overwrite b 0 (concat (map hex_item xs) @ NUL # [NUL])"
    using assms overwrite_append [of 0 "concat (map hex_item xs) @ [NUL]" "[NUL]" b "[]"]
    by (simp add: overwrite_single)
  then show ?thesis
    by simp
qed

text \<open>\<open>dumpMemory\<close> reserves 16 * 6 + 1 characters for a line and writes one character more for a line of 16 bytes. So it
  writes outside of its buffer for every memory of 16 bytes or more, and works for less.\<close>

theorem dump_memory_overflows:
  assumes "src \<noteq> []" and "malloc 97 = Some b" and "length b = 97"
  shows "dumpMemory (Some src) malloc =
    (if 16 \<le> length src then Inl Out_of_bounds else Inr [concat (map hex_item src)])"
proof (cases "16 \<le> length src")
  case True
  then have "length (take 16 src) = 16" "take 16 src \<noteq> []"
    by auto
  then have "dump_line b (take 16 src) = Inl Out_of_bounds"
    using dump_line_eq [of "take 16 src" b] assms(3) by simp
  moreover obtain n where "length src div 16 = Suc n"
    using True by (metis div_greater_zero_iff gr0_implies_Suc zero_less_numeral)
  ultimately show ?thesis
    using assms True by (simp add: dumpMemory_def BYTES_PER_LINE_def DUMP_SIZE_PER_SRC_BYTE_def)
next
  case False
  then have "length src div 16 = 0" "6 * length src + 1 < length b"
    using assms(3) by simp_all
  then show ?thesis
    using assms False dump_line_eq [of src b] c_string_dump_line [of src b]
    by (simp add: dumpMemory_def BYTES_PER_LINE_def DUMP_SIZE_PER_SRC_BYTE_def Let_def)
qed

text \<open>The text of \<open>dumpMemInHexAsciiToMem\<close>.\<close>

definition hex_text :: "u8 list \<Rightarrow> string" where
  "hex_text xs = (if xs = [] then [] else concat (map hex_item (butlast xs)) @ hex_byte (last xs))"

lemma hex_text_simps [simp]:
  "hex_text [x] = hex_byte x" "xs \<noteq> [] \<Longrightarrow> hex_text (x # xs) = hex_item x @ hex_text xs"
  by (simp_all add: hex_text_def)

lemma length_hex_text: "xs \<noteq> [] \<Longrightarrow> length (hex_text xs) + 2 = 6 * length xs"
  by (induction xs rule: list_nonempty_induct) simp_all

lemma hex_text_no_NUL [simp]: "NUL \<notin> set (hex_text xs)"
  using items_no_NUL [of "butlast xs"] by (simp add: hex_text_def)

lemma ascii_items_eq:
  assumes "i + 6 * length xs - 1 \<le> length b" and "xs \<noteq> []"
  shows "ascii_items b i xs = Inr (overwrite b i (hex_text xs @ [NUL]))"
  using assms
proof (induction xs arbitrary: b i)
  case (Cons x xs)
  show ?case
  proof (cases "xs = []")
    case True
    then show ?thesis
      using Cons.prems by (simp add: c_sprintf_def put_chars_eq)
  next
    case False
    have len: "length (hex_text xs) + 2 = 6 * length xs" "0 < length xs"
      using length_hex_text [OF False] False by auto
    have w: "c_sprintf b i (hex_item x) = Inr (overwrite b i (hex_item x @ [NUL]))"
    proof -
      have "i + length (hex_item x @ [NUL]) \<le> length b"
        using Cons.prems(1) len(2) by (cases xs) auto
      then show ?thesis
        by (simp add: c_sprintf_def put_chars_eq)
    qed
    have "overwrite (overwrite b i (hex_item x @ [NUL])) (i + length (hex_item x)) (hex_text xs @ [NUL]) =
        overwrite b i (hex_item x @ hex_text xs @ [NUL])"
      using Cons.prems len by (intro overwrite_append) simp_all
    then show ?thesis
      using w Cons.IH [of "i + 6" "overwrite b i (hex_item x @ [NUL])"] Cons.prems len False
      by (simp add: DUMP_SIZE_PER_SRC_BYTE_def)
  qed
qed simp

text \<open>With a buffer as large as the comment asks for, the text is written, and nothing behind the characters it may use.\<close>

lemma hex_ascii_written:
  assumes "src \<noteq> []" and "6 * length src \<le> length b"
  obtains b' where "dumpMemInHexAsciiToMem (Some src) (Some b) = Inr (Some b')" and "c_string b' = hex_text src"
    and "length b' = length b" and "drop (6 * length src) b' = drop (6 * length src) b"
proof -
  have n: "length (hex_text src) + 2 = 6 * length src" "0 < length src"
    using length_hex_text [OF assms(1)] assms(1) by auto
  let ?b1 = "overwrite b 0 (hex_text src @ [NUL])"
  have idx: "6 * length src - 1 = 0 + length (hex_text src @ [NUL])"
    using n(1) by simp
  have "?b1[6 * length src - 1 := NUL] = overwrite ?b1 (0 + length (hex_text src @ [NUL])) [NUL]"
    unfolding idx using assms(2) n(1) by (simp add: overwrite_single)
  also have "\<dots> = overwrite b 0 (hex_text src @ NUL # [NUL])"
    using assms(2) n overwrite_append [of 0 "hex_text src @ [NUL]" "[NUL]" b "[]"] by simp
  finally have b2: "?b1[6 * length src - 1 := NUL] = overwrite b 0 (hex_text src @ NUL # [NUL])" .
  show thesis
  proof (rule that)
    show "dumpMemInHexAsciiToMem (Some src) (Some b) = Inr (Some (overwrite b 0 (hex_text src @ NUL # [NUL])))"
      using assms n b2
      by (simp add: dumpMemInHexAsciiToMem_def ascii_items_eq poke_def DUMP_SIZE_PER_SRC_BYTE_def mult.commute)
    show "length (overwrite b 0 (hex_text src @ NUL # [NUL])) = length b"
      using assms(2) n by simp
    show "drop (6 * length src) (overwrite b 0 (hex_text src @ NUL # [NUL])) = drop (6 * length src) b"
      unfolding n(1) [symmetric] by (simp add: overwrite_def)
  qed simp
qed

section \<open>Indentation\<close>

lemma append_tabs_eq:
  assumes "k + n < length b"
  shows "append_tabs n (overwrite b 0 (replicate k (CHR 0x09) @ [NUL])) =
    Inr (overwrite b 0 (replicate (k + n) (CHR 0x09) @ [NUL]))"
  using assms
proof (induction n arbitrary: k)
  case (Suc n)
  let ?t = "replicate k (CHR 0x09)"
  have t: "NUL \<notin> set (replicate j (CHR 0x09))" for j
    by (auto simp: NUL_def)
  have e: "replicate (Suc k) (CHR 0x09) @ [NUL] = ?t @ [CHR 0x09, NUL]"
    by (simp add: replicate_app_Cons_same)
  have "c_strcat (overwrite b 0 (?t @ [NUL])) [CHR 0x09] = Inr (overwrite b 0 (replicate (Suc k) (CHR 0x09) @ [NUL]))"
    unfolding e using Suc.prems t overwrite_append [of 0 ?t "[CHR 0x09, NUL]" b "[NUL]"]
    by (simp add: c_strcat_def put_chars_eq)
  then show ?case
    using Suc.IH [of "Suc k"] Suc.prems by simp
qed simp

lemma append_tabs_overflow:
  assumes "length b \<le> k + n" and "k < length b"
  shows "append_tabs n (overwrite b 0 (replicate k (CHR 0x09) @ [NUL])) = Inl Out_of_bounds"
  using assms
proof (induction n arbitrary: k)
  case (Suc n)
  let ?t = "replicate k (CHR 0x09)"
  have t: "NUL \<notin> set (replicate j (CHR 0x09))" for j
    by (auto simp: NUL_def)
  have e: "replicate (Suc k) (CHR 0x09) @ [NUL] = ?t @ [CHR 0x09, NUL]"
    by (simp add: replicate_app_Cons_same)
  have "c_strcat (overwrite b 0 (?t @ [NUL])) [CHR 0x09] =
      (if Suc k < length b then Inr (overwrite b 0 (replicate (Suc k) (CHR 0x09) @ [NUL])) else Inl Out_of_bounds)"
    unfolding e using Suc.prems t overwrite_append [of 0 ?t "[CHR 0x09, NUL]" b "[NUL]"]
    by (simp add: c_strcat_def put_chars_eq)
  then show ?case
    using Suc.IH [of "Suc k"] Suc.prems by simp
qed simp

lemma fill_indents_eq:
  assumes "length b = 16"
  shows "n < 16 \<Longrightarrow> fill_indents b n = Inr (overwrite b 0 (replicate n (CHR 0x09) @ [NUL]))"
    and "16 \<le> n \<Longrightarrow> fill_indents b n = Inl Out_of_bounds"
proof -
  have first: "poke b 0 NUL = Inr (overwrite b 0 (replicate 0 (CHR 0x09) @ [NUL]))"
    using assms by (simp add: poke_def overwrite_single)
  {
    assume n: "n < 16"
    have "overwrite (overwrite b 0 (replicate n (CHR 0x09) @ [NUL])) (0 + length (replicate n (CHR 0x09))) [NUL] =
        overwrite b 0 (replicate n (CHR 0x09) @ [NUL])"
      using n assms by (intro overwrite_append) simp_all
    then show "fill_indents b n = Inr (overwrite b 0 (replicate n (CHR 0x09) @ [NUL]))"
      using n assms append_tabs_eq [of 0 n b] first
      by (simp add: fill_indents_def) (simp add: poke_def overwrite_single)
  next
    assume "16 \<le> n"
    then show "fill_indents b n = Inl Out_of_bounds"
      using assms append_tabs_overflow [of b 0 n] first by (simp add: fill_indents_def)
  }
qed

lemma setIndents_eq:
  assumes "length b = 16"
  shows "setIndents b n = Inr (overwrite b 0 (replicate (min (unat n) 15) (CHR 0x09) @ [NUL]))"
  unfolding setIndents_def by (rule fill_indents_eq(1) [OF assms]) simp

lemma c_string_tabs [simp]: "c_string (overwrite b 0 (replicate n (CHR 0x09) @ [NUL])) = replicate n (CHR 0x09)"
  using c_string_overwrite [of "replicate n (CHR 0x09)" b "[]"] by (auto simp: NUL_def)

section \<open>Dumps of many lines\<close>

definition chunk :: "u8 list \<Rightarrow> nat \<Rightarrow> u8 list" where
  "chunk src i = take 16 (drop (16 * i) src)"

lemma lines_num_bound: "i < lines_num len \<longleftrightarrow> 16 * i < len"
proof -
  obtain q r where "len = 16 * q + r" "r < 16" "len div 16 = q" "len mod 16 = r"
    by (rule that [of "len div 16" "len mod 16"]) simp_all
  then show ?thesis
    by (cases "r = 0") (auto simp: lines_num_def)
qed

lemma line_length_chunk:
  assumes "i < lines_num (length src)"
  shows "take (line_length (length src) i) (drop (16 * i) src) = chunk src i" "chunk src i \<noteq> []"
    "length (chunk src i) \<le> 16" "i + 1 < lines_num (length src) \<Longrightarrow> line_length (length src) i = 16"
proof -
  have b: "16 * i < length src"
    using assms lines_num_bound by blast
  have "line_length (length src) i = min 16 (length src - 16 * i)"
  proof (cases "i < lines_num (length src) - 1")
    case True
    then have "16 * (i + 1) < length src"
      using lines_num_bound [of "i + 1" "length src"] by linarith
    then show ?thesis
      using True by (simp add: line_length_def)
  next
    case False
    then have "\<not> 16 * (i + 1) < length src"
      using lines_num_bound [of "i + 1" "length src"] by linarith
    then obtain r where r: "length src = 16 * i + r" "0 < r" "r \<le> 16"
      using b that [of "length src - 16 * i"] by simp
    then have "length src mod 16 = (if r = 16 then 0 else r)"
      by (cases "r = 16") simp_all
    then show ?thesis
      using False r by (auto simp: line_length_def)
  qed
  then show "take (line_length (length src) i) (drop (16 * i) src) = chunk src i"
    by (simp add: chunk_def min_def)
  show "chunk src i \<noteq> []" "length (chunk src i) \<le> 16"
    using b by (simp_all add: chunk_def)
  assume "i + 1 < lines_num (length src)"
  then show "line_length (length src) i = 16"
    by (simp add: line_length_def)
qed

lemma chunks_concat: "concat (map (chunk src) [0..<n]) = take (16 * n) src"
proof (induction n)
  case (Suc n)
  have "take (16 * Suc n) src = take (16 * n) src @ take 16 (drop (16 * n) src)"
    by (simp add: take_add [symmetric] add.commute)
  then show ?case
    using Suc.IH by (simp add: chunk_def)
qed simp

lemma indented_lines_eq:
  assumes "length b = 96" and "i \<le> lines_num (length src)"
  shows "indented_lines indents (Some src) (length src) b (16 * i) [i..<lines_num (length src)] =
    Inr (map (\<lambda>j. (indents, 16 * j, hex_text (chunk src j))) [i..<lines_num (length src)])"
  using assms
proof (induction "lines_num (length src) - i" arbitrary: i b)
  case 0
  then show ?case by simp
next
  case (Suc d)
  let ?N = "lines_num (length src)"
  have i: "i < ?N"
    using Suc.hyps(2) by simp
  note L = line_length_chunk [OF i]
  obtain b' where b': "dumpMemInHexAsciiToMem (Some (chunk src i)) (Some b) = Inr (Some b')" "c_string b' = hex_text (chunk src i)"
      "length b' = length b"
    using hex_ascii_written [of "chunk src i" b] L(2,3) Suc.prems(1) by auto
  have rest: "indented_lines indents (Some src) (length src) b' (16 * i + line_length (length src) i) [Suc i..<?N] =
      Inr (map (\<lambda>j. (indents, 16 * j, hex_text (chunk src j))) [Suc i..<?N])"
  proof (cases "i + 1 < ?N")
    case True
    then show ?thesis
      using Suc.hyps(1) [of "Suc i" b'] Suc.hyps(2) b'(3) Suc.prems(1) L(4) [OF True] by (simp add: add.commute)
  qed (use i in simp)
  have "[i..<?N] = i # [Suc i..<?N]"
    using i by (rule upt_conv_Cons)
  then show ?case
    using b' L(1) rest by simp
qed

text \<open>C40: \<open>dumpMemoryWithIndents\<close> logs the memory completely and in order, 16 bytes to a line, each line with its indentation
  and its offset, and stays inside of its buffers, as long as the indentation is at most 15; a larger one overruns the array of
  the indentation.\<close>

theorem dump_with_indents:
  assumes "length src = len" and "length stack = 16" and "malloc 96 = Some b" and "length b = 96"
  shows "dumpMemoryWithIndents (Some src) len indentNum malloc stack =
      (if 16 \<le> indentNum then Inl Out_of_bounds
       else Inr (map (\<lambda>i. (replicate indentNum (CHR 0x09), 16 * i, hex_text (chunk src i))) [0..<lines_num len])) \<and>
    concat (map (chunk src) [0..<lines_num len]) = src"
proof -
  have "poke b 0 NUL = Inr (b[0 := NUL])"
    using assms(4) by (simp add: poke_def)
  moreover have "indented_lines u (Some src) len (b[0 := NUL]) 0 [0..<lines_num len] =
      Inr (map (\<lambda>i. (u, 16 * i, hex_text (chunk src i))) [0..<lines_num len])" for u
    using indented_lines_eq [of "b[0 := NUL]" 0 src u] assms(1,4) by simp
  ultimately have "dumpMemoryWithIndents (Some src) len indentNum malloc stack =
      (if 16 \<le> indentNum then Inl Out_of_bounds
       else Inr (map (\<lambda>i. (replicate indentNum (CHR 0x09), 16 * i, hex_text (chunk src i))) [0..<lines_num len]))"
    using assms fill_indents_eq [OF assms(2), of indentNum]
    by (simp add: dumpMemoryWithIndents_def DUMP_SIZE_PER_SRC_BYTE_def)
  moreover have "length src \<le> 16 * lines_num len"
    using lines_num_bound [of "lines_num len" len] assms(1) by simp
  ultimately show ?thesis
    by (simp add: chunks_concat)
qed

section \<open>Texts and repeated messages\<close>

lemma takeWhile_snoc_NUL: "takeWhile (\<lambda>c. c \<noteq> NUL) (t @ [NUL]) = takeWhile (\<lambda>c. c \<noteq> NUL) t"
  by (induction t) simp_all

text \<open>\<open>CHECK_MALLOC\<close> clears four bytes, the size of its counter, whatever it has allocated, and computes the size in 32 bits. So
  \<open>dumpCharArray\<close> writes outside of its block for every text of less than three characters, and for a length of
  4294967295, for which it allocates nothing; else it logs the text.\<close>

theorem dump_char_array_outcome:
  assumes "length stack = 16" and "malloc (unat (len + 1)) = Some b" and "length b = unat (len + 1)" and "length src = unat len"
  shows "dumpCharArray (Some src) len indentNum malloc stack =
    (if unat len < 3 \<or> unat len = 2 ^ 32 - 1 then Inl Out_of_bounds
     else Inr (Some (replicate (min (unat indentNum) 15) (CHR 0x09), takeWhile (\<lambda>c. c \<noteq> NUL) src), 0))"
proof -
  have lt: "unat len < 2 ^ 32"
    using unsigned_less [of len] by simp
  have small: "unat (len + 1) < 4 \<longleftrightarrow> unat len < 3 \<or> unat len = 2 ^ 32 - 1"
  proof (cases "unat len = 2 ^ 32 - 1")
    case True
    then have "len = - 1"
      by (simp add: word_unat_eq_iff unsigned_minus_1_eq_mask mask_eq_exp_minus_1)
    then show ?thesis
      using True by simp
  next
    case False
    then have "unat (len + 1) = unat len + 1"
      using lt by (simp add: unat_word_ariths(1))
    then show ?thesis
      using False by auto
  qed
  show ?thesis
  proof (cases "unat (len + 1) < 4")
    case True
    then show ?thesis
      using small assms
      by (simp add: dumpCharArray_def setIndents_eq CHECK_MALLOC_def put_chars_eq)
  next
    case False
    then have n: "unat (len + 1) = unat len + 1"
      using lt small by (simp add: unat_word_ariths(1))
    let ?b = "overwrite (overwrite b 0 (replicate 4 NUL)) 0 src"
    have "src \<noteq> []"
      using assms(4) False small by auto
    moreover have lb: "length ?b = unat len + 1"
      using assms(3,4) False n by simp
    moreover have "?b[unat len := NUL] = src @ [NUL]"
    proof -
      have "overwrite ?b (0 + length src) [NUL] = overwrite (overwrite b 0 (replicate 4 NUL)) 0 (src @ [NUL])"
        using overwrite_append [of 0 src "[NUL]" "overwrite b 0 (replicate 4 NUL)" "[]"] assms(3,4) False n by simp
      also have "\<dots> = src @ [NUL]"
        using assms(3,4) False n by (simp add: overwrite_def)
      finally show ?thesis
        using lb assms(4) by (simp add: overwrite_single)
    qed
    then have "c_string (?b[unat len := NUL]) = takeWhile (\<lambda>c. c \<noteq> NUL) src"
      by (simp add: c_string_def takeWhile_snoc_NUL)
    ultimately show ?thesis
      using small False assms n
      by (simp add: dumpCharArray_def setIndents_eq CHECK_MALLOC_def put_chars_eq poke_def)
  qed
qed

text \<open>A message that is logged at its first occurrence is logged again every \<open>threshold\<close> occurrences.\<close>

lemma repeated_from:
  assumes "1 \<le> unat c" "unat c \<le> unat t" "unat t < 2 ^ 31"
  shows "repeated t k c = map (\<lambda>j. (unat c + j) mod unat t = 0) [0..<k]"
  using assms
proof (induction k arbitrary: c)
  case (Suc k)
  have c: "c \<noteq> 0"
    using Suc.prems(1) by auto
  have eq: "c = t \<longleftrightarrow> unat c mod unat t = 0"
    using Suc.prems by (cases "unat c = unat t") (auto simp: word_unat_eq_iff)
  define c' where "c' = (if c = t then 1 else c + 1)"
  have c': "unat c' = (if c = t then 1 else unat c + 1)"
    using Suc.prems by (auto simp: c'_def unat_word_ariths(1))
  have shift: "Suc (unat t + x) mod unat t = Suc x mod unat t" for x
    using mod_add_self1 [of "unat t" "Suc x"] by simp
  have "c \<noteq> t \<Longrightarrow> unat c \<noteq> unat t"
    by (simp add: word_unat_eq_iff)
  then have "repeated t k c' = map (\<lambda>j. (unat c' + j) mod unat t = 0) [0..<k]"
    using Suc.prems c' by (intro Suc.IH) (auto split: if_splits)
  also have "\<dots> = map (\<lambda>j. (unat c + j) mod unat t = 0) (map Suc [0..<k])"
    using c' shift by (cases "c = t") (simp_all add: comp_def)
  finally have rest: "repeated t k c' = map (\<lambda>j. (unat c + j) mod unat t = 0) (map Suc [0..<k])" .
  have "repeated t (Suc k) c = (c = t) # repeated t k c'"
    using c by (simp add: D_WHEN_REPEAT_def c'_def)
  also have "\<dots> = map (\<lambda>j. (unat c + j) mod unat t = 0) (0 # map Suc [0..<k])"
    using eq rest by simp
  finally show ?case
    by (simp add: map_Suc_upt upt_conv_Cons del: upt_Suc)
qed simp

lemma repeated_every:
  assumes "1 \<le> unat t" "unat t < 2 ^ 31"
  shows "repeated t (Suc k) 0 = map (\<lambda>j. j mod unat t = 0) [0..<Suc k]"
proof -
  have "repeated t (Suc k) 0 = True # map (\<lambda>j. (1 + j) mod unat t = 0) [0..<k]"
    using repeated_from [of 1 t k] assms by (simp add: D_WHEN_REPEAT_def)
  also have "\<dots> = map (\<lambda>j. j mod unat t = 0) (0 # map Suc [0..<k])"
    by simp
  finally show ?thesis
    by (simp add: map_Suc_upt upt_conv_Cons del: upt_Suc)
qed

section \<open>The text of a format\<close>

text \<open>An integer with the manipulators \<open>showbase\<close> and \<open>hex\<close>: without leading zeros, and 0 without the base.\<close>

fun hex_digits :: "nat \<Rightarrow> string" where
  "hex_digits n = (if n < 16 then [hex_digit n] else hex_digits (n div 16) @ [hex_digit (n mod 16)])"

declare hex_digits.simps [simp del]

definition show_hex :: "u32 \<Rightarrow> string" where
  "show_hex x = (if x = 0 then ''0'' else ''0x'' @ hex_digits (unat x))"

definition internal_format_str :: "internal_format_t \<Rightarrow> string" where
  "internal_format_str f = ''FMT:'' @ show_hex (m_format f) @ '',MOD:'' @ show_hex (m_modifiers f)"

definition digit_value :: "char \<Rightarrow> nat" where
  "digit_value c = length (takeWhile (\<lambda>d. d \<noteq> c) ''0123456789abcdef'')"

definition parse_hex :: "string \<Rightarrow> nat" where
  "parse_hex t = foldl (\<lambda>n c. 16 * n + digit_value c) 0 t"

lemma digit_value_digit: "n < 16 \<Longrightarrow> digit_value (hex_digit n) = n"
proof -
  have "\<forall>k \<in> set [0..<16]. digit_value (hex_digit k) = k"
    by (simp add: upt_rec digit_value_def hex_digit_def)
  moreover assume "n < 16"
  ultimately show ?thesis
    by simp
qed

lemma parse_hex_digits: "parse_hex (hex_digits n) = n"
proof (induction n rule: hex_digits.induct)
  case (1 n)
  then show ?case
    by (subst hex_digits.simps) (simp add: parse_hex_def digit_value_digit)
qed

lemma hex_digits_chars: "CHR '','' \<notin> set (hex_digits n)"
proof (induction n rule: hex_digits.induct)
  case (1 n)
  then show ?case
    by (subst hex_digits.simps) (auto simp: hex_digit_code dest: sym)
qed

lemma show_hex_chars: "CHR '','' \<notin> set (show_hex x)"
  using hex_digits_chars by (auto simp: show_hex_def)

lemma show_hex_inject: "show_hex x = show_hex y \<longleftrightarrow> x = y"
proof
  assume e: "show_hex x = show_hex y"
  show "x = y"
  proof (cases "x = 0 \<or> y = 0")
    case True
    then show ?thesis
      using e by (auto simp: show_hex_def split: if_splits)
  next
    case False
    then have "hex_digits (unat x) = hex_digits (unat y)"
      using e by (simp add: show_hex_def)
    then have "unat x = unat y"
      using parse_hex_digits by metis
    then show ?thesis
      by (simp add: word_unat_eq_iff)
  qed
qed simp

lemma split_at:
  assumes "s @ c # t = s' @ c # t'" and "c \<notin> set s" "c \<notin> set s'"
  shows "s = s' \<and> t = t'"
proof -
  have "takeWhile (\<lambda>x. x \<noteq> c) (s @ c # t) = s" "takeWhile (\<lambda>x. x \<noteq> c) (s' @ c # t') = s'"
    using assms(2,3) by (subst takeWhile_append2; auto)+
  then show ?thesis
    using assms(1) by simp
qed

text \<open>The text that a format is printed as identifies it: formats with the same text have the same base value and the same
  modifiers.\<close>

theorem format_text_identifies: "internal_format_str f = internal_format_str g \<longleftrightarrow> is_equal f g"
proof
  assume "internal_format_str f = internal_format_str g"
  then have "show_hex (m_format f) @ CHR '','' # ''MOD:'' @ show_hex (m_modifiers f) =
      show_hex (m_format g) @ CHR '','' # ''MOD:'' @ show_hex (m_modifiers g)"
    by (simp add: internal_format_str_def)
  from split_at [OF this show_hex_chars show_hex_chars]
  have "show_hex (m_format f) = show_hex (m_format g)" "show_hex (m_modifiers f) = show_hex (m_modifiers g)"
    by simp_all
  then show "is_equal f g"
    by (simp add: show_hex_inject is_equal_def)
qed (simp add: is_equal_def internal_format_str_def)

section \<open>Examples\<close>

definition block :: "nat \<Rightarrow> string option" where
  "block n = Some (replicate n (CHR 0x41))"

theorem dump_memory_overflows_witness:
  "dumpMemory (Some [1, 0xff]) block = Inr [''0x01, 0xff, ''] \<and> dumpMemory (Some (replicate 16 7)) block = Inl Out_of_bounds"
proof -
  have b: "block 97 = Some (replicate 97 (CHR 0x41))"
    by (simp add: block_def)
  have "concat (map hex_item [1, 0xff]) = ''0x01, 0xff, ''"
    by (simp add: hex_item_def hex_byte_def hex_digit_def)
  then show ?thesis
    using dump_memory_overflows [of "[1, 0xff]" block, OF _ b] dump_memory_overflows [of "replicate 16 7" block, OF _ b] by simp
qed

theorem dump_with_indents_witness:
  "dumpMemoryWithIndents (Some (replicate 17 0xab)) 17 1 block (replicate 16 (CHR 0x42)) =
    Inr [([CHR 0x09], 0, hex_text (replicate 16 0xab)), ([CHR 0x09], 16, ''0xab'')]"
proof -
  have l: "[0..<lines_num 17] = [0, 1]"
    by (simp add: lines_num_def upt_rec)
  have "chunk (replicate 17 0xab) 0 = replicate 16 0xab" "chunk (replicate 17 0xab) 1 = [0xab]"
    by (simp_all add: chunk_def)
  moreover have "hex_text [0xab] = ''0xab''"
    by (simp add: hex_byte_def hex_digit_def)
  ultimately show ?thesis
    using dump_with_indents [of "replicate 17 0xab" 17 "replicate 16 (CHR 0x42)" block "replicate 96 (CHR 0x41)" 1]
    by (simp add: block_def l)
qed

theorem dump_char_array_outcome_witness:
  "dumpCharArray (Some ''hello'') 5 1 block (replicate 16 (CHR 0x42)) = Inr (Some ([CHR 0x09], ''hello''), 0) \<and>
   dumpCharArray (Some ''a'') 1 1 block (replicate 16 (CHR 0x42)) = Inl Out_of_bounds"
  using dump_char_array_outcome [of "replicate 16 (CHR 0x42)" block 5 "replicate 6 (CHR 0x41)" "''hello''" 1]
    dump_char_array_outcome [of "replicate 16 (CHR 0x42)" block 1 "replicate 2 (CHR 0x41)" "''a''" 1]
  by (simp add: block_def NUL_def)

end
