(* ===== verification/Handle_Words.thy ===== *)
theory Handle_Words
  imports Buffer_Handle
begin

text \<open>
  Buffer handles as the words they are in memory (src/src/core/buffer.h, LP64, little endian). The theory \<open>Buffer_Handle\<close>
  copies records on an import where the code copies \<open>data[i]\<close> word by word, and src/src/include/gralloc/testing.h
  writes through a byte offset. Here both are done on words and compared with the records.
\<close>

section \<open>Layout\<close>

text \<open>
  A \<open>native_handle\<close> has three words, behind which \<open>data\<close> begins. The 64-bit fields are aligned to 8 bytes, so that words 9,
  31 and 39 are padding; words 40 to 42 are the fields \<open>base\<close> and \<open>offset\<close> of the private handle; word 43 is padding behind its
  last field. \<open>gap\<close> is what these words hold.
\<close>

definition words64 :: "u64 \<Rightarrow> u32 list" where
  "words64 x = [ucast x, ucast (drop_bit 32 x)]"

definition u64_of :: "u32 \<Rightarrow> u32 \<Rightarrow> u64" where
  "u64_of lo hi = push_bit 32 (ucast hi) OR ucast lo"

lemma u64_of_halves [simp]:
  "ucast (u64_of lo hi) = lo" "ucast (drop_bit 32 (u64_of lo hi)) = hi"
  by (auto simp: u64_of_def bit_eq_iff bit_simps dest: bit_imp_le_length)

primrec type_word :: "handle_type \<Rightarrow> u32" where
  "type_word raw = 0"
| "type_word imported = 1"

definition plane_words :: "plane_info_t \<Rightarrow> u32 list" where
  "plane_words p = [plane_offset p, byte_stride p, alloc_width p, alloc_height p]"

definition handle_words :: "(nat \<Rightarrow> u32) \<Rightarrow> 'a private_handle_t_scheme \<Rightarrow> u32 list" where
  "handle_words gap h =
     [version h, numFds h, numInts h, share_fd h, share_attr_fd h, magic h, h_width h, h_height h, req_format h, gap 9] @
     words64 (producer_usage h) @ words64 (consumer_usage h) @
     [stride h, m_format (alloc_format h), m_modifiers (alloc_format h)] @
     concat (map plane_words (plane_info h)) @
     [h_size h, layer_count h, gap 31] @
     words64 (backing_store_id h) @ words64 (attr_size h) @ words64 (reserved_region_size h) @
     [type_word (h_type h), gap 39, gap 40, gap 41, gap 42, gap 43]"

text \<open>
  A compiler for these targets lets a derived class begin in the padding at the end of its base class: \<open>lock_count\<close> is word
  43 of an imported handle.
\<close>

definition imported_words :: "(nat \<Rightarrow> u32) \<Rightarrow> imported_handle \<Rightarrow> u32 list" where
  "imported_words gap h =
     handle_words (gap(43 := lock_count h)) h @ [cpu_write h, import_pid h] @ words64 (h_base h) @ words64 (attr_base h)"

section \<open>The copy of an import\<close>

text \<open>
  \<open>make_imported_handle\<close> on words: \<open>new\<close> is the memory of \<open>native_handle_create\<close>, which has set \<open>version\<close> in it, \<open>fds\<close> are
  the duplicated descriptors.
\<close>

definition copy_ints :: "u32 list \<Rightarrow> u32 list \<Rightarrow> u32 list" where
  "copy_ints raw_words new =
     fold (\<lambda>i b. b[3 + i := raw_words ! (3 + i)])
       [unat PRIVATE_HANDLE_NUM_FDS ..< unat PRIVATE_HANDLE_NUM_FDS + unat PRIVATE_HANDLE_NUM_INTS] new"

definition import_words :: "u32 list \<Rightarrow> i32 list \<Rightarrow> u32 list \<Rightarrow> u32 list" where
  "import_words raw_words fds new =
     (copy_ints raw_words
       (new[2 := PRIVATE_HANDLE_NUM_INTS, 3 := fds ! 0, 4 := fds ! 1, 1 := PRIVATE_HANDLE_NUM_FDS]))
       [38 := type_word imported]"

lemma copy_loop:
  assumes "n \<le> length r" "n \<le> length b" "k \<le> n"
  shows "fold (\<lambda>i b. b[i := r ! i]) [k..<n] b = take k b @ take (n - k) (drop k r) @ drop n b"
  using assms
proof (induction "n - k" arbitrary: k b)
  case 0
  then show ?case by simp
next
  case (Suc d)
  then have "[k..<n] = k # [Suc k..<n]" "k < n"
    by (simp_all add: upt_conv_Cons)
  moreover have "fold (\<lambda>i b. b[i := r ! i]) [Suc k..<n] (b[k := r ! k]) =
      take (Suc k) (b[k := r ! k]) @ take (n - Suc k) (drop (Suc k) r) @ drop n (b[k := r ! k])"
    using Suc.hyps(2) Suc.prems by (intro Suc.hyps(1)) simp_all
  moreover have "take (n - k) (drop k r) = r ! k # take (n - Suc k) (drop (Suc k) r)"
    using Suc.prems \<open>k < n\<close> Suc.hyps(2) by (simp add: Cons_nth_drop_Suc [symmetric] Suc_diff_Suc [symmetric])
  ultimately show ?case
    using Suc.prems by (simp add: take_Suc_conv_app_nth)
qed

lemma copy_ints_eq:
  assumes "length r = 44" "44 \<le> length b"
  shows "copy_ints r b = take 5 b @ drop 5 r @ drop 44 b"
proof -
  have "copy_ints r b = fold (\<lambda>i b. b[i := r ! i]) (map ((+) 3) [2..<41]) b"
    by (simp add: copy_ints_def handle_constants fold_map comp_def)
  also have "map ((+) 3) [2..<41] = [5..<44]"
    by (simp add: upt_rec)
  finally show ?thesis
    using copy_loop [of 44 r b 5] assms by simp
qed

text \<open>C21: The import copies what the record copy says. Whatever the memory of the new handle held, copying \<open>data[i]\<close> word by word gives
  the words of the imported copy of the handle; the lock count of the copy is the last copied word, which is no field of
  the handle it was copied from.\<close>

theorem import_copies_words:
  assumes "length (plane_info h) = 3" and "length new = 50" and "new ! 0 = sizeof_native_handle"
  shows "import_words (handle_words gap h) fds new =
    imported_words gap (imported_copy h fds
      \<lparr>junk_lock_count = gap 43, junk_cpu_write = new ! 44, junk_import_pid = new ! 45,
       junk_base = u64_of (new ! 46) (new ! 47), junk_attr_base = u64_of (new ! 48) (new ! 49)\<rparr>)"
proof -
  let ?r = "handle_words gap h"
  let ?new = "new[2 := PRIVATE_HANDLE_NUM_INTS, 3 := fds ! 0, 4 := fds ! 1, 1 := PRIVATE_HANDLE_NUM_FDS]"
  obtain p q r where planes: "plane_info h = [p, q, r]"
    using assms(1) by (auto simp: length_Suc_conv numeral_3_eq_3)
  have "take 5 new = [new ! 0, new ! 1, new ! 2, new ! 3, new ! 4]"
    using assms(2) by (intro nth_equalityI) (auto simp: less_Suc_eq numeral_nat)
  then have head: "take 5 ?new = [sizeof_native_handle, PRIVATE_HANDLE_NUM_FDS, PRIVATE_HANDLE_NUM_INTS, fds ! 0, fds ! 1]"
    using assms(3) by (simp add: take_update_swap)
  have tail: "drop 44 ?new = [new ! 44, new ! 45, new ! 46, new ! 47, new ! 48, new ! 49]"
    using assms(2) by (intro nth_equalityI) (auto simp: less_Suc_eq numeral_nat)
  have len: "length ?r = 44"
    by (simp add: handle_words_def planes plane_words_def words64_def)
  have copy: "copy_ints ?r ?new = take 5 ?new @ drop 5 ?r @ drop 44 ?new"
    by (rule copy_ints_eq [OF len]) (simp add: assms(2))
  show ?thesis
    unfolding import_words_def copy head tail
    by (simp add: handle_words_def imported_words_def planes plane_words_def words64_def imported_copy_def
        private_handle_t.defs imported_handle.defs)
qed

section \<open>The test hook\<close>

definition MALI_GRALLOC_HANDLE_WIDTH_OFFSET :: nat where
  "MALI_GRALLOC_HANDLE_WIDTH_OFFSET = unat sizeof_native_handle + 12"

definition MALI_GRALLOC_HANDLE_HEIGHT_OFFSET :: nat where
  "MALI_GRALLOC_HANDLE_HEIGHT_OFFSET = unat sizeof_native_handle + 16"

definition mali_gralloc_testing_change_logical_size :: "u32 list \<Rightarrow> i32 \<Rightarrow> i32 \<Rightarrow> u32 list" where
  "mali_gralloc_testing_change_logical_size words width height =
     words[MALI_GRALLOC_HANDLE_WIDTH_OFFSET div 4 := width, MALI_GRALLOC_HANDLE_HEIGHT_OFFSET div 4 := height]"

text \<open>The offsets of the test hook are those of the two fields, as the static assertions say.\<close>

lemma testing_change_logical_size:
  "mali_gralloc_testing_change_logical_size (handle_words gap h) w ht = handle_words gap (h\<lparr>h_width := w, h_height := ht\<rparr>)"
  by (simp add: mali_gralloc_testing_change_logical_size_def MALI_GRALLOC_HANDLE_WIDTH_OFFSET_def
      MALI_GRALLOC_HANDLE_HEIGHT_OFFSET_def sizeof_native_handle_def handle_words_def)

section \<open>An example\<close>

definition word_handle :: private_handle_t where
  "word_handle = \<lparr>version = 12, numFds = 2, numInts = 39, share_fd = 7, share_attr_fd = 8, magic = sMagic, h_width = 640,
     h_height = 480, req_format = 1, producer_usage = 0x100000033, consumer_usage = 0x33, stride = 640,
     alloc_format = from_private 1, plane_info = [\<lparr>plane_offset = 0, byte_stride = 2560, alloc_width = 640, alloc_height = 480\<rparr>,
       \<lparr>plane_offset = 0, byte_stride = 0, alloc_width = 0, alloc_height = 0\<rparr>,
       \<lparr>plane_offset = 0, byte_stride = 0, alloc_width = 0, alloc_height = 0\<rparr>], h_size = 1228800, layer_count = 1,
     backing_store_id = 0x2a00000001, attr_size = 4096, reserved_region_size = 0, h_type = raw\<rparr>"

theorem import_copies_words_witness:
  "import_words (handle_words (\<lambda>i. of_nat i) word_handle) [4, 5] (12 # replicate 49 0) ! 3 = 4 \<and>
   import_words (handle_words (\<lambda>i. of_nat i) word_handle) [4, 5] (12 # replicate 49 0) ! 43 = 43"
proof -
  have new: "length (plane_info word_handle) = 3" "length (12 # replicate 49 0 :: u32 list) = 50"
      "(12 # replicate 49 0 :: u32 list) ! 0 = sizeof_native_handle"
    by (simp_all add: word_handle_def sizeof_native_handle_def)
  show ?thesis
    unfolding import_copies_words [OF new]
    by (simp add: imported_words_def handle_words_def imported_copy_def words64_def plane_words_def word_handle_def
        private_handle_t.defs imported_handle.defs)
qed

end
