(* ===== verification/Hidl_Mapper.thy ===== *)
theory Hidl_Mapper
  imports Thread_Sharing
begin

text \<open>
  The mapper as its clients see it: every method of \<open>GrallocMapper\<close> (src/src/4.x/mapper/mapper.cpp), sessions of calls, and an
  abstract registry of buffers that says what a client may rely on. The registry is refined by every session.
\<close>

section \<open>The interface\<close>

text \<open>The methods with their arguments, and what a method returns or gives to its callback.\<close>

datatype mapper_call =
    Call_createDescriptor BufferDescriptorInfo
  | Call_importBuffer "private_handle_t option"
  | Call_freeBuffer ptr
  | Call_validateBufferSize ptr BufferDescriptorInfo u32
  | Call_lock ptr u64 region fence
  | Call_unlock ptr
  | Call_flushLockedBuffer ptr
  | Call_rereadLockedBuffer ptr
  | Call_get ptr MetadataType
  | Call_set ptr MetadataType "u8 list"
  | Call_getFromBufferDescriptorInfo BufferDescriptorInfo MetadataType
  | Call_getTransportSize ptr
  | Call_isSupported BufferDescriptorInfo
  | Call_listSupportedMetadataTypes
  | Call_dumpBuffer ptr
  | Call_dumpBuffers
  | Call_getReservedRegion ptr

type_synonym buffer_dump = "(MetadataType \<times> u8 list) list"

datatype mapper_reply =
    Reply_error Error
  | Reply_bytes Error "u8 list"
  | Reply_buffer Error "ptr option"
  | Reply_address Error ptr
  | Reply_fence Error fence
  | Reply_size Error i32 i32
  | Reply_supported "(Error \<times> bool) list"
  | Reply_types Error "MetadataTypeDescription list"
  | Reply_dump Error buffer_dump
  | Reply_dumps Error "buffer_dump list"
  | Reply_region Error ptr u64

text \<open>
  The state of the process: the mapper, and what the selection of formats has cached. The settings that do not change
  are the parameters of the mapper's operations.
\<close>

record ('s, 'p) mapper_process =
  pr_mapper :: "'s mapper_state"
  pr_platform :: "'p rk_state"

record ('s, 'p) mapper_settings =
  set_platform :: "('s, 'p) platform"
  set_drm :: drm_header
  set_codec :: gralloc4
  set_sdk33 :: bool
  set_aidl :: bool

fun hidl_call ::
  "('s, 'p) mapper_settings \<Rightarrow> mapper_call \<Rightarrow> ('s, 'p) mapper_process \<Rightarrow> (mapper_reply \<times> ('s, 'p) mapper_process) res" where
  "hidl_call Z (Call_createDescriptor desc) st =
     bind_res (hidl_createDescriptor (cfg_ndebug (pl_cfg (set_platform Z))) desc) (\<lambda>(e, bytes). Inr (Reply_bytes e bytes, st))"
| "hidl_call Z (Call_importBuffer raw_handle) st =
     bind_res (importBuffer (set_platform Z) raw_handle (pr_mapper st)) (\<lambda>((e, q), m).
       Inr (Reply_buffer e q, st\<lparr>pr_mapper := m\<rparr>))"
| "hidl_call Z (Call_freeBuffer p) st =
     (case freeBuffer (set_platform Z) p (pr_mapper st) of (e, m) \<Rightarrow> Inr (Reply_error e, st\<lparr>pr_mapper := m\<rparr>))"
| "hidl_call Z (Call_validateBufferSize p desc in_stride) st =
     Inr (Reply_error (hidl_validateBufferSize (pr_mapper st) p desc in_stride), st)"
| "hidl_call Z (Call_lock p usage reg fence) st =
     (case lock (set_platform Z) p usage reg fence (pr_mapper st) of
        ((e, a), m) \<Rightarrow> Inr (Reply_address e a, st\<lparr>pr_mapper := m\<rparr>))"
| "hidl_call Z (Call_unlock p) st =
     (case unlock (set_platform Z) p (pr_mapper st) of ((e, f), m) \<Rightarrow> Inr (Reply_fence e f, st\<lparr>pr_mapper := m\<rparr>))"
| "hidl_call Z (Call_flushLockedBuffer p) st =
     (case flushLockedBuffer (set_platform Z) p (pr_mapper st) of
        (e, m) \<Rightarrow> Inr (Reply_fence e None, st\<lparr>pr_mapper := m\<rparr>))"
| "hidl_call Z (Call_rereadLockedBuffer p) st =
     (case rereadLockedBuffer (set_platform Z) p (pr_mapper st) of (e, m) \<Rightarrow> Inr (Reply_error e, st\<lparr>pr_mapper := m\<rparr>))"
| "hidl_call Z (Call_get p t) st =
     bind_res (get (set_platform Z) (set_drm Z) (set_codec Z) (set_sdk33 Z) p t (pr_mapper st)) (\<lambda>(e, bytes).
       Inr (Reply_bytes e bytes, st))"
| "hidl_call Z (Call_set p t bytes) st =
     bind_res (set_buffer (set_platform Z) (set_codec Z) (set_sdk33 Z) p t bytes (pr_mapper st)) (\<lambda>(e, m).
       Inr (Reply_error e, st\<lparr>pr_mapper := m\<rparr>))"
| "hidl_call Z (Call_getFromBufferDescriptorInfo desc t) st =
     bind_res (getFromBufferDescriptorInfo (set_platform Z) (set_drm Z) (set_codec Z) (set_sdk33 Z) desc t (pr_platform st))
       (\<lambda>((e, bytes), s). Inr (Reply_bytes e bytes, st\<lparr>pr_platform := s\<rparr>))"
| "hidl_call Z (Call_getTransportSize p) st =
     bind_res (getTransportSize (cfg_ndebug (pl_cfg (set_platform Z))) (pr_mapper st) p) (\<lambda>(e, nfds, nints).
       Inr (Reply_size e nfds nints, st))"
| "hidl_call Z (Call_isSupported desc) st =
     bind_res (hidl_isSupported (set_platform Z) (set_aidl Z) desc (pr_platform st)) (\<lambda>(answers, s).
       Inr (Reply_supported answers, st\<lparr>pr_platform := s\<rparr>))"
| "hidl_call Z Call_listSupportedMetadataTypes st =
     (case listSupportedMetadataTypes (set_codec Z) (set_sdk33 Z) of (e, ts) \<Rightarrow> Inr (Reply_types e ts, st))"
| "hidl_call Z (Call_dumpBuffer p) st =
     bind_res (dumpBuffer (set_platform Z) (set_drm Z) (set_codec Z) (set_sdk33 Z) p (pr_mapper st)) (\<lambda>(e, dump).
       Inr (Reply_dump e dump, st))"
| "hidl_call Z Call_dumpBuffers st =
     bind_res (dumpBuffers (set_platform Z) (set_drm Z) (set_codec Z) (set_sdk33 Z) (pr_mapper st)) (\<lambda>(e, dumps).
       Inr (Reply_dumps e dumps, st))"
| "hidl_call Z (Call_getReservedRegion p) st =
     (case getReservedRegion (pr_mapper st) p of (e, a, n) \<Rightarrow> Inr (Reply_region e a n, st))"

text \<open>A session ends with the process when a call stops it.\<close>

primrec hidl_session ::
  "('s, 'p) mapper_settings \<Rightarrow> mapper_call list \<Rightarrow> ('s, 'p) mapper_process \<Rightarrow>
   (mapper_reply list \<times> ('s, 'p) mapper_process) res" where
  "hidl_session Z [] st = Inr ([], st)"
| "hidl_session Z (c # cs) st =
     bind_res (hidl_call Z c st) (\<lambda>(r, st1).
     bind_res (hidl_session Z cs st1) (\<lambda>(rs, st2). Inr (r # rs, st2)))"

section \<open>The registry\<close>

text \<open>
  What a client knows of a buffer: how often it is locked, whether it is marked as being written, the address where it
  is mapped (\<open>nullptr\<close> when it is not), and whether it is a plain block of bytes, of which writers do not exclude each other.
\<close>

record buffer_view =
  bv_locks :: i32
  bv_writer :: bool
  bv_address :: ptr
  bv_blob :: bool

type_synonym registry = "ptr \<Rightarrow> buffer_view option"

definition locked :: "registry \<Rightarrow> ptr \<Rightarrow> bool" where
  "locked r p \<longleftrightarrow> (\<exists>b. r p = Some b \<and> bv_locks b \<noteq> 0)"

definition writes :: "u64 \<Rightarrow> bool" where
  "writes usage \<longleftrightarrow> usage AND CPU_WRITE_MASK \<noteq> 0"

definition locked_view :: "u64 \<Rightarrow> ptr \<Rightarrow> buffer_view \<Rightarrow> buffer_view" where
  "locked_view usage a b = b\<lparr>bv_locks := bv_locks b + 1, bv_writer := writes usage, bv_address := a\<rparr>"

definition unlocked_view :: "buffer_view \<Rightarrow> buffer_view" where
  "unlocked_view b =
     (let n = (if 0 < sint (bv_locks b) then bv_locks b - 1 else 0)
      in b\<lparr>bv_locks := n, bv_writer := (n \<noteq> 0 \<and> bv_writer b)\<rparr>)"

text \<open>
  A call with its reply, as a step of the registry. A buffer is imported under an address that no registered buffer has. A lock for the
  CPU answers the address of the one mapping of the buffer. The mark of a writer stays when the cache could not be written back.
\<close>

inductive registry_step :: "registry \<Rightarrow> mapper_call \<Rightarrow> mapper_reply \<Rightarrow> registry \<Rightarrow> bool" where
  imported_new: "r p = None \<Longrightarrow> \<not> bv_writer b \<Longrightarrow> bv_address b = nullptr \<Longrightarrow>
    registry_step r (Call_importBuffer g) (Reply_buffer ERR_NONE (Some p)) (r(p \<mapsto> b))"
| import_refused: "e \<noteq> ERR_NONE \<Longrightarrow> registry_step r (Call_importBuffer g) (Reply_buffer e None) r"
| freed_known: "r p \<noteq> None \<Longrightarrow> registry_step r (Call_freeBuffer p) (Reply_error ERR_NONE) (r(p := None))"
| freed_unknown: "r p = None \<Longrightarrow> registry_step r (Call_freeBuffer p) (Reply_error ERR_BAD_BUFFER) r"
| locked_cpu: "r p = Some b \<Longrightarrow> cpu_access usage \<Longrightarrow> \<not> (bv_writer b \<and> writes usage \<and> \<not> bv_blob b) \<Longrightarrow>
    a \<noteq> nullptr \<Longrightarrow> bv_address b = nullptr \<or> bv_address b = a \<Longrightarrow>
    registry_step r (Call_lock p usage reg fence) (Reply_address ERR_NONE a) (r(p \<mapsto> locked_view usage a b))"
| locked_other: "r p = Some b \<Longrightarrow> \<not> cpu_access usage \<Longrightarrow>
    registry_step r (Call_lock p usage reg fence) (Reply_address ERR_NONE nullptr) r"
| lock_refused: "e \<noteq> ERR_NONE \<Longrightarrow> r p = None \<longrightarrow> e = ERR_BAD_BUFFER \<Longrightarrow>
    registry_step r (Call_lock p usage reg fence) (Reply_address e nullptr) r"
| unlocked_done: "r p = Some b \<Longrightarrow> bv_locks b \<noteq> 0 \<Longrightarrow>
    registry_step r (Call_unlock p) (Reply_fence ERR_NONE None) (r(p \<mapsto> unlocked_view b))"
| unlocked_dirty: "r p = Some b \<Longrightarrow> bv_locks b \<noteq> 0 \<Longrightarrow> bv_writer b \<Longrightarrow>
    registry_step r (Call_unlock p) (Reply_fence ERR_NONE None) r"
| unlock_refused: "\<not> locked r p \<Longrightarrow> registry_step r (Call_unlock p) (Reply_fence ERR_BAD_BUFFER None) r"
| flushed: "e = (if locked r p then ERR_NONE else ERR_BAD_BUFFER) \<Longrightarrow>
    registry_step r (Call_flushLockedBuffer p) (Reply_fence e None) r"
| reread: "e = (if locked r p then ERR_NONE else ERR_BAD_BUFFER) \<Longrightarrow>
    registry_step r (Call_rereadLockedBuffer p) (Reply_error e) r"
| metadata_set: "r p = None \<longrightarrow> e = ERR_BAD_BUFFER \<Longrightarrow> registry_step r (Call_set p t bytes) (Reply_error e) r"
| validated: "r p = None \<longrightarrow> e = ERR_BAD_BUFFER \<or> e = ERR_BAD_VALUE \<Longrightarrow>
    registry_step r (Call_validateBufferSize p desc n) (Reply_error e) r"
| transport_size: "r p = None \<longrightarrow> e = ERR_BAD_BUFFER \<Longrightarrow> registry_step r (Call_getTransportSize p) (Reply_size e x y) r"
| reserved_region: "r p = None \<longrightarrow> e = ERR_BAD_BUFFER \<Longrightarrow> registry_step r (Call_getReservedRegion p) (Reply_region e a n) r"
| dumped_all: "length dumps = card (dom r) \<Longrightarrow> registry_step r Call_dumpBuffers (Reply_dumps ERR_NONE dumps) r"
| descriptor: "registry_step r (Call_createDescriptor desc) (Reply_bytes e bytes) r"
| metadata_got: "registry_step r (Call_get p t) (Reply_bytes e bytes) r"
| metadata_predicted: "registry_step r (Call_getFromBufferDescriptorInfo desc t) (Reply_bytes e bytes) r"
| supported: "registry_step r (Call_isSupported desc) (Reply_supported answers) r"
| listed: "registry_step r Call_listSupportedMetadataTypes (Reply_types ERR_NONE ts) r"
| dumped: "registry_step r (Call_dumpBuffer p) (Reply_dump e dump) r"

inductive registry_run :: "registry \<Rightarrow> mapper_call list \<Rightarrow> mapper_reply list \<Rightarrow> registry \<Rightarrow> bool" where
  run_none: "registry_run r [] [] r"
| run_call: "registry_step r c a r1 \<Longrightarrow> registry_run r1 cs as r2 \<Longrightarrow> registry_run r (c # cs) (a # as) r2"

inductive_cases registry_runE: "registry_run r (c # cs) as r2"
inductive_cases registry_run_nilE: "registry_run r [] as r2"
inductive_cases registry_importE: "registry_step r (Call_importBuffer g) a r1"
inductive_cases registry_freeE: "registry_step r (Call_freeBuffer p) a r1"
inductive_cases registry_unlockE: "registry_step r (Call_unlock p) a r1"
inductive_cases registry_lockE: "registry_step r (Call_lock p usage reg fence) a r1"

text \<open>The registry that a mapper stands for.\<close>

definition view_of_handle :: "hal_env \<Rightarrow> imported_handle \<Rightarrow> buffer_view" where
  "view_of_handle H h = \<lparr>bv_locks = lock_count h, bv_writer = (cpu_write h \<noteq> 0), bv_address = h_base h,
     bv_blob = (get_base (alloc_format h) = fmt_value H FMT_BLOB)\<rparr>"

definition registry_of :: "hal_env \<Rightarrow> 's mapper_state \<Rightarrow> registry" where
  "registry_of H m p = (if p \<in> set (mp_pool m) then map_option (view_of_handle H) (mp_handles m p) else None)"

section \<open>The operations on the registry\<close>

text \<open>
  The lemmas are about a mapper that holds what its buffers need (\<open>mapper_inv\<close>), on a system as it is documented.
\<close>

lemma registry_registered:
  assumes "mapper_inv fds maps pid F M m"
  shows "registry_of H m p = map_option (view_of_handle H) (registered m p)"
proof (cases "p \<in> set (mp_pool m)")
  case True
  then obtain h where "mp_handles m p = Some h" "handle_cast imported (Some h) = Some h"
    using mapper_invD(3) [OF assms] by blast
  then show ?thesis
    using True by (simp add: registry_of_def registered_def pool_get_def)
qed (simp add: registry_of_def registered_def pool_get_def)

lemma registry_dom:
  assumes "mapper_inv fds maps pid F M m"
  shows "dom (registry_of H m) = set (mp_pool m)"
  using mapper_invD(3) [OF assms] by (auto simp: registry_of_def dom_def split: if_splits)

lemma registry_put:
  assumes "p \<in> set (mp_pool m)"
  shows "registry_of H (m\<lparr>mp_handles := (mp_handles m)(p \<mapsto> h), mp_os := s\<rparr>) = (registry_of H m)(p \<mapsto> view_of_handle H h)"
  using assms by (auto simp: registry_of_def)

lemma registry_eq: "mp_pool m' = mp_pool m \<Longrightarrow> mp_handles m' = mp_handles m \<Longrightarrow> registry_of H m' = registry_of H m"
  by (simp add: registry_of_def fun_eq_iff)

lemma registry_os [simp]: "registry_of H (m\<lparr>mp_os := s\<rparr>) = registry_of H m"
  by (simp add: registry_of_def fun_eq_iff)

lemma registry_same:
  assumes "r p = Some b"
  shows "r(p \<mapsto> b) = r"
  using assms by (rule map_upd_triv)

lemma view_simps [simp]:
  "bv_locks (view_of_handle H h) = lock_count h" "bv_writer (view_of_handle H h) = (cpu_write h \<noteq> 0)"
  "bv_address (view_of_handle H h) = h_base h"
  "bv_blob (view_of_handle H h) = (get_base (alloc_format h) = fmt_value H FMT_BLOB)"
  by (simp_all add: view_of_handle_def)

lemma registry_unknown:
  assumes "mapper_inv fds maps pid F M m"
  shows "registry_of H m p = None \<longleftrightarrow> registered m p = None"
  by (simp add: registry_registered [OF assms])

lemma registry_locked:
  assumes "mapper_inv fds maps pid F M m"
  shows "locked (registry_of H m) p \<longleftrightarrow> (case registered m p of None \<Rightarrow> False | Some h \<Rightarrow> lock_count h \<noteq> 0)"
  by (auto simp: locked_def registry_registered [OF assms] split: option.splits)

lemma step_free:
  assumes os: "os_documented (pl_os L) fds maps" and pid: "\<And>s. os_getpid (pl_os L) s = pid"
    and inv: "mapper_inv fds maps pid F M m" and run: "freeBuffer L p m = (e, m')"
  shows "registry_step (registry_of H m) (Call_freeBuffer p) (Reply_error e) (registry_of H m')"
proof (cases "p \<in> set (mp_pool m)")
  case True
  note eff = free_effect [OF os pid inv True run]
  have "registry_of H m' = (registry_of H m)(p := None)"
    using eff(2,3) mapper_invD(1) [OF inv] by (auto simp: registry_of_def fun_eq_iff)
  moreover have "registry_of H m p \<noteq> None"
    using True registry_dom [OF inv, of H] by blast
  ultimately show ?thesis
    using eff(1) registry_step.freed_known [of "registry_of H m" p] by simp
next
  case False
  then have "e = ERR_BAD_BUFFER" "registry_of H m' = registry_of H m" "registry_of H m p = None"
    using run by (auto simp: freeBuffer_def pool_remove_def registry_of_def Let_def)
  then show ?thesis
    by (simp add: registry_step.freed_unknown)
qed

lemma import_failed:
  assumes "importBuffer L g m = Inr ((e, q), m')" and "e \<noteq> ERR_NONE"
  shows "q = None \<and> mp_pool m' = mp_pool m \<and> mp_handles m' = mp_handles m"
  using assms
  by (auto simp: importBuffer_def Let_def c_assert_def split: option.splits prod.splits sum.splits bool.splits if_splits)

lemma step_import:
  assumes os: "os_documented (pl_os L) fds maps" and pid: "\<And>s. os_getpid (pl_os L) s = pid"
    and inv: "mapper_inv fds maps pid F M m" and run: "importBuffer L g m = Inr ((e, q), m')"
  shows "registry_step (registry_of H m) (Call_importBuffer g) (Reply_buffer e q) (registry_of H m')"
proof (cases "e = ERR_NONE")
  case True
  obtain ph :: private_handle_t and p junk ds a s' where q: "q = Some p"
    and m': "m' = m\<lparr>mp_pool := p # mp_pool m, mp_handles := (mp_handles m)(p \<mapsto> (imported_copy ph ds junk)
      \<lparr>attr_base := a, import_pid := os_getpid (pl_os L) s', h_base := nullptr, cpu_write := 0\<rparr>), mp_os := s'\<rparr>"
    by (rule import_success [OF run [unfolded True]]) blast
  let ?h = "(imported_copy ph ds junk)
      \<lparr>attr_base := a, import_pid := os_getpid (pl_os L) s', h_base := nullptr, cpu_write := 0\<rparr>"
  have "p \<notin> set (mp_pool m)"
    using mapper_invD(1) [OF inv_import [OF os pid inv run]] m' by simp
  then have "registry_of H m p = None" "registry_of H m' = (registry_of H m)(p \<mapsto> view_of_handle H ?h)"
    unfolding m' by (auto simp: registry_of_def fun_eq_iff)
  then show ?thesis
    unfolding True q using registry_step.imported_new [of "registry_of H m" p "view_of_handle H ?h" g] by simp
next
  case False
  then show ?thesis
    using import_failed [OF run] registry_eq [of m' m H] registry_step.import_refused [of e "registry_of H m" g] by simp
qed

lemma unlock_handle_view:
  assumes "buffer_sync Sys h TX_NONE s = (h', s')"
  shows "view_of_handle H h' = unlocked_view (view_of_handle H h) \<or> cpu_write h \<noteq> 0 \<and> h' = h"
  using assms
proof (cases rule: sync_unlockE)
  case released
  then have "h_base h' = h_base h" "alloc_format h' = alloc_format h"
    by (metis imported_handle.select_convs imported_handle.surjective imported_handle.update_convs private_handle_t.select_convs)+
  then show ?thesis
    using released(2,3) by (simp add: unlocked_view_def view_of_handle_def Let_def)
qed simp

lemma step_unlock:
  assumes inv: "mapper_inv fds maps pid F M m" and run: "unlock L p m = ((e, f), m')"
  shows "registry_step (registry_of H m) (Call_unlock p) (Reply_fence e f) (registry_of H m')"
proof (cases "registered m p")
  case None
  then have "p \<notin> set (mp_pool m)"
    using registry_dom [OF inv, of H] registry_registered [OF inv, of H p] by (metis domIff option.map_disc_iff)
  then have "e = ERR_BAD_BUFFER" "f = None" "m' = m"
    using run by (simp_all add: unlock_def pool_get_def)
  then show ?thesis
    using None by (simp add: registry_step.unlock_refused registry_locked [OF inv])
next
  case (Some h)
  note at = inv_registered [OF inv Some]
  have cast: "handle_cast imported (Some h) = Some h" and view: "registry_of H m p = Some (view_of_handle H h)"
    using Some registry_registered [OF inv, of H p] by (auto simp: registered_def handle_cast_eq_Some split: option.splits)
  obtain h' s' where sync: "buffer_sync (pl_os L) h TX_NONE (mp_os m) = (h', s')"
    by fastforce
  show ?thesis
  proof (cases "lock_count h = 0")
    case True
    then have "e = ERR_BAD_BUFFER" "f = None" "m' = m\<lparr>mp_handles := (mp_handles m)(p \<mapsto> h), mp_os := mp_os m\<rparr>"
      using run at cast by (auto simp: unlock_def pool_get_def unlockBuffer_def Let_def)
    then show ?thesis
      using registry_put [OF at(1), where H = H and h = h and s = "mp_os m"] registry_same [of "registry_of H m", OF view] True Some
      by (simp add: registry_step.unlock_refused registry_locked [OF inv])
  next
    case False
    have "sint (- 1 :: i32) < 0"
      by code_simp
    then have r: "e = ERR_NONE" "f = None" "m' = m\<lparr>mp_handles := (mp_handles m)(p \<mapsto> h'), mp_os := s'\<rparr>"
      using run at cast False sync by (auto simp: unlock_def pool_get_def unlockBuffer_def mali_gralloc_unlock_def getFenceHandle_def Let_def)
    have after: "registry_of H m' = (registry_of H m)(p \<mapsto> view_of_handle H h')"
      using registry_put [OF at(1)] r(3) by simp
    show ?thesis
      using unlock_handle_view [OF sync, of H] False registry_same [of "registry_of H m", OF view]
        registry_step.unlocked_done [of "registry_of H m" p, OF view] registry_step.unlocked_dirty [of "registry_of H m" p, OF view]
      unfolding r(1,2) after by auto
  qed
qed

lemma registered_cast: "registered m p = Some h \<Longrightarrow> handle_cast imported (Some h) = Some h"
  by (auto simp: registered_def handle_cast_eq_Some split: option.splits)

text \<open>What a lock of a handle answers and does, in the terms of the registry.\<close>

lemma lock_handle_view:
  assumes os: "os_documented Sys fds maps" "mmap_errors Sys"
    and run: "mali_gralloc_lock Sys H h usage l t w ht True s = (status, d, h', s')"
  shows "(status \<noteq> 0 \<longrightarrow> h' = h) \<and>
    (status = 0 \<longrightarrow> (if cpu_access usage
       then \<exists>a. d = Some a \<and> a \<noteq> nullptr \<and> (h_base h = nullptr \<or> h_base h = a) \<and>
         view_of_handle H h' = locked_view usage a (view_of_handle H h)
       else d = None \<and> h' = h))"
proof (cases d)
  case None
  from run [unfolded None] have same: "h' = h"
  proof (cases rule: lock_NoneE)
    case (2 r)
    then show ?thesis
      by (cases rule: map_bufferE [OF 2(1)]) auto
  qed
  have "\<not> cpu_access usage" if "status = 0"
    using run that None by (auto simp: mali_gralloc_lock_def Let_def EINVAL_def split: if_splits prod.splits)
  then show ?thesis
    using same None by auto
next
  case (Some a)
  have cpu: "cpu_access usage" "status = 0"
    using run Some by (auto simp: mali_gralloc_lock_def Let_def split: if_splits prod.splits)
  obtain h1 s1 where map: "mali_map_buffer Sys h s = (0, h1, s1)" and a: "a = h_base h1"
    and sync: "buffer_sync Sys h1 (get_tx_direction usage) s1 = (h', s')" and d: "get_tx_direction usage \<noteq> TX_NONE"
    using run [unfolded Some] by (rule lock_SomeE)
  have base: "a \<noteq> nullptr"
    using map_buffer_base [OF os map] a by simp
  have h1: "h1 = h\<lparr>h_base := a\<rparr>" "h_base h = nullptr \<or> h_base h = a"
    by (cases rule: map_bufferE [OF map]; simp add: a)+
  obtain c where h': "h' = h1\<lparr>lock_count := lock_count h1 + 1, cpu_write := c\<rparr>"
    and c: "c = (if get_tx_direction usage = TX_TO_DEVICE \<or> get_tx_direction usage = TX_BOTH then 1 else 0)"
    using sync d by (cases "get_tx_direction usage") (auto simp: buffer_sync_def Let_def split: prod.splits)
  have "c \<noteq> 0 \<longleftrightarrow> writes usage"
    unfolding c writes_def CPU_WRITE_MASK_eq by (auto simp: get_tx_direction_def Let_def)
  then have "view_of_handle H h' = locked_view usage a (view_of_handle H h)"
    unfolding h' h1(1) by (simp add: view_of_handle_def locked_view_def)
  then show ?thesis
    using Some cpu base h1(2) by simp
qed

text \<open>What a lock through the interface answers and does, for a registered buffer.\<close>

lemma lock_outcome:
  assumes os: "os_documented (pl_os L) fds maps" "mmap_errors (pl_os L)" and reg: "registered m p = Some h"
    and run: "lock L p usage region fence m = ((e, a), m')"
  obtains (refused) s where "e \<noteq> ERR_NONE" "a = nullptr" "m' = m\<lparr>mp_os := s\<rparr> \<or> m' = put_handle m p h s"
  | (cpu) h1 s where "e = ERR_NONE" "cpu_access usage" "\<not> (cpu_write h \<noteq> 0 \<and> writes usage \<and> get_base (alloc_format h) \<noteq> fmt_value (pl_hal L) FMT_BLOB)"
      "a \<noteq> nullptr" "h_base h = nullptr \<or> h_base h = a" "m' = put_handle m p h1 s"
      "view_of_handle (pl_hal L) h1 = locked_view usage a (view_of_handle (pl_hal L) h)"
  | (other) s where "e = ERR_NONE" "\<not> cpu_access usage" "a = nullptr" "m' = put_handle m p h s"
proof (cases "getFenceFd fence")
  case None
  then show ?thesis
    using run reg by (intro refused [of "mp_os m"]) (auto simp: lock_def)
next
  case fd: (Some fd)
  note cast = registered_cast [OF reg]
  let ?busy = "cpu_write h \<noteq> 0 \<and> writes usage \<and> get_base (alloc_format h) \<noteq> fmt_value (pl_hal L) FMT_BLOB"
  obtain l t w ht where region: "region = (l, t, w, ht)"
    using prod_cases4 by blast
  obtain status d h1 s1 where lk: "mali_gralloc_lock (pl_os L) (pl_hal L) h usage l t w ht True (mp_os m) = (status, d, h1, s1)"
    using prod_cases4 by blast
  note eff = lock_handle_view [OF os lk]
  have m': "m' = (if ?busy then put_handle m p h (mp_os m) else put_handle m p h1 s1)"
    and ans: "\<not> ?busy \<Longrightarrow> status = 0 \<Longrightarrow> e = ERR_NONE \<and> a = value_or d nullptr"
      "?busy \<or> status \<noteq> 0 \<Longrightarrow> e \<noteq> ERR_NONE \<and> a = nullptr"
    using run reg fd cast region lk by (auto simp: lock_def lockBuffer_def writes_def put_handle_def split: if_splits)
  show ?thesis
  proof (cases "?busy \<or> status \<noteq> 0")
    case True
    then show ?thesis
      using refused [OF _ _ disjI2, of "if ?busy then mp_os m else s1"] ans(2) m' eff by (cases ?busy) auto
  next
    case False
    then show ?thesis
      using cpu [of h1 s1] other [of s1] ans(1) m' eff by (cases "cpu_access usage") (auto simp: value_or_def)
  qed
qed

lemma step_lock:
  assumes os: "os_documented (pl_os L) fds maps" "mmap_errors (pl_os L)" and inv: "mapper_inv fds maps pid F M m"
    and run: "lock L p usage reg fence m = ((e, a), m')"
  shows "registry_step (registry_of (pl_hal L) m) (Call_lock p usage reg fence) (Reply_address e a) (registry_of (pl_hal L) m')"
    (is "registry_step ?r _ _ ?r'")
proof (cases "registered m p")
  case None
  then have "e = ERR_BAD_BUFFER" "a = nullptr" "m' = m"
    using run by (simp_all add: lock_def)
  then show ?thesis
    by (simp add: registry_step.lock_refused)
next
  case (Some h)
  have view: "?r p = Some (view_of_handle (pl_hal L) h)"
    using Some by (simp add: registry_registered [OF inv])
  have put: "registry_of (pl_hal L) (put_handle m p h1 s) = ?r(p \<mapsto> view_of_handle (pl_hal L) h1)" for h1 s
    unfolding put_handle_def by (rule registry_put [OF inv_registered(1) [OF inv Some]])
  have keep: "registry_of (pl_hal L) (put_handle m p h s) = ?r" for s
    using put registry_same [of ?r, OF view] by simp
  show ?thesis
    using os Some run
  proof (cases rule: lock_outcome)
    case (refused s)
    then have "?r' = ?r"
      using keep by auto
    then show ?thesis
      using refused(1,2) view by (simp add: registry_step.lock_refused)
  next
    case (cpu h1 s)
    then show ?thesis
      using put [of h1 s] registry_step.locked_cpu [of ?r p "view_of_handle (pl_hal L) h" usage a reg fence, OF view cpu(2)] by auto
  next
    case (other s)
    then show ?thesis
      using keep registry_step.locked_other [of ?r p, OF view other(2)] by simp
  qed
qed

section \<open>Sessions\<close>

lemma dumps_count:
  "fold (\<lambda>p r. bind_res r (\<lambda>dumps. bind_res (f p) (\<lambda>dump. Inr (dumps @ [dump])))) ps r = Inr dumps \<Longrightarrow>
   \<exists>ds. r = Inr ds \<and> length dumps = length ds + length ps"
proof (induction ps arbitrary: r)
  case (Cons p ps)
  obtain ds where "bind_res r (\<lambda>dumps. bind_res (f p) (\<lambda>dump. Inr (dumps @ [dump]))) = Inr ds"
    "length dumps = length ds + length ps"
    using Cons.IH [OF Cons.prems [unfolded fold_simps]] by blast
  then show ?case
    by (cases r; cases "f p") auto
qed simp

text \<open>The settings and the process for which a session is described.\<close>

definition documented_settings ::
  "('s, 'p) mapper_settings \<Rightarrow> ('s \<Rightarrow> i32 set) \<Rightarrow> ('s \<Rightarrow> (ptr \<times> u64) set) \<Rightarrow> i32 \<Rightarrow> bool" where
  "documented_settings Z fds maps pid \<longleftrightarrow>
     os_documented (pl_os (set_platform Z)) fds maps \<and> mmap_errors (pl_os (set_platform Z)) \<and>
     memory_documented (pl_mem (set_platform Z)) fds maps \<and> (\<forall>s. os_getpid (pl_os (set_platform Z)) s = pid)"

lemma documented_settingsD:
  assumes "documented_settings Z fds maps pid"
  shows "os_documented (pl_os (set_platform Z)) fds maps" "mmap_errors (pl_os (set_platform Z))"
    "memory_documented (pl_mem (set_platform Z)) fds maps" "\<And>s. os_getpid (pl_os (set_platform Z)) s = pid"
  using assms by (simp_all add: documented_settings_def)

text \<open>The calls that change neither the handles nor the resources.\<close>

definition changes_mapper :: "mapper_call \<Rightarrow> bool" where
  "changes_mapper c \<longleftrightarrow>
     (case c of Call_importBuffer g \<Rightarrow> True | Call_freeBuffer p \<Rightarrow> True | Call_lock p u r f \<Rightarrow> True | Call_unlock p \<Rightarrow> True
      | Call_flushLockedBuffer p \<Rightarrow> True | Call_rereadLockedBuffer p \<Rightarrow> True | Call_set p t b \<Rightarrow> True | _ \<Rightarrow> False)"

lemma step_query:
  assumes inv: "mapper_inv fds maps pid F M (pr_mapper st)" and run: "hidl_call Z c st = Inr (a, st')" and c: "\<not> changes_mapper c"
  shows "pr_mapper st' = pr_mapper st \<and> registry_step (registry_of H (pr_mapper st)) c a (registry_of H (pr_mapper st))"
proof (cases c)
  case Call_dumpBuffers
  then obtain dumps where d: "dumpBuffers (set_platform Z) (set_drm Z) (set_codec Z) (set_sdk33 Z) (pr_mapper st) = Inr (ERR_NONE, dumps)"
    "a = Reply_dumps ERR_NONE dumps" "st' = st"
    using run by (auto simp: dumpBuffers_def)
  then have "length dumps = length (mp_pool (pr_mapper st))"
    by (auto simp: dumpBuffers_def pool_for_each_def dest!: dumps_count)
  then have "length dumps = card (dom (registry_of H (pr_mapper st)))"
    using mapper_invD(1) [OF inv] by (simp add: registry_dom [OF inv] distinct_card)
  then show ?thesis
    using d Call_dumpBuffers by (simp add: registry_step.dumped_all)
next
  case (Call_validateBufferSize p desc n)
  let ?e = "hidl_validateBufferSize (pr_mapper st) p desc n"
  have "registry_of H (pr_mapper st) p = None \<longrightarrow> ?e = ERR_BAD_BUFFER \<or> ?e = ERR_BAD_VALUE"
    by (simp add: registry_unknown [OF inv] hidl_validateBufferSize_def validateBufferSize_def)
  then show ?thesis
    using run registry_step.validated [of "registry_of H (pr_mapper st)" p ?e desc n] Call_validateBufferSize by auto
next
  case (Call_getTransportSize p)
  then obtain e x y where r: "getTransportSize (cfg_ndebug (pl_cfg (set_platform Z))) (pr_mapper st) p = Inr (e, x, y)"
    "a = Reply_size e x y" "st' = st"
    using run by auto
  have "registry_of H (pr_mapper st) p = None \<longrightarrow> e = ERR_BAD_BUFFER"
    using r(1) by (auto simp: getTransportSize_def registry_unknown [OF inv])
  then show ?thesis
    using r(2,3) Call_getTransportSize by (simp add: registry_step.transport_size)
next
  case (Call_getReservedRegion p)
  obtain e x n where r: "getReservedRegion (pr_mapper st) p = (e, x, n)"
    using prod_cases3 by blast
  have "registry_of H (pr_mapper st) p = None \<longrightarrow> e = ERR_BAD_BUFFER"
    using r by (auto simp: getReservedRegion_def registry_unknown [OF inv])
  moreover have "a = Reply_region e x n" "st' = st"
    using run r Call_getReservedRegion by simp_all
  ultimately show ?thesis
    using Call_getReservedRegion by (simp add: registry_step.reserved_region)
next
  case Call_listSupportedMetadataTypes
  then show ?thesis
    using run by (auto simp: listSupportedMetadataTypes_def registry_step.listed)
qed (use run c in \<open>auto simp: changes_mapper_def registry_step.descriptor registry_step.metadata_got registry_step.metadata_predicted
    registry_step.supported registry_step.dumped\<close>)

text \<open>The calls for the cache and the metadata change the system, not the handles.\<close>

lemma step_cache:
  assumes inv: "mapper_inv fds maps pid F M m"
  shows "flushLockedBuffer L p m = (e, m') \<Longrightarrow>
      registry_step (registry_of H m) (Call_flushLockedBuffer p) (Reply_fence e None) (registry_of H m')"
    and "rereadLockedBuffer L p m = (e, m') \<Longrightarrow>
      registry_step (registry_of H m) (Call_rereadLockedBuffer p) (Reply_error e) (registry_of H m')"
    and "set_buffer L G sdk33 p t bytes m = Inr (e, m') \<Longrightarrow>
      registry_step (registry_of H m) (Call_set p t bytes) (Reply_error e) (registry_of H m')"
proof -
  let ?e = "if locked (registry_of H m) p then ERR_NONE else ERR_BAD_BUFFER"
  assume "flushLockedBuffer L p m = (e, m')"
  then have "e = ?e" "registry_of H m' = registry_of H m"
    by (auto simp: flushLockedBuffer_def registry_locked [OF inv] split: option.splits if_splits)
  then show "registry_step (registry_of H m) (Call_flushLockedBuffer p) (Reply_fence e None) (registry_of H m')"
    by (simp add: registry_step.flushed)
next
  let ?e = "if locked (registry_of H m) p then ERR_NONE else ERR_BAD_BUFFER"
  assume "rereadLockedBuffer L p m = (e, m')"
  then have "e = ?e" "registry_of H m' = registry_of H m"
    by (auto simp: rereadLockedBuffer_def registry_locked [OF inv] split: option.splits if_splits)
  then show "registry_step (registry_of H m) (Call_rereadLockedBuffer p) (Reply_error e) (registry_of H m')"
    by (simp add: registry_step.reread)
next
  assume "set_buffer L G sdk33 p t bytes m = Inr (e, m')"
  then have "registry_of H m p = None \<longrightarrow> e = ERR_BAD_BUFFER" "registry_of H m' = registry_of H m"
    by (auto simp: set_buffer_def registry_unknown [OF inv] split: option.splits)
  then show "registry_step (registry_of H m) (Call_set p t bytes) (Reply_error e) (registry_of H m')"
    by (simp add: registry_step.metadata_set)
qed

lemma step_call:
  assumes Z: "documented_settings Z fds maps pid" and inv: "mapper_inv fds maps pid F M (pr_mapper st)"
    and run: "hidl_call Z c st = Inr (a, st')"
  shows "mapper_inv fds maps pid F M (pr_mapper st') \<and>
    registry_step (registry_of (pl_hal (set_platform Z)) (pr_mapper st)) c a (registry_of (pl_hal (set_platform Z)) (pr_mapper st'))"
proof (cases "changes_mapper c")
  case False
  then show ?thesis
    using step_query [OF inv run, of "pl_hal (set_platform Z)"] inv by simp
next
  case True
  note D = documented_settingsD [OF Z]
  show ?thesis
  proof (cases c)
    case (Call_importBuffer g)
    then show ?thesis
      using run inv_import [OF D(1,4) inv] step_import [OF D(1,4) inv] by auto
  next
    case (Call_freeBuffer p)
    then show ?thesis
      using run inv_free [OF D(1,4) inv] step_free [OF D(1,4) inv] by (auto split: prod.splits)
  next
    case (Call_lock p usage reg fence)
    then show ?thesis
      using run inv_lock [OF D(1) inv, where p = p and usage = usage and reg = reg and fence = fence]
        step_lock [OF D(1,2) inv, where p = p and usage = usage and reg = reg and fence = fence] by (auto split: prod.splits)
  next
    case (Call_unlock p)
    then show ?thesis
      using run inv_unlock [OF D(1) inv] step_unlock [OF inv] by (auto split: prod.splits)
  next
    case (Call_flushLockedBuffer p)
    then show ?thesis
      using run inv_sync(1) [OF D(1) inv] step_cache(1) [OF inv] by (auto split: prod.splits)
  next
    case (Call_rereadLockedBuffer p)
    then show ?thesis
      using run inv_sync(2) [OF D(1) inv] step_cache(2) [OF inv] by (auto split: prod.splits)
  next
    case (Call_set p t bytes)
    then show ?thesis
      using run inv_set [OF D(3) inv] step_cache(3) [OF inv] by auto
  qed (use True in \<open>simp_all add: changes_mapper_def\<close>)
qed

lemma session_refines:
  assumes Z: "documented_settings Z fds maps pid"
  shows "mapper_inv fds maps pid F M (pr_mapper st) \<Longrightarrow> hidl_session Z cs st = Inr (as, st') \<Longrightarrow>
    mapper_inv fds maps pid F M (pr_mapper st') \<and>
    registry_run (registry_of (pl_hal (set_platform Z)) (pr_mapper st)) cs as (registry_of (pl_hal (set_platform Z)) (pr_mapper st'))"
proof (induction cs arbitrary: st as)
  case Nil
  then show ?case
    by (auto simp: registry_run.run_none)
next
  case (Cons c cs)
  then obtain a st1 as1 where "hidl_call Z c st = Inr (a, st1)" "hidl_session Z cs st1 = Inr (as1, st')" "as = a # as1"
    by auto
  then show ?case
    using step_call [OF Z Cons.prems(1)] Cons.IH registry_run.run_call by blast
qed

text \<open>C2: A session of the mapper refines the registry of buffers. In a process that starts without buffers, every sequence of
  calls of the interface, with the replies that were given, is a run of the registry, which says for every method
  what it may answer and what it changes; and when the registry ends empty, the descriptors and the mappings of the process are those of
  the start.\<close>

theorem hidl_refines_registry:
  assumes "documented_settings Z fds maps pid" and "mp_pool (pr_mapper st) = []" and "- 1 \<notin> fds (mp_os (pr_mapper st))"
    and "hidl_session Z cs st = Inr (as, st')"
  shows "registry_run (\<lambda>_. None) cs as (registry_of (pl_hal (set_platform Z)) (pr_mapper st')) \<and>
    (registry_of (pl_hal (set_platform Z)) (pr_mapper st') = (\<lambda>_. None) \<longrightarrow>
      fds (mp_os (pr_mapper st')) = fds (mp_os (pr_mapper st)) \<and> maps (mp_os (pr_mapper st')) = maps (mp_os (pr_mapper st)))"
proof -
  let ?F = "fds (mp_os (pr_mapper st))" and ?M = "maps (mp_os (pr_mapper st))"
  have "mapper_inv fds maps pid ?F ?M (pr_mapper st)"
    using assms(2,3) by (simp add: mapper_inv_def owns_none)
  note run = session_refines [OF assms(1) this assms(4)]
  have start: "registry_of (pl_hal (set_platform Z)) (pr_mapper st) = (\<lambda>_. None)"
    using assms(2) by (simp add: registry_of_def fun_eq_iff)
  have "fds (mp_os (pr_mapper st')) = ?F \<and> maps (mp_os (pr_mapper st')) = ?M"
    if "registry_of (pl_hal (set_platform Z)) (pr_mapper st') = (\<lambda>_. None)"
  proof -
    have "set (mp_pool (pr_mapper st')) = {}"
      using registry_dom [OF conjunct1 [OF run]] that by (metis dom_empty)
    then show ?thesis
      using mapper_invD(4,5) [OF conjunct1 [OF run]] by (simp add: owns_none)
  qed
  then show ?thesis
    using run start by simp
qed

section \<open>A session\<close>

text \<open>A client imports a buffer and frees it twice.\<close>

definition sample_settings :: "(meta_sim, string \<rightharpoonup> string) mapper_settings" where
  "sample_settings = \<lparr>set_platform = mapper_platform, set_drm = sample_header, set_codec = sample_gralloc4,
     set_sdk33 = False, set_aidl = False\<rparr>"

lemma sample_settings_documented: "documented_settings sample_settings sim_fds sim_maps 42"
proof -
  have "mmap_errors (sim_os\<lparr>os_getpid := (\<lambda>_. 42)\<rparr>)"
    by (auto simp: mmap_errors_def sim_os_def sim_mmap_def Let_def split: sum.splits prod.splits)
  then show ?thesis
    using mapper_platform_documented sim_memory_documented by (simp add: documented_settings_def sample_settings_def)
qed

theorem hidl_refines_registry_witness:
  "\<exists>st. hidl_session sample_settings [Call_importBuffer (Some sample_handle), Call_freeBuffer 24, Call_freeBuffer 24]
       \<lparr>pr_mapper = mapper_start, pr_platform = rk_fresh\<rparr> =
     Inr ([Reply_buffer ERR_NONE (Some 24), Reply_error ERR_NONE, Reply_error ERR_BAD_BUFFER], st) \<and>
   sim_fds (mp_os (pr_mapper st)) = {} \<and> sim_maps (mp_os (pr_mapper st)) = {}"
proof -
  let ?st = "\<lparr>pr_mapper = mapper_start, pr_platform = rk_fresh\<rparr>"
  let ?cs = "[Call_importBuffer (Some sample_handle), Call_freeBuffer 24, Call_freeBuffer 24]"
  obtain m1 where m1: "importBuffer mapper_platform (Some sample_handle) mapper_start = Inr ((ERR_NONE, Some 24), m1)"
    by (rule sample_import [OF sample_handle_raw])
  obtain e2 m2 where m2: "freeBuffer mapper_platform 24 m1 = (e2, m2)"
    by fastforce
  obtain e3 m3 where m3: "freeBuffer mapper_platform 24 m2 = (e3, m3)"
    by fastforce
  let ?st3 = "\<lparr>pr_mapper = m3, pr_platform = rk_fresh\<rparr>"
  have run: "hidl_session sample_settings ?cs ?st =
      Inr ([Reply_buffer ERR_NONE (Some 24), Reply_error e2, Reply_error e3], ?st3)"
    using m1 m2 m3 by (simp add: sample_settings_def)
  have start: "mp_pool (pr_mapper ?st) = []" "- 1 \<notin> sim_fds (mp_os (pr_mapper ?st))"
    "sim_fds (mp_os mapper_start) = {}" "sim_maps (mp_os mapper_start) = {}"
    by (simp_all add: mapper_start_def)
  note refines = hidl_refines_registry [OF sample_settings_documented start(1,2) run]
  let ?r = "registry_of (pl_hal (set_platform sample_settings)) m3"
  obtain b where "registry_run ((\<lambda>_. None)(24 \<mapsto> b)) [Call_freeBuffer 24, Call_freeBuffer 24] [Reply_error e2, Reply_error e3] ?r"
    by (rule registry_runE [OF conjunct1 [OF refines]]) (auto elim!: registry_importE)
  then have "registry_run (\<lambda>_. None) [Call_freeBuffer 24] [Reply_error e3] ?r" "e2 = ERR_NONE"
    by - (erule registry_runE, auto elim!: registry_freeE)+
  then have "e3 = ERR_BAD_BUFFER" "?r = (\<lambda>_. None)"
    by (auto elim!: registry_runE registry_freeE registry_run_nilE)
  then show ?thesis
    using run refines start \<open>e2 = ERR_NONE\<close> by auto
qed

end
