(* ===== verification/Spec2Isabelle.thy ===== *)
theory Spec2Isabelle
  imports Drm_Utils Shared_Metadata Plane_Fds Buffer_Lifecycle Format_Wrappers Alloc_Tiles Thread_Locks Custom_Log Handle_Words Hidl_Mapper
begin

text \<open>
  A verification library for libgralloc_bifrost, the graphics memory allocator of Android devices with a
  Rockchip SoC and an Arm Bifrost GPU. It models the C++ code under src/ and proves what makes it correct.

  \<^bold>\<open>The program.\<close> A client describes a buffer: width, height, layers, a pixel format and a set of usage
  bits. The allocator service selects the format to allocate (which compression the producers and consumers
  agree on), computes the size and the layout of the planes, takes memory from a DMA heap, adds a
  region of shared metadata and answers native handles. The mapper, a library in the process of every
  client, imports such handles (duplicating their descriptors and mapping the metadata), locks and unlocks buffers
  for the CPU with the cache maintenance that this needs, and reads and writes items of metadata. The display composer
  asks the mapper for the descriptors of the planes.

  \<^bold>\<open>Theories, in the order of the imports.\<close>
  \<^item> \<open>Gralloc_Prelude\<close>: machine integers, results that may abort, \<open>GRALLOC_ALIGN\<close> (helper_functions.h).
  \<^item> \<open>Usages\<close> (usages.h), \<open>Pixel_Formats\<close> and \<open>Format_Wrappers\<close> (include/gralloc/formats.h),
    \<open>Internal_Format\<close> (core/internal_format.h, .cpp), \<open>Format_Info\<close> (core/format_info.cpp): usage bits, formats with
    modifier bits and their packing, and both format tables row by row.
  \<^item> \<open>Capabilities\<close> (capabilities/): which feature which IP supports, searched in a list of parsed files.
  \<^item> \<open>Alloc_Type\<close>, \<open>Alloc_Size\<close>, \<open>Alloc_Layout\<close> (core/buffer_allocation.cpp): the allocation type, the sizes of planes
    and the layout of a buffer; \<open>Alloc_Layout\<close> holds the properties of \<open>calc_allocation_size\<close>, \<open>Alloc_Tiles\<close>
    those of the AFRC and block-linear layouts.
  \<^item> \<open>Format_Select\<close>, \<open>Format_Choice\<close>, \<open>Rk_Select\<close> (core/formats.cpp): support checks, the graded search for the best
    format, private formats, and the selection that the Rockchip builds use with its cached platform state.
  \<^item> \<open>Alloc_Derive\<close> (core/buffer_allocation.cpp, core/buffer_descriptor.h): \<open>mali_gralloc_derive_format_and_size\<close>.
  \<^item> \<open>Platform\<close>: the operating system as a parameter; \<open>Buffer_Handle\<close> (core/buffer.h), \<open>Dma_Heaps\<close>
    (allocator/), \<open>Alloc_Buffer\<close> (\<open>mali_gralloc_buffer_allocate\<close>), \<open>Buffer_Access\<close> (core/buffer_access.cpp),
    \<open>Handle_Pool\<close> (idl_common/mapper/registered_handle_pool.cpp), \<open>Drm_Utils\<close> (core/drm_utils.cpp, mali_fourcc.h).
  \<^item> \<open>Shared_Metadata\<close> and \<open>Descriptor_Codec\<close> (idl_common/gralloc_shared/): the structure in the shared region, and the
    description of a buffer as bytes.
  \<^item> \<open>Idl_Allocator\<close> (idl_common/allocator/allocator.cpp, 4.x/allocator, aidl/1.x): the service and its front ends.
  \<^item> \<open>Mapper_Metadata\<close> and \<open>Mapper\<close> (idl_common/mapper/, 4.x/mapper): the mapper and its HIDL front end.
  \<^item> \<open>Hidl_Mapper\<close>: all methods of \<open>GrallocMapper\<close> (4.x/mapper/mapper.cpp) as calls with replies, sessions of them, and the abstract
    registry of buffers that a client sees.
  \<^item> \<open>Buffer_Lifecycle\<close>: the way of a buffer from the service to a client.
  \<^item> \<open>Mapper_Threads\<close>, \<open>Thread_Sharing\<close>, \<open>Thread_Locks\<close>: lock, unlock and freeBuffer of one buffer by any number of threads,
    cut at every access to what they share (idl_common/mapper/mapper.cpp, core/buffer_access.cpp).
  \<^item> \<open>Handle_Words\<close>: handles as words in memory (core/buffer.h, include/gralloc/testing.h); \<open>Custom_Log\<close>: dumps of
    memory and the text of a format (custom_log.h, core/internal_format.h).
  \<^item> \<open>Plane_Fds\<close> (src/drm_hwcomposer/BufferInfoMapperMetadata.cpp): the composer's end of the plane descriptors.

  \<^bold>\<open>State and effects.\<close> Structures are records with the fields of the code, enumerations are datatypes, C++ integers
  are words of their width (LP64), and the sign is chosen by the operation, as in the code. Operations that
  may stop the process or have undefined behaviour return \<open>fault + 'a\<close> (\<open>'a res\<close>): a failed \<open>CHECK\<close> or \<open>assert\<close>
  (the latter only where \<open>NDEBUG\<close> is off, the parameter \<open>nd\<close>), a division by zero, an access out of bounds or through a
  null pointer. Error codes of the code are values of the result. Global state is passed explicitly: the cached
  platform and framebuffer size (\<open>rk_state\<close>), the counter of identifiers (\<open>gralloc_state\<close>), the registered handles and the
  handles in memory (\<open>mapper_state\<close>). The system is a state of its own, read and changed through the calls of
  \<open>'s os\<close>; what the code relies on is \<open>os_documented\<close>, in terms of the open descriptors and the mappings.
  A simulation of these calls (\<open>sim_os\<close>) satisfies it and runs the witnesses.

  \<^bold>\<open>Parameters.\<close> Code that is not in the repository: the constants of the Android headers (\<open>hal_env\<close>, \<open>dataspace_env\<close>,
  \<open>drm_header\<close>, \<open>heap_names\<close>), the property service, the parsed capability files, the codec of
  libgralloctypes (\<open>gralloc4\<close>, with the round trip of its decoders as \<open>codec_documented\<close>), the memory behind a mapping
  (\<open>metadata_memory\<close>). Build settings are the record \<open>build_config\<close>; the builds of the repository are \<open>rk_build\<close> and its like.

  \<^bold>\<open>What is proved.\<close> Layout: planes never overlap and are covered by the size, every line of an uncompressed buffer fits its
  stride, AFBC planes hold whole superblocks and one header for each, AFRC and block-linear planes are exactly their tiles, and all layers have their share of the
  size. Selection: what is selected can be allocated, is permitted and, in the search, is of the best grade; the exclusions
  of the Rockchip selection hold. Resources: an allocation, a HIDL call, and any run of the
  mapper leave exactly the descriptors and mappings that their handles need, and everything can be freed again; the
  proofs share the ownership lemmas of \<open>Mapper\<close> and \<open>allocate_resources\<close>. Interface: every session of the mapper is a run of the
  registry, which gives for each method its possible replies and its effect. Access: a lock lies inside the buffer,
  buffers are mapped at most once, locks are counted, writers exclude each other. Metadata: items are independent
  registers, are read back as set, and those predicted for a description are those of the buffer. Codecs and
  encodings: round trips and exact outcomes for the descriptor, the plane descriptors, private formats, DRM modifiers and
  fourccs. Interfaces are locales that the theories of their providers interpret: the flags and coding size
  fields of a format, the oracle of capabilities, the registry of handles, an item of metadata. The properties of kind
  error state defects of the code exactly.

  \<^bold>\<open>Threads.\<close> \<open>Mapper\<close> has every operation as one step; \<open>Mapper_Threads\<close> has a position in the code for each thread and a
  schedule that says which thread moves next. The operations of the pool and those under \<open>g_map_mutex\<close> are one step each;
  every other access to a shared field is a step of its own, is atomic and is in the order of the program (C++ promises
  this of \<open>lock_count\<close>, not of \<open>cpu_write\<close>). A thread that touches a deleted handle is \<open>Undefined\<close>. \<open>undisturbed_thread\<close> ties the
  two models together. A buffer is freed once, mapped once, and its locks are counted under every schedule; the exclusion
  of writers and the life of a handle that is in use hold only without interference, and the properties of kind error
  give the schedules that break them.

  \<^bold>\<open>Bounds.\<close> Loops are structural recursions over their counters or lists; there is no fuel, except for the greatest
  common divisor and the presence loop, whose recursions are proved to end. Hypotheses that bound sizes (8192 pixels, 2 GiB
  for a plane) stand in the statements; they keep 32-bit sums from wrapping.

  \<^bold>\<open>Not modelled.\<close> The macros that only pass a format string to the log (custom_log.h, include/log.h), and those of custom_log.h
  that jump to a label of their caller, which nothing in the repository uses; traces; threads beyond the
  operations named above; the service processes and the registration of the interfaces; the
  generated interface stubs; build files. Time and the
  order in which other processes act on a shared region are not modelled either.
\<close>

end
